(* ===== verification/JS_Prelude.thy ===== *)
theory JS_Prelude
  imports Main "HOL-Library.Monad_Syntax"
begin

text \<open>
  The JavaScript values and operators that the FogFlow sources use, shared by every component
  theory.

  A value is a \<open>jval\<close>. An object is the list of its own enumerable properties, kept in the
  order in which \<open>for (k in o)\<close>, \<open>Object.keys\<close>, \<open>Object.values\<close> and
  \<open>JSON.stringify\<close> visit them: array-index keys first, in ascending numerical order, then
  the other keys in the order of their insertion.  \<open>JRef\<close> is a reference to a cell of an
  explicit store; it is used by the theories of the components in which two paths lead to the
  same mutable object.  \<open>JFun\<close> stands for a built-in function found on a prototype.
  Numbers are the integers; fractional numbers are carried nowhere by the modelled code except
  unexamined.  An expression that may throw has a result of type \<open>'a option\<close>, with
  \<open>None\<close> for the exception; \<open>undefined\<close> is the ordinary value \<open>JUndef\<close>.
\<close>

named_theorems js_defs \<open>definitions of the value operations, for evaluating concrete programs\<close>
named_theorems js_access \<open>rewrite rules for property access on objects\<close>

section \<open>Values\<close>

datatype jval =
    JUndef
  | JNull
  | JBool bool
  | JNum int
  | JStr string
  | JFun string
  | JArr "jval list"
  | JObj "(string \<times> jval) list"
  | JRef nat

type_synonym props = "(string \<times> jval) list"

fun is_object :: "jval \<Rightarrow> bool" where
  "is_object (JObj ps) = True"
| "is_object v = False"

text \<open>\<open>v == null\<close>, which is also true of \<open>undefined\<close>.\<close>

fun is_nullish :: "jval \<Rightarrow> bool" where
  "is_nullish JUndef = True"
| "is_nullish JNull = True"
| "is_nullish v = False"

text \<open>The conversion of a value to a boolean by \<open>if\<close>, \<open>&&\<close>, \<open>||\<close> and \<open>!\<close>.\<close>

fun truthy :: "jval \<Rightarrow> bool" where
  "truthy JUndef = False"
| "truthy JNull = False"
| "truthy (JBool b) = b"
| "truthy (JNum n) = (n \<noteq> 0)"
| "truthy (JStr s) = (s \<noteq> [])"
| "truthy v = True"

section \<open>Strings and numbers\<close>

definition digit_char :: "nat \<Rightarrow> char" where
  "digit_char d = char_of (48 + d)"

fun nat_str :: "nat \<Rightarrow> string" where
  "nat_str n = (if n < 10 then [digit_char n] else nat_str (n div 10) @ [digit_char (n mod 10)])"

declare nat_str.simps [simp del]

definition int_str :: "int \<Rightarrow> string" where
  "int_str i = (if i < 0 then CHR ''-'' # nat_str (nat (- i)) else nat_str (nat i))"

definition is_digit :: "char \<Rightarrow> bool" where
  "is_digit c = (48 \<le> (of_char c :: nat) \<and> (of_char c :: nat) \<le> 57)"

definition parse_nat :: "string \<Rightarrow> nat" where
  "parse_nat s = foldl (\<lambda>n c. 10 * n + (of_char c - 48)) 0 s"

text \<open>A canonical array index: the decimal string of a number below \<open>2\<^sup>3\<^sup>2 - 1\<close>.\<close>

definition is_array_index :: "string \<Rightarrow> bool" where
  "is_array_index s =
     (s \<noteq> [] \<and> list_all is_digit s \<and> (hd s \<noteq> CHR ''0'' \<or> length s = 1) \<and> parse_nat s < 4294967295)"

definition is_space :: "char \<Rightarrow> bool" where
  "is_space c = (c = CHR '' '' \<or> (9 \<le> (of_char c :: nat) \<and> (of_char c :: nat) \<le> 13))"

text \<open>\<open>String.prototype.trim\<close>.\<close>

definition trim :: "string \<Rightarrow> string" where
  "trim s = rev (dropWhile is_space (rev (dropWhile is_space s)))"

text \<open>
  The number a string denotes under \<open>==\<close> against a number: blank is 0, a decimal integer
  with an optional sign is itself; \<open>None\<close> is \<open>NaN\<close> (or a literal that denotes no
  integer written in this form).
\<close>

definition to_number :: "string \<Rightarrow> int option" where
  "to_number s =
     (case trim s of
        [] \<Rightarrow> Some 0
      | c # cs \<Rightarrow>
          (if c = CHR ''-'' then (if cs \<noteq> [] \<and> list_all is_digit cs then Some (- int (parse_nat cs)) else None)
           else if c = CHR ''+'' then (if cs \<noteq> [] \<and> list_all is_digit cs then Some (int (parse_nat cs)) else None)
           else if list_all is_digit (c # cs) then Some (int (parse_nat (c # cs))) else None))"

text \<open>\<open>String.prototype.toUpperCase\<close> on the ASCII letters, and \<open>String.prototype.includes\<close>.\<close>

definition upper_char :: "char \<Rightarrow> char" where
  "upper_char c =
     (if 97 \<le> (of_char c :: nat) \<and> (of_char c :: nat) \<le> 122 then char_of ((of_char c :: nat) - 32) else c)"

definition to_upper :: "string \<Rightarrow> string" where
  "to_upper s = map upper_char s"

fun is_prefix :: "string \<Rightarrow> string \<Rightarrow> bool" where
  "is_prefix [] s = True"
| "is_prefix (c # cs) [] = False"
| "is_prefix (c # cs) (d # ds) = (c = d \<and> is_prefix cs ds)"

fun str_includes :: "string \<Rightarrow> string \<Rightarrow> bool" where
  "str_includes [] pat = (pat = [])"
| "str_includes (c # cs) pat = (is_prefix pat (c # cs) \<or> str_includes cs pat)"

fun intersperse_comma :: "string list \<Rightarrow> string" where
  "intersperse_comma [] = []"
| "intersperse_comma [s] = s"
| "intersperse_comma (s # t # ss) = s @ '','' @ intersperse_comma (t # ss)"

text \<open>The conversion of a value to a string: template and key positions, and \<open>+\<close> with a string.\<close>

fun js_str :: "jval \<Rightarrow> string" where
  "js_str JUndef = ''undefined''"
| "js_str JNull = ''null''"
| "js_str (JBool b) = (if b then ''true'' else ''false'')"
| "js_str (JNum n) = int_str n"
| "js_str (JStr s) = s"
| "js_str (JFun f) = ''function '' @ f @ ''() { [native code] }''"
| "js_str (JArr xs) = intersperse_comma (map (\<lambda>x. if is_nullish x then [] else js_str x) xs)"
| "js_str (JObj ps) = ''[object Object]''"
| "js_str (JRef a) = ''[object Object]''"

section \<open>Loose equality\<close>

definition is_prim :: "jval \<Rightarrow> bool" where
  "is_prim v = (case v of JFun f \<Rightarrow> False | JArr xs \<Rightarrow> False | JObj ps \<Rightarrow> False | JRef a \<Rightarrow> False | _ \<Rightarrow> True)"

fun bool_num :: "jval \<Rightarrow> jval" where
  "bool_num (JBool b) = JNum (if b then 1 else 0)"
| "bool_num v = v"

text \<open>\<open>==\<close> on two primitive values neither of which is a boolean, or which are both booleans.\<close>

fun prim_eq :: "jval \<Rightarrow> jval \<Rightarrow> bool" where
  "prim_eq (JNum m) (JStr s) = (to_number s = Some m)"
| "prim_eq (JStr s) (JNum m) = (to_number s = Some m)"
| "prim_eq v w = (is_nullish v \<and> is_nullish w \<or> v = w)"

text \<open>
  \<open>v == w\<close>. Two objects are equal when they are the same object: two references are compared
  by address, and two values that are not in the store are distinct objects.
\<close>

definition js_eq :: "jval \<Rightarrow> jval \<Rightarrow> bool" where
  "js_eq v w =
     (if is_prim v \<and> is_prim w then prim_eq (bool_num v) (bool_num w)
      else if is_nullish v \<or> is_nullish w then False
      else if is_prim v then prim_eq (bool_num v) (JStr (js_str w))
      else if is_prim w then prim_eq (JStr (js_str v)) (bool_num w)
      else (case (v, w) of (JRef a, JRef b) \<Rightarrow> a = b | (JFun f, JFun g) \<Rightarrow> f = g | _ \<Rightarrow> False))"

section \<open>Objects\<close>

text \<open>The names every object finds on \<open>Object.prototype\<close>, and arrays on \<open>Array.prototype\<close>.\<close>

definition object_proto :: "string list" where
  "object_proto = [''constructor'', ''toString'', ''valueOf'', ''hasOwnProperty'', ''isPrototypeOf'',
     ''propertyIsEnumerable'', ''toLocaleString'', ''__proto__'', ''__defineGetter__'',
     ''__defineSetter__'', ''__lookupGetter__'', ''__lookupSetter__'']"

definition array_proto :: "string list" where
  "array_proto = object_proto @ [''at'', ''concat'', ''copyWithin'', ''entries'', ''every'', ''fill'', ''filter'',
     ''find'', ''findIndex'', ''flat'', ''flatMap'', ''forEach'', ''includes'', ''indexOf'', ''join'', ''keys'',
     ''lastIndexOf'', ''map'', ''pop'', ''push'', ''reduce'', ''reduceRight'', ''reverse'', ''shift'', ''slice'',
     ''some'', ''sort'', ''splice'', ''unshift'', ''values'']"

text \<open>\<open>key_before k l\<close>: property \<open>k\<close> is enumerated before the later inserted property \<open>l\<close>.\<close>

definition key_before :: "string \<Rightarrow> string \<Rightarrow> bool" where
  "key_before k l =
     (if is_array_index l then is_array_index k \<and> parse_nat k \<le> parse_nat l else True)"

fun canon_ins :: "string \<Rightarrow> jval \<Rightarrow> props \<Rightarrow> props" where
  "canon_ins k v [] = [(k, v)]"
| "canon_ins k v ((l, w) # ps) =
     (if key_before l k then (l, w) # canon_ins k v ps else (k, v) # (l, w) # ps)"

fun upd_own :: "string \<Rightarrow> jval \<Rightarrow> props \<Rightarrow> props" where
  "upd_own k v [] = []"
| "upd_own k v ((l, w) # ps) = (if l = k then (l, v) # ps else (l, w) # upd_own k v ps)"

text \<open>
  \<open>o[k] = v\<close>, \<open>delete o[k]\<close>, \<open>o.hasOwnProperty(k)\<close> and \<open>k in o\<close>. Assigning to
  \<open>__proto__\<close> sets the prototype and leaves the own properties as they are.
\<close>

definition obj_put :: "string \<Rightarrow> jval \<Rightarrow> props \<Rightarrow> props" where
  "obj_put k v ps =
     (if k = ''__proto__'' then ps
      else if k \<in> fst ` set ps then upd_own k v ps
      else canon_ins k v ps)"

definition obj_del :: "string \<Rightarrow> props \<Rightarrow> props" where
  "obj_del k ps = filter (\<lambda>(l, w). l \<noteq> k) ps"

definition has_own :: "props \<Rightarrow> string \<Rightarrow> bool" where
  "has_own ps k = (k \<in> fst ` set ps)"

definition obj_in :: "props \<Rightarrow> string \<Rightarrow> bool" where
  "obj_in ps k = (has_own ps k \<or> k \<in> set object_proto)"

definition obj_get :: "props \<Rightarrow> string \<Rightarrow> jval" where
  "obj_get ps k =
     (case map_of ps k of Some v \<Rightarrow> v | None \<Rightarrow> if k \<in> set object_proto then JFun k else JUndef)"

text \<open>An object literal or a sequence of property assignments to a fresh object.\<close>

definition obj_of :: "(string \<times> jval) list \<Rightarrow> props" where
  "obj_of kvs = fold (\<lambda>(k, v) ps. obj_put k v ps) kvs []"

text \<open>\<open>v.k\<close>: reading a property of \<open>undefined\<close> or \<open>null\<close> throws.\<close>

fun jget :: "jval \<Rightarrow> string \<Rightarrow> jval option" where
  "jget JUndef k = None"
| "jget JNull k = None"
| "jget (JObj ps) k = Some (obj_get ps k)"
| "jget (JArr xs) k =
     Some (if k = ''length'' then JNum (int (length xs))
           else case List.find (\<lambda>i. nat_str i = k) [0..<length xs] of
                  Some i \<Rightarrow> xs ! i
                | None \<Rightarrow> if k \<in> set array_proto then JFun k else JUndef)"
| "jget (JStr s) k =
     Some (if k = ''length'' then JNum (int (length s))
           else case List.find (\<lambda>i. nat_str i = k) [0..<length s] of
                  Some i \<Rightarrow> JStr [s ! i]
                | None \<Rightarrow> if k \<in> set object_proto then JFun k else JUndef)"
| "jget v k = Some (if k \<in> set object_proto then JFun k else JUndef)"

text \<open>
  \<open>for (i = 0; i < v.length; i++)\<close>: the elements an index loop over \<open>v\<close> visits. A value with
  no \<open>length\<close> gives no iteration; \<open>undefined\<close> and \<open>null\<close> throw. \<open>loop_bound\<close> is the number of
  iterations that the comparison of the index with a given \<open>length\<close> allows.
\<close>

definition loop_bound :: "jval \<Rightarrow> nat" where
  "loop_bound v =
     (case v of JUndef \<Rightarrow> 0 | JNull \<Rightarrow> 0 | JNum n \<Rightarrow> nat n | JBool b \<Rightarrow> (if b then 1 else 0)
      | _ \<Rightarrow> (case to_number (js_str v) of Some n \<Rightarrow> nat n | None \<Rightarrow> 0))"

fun jelems :: "jval \<Rightarrow> jval list option" where
  "jelems JUndef = None"
| "jelems JNull = None"
| "jelems (JArr xs) = Some xs"
| "jelems (JStr s) = Some (map (\<lambda>c. JStr [c]) s)"
| "jelems (JObj ps) = Some (map (\<lambda>i. obj_get ps (nat_str i)) [0..<loop_bound (obj_get ps ''length'')])"
| "jelems v = Some []"

text \<open>The same loop with the guard \<open>v && i < v.length\<close>.\<close>

definition jelems_if :: "jval \<Rightarrow> jval list option" where
  "jelems_if v = (if truthy v then jelems v else Some [])"

text \<open>The properties a \<open>for (k in v)\<close> loop visits, with their values.\<close>

fun jprops :: "jval \<Rightarrow> props" where
  "jprops (JObj ps) = ps"
| "jprops (JArr xs) = map (\<lambda>i. (nat_str i, xs ! i)) [0..<length xs]"
| "jprops (JStr s) = map (\<lambda>i. (nat_str i, JStr [s ! i])) [0..<length s]"
| "jprops v = []"

lemmas [js_defs] = is_prim_def js_eq_def object_proto_def array_proto_def key_before_def obj_put_def
  obj_del_def has_own_def obj_in_def obj_get_def obj_of_def is_array_index_def is_digit_def parse_nat_def


section \<open>Laws of values\<close>

lemma js_eq_JStr: "js_eq (JStr s) (JStr t) = (s = t)"
  by (simp add: js_eq_def is_prim_def)

lemma js_eq_JNum: "js_eq (JNum m) (JNum n) = (m = n)"
  by (simp add: js_eq_def is_prim_def)

text \<open>The decimal representation of a number: it is read back as the number, and no property name of the language.\<close>

lemma of_char_digit_char: "d < 10 \<Longrightarrow> (of_char (digit_char d) :: nat) = 48 + d"
  by (simp add: digit_char_def)

lemma parse_nat_snoc: "parse_nat (s @ [c]) = 10 * parse_nat s + (of_char c - 48)"
  by (simp add: parse_nat_def)

lemma parse_nat_str: "parse_nat (nat_str n) = n"
proof (induction n rule: nat_str.induct)
  case (1 n)
  show ?case
  proof (cases "n < 10")
    case True
    then show ?thesis by (simp add: nat_str.simps parse_nat_def of_char_digit_char)
  next
    case False
    then have "nat_str n = nat_str (n div 10) @ [digit_char (n mod 10)]" by (subst nat_str.simps) simp
    with 1 False show ?thesis by (simp add: parse_nat_snoc of_char_digit_char)
  qed
qed

lemma nat_str_eq_iff: "nat_str m = nat_str n \<longleftrightarrow> m = n"
  by (metis parse_nat_str)

lemma nat_str_digits: "nat_str n \<noteq> [] \<and> list_all is_digit (nat_str n)"
proof (induction n rule: nat_str.induct)
  case (1 n)
  show ?case
  proof (cases "n < 10")
    case True
    then show ?thesis by (subst (1 2) nat_str.simps) (simp add: is_digit_def of_char_digit_char)
  next
    case False
    then have "nat_str n = nat_str (n div 10) @ [digit_char (n mod 10)]" by (subst nat_str.simps) simp
    with 1 False show ?thesis by (simp add: is_digit_def of_char_digit_char)
  qed
qed

lemma nat_str_first: "is_digit (hd (nat_str n))"
  using nat_str_digits [of n] by (cases "nat_str n") auto

lemma array_proto_first: "k \<in> set array_proto \<Longrightarrow> \<not> is_digit (hd k)"
  by (auto simp: array_proto_def object_proto_def is_digit_def)

lemma nat_str_no_name: "nat_str n \<notin> set array_proto" "nat_str n \<noteq> ''length''"
proof -
  show "nat_str n \<notin> set array_proto" using array_proto_first nat_str_first by blast
  have "\<not> is_digit (hd ''length'')" by (simp add: is_digit_def)
  then show "nat_str n \<noteq> ''length''" using nat_str_first by metis
qed

lemma int_str_int: "int_str (int n) = nat_str n"
  by (simp add: int_str_def)

text \<open>Reading an element of an array by its index.\<close>

lemma jget_nth: "jget (JArr xs) (nat_str i) = Some (if i < length xs then xs ! i else JUndef)"
proof (cases "i < length xs")
  case True
  have "List.find (\<lambda>j. nat_str j = nat_str i) [0..<length xs] = Some i"
    unfolding find_Some_iff by (rule exI [of _ i]) (use True in \<open>simp add: nat_str_eq_iff\<close>)
  with True show ?thesis by (simp add: nat_str_no_name)
next
  case False
  then have "List.find (\<lambda>j. nat_str j = nat_str i) [0..<length xs] = None"
    by (auto simp: find_None_iff nat_str_eq_iff)
  with False show ?thesis by (simp add: nat_str_no_name)
qed

section \<open>Laws of objects\<close>

lemma in_object_proto [simp]: "''__proto__'' \<in> set object_proto"
  by (simp add: object_proto_def)

lemma has_own_map_of: "has_own ps k = (map_of ps k \<noteq> None)"
  by (auto simp: has_own_def map_of_eq_None_iff)

lemma has_own_Nil [simp]: "\<not> has_own [] k"
  by (simp add: has_own_def)

lemma map_of_canon_ins:
  "k \<notin> fst ` set ps \<Longrightarrow> map_of (canon_ins k v ps) l = (if l = k then Some v else map_of ps l)"
  by (induction ps) (auto split: if_splits)

lemma set_canon_ins [simp]: "set (canon_ins k v ps) = insert (k, v) (set ps)"
  by (induction ps) (auto split: if_splits)

lemma map_of_upd_own:
  "map_of (upd_own k v ps) l = (if l = k \<and> k \<in> fst ` set ps then Some v else map_of ps l)"
  by (induction ps) (auto split: if_splits)

lemma proto_not_object: "k \<notin> set object_proto \<Longrightarrow> k \<noteq> ''__proto__''"
  by (auto simp: object_proto_def)

lemma map_of_obj_put:
  "k \<noteq> ''__proto__'' \<Longrightarrow> map_of (obj_put k v ps) l = (if l = k then Some v else map_of ps l)"
  by (auto simp: obj_put_def map_of_canon_ins map_of_upd_own)

lemma map_of_obj_del: "map_of (obj_del k ps) l = (if l = k then None else map_of ps l)"
  unfolding obj_del_def by (induction ps) auto

lemma keys_upd_own [simp]: "map fst (upd_own k v ps) = map fst ps"
  by (induction ps) auto

lemma keys_upd_own_set [simp]: "fst ` set (upd_own k v ps) = fst ` set ps"
  by (metis keys_upd_own list.set_map)

lemma obj_get_put [js_access]:
  "k \<noteq> ''__proto__'' \<Longrightarrow> obj_get (obj_put k v ps) l = (if l = k then v else obj_get ps l)"
  by (simp add: obj_get_def map_of_obj_put)

lemma obj_get_del [js_access]:
  "l \<noteq> k \<Longrightarrow> obj_get (obj_del k ps) l = obj_get ps l"
  by (simp add: obj_get_def map_of_obj_del)

lemma has_own_put [js_access]:
  "k \<noteq> ''__proto__'' \<Longrightarrow> has_own (obj_put k v ps) l = (l = k \<or> has_own ps l)"
  by (simp add: has_own_map_of map_of_obj_put)

lemma has_own_del [js_access]: "has_own (obj_del k ps) l = (l \<noteq> k \<and> has_own ps l)"
  by (simp add: has_own_map_of map_of_obj_del)

lemma obj_get_own: "map_of ps k = Some v \<Longrightarrow> obj_get ps k = v"
  by (simp add: obj_get_def)

lemma obj_get_absent:
  "map_of ps k = None \<Longrightarrow> k \<notin> set object_proto \<Longrightarrow> obj_get ps k = JUndef"
  by (simp add: obj_get_def)

text \<open>Only the last of two assignments to a property counts.\<close>

lemma upd_own_twice: "upd_own k w (upd_own k v ps) = upd_own k w ps"
  by (induction ps) auto

lemma upd_own_canon_ins: "k \<notin> fst ` set ps \<Longrightarrow> upd_own k w (canon_ins k v ps) = canon_ins k w ps"
  by (induction ps) auto

lemma obj_put_twice [js_access]: "obj_put k w (obj_put k v ps) = obj_put k w ps"
  by (auto simp: obj_put_def upd_own_twice upd_own_canon_ins)

lemma upd_own_same: "map_of ps k = Some v \<Longrightarrow> upd_own k v ps = ps"
  by (induction ps) (auto split: if_splits)

lemma obj_put_same: "map_of ps k = Some v \<Longrightarrow> obj_put k v ps = ps"
  by (auto simp: obj_put_def upd_own_same map_of_eq_None_iff dest: map_of_SomeD) (metis map_of_eq_None_iff option.distinct(1))

lemma obj_get_own_iff: "v \<noteq> JUndef \<Longrightarrow> v \<noteq> JFun k \<Longrightarrow> obj_get ps k = v \<longleftrightarrow> map_of ps k = Some v"
  by (auto simp: obj_get_def split: option.split)

lemma obj_del_absent: "map_of ps k = None \<Longrightarrow> obj_del k ps = ps"
  by (force simp: obj_del_def map_of_eq_None_iff filter_id_conv)

text \<open>The well-formed property lists: what \<open>JSON.parse\<close> and the assignments of the code build.\<close>

definition canonical :: "props \<Rightarrow> bool" where
  "canonical ps = (distinct (map fst ps) \<and> sorted_wrt key_before (map fst ps) \<and> ''__proto__'' \<notin> fst ` set ps)"

lemma canonical_Nil [simp]: "canonical []"
  by (simp add: canonical_def)

lemma key_before_refl_free: "\<not> is_array_index l \<Longrightarrow> key_before k l"
  by (simp add: key_before_def)

lemma not_key_before_trans:
  "\<not> key_before l k \<Longrightarrow> k \<noteq> l \<Longrightarrow> key_before l m \<Longrightarrow> key_before k m"
  by (auto simp: key_before_def split: if_splits)


lemma canonical_Cons:
  "canonical ((k, v) # ps) \<longleftrightarrow>
     k \<noteq> ''__proto__'' \<and> k \<notin> fst ` set ps \<and> (\<forall>l \<in> fst ` set ps. key_before k l) \<and> canonical ps"
  by (auto simp: canonical_def)

lemma canonical_canon_ins:
  "canonical ps \<Longrightarrow> k \<notin> fst ` set ps \<Longrightarrow> k \<noteq> ''__proto__'' \<Longrightarrow> canonical (canon_ins k v ps)"
proof (induction ps)
  case Nil
  then show ?case by (simp add: canonical_Cons)
next
  case (Cons p ps)
  obtain l w where p: "p = (l, w)" by fastforce
  show ?case
  proof (cases "key_before l k")
    case True
    with Cons show ?thesis by (auto simp: p canonical_Cons)
  next
    case False
    with Cons.prems have "key_before k l"
      by (auto simp: p key_before_def split: if_splits dest: sym)
    with False Cons.prems show ?thesis
      by (auto simp: p canonical_Cons intro: not_key_before_trans)
  qed
qed

lemma canonical_obj_put: "canonical ps \<Longrightarrow> canonical (obj_put k v ps)"
proof (cases "k \<in> fst ` set ps")
  case True
  assume "canonical ps"
  with True show ?thesis
    by (simp add: canonical_def obj_put_def)
next
  case False
  assume "canonical ps"
  with False show ?thesis by (simp add: obj_put_def canonical_canon_ins)
qed

lemma canonical_obj_del: "canonical ps \<Longrightarrow> canonical (obj_del k ps)"
  by (induction ps) (auto simp: obj_del_def canonical_Cons)

lemma canon_ins_last:
  "(\<forall>l \<in> fst ` set ps. key_before l k) \<Longrightarrow> canon_ins k v ps = ps @ [(k, v)]"
  by (induction ps) auto

lemma canonical_append_single:
  "canonical (ps @ [(k, v)]) \<Longrightarrow> obj_put k v ps = ps @ [(k, v)]"
  by (auto simp: canonical_def obj_put_def sorted_wrt_append canon_ins_last)

lemma canonical_append: "canonical (ps @ qs) \<Longrightarrow> canonical ps"
  by (auto simp: canonical_def sorted_wrt_append)

text \<open>Inserting the properties of a well-formed object one by one rebuilds it.\<close>

lemma fold_obj_put_canonical:
  "canonical (ps @ qs) \<Longrightarrow> fold (\<lambda>(k, v) os. obj_put k v os) qs ps = ps @ qs"
proof (induction qs arbitrary: ps)
  case Nil
  then show ?case by simp
next
  case (Cons q qs)
  obtain k v where q: "q = (k, v)" by fastforce
  from Cons.prems have "canonical ((ps @ [(k, v)]) @ qs)" by (simp add: q)
  moreover from this have "obj_put k v ps = ps @ [(k, v)]"
    using canonical_append canonical_append_single by blast
  ultimately show ?case using Cons.IH by (simp add: q)
qed

lemma obj_of_canonical: "canonical ps \<Longrightarrow> obj_of ps = ps"
  using fold_obj_put_canonical [of "[]"] by (simp add: obj_of_def)

lemma canonical_fold_put: "canonical ps \<Longrightarrow> canonical (fold (\<lambda>(k, v) os. obj_put k v os) kvs ps)"
  by (induction kvs arbitrary: ps) (auto simp: canonical_obj_put)

lemma canonical_obj_of [simp]: "canonical (obj_of kvs)"
  by (simp add: obj_of_def canonical_fold_put)

lemma canonical_distinct: "canonical ps \<Longrightarrow> distinct (map fst ps)"
  by (simp add: canonical_def)

lemma canonical_map_values:
  "canonical (map (\<lambda>(k, v). (k, f k v)) ps) = canonical ps"
proof -
  have "map fst (map (\<lambda>(k, v). (k, f k v)) ps) = map fst ps" by auto
  then show ?thesis unfolding canonical_def by (metis list.set_map)
qed

text \<open>
  The property names that the sources write: they start with no digit, so an object literal
  keeps the order in which it is written.
\<close>

definition plain :: "string \<Rightarrow> bool" where
  "plain k = (k \<noteq> [] \<and> \<not> is_digit (hd k) \<and> k \<noteq> ''__proto__'')"

lemma plain_not_index: "plain k \<Longrightarrow> \<not> is_array_index k"
  by (cases k) (auto simp: plain_def is_array_index_def)

lemma plain_not_proto: "plain k \<Longrightarrow> k \<noteq> ''__proto__''"
  by (simp add: plain_def)

lemma canonical_plain:
  "list_all (plain \<circ> fst) kvs \<Longrightarrow> distinct (map fst kvs) \<Longrightarrow> canonical kvs"
proof (induction kvs)
  case Nil
  then show ?case by simp
next
  case (Cons p kvs)
  obtain k v where p: "p = (k, v)" by fastforce
  have "\<forall>l \<in> fst ` set kvs. \<not> is_array_index l"
    using Cons.prems by (auto simp: list_all_iff dest: plain_not_index)
  with Cons show ?case
    by (auto simp: p canonical_Cons list_all_iff key_before_def dest: plain_not_proto)
qed

lemma obj_of_plain:
  "list_all (plain \<circ> fst) kvs \<Longrightarrow> distinct (map fst kvs) \<Longrightarrow> obj_of kvs = kvs"
  by (simp add: canonical_plain obj_of_canonical)

lemma obj_put_plain:
  assumes "plain k"
  shows "obj_put k v ps = (if has_own ps k then upd_own k v ps else ps @ [(k, v)])"
  using assms plain_not_index [OF assms] plain_not_proto [OF assms]
  by (simp add: obj_put_def has_own_def canon_ins_last key_before_def)

lemma obj_get_Cons [js_access]: "obj_get ((l, w) # ps) k = (if k = l then w else obj_get ps k)"
  by (simp add: obj_get_def)

lemma obj_get_Nil [js_access]: "obj_get [] k = (if k \<in> set object_proto then JFun k else JUndef)"
  by (simp add: obj_get_def)

lemma has_own_Cons [js_access]: "has_own ((l, w) # ps) k = (k = l \<or> has_own ps k)"
  by (simp add: has_own_def)

lemma obj_get_append [js_access]:
  "obj_get (ps @ qs) k = (if has_own ps k then obj_get ps k else obj_get qs k)"
  by (auto simp: obj_get_def has_own_map_of map_add_def split: option.splits)

text \<open>The rules that evaluate object literals and accesses to their fields.\<close>

lemmas js_literal = obj_of_plain obj_put_plain plain_def is_digit_def object_proto_def

section \<open>The interface of a loop that an exception ends\<close>

text \<open>A statement that may throw: the state it leaves, and whether it completed.\<close>

type_synonym 's step = "'s \<times> bool"

text \<open>
  \<open>run\<close> executes a step for each element of a list; when a step throws, the loop ends in the state that
  step left.  The runtimes and the request handlers, which loop over commands, calls or posted
  objects, provide it.
\<close>

locale stepwise =
  fixes step :: "'c \<Rightarrow> 's \<Rightarrow> 's \<times> bool"
    and run :: "'c list \<Rightarrow> 's \<Rightarrow> 's \<times> bool"
  assumes run_Nil: "run [] s = (s, True)"
    and run_Cons: "run (c # cs) s = (case step c s of (s', ok) \<Rightarrow> if ok then run cs s' else (s', False))"
begin

lemma run_append:
  "run (cs @ ds) s = (case run cs s of (s', ok) \<Rightarrow> if ok then run ds s' else (s', False))"
  by (induction cs arbitrary: s) (auto simp: run_Nil run_Cons split: prod.split)

text \<open>A property that every step keeps, completed or not, holds after the loop.\<close>

lemma run_invariant:
  assumes "\<And>c s. c \<in> set cs \<Longrightarrow> P s \<Longrightarrow> P (fst (step c s))" and "P s"
  shows "P (fst (run cs s))"
  using assms
proof (induction cs arbitrary: s)
  case Nil
  then show ?case by (simp add: run_Nil)
next
  case (Cons c cs)
  obtain s' ok where st: "step c s = (s', ok)" by fastforce
  have "P s'" using Cons.prems(1) [of c s] Cons.prems(2) by (simp add: st)
  with Cons.IH Cons.prems(1) show ?case by (simp add: run_Cons st)
qed

text \<open>A loop that did not complete executed a prefix completely and threw at the next element.\<close>

lemma run_failed:
  assumes "run cs s = (t, False)"
  shows "\<exists>ds c es u. cs = ds @ c # es \<and> run ds s = (u, True) \<and> step c u = (t, False)"
  using assms
proof (induction cs arbitrary: s)
  case Nil
  then show ?case by (simp add: run_Nil)
next
  case (Cons c cs)
  show ?case
  proof (cases "step c s")
    case (Pair s' ok)
    show ?thesis
    proof (cases ok)
      case True
      with Pair Cons.prems have "run cs s' = (t, False)" by (simp add: run_Cons)
      then obtain ds d es u where "cs = ds @ d # es" "run ds s' = (u, True)" "step d u = (t, False)"
        using Cons.IH by blast
      with Pair True have "c # cs = (c # ds) @ d # es" "run (c # ds) s = (u, True)" "step d u = (t, False)"
        by (simp_all add: run_Cons)
      then show ?thesis by blast
    next
      case False
      with Pair Cons.prems have "c # cs = [] @ c # cs" "run [] s = (s, True)" "step c s = (t, False)"
        by (simp_all add: run_Cons run_Nil)
      then show ?thesis by blast
    qed
  qed
qed

lemma run_all_ok:
  "(\<And>c s. c \<in> set cs \<Longrightarrow> snd (step c s)) \<Longrightarrow> run cs s = (fold (\<lambda>c s. fst (step c s)) cs s, True)"
proof (induction cs arbitrary: s)
  case Nil
  then show ?case by (simp add: run_Nil)
next
  case (Cons c cs)
  obtain s' ok where st: "step c s = (s', ok)" by fastforce
  have ok using Cons.prems [of c s] by (simp add: st)
  with Cons st show ?case by (simp add: run_Cons)
qed

end

text \<open>
  A loop whose steps refine an abstract behaviour: under an invariant and for the elements considered, a step
  completes, keeps the invariant, and does to the abstraction what the specification says.
\<close>

locale stepwise_refinement = stepwise step run for step :: "'c \<Rightarrow> 's \<Rightarrow> 's \<times> bool" and run +
  fixes inv :: "'s \<Rightarrow> bool"
    and good :: "'c \<Rightarrow> bool"
    and abstract :: "'s \<Rightarrow> 'a"
    and spec :: "'c \<Rightarrow> 'a \<Rightarrow> 'a"
  assumes refines: "inv s \<Longrightarrow> good c \<Longrightarrow> \<exists>t. step c s = (t, True) \<and> inv t \<and> abstract t = spec c (abstract s)"
begin

lemma run_refines:
  "inv s \<Longrightarrow> list_all good cs \<Longrightarrow> \<exists>t. run cs s = (t, True) \<and> inv t \<and> abstract t = fold spec cs (abstract s)"
proof (induction cs arbitrary: s)
  case Nil
  then show ?case by (simp add: run_Nil)
next
  case (Cons c cs)
  then obtain t where t: "step c s = (t, True)" "inv t" "abstract t = spec c (abstract s)"
    using refines [of s c] by auto
  with Cons.IH [of t] Cons.prems show ?case by (simp add: run_Cons)
qed

end

section \<open>The interface of a state machine\<close>

text \<open>
  The reachable states of a step relation: they contain the initial state, are closed under steps, and nothing
  else is reachable.
\<close>

locale state_machine =
  fixes step :: "'s \<Rightarrow> 's \<Rightarrow> bool"
    and init :: 's
    and reachable :: "'s \<Rightarrow> bool"
  assumes reachable_init: "reachable init"
    and reachable_step: "reachable s \<Longrightarrow> step s t \<Longrightarrow> reachable t"
    and reachable_induct: "reachable s \<Longrightarrow> P init \<Longrightarrow> (\<And>s t. reachable s \<Longrightarrow> P s \<Longrightarrow> step s t \<Longrightarrow> P t) \<Longrightarrow> P s"
begin

lemma invariant:
  assumes "\<And>s t. step s t \<Longrightarrow> P s \<Longrightarrow> P t" and "P init" and "reachable s"
  shows "P s"
  using assms(3) by (rule reachable_induct [where P = P]) (fact assms(2), blast intro: assms(1))

end

section \<open>The interface of a keyed store\<close>

text \<open>
  What the components that keep their state in an object used as a dictionary rely on. \<open>ok\<close>
  marks the keys an assignment really stores under.
\<close>

locale keyed_store =
  fixes lookup :: "'s \<Rightarrow> 'k \<Rightarrow> 'v option"
    and put :: "'k \<Rightarrow> 'v \<Rightarrow> 's \<Rightarrow> 's"
    and del :: "'k \<Rightarrow> 's \<Rightarrow> 's"
    and ok :: "'k \<Rightarrow> bool"
  assumes lookup_put: "ok k \<Longrightarrow> lookup (put k v s) l = (if l = k then Some v else lookup s l)"
    and lookup_del: "lookup (del k s) l = (if l = k then None else lookup s l)"
begin

definition put_all :: "('k \<times> 'v) list \<Rightarrow> 's \<Rightarrow> 's" where
  "put_all kvs s = fold (\<lambda>(k, v) t. put k v t) kvs s"

lemma put_all_simps [simp]:
  "put_all [] s = s"
  "put_all ((k, v) # kvs) s = put_all kvs (put k v s)"
  by (simp_all add: put_all_def)

text \<open>A batch of assignments: the last one for a key wins, and other keys keep their values.\<close>

lemma lookup_put_all:
  "(\<And>k v. (k, v) \<in> set kvs \<Longrightarrow> ok k) \<Longrightarrow>
     lookup (put_all kvs s) l = (case map_of (rev kvs) l of Some v \<Rightarrow> Some v | None \<Rightarrow> lookup s l)"
proof (induction kvs arbitrary: s)
  case Nil
  then show ?case by simp
next
  case (Cons p kvs)
  obtain k v where p: "p = (k, v)" by fastforce
  have "lookup (put_all (p # kvs) s) l =
          (case map_of (rev kvs) l of Some w \<Rightarrow> Some w | None \<Rightarrow> lookup (put k v s) l)"
    using Cons.IH [of "put k v s"] Cons.prems by (auto simp: p)
  moreover have "ok k" by (rule Cons.prems [of k v]) (simp add: p)
  ultimately show ?case
    by (auto simp: p lookup_put map_add_def split: option.splits)
qed

lemma lookup_del_put: "ok k \<Longrightarrow> lookup (del k (put k v s)) l = lookup (del k s) l"
  by (simp add: lookup_put lookup_del)

end

interpretation obj: keyed_store map_of obj_put obj_del "\<lambda>k. k \<noteq> ''__proto__''"
  by unfold_locales (simp_all add: map_of_obj_put map_of_obj_del)

lemma obj_of_eq_put_all: "obj_of kvs = obj.put_all kvs []"
  by (simp add: obj_of_def obj.put_all_def)

lemma map_of_filter_keys:
  "map_of (filter (\<lambda>(k, v). P k) ps) k = (if P k then map_of ps k else None)"
  by (induction ps) auto

lemma map_of_rev_canonical: "distinct (map fst ps) \<Longrightarrow> map_of (rev ps) k = map_of ps k"
  by (metis distinct_rev map_of_eq_Some_iff map_of_eq_None_iff not_Some_eq rev_map set_rev)

lemma map_of_obj_of:
  "''__proto__'' \<notin> fst ` set kvs \<Longrightarrow> map_of (obj_of kvs) k = map_of (rev kvs) k"
  unfolding obj_of_eq_put_all
  by (subst obj.lookup_put_all) (force split: option.splits)+

end
