(* ===== verification/NGSI_Client.thy ===== *)
theory NGSI_Client
  imports JS_Prelude
begin

text \<open>
  The NGSI10/NGSI9 client library, \<open>designer/public/lib/ngsi/ngsiclient.js\<close> and the variants of its
  methods in \<open>ngsiclient.cjs\<close> and in the template of a fog function.  \<open>axios\<close> is a parameter of every
  method: a function from the request to the outcome of the returned promise.  A method that may throw
  before it returns its promise has an \<open>option\<close> result.
\<close>

section \<open>Requests, responses and promises\<close>

record http_req =
  rq_method :: string
  rq_url :: string
  rq_headers :: jval
  rq_params :: jval
  rq_data :: jval

record http_resp =
  rs_status :: int
  rs_data :: jval

text \<open>The outcome of a promise: rejected with a reason, or fulfilled with a value.\<close>

type_synonym promise = "jval + jval"

type_synonym axios = "http_req \<Rightarrow> jval + http_resp"

definition thrown :: jval where
  "thrown = JStr ''Error''"

text \<open>The promise of a \<open>then\<close> callback: an exception in the callback rejects it.\<close>

definition settle :: "jval option \<Rightarrow> promise" where
  "settle r = (case r of None \<Rightarrow> Inl thrown | Some v \<Rightarrow> Inr v)"

definition then_do :: "promise \<Rightarrow> (jval \<Rightarrow> jval option) \<Rightarrow> promise" where
  "then_do p f = (case p of Inl e \<Rightarrow> Inl e | Inr v \<Rightarrow> settle (f v))"

text \<open>\<open>axios(rq).then(function (response) { if (response.status == 200) { return f(response) } else { return null } })\<close>\<close>

definition axios_200 :: "axios \<Rightarrow> http_req \<Rightarrow> (jval \<Rightarrow> jval option) \<Rightarrow> promise" where
  "axios_200 axios rq f =
     (case axios rq of
        Inl e \<Rightarrow> Inl e
      | Inr r \<Rightarrow> if rs_status r = 200 then settle (f (rs_data r)) else Inr JNull)"

definition post_req :: "string \<Rightarrow> jval \<Rightarrow> jval \<Rightarrow> http_req" where
  "post_req u hs d = \<lparr>rq_method = ''post'', rq_url = u, rq_headers = hs, rq_params = JUndef, rq_data = d\<rparr>"

section \<open>Conversion between context elements and context objects\<close>

text \<open>\<open>o[attr.name] = {type: attr.type, value: attr.value}\<close> for each element of a list.\<close>

fun put_named :: "jval list \<Rightarrow> props \<Rightarrow> props option" where
  "put_named [] ps = Some ps"
| "put_named (attr # attrs) ps =
     do { n \<leftarrow> jget attr ''name'';
          t \<leftarrow> jget attr ''type'';
          v \<leftarrow> jget attr ''value'';
          put_named attrs (obj_put (js_str n) (JObj (obj_of [(''type'', t), (''value'', v)])) ps) }"

definition CtxElement2JSONObject :: "jval \<Rightarrow> jval option" where
  "CtxElement2JSONObject e =
     do { eid \<leftarrow> jget e ''entityId'';
          al \<leftarrow> jget e ''attributes'';
          as \<leftarrow> jelems_if al;
          attributes \<leftarrow> put_named as [];
          ml \<leftarrow> jget e ''domainMetadata'';
          ms \<leftarrow> jelems_if ml;
          metadata \<leftarrow> put_named ms [];
          Some (JObj (obj_of [(''entityId'', eid), (''attributes'', JObj attributes),
                              (''metadata'', JObj metadata)])) }"

text \<open>\<open>list.push({name: key, type: o[key].type, value: o[key].value})\<close> for each key of an object.\<close>

fun named_list :: "props \<Rightarrow> jval list option" where
  "named_list [] = Some []"
| "named_list ((k, a) # ps) =
     do { t \<leftarrow> jget a ''type'';
          v \<leftarrow> jget a ''value'';
          rest \<leftarrow> named_list ps;
          Some (JObj (obj_of [(''name'', JStr k), (''type'', t), (''value'', v)]) # rest) }"

definition JSONObject2CtxElement :: "jval \<Rightarrow> jval option" where
  "JSONObject2CtxElement ob =
     do { eid \<leftarrow> jget ob ''entityId'';
          ao \<leftarrow> jget ob ''attributes'';
          attributes \<leftarrow> (if truthy ao then named_list (jprops ao) else Some []);
          mo \<leftarrow> jget ob ''metadata'';
          domainMetadata \<leftarrow> (if truthy mo then named_list (jprops mo) else Some []);
          Some (JObj (obj_of [(''entityId'', eid), (''attributes'', JArr attributes),
                              (''domainMetadata'', JArr domainMetadata)])) }"

section \<open>The NGSI10 client\<close>

definition update_req_body :: "jval \<Rightarrow> string \<Rightarrow> jval" where
  "update_req_body contextElement action =
     JObj (obj_of [(''contextElements'', JArr [contextElement]), (''updateAction'', JStr action)])"

definition updateContext :: "axios \<Rightarrow> string \<Rightarrow> jval \<Rightarrow> promise option" where
  "updateContext axios brokerURL ctxObj =
     do { contextElement \<leftarrow> JSONObject2CtxElement ctxObj;
          Some (axios_200 axios
                  (post_req (brokerURL @ ''/updateContext'') JUndef (update_req_body contextElement ''UPDATE''))
                  Some) }"

definition deleteContext :: "axios \<Rightarrow> string \<Rightarrow> jval \<Rightarrow> promise" where
  "deleteContext axios brokerURL entityId =
     axios_200 axios
       (post_req (brokerURL @ ''/updateContext'') JUndef
          (update_req_body (JObj (obj_of [(''entityId'', entityId)])) ''DELETE''))
       Some"

text \<open>The elements of \<open>contextResponses\<close> of a query response, converted one by one.\<close>

fun convert_responses :: "jval list \<Rightarrow> jval list option" where
  "convert_responses [] = Some []"
| "convert_responses (c # cs) =
     do { e \<leftarrow> jget c ''contextElement'';
          ob \<leftarrow> CtxElement2JSONObject e;
          rest \<leftarrow> convert_responses cs;
          Some (ob # rest) }"

definition query_result :: "jval \<Rightarrow> jval option" where
  "query_result d =
     do { ctxElements \<leftarrow> jget d ''contextResponses'';
          cs \<leftarrow> jelems_if ctxElements;
          objectList \<leftarrow> convert_responses cs;
          Some (JArr objectList) }"

definition queryContext :: "axios \<Rightarrow> string \<Rightarrow> jval \<Rightarrow> promise" where
  "queryContext axios brokerURL queryCtxReq =
     axios_200 axios (post_req (brokerURL @ ''/queryContext'') JUndef queryCtxReq) query_result"

definition subscription_id :: "jval \<Rightarrow> jval option" where
  "subscription_id d = do { sr \<leftarrow> jget d ''subscribeResponse''; jget sr ''subscriptionId'' }"

definition subscribeContext :: "axios \<Rightarrow> string \<Rightarrow> jval \<Rightarrow> promise" where
  "subscribeContext axios brokerURL subscribeCtxReq =
     axios_200 axios (post_req (brokerURL @ ''/subscribeContext'') JUndef subscribeCtxReq) subscription_id"

definition subscribeContextWithHeaders :: "axios \<Rightarrow> string \<Rightarrow> jval \<Rightarrow> jval \<Rightarrow> promise" where
  "subscribeContextWithHeaders axios brokerURL subscribeCtxReq reqHeaders =
     axios_200 axios (post_req (brokerURL @ ''/subscribeContext'') reqHeaders subscribeCtxReq) subscription_id"

definition subscribeContext4Orion :: "axios \<Rightarrow> string \<Rightarrow> jval \<Rightarrow> promise" where
  "subscribeContext4Orion axios brokerURL subscribeCtxReq =
     axios_200 axios
       (post_req (brokerURL @ ''/subscribeContext'')
          (JObj (obj_of [(''Destination'', JStr ''orion-broker'')])) subscribeCtxReq)
       subscription_id"

definition unsubscribeContext :: "axios \<Rightarrow> string \<Rightarrow> jval \<Rightarrow> promise" where
  "unsubscribeContext axios brokerURL sid =
     axios_200 axios
       (post_req (brokerURL @ ''/unsubscribeContext'') JUndef (JObj (obj_of [(''subscriptionId'', sid)])))
       Some"

text \<open>The two methods whose variants in the template of a fog function take request headers.\<close>

definition updateContext_hdr :: "axios \<Rightarrow> string \<Rightarrow> jval \<Rightarrow> jval \<Rightarrow> promise option" where
  "updateContext_hdr axios brokerURL ctxObj myHeaders =
     do { contextElement \<leftarrow> JSONObject2CtxElement ctxObj;
          Some (axios_200 axios
                  (post_req (brokerURL @ ''/updateContext'') myHeaders (update_req_body contextElement ''UPDATE''))
                  Some) }"

definition subscribeContext_hdr :: "axios \<Rightarrow> string \<Rightarrow> jval \<Rightarrow> jval \<Rightarrow> promise" where
  "subscribeContext_hdr axios brokerURL subscribeCtxReq myHeaders =
     axios_200 axios (post_req (brokerURL @ ''/subscribeContext'') myHeaders subscribeCtxReq) subscription_id"

section \<open>The NGSI9 client\<close>

definition discoverContextAvailability :: "axios \<Rightarrow> string \<Rightarrow> jval \<Rightarrow> promise" where
  "discoverContextAvailability axios discoveryURL discoverReq =
     axios_200 axios (post_req (discoveryURL @ ''/discoverContextAvailability'') JUndef discoverReq) Some"

definition nearby_req :: "jval \<Rightarrow> jval \<Rightarrow> jval option" where
  "nearby_req mylocation num =
     do { lat \<leftarrow> jget mylocation ''latitude'';
          lon \<leftarrow> jget mylocation ''longitude'';
          Some (JObj (obj_of
            [(''entities'', JArr [JObj (obj_of [(''type'', JStr ''IoTBroker''), (''isPattern'', JBool True)])]),
             (''restriction'', JObj (obj_of [(''scopes'', JArr
                [JObj (obj_of [(''scopeType'', JStr ''nearby''),
                   (''scopeValue'', JObj (obj_of [(''latitude'', lat), (''longitude'', lon), (''limit'', num)]))])])]))])) }"

text \<open>The provider URLs of the registrations that are not the empty string.\<close>

fun provider_urls :: "jval list \<Rightarrow> jval list option" where
  "provider_urls [] = Some []"
| "provider_urls (r # rs) =
     do { reg \<leftarrow> jget r ''contextRegistration'';
          u \<leftarrow> jget reg ''providingApplication'';
          rest \<leftarrow> provider_urls rs;
          Some (if js_eq u (JStr []) then rest else u # rest) }"

text \<open>The callback of \<open>findNearbyIoTBroker\<close>; its \<open>else\<close> branch reads the undeclared \<open>nil\<close> and throws.\<close>

definition nearby_brokers :: "jval \<Rightarrow> jval option" where
  "nearby_brokers response =
     do { ec \<leftarrow> jget response ''errorCode'';
          c \<leftarrow> jget ec ''code'';
          (if js_eq c (JNum 200) then
             do { rs \<leftarrow> jget response ''contextRegistrationResponses'';
                  brokers \<leftarrow> provider_urls (map snd (jprops rs));
                  Some (JArr brokers) }
           else None) }"

definition findNearbyIoTBroker :: "axios \<Rightarrow> string \<Rightarrow> jval \<Rightarrow> jval \<Rightarrow> promise option" where
  "findNearbyIoTBroker axios discoveryURL mylocation num =
     do { discoveryReq \<leftarrow> nearby_req mylocation num;
          Some (then_do (discoverContextAvailability axios discoveryURL discoveryReq) nearby_brokers) }"


section \<open>Well-formed context objects\<close>

text \<open>
  A context object holds, under each name of its \<open>attributes\<close> and of its \<open>metadata\<close>, an object with
  a type and a value; a context element holds the same data as lists of named entries.  Both are
  built here from the list of names, types and values.
\<close>

definition named_props :: "(string \<times> jval \<times> jval) list \<Rightarrow> props" where
  "named_props as = map (\<lambda>(n, t, v). (n, JObj [(''type'', t), (''value'', v)])) as"

definition named_elems :: "(string \<times> jval \<times> jval) list \<Rightarrow> jval list" where
  "named_elems as = map (\<lambda>(n, t, v). JObj [(''name'', JStr n), (''type'', t), (''value'', v)]) as"

definition ctx_object :: "jval \<Rightarrow> (string \<times> jval \<times> jval) list \<Rightarrow> (string \<times> jval \<times> jval) list \<Rightarrow> jval" where
  "ctx_object eid as ms =
     JObj [(''entityId'', eid), (''attributes'', JObj (named_props as)), (''metadata'', JObj (named_props ms))]"

definition ctx_element :: "jval \<Rightarrow> (string \<times> jval \<times> jval) list \<Rightarrow> (string \<times> jval \<times> jval) list \<Rightarrow> jval" where
  "ctx_element eid as ms =
     JObj [(''entityId'', eid), (''attributes'', JArr (named_elems as)), (''domainMetadata'', JArr (named_elems ms))]"

lemma named_list_props: "named_list (named_props as) = Some (named_elems as)"
  by (induction as) (auto simp: named_props_def named_elems_def js_access js_literal)

lemma put_named_elems: "put_named (named_elems as) ps = Some (obj.put_all (named_props as) ps)"
  by (induction as arbitrary: ps) (auto simp: named_props_def named_elems_def js_access js_literal)

lemma JSONObject2CtxElement_ctx_object:
  "JSONObject2CtxElement (ctx_object eid as ms) = Some (ctx_element eid as ms)"
  by (simp add: JSONObject2CtxElement_def ctx_object_def ctx_element_def js_access js_literal named_list_props)

lemma CtxElement2JSONObject_ctx_element:
  "CtxElement2JSONObject (ctx_element eid as ms) =
     Some (JObj [(''entityId'', eid), (''attributes'', JObj (obj_of (named_props as))),
                 (''metadata'', JObj (obj_of (named_props ms)))])"
  by (simp add: CtxElement2JSONObject_def ctx_element_def js_access js_literal jelems_if_def
      put_named_elems obj_of_eq_put_all [symmetric])

section \<open>Properties\<close>

text \<open>
  Claim C37. Converting a context object to the context element that goes over the wire and back
  gives the same object, whenever its attribute and metadata names are enumerated in their own order.
\<close>

theorem ngsi_roundtrip:
  assumes "canonical (named_props as)" and "canonical (named_props ms)"
  shows "Option.bind (JSONObject2CtxElement (ctx_object eid as ms)) CtxElement2JSONObject =
           Some (ctx_object eid as ms)"
  unfolding JSONObject2CtxElement_ctx_object
  using assms by (simp add: CtxElement2JSONObject_ctx_element obj_of_canonical ctx_object_def)

theorem ngsi_roundtrip_witness:
  "Option.bind (JSONObject2CtxElement (ctx_object (JStr ''Twin.1'') [(''7'', JNull, JNum 7), (''temp'', JStr ''float'', JNum 3)] []))
     CtxElement2JSONObject =
   Some (ctx_object (JStr ''Twin.1'') [(''7'', JNull, JNum 7), (''temp'', JStr ''float'', JNum 3)] [])"
  by (rule ngsi_roundtrip) (simp_all add: named_props_def canonical_def js_defs)

lemma axios_200_Some:
  "axios_200 axios rq Some =
     (case axios rq of Inl e \<Rightarrow> Inl e | Inr r \<Rightarrow> Inr (if rs_status r = 200 then rs_data r else JNull))"
  by (simp add: axios_200_def settle_def split: sum.split)

text \<open>
  \<open>updateContext\<close> sends one POST to the broker's \<open>/updateContext\<close> whose body holds exactly
  the converted element under the action \<open>UPDATE\<close>, and its promise is the body of a 200 response,
  \<open>null\<close> for any other status and the rejection of the transport otherwise.
\<close>

theorem updateContext_request:
  "updateContext axios brokerURL (ctx_object eid as ms) =
     Some (case axios (post_req (brokerURL @ ''/updateContext'') JUndef
                 (JObj [(''contextElements'', JArr [ctx_element eid as ms]), (''updateAction'', JStr ''UPDATE'')])) of
             Inl e \<Rightarrow> Inl e
           | Inr r \<Rightarrow> Inr (if rs_status r = 200 then rs_data r else JNull))"
  by (simp add: updateContext_def update_req_body_def JSONObject2CtxElement_ctx_object axios_200_Some js_literal)

text \<open>An object whose attribute is \<open>null\<close> makes the call throw before any request is sent.\<close>

lemma updateContext_null_attribute:
  "updateContext axios brokerURL
     (JObj [(''entityId'', eid), (''attributes'', JObj [(n, JNull)]), (''metadata'', m)]) = None"
  by (simp add: updateContext_def JSONObject2CtxElement_def js_access)

lemma convert_ctx_elements:
  "list_all (\<lambda>(eid, as, ms). canonical (named_props as) \<and> canonical (named_props ms)) xs \<Longrightarrow>
   convert_responses (map (\<lambda>(eid, as, ms). JObj [(''contextElement'', ctx_element eid as ms)]) xs) =
     Some (map (\<lambda>(eid, as, ms). ctx_object eid as ms) xs)"
proof (induction xs)
  case Nil
  then show ?case by simp
next
  case (Cons x xs)
  obtain eid as ms where x: "x = (eid, as, ms)" by (cases x)
  from Cons show ?case
    by (simp add: x js_access CtxElement2JSONObject_ctx_element obj_of_canonical ctx_object_def)
qed

text \<open>
  A query whose response is 200 yields one context object per context response, in the order
  of the response, each the converted element; entities that were published with \<open>updateContext\<close> and
  are returned by the broker as they were sent come back as the objects that were published.
\<close>

theorem queryContext_returns_objects:
  assumes "axios (post_req (brokerURL @ ''/queryContext'') JUndef req) =
     Inr \<lparr>rs_status = 200, rs_data = JObj [(''contextResponses'', JArr
        (map (\<lambda>(eid, as, ms). JObj [(''contextElement'', ctx_element eid as ms)]) xs))]\<rparr>"
    and "list_all (\<lambda>(eid, as, ms). canonical (named_props as) \<and> canonical (named_props ms)) xs"
  shows "queryContext axios brokerURL req = Inr (JArr (map (\<lambda>(eid, as, ms). ctx_object eid as ms) xs))"
  using assms
  by (simp add: queryContext_def axios_200_def query_result_def jelems_if_def settle_def js_access convert_ctx_elements)

theorem queryContext_returns_objects_witness:
  "queryContext
     (\<lambda>rq. Inr \<lparr>rs_status = 200, rs_data = JObj [(''contextResponses'', JArr
        (map (\<lambda>(eid, as, ms). JObj [(''contextElement'', ctx_element eid as ms)])
           [(JStr ''e1'', [(''a'', JStr ''t'', JNum 1)], []), (JStr ''e2'', [], [])]))]\<rparr>)
     ''http://broker'' JUndef =
   Inr (JArr (map (\<lambda>(eid, as, ms). ctx_object eid as ms) [(JStr ''e1'', [(''a'', JStr ''t'', JNum 1)], []), (JStr ''e2'', [], [])]))"
  by (rule queryContext_returns_objects) (simp_all add: named_props_def canonical_def js_defs)

definition registration :: "string \<Rightarrow> jval" where
  "registration u = JObj [(''contextRegistration'', JObj [(''providingApplication'', JStr u)])]"

lemma provider_urls_registrations:
  "provider_urls (map registration us) = Some (map JStr (filter (\<lambda>u. u \<noteq> []) us))"
  by (induction us) (auto simp: registration_def js_access js_eq_JStr)

lemma jprops_JArr_values: "map snd (jprops (JArr xs)) = xs"
  by (simp add: comp_def map_nth)

text \<open>
  A discovery response with code 200 yields the provider URLs of the registrations, without
  the empty ones and in the order of the response; with any other numeric code the promise is rejected,
  since the branch meant to return an empty result reads the undeclared variable \<open>nil\<close>.
\<close>

theorem findNearbyIoTBroker_result:
  assumes "nearby_req loc num = Some rq"
    and "axios (post_req (discoveryURL @ ''/discoverContextAvailability'') JUndef rq) =
       Inr \<lparr>rs_status = 200, rs_data = JObj [(''errorCode'', JObj [(''code'', JNum c)]),
              (''contextRegistrationResponses'', JArr (map registration us))]\<rparr>"
  shows "findNearbyIoTBroker axios discoveryURL loc num =
     Some (if c = 200 then Inr (JArr (map JStr (filter (\<lambda>u. u \<noteq> []) us))) else Inl thrown)"
  using assms
  by (simp add: findNearbyIoTBroker_def discoverContextAvailability_def axios_200_Some then_do_def
      nearby_brokers_def js_access js_eq_JNum settle_def provider_urls_registrations jprops_JArr_values
      del: jprops.simps)

theorem findNearbyIoTBroker_result_witness:
  "findNearbyIoTBroker
     (\<lambda>rq. Inr \<lparr>rs_status = 200, rs_data = JObj [(''errorCode'', JObj [(''code'', JNum 200)]),
              (''contextRegistrationResponses'', JArr (map registration [''http://a'', [], ''http://b'']))]\<rparr>)
     ''http://d'' (JObj [(''latitude'', JNum 1), (''longitude'', JNum 2)]) (JNum 3) =
   Some (if (200::int) = 200 then Inr (JArr (map JStr (filter (\<lambda>u. u \<noteq> []) [''http://a'', [], ''http://b'']))) else Inl thrown)"
  by (rule findNearbyIoTBroker_result) (simp_all add: nearby_req_def js_access)

end
