(* ===== verification/NGSI_LD_Client.thy ===== *)
theory NGSI_LD_Client
  imports NGSI_Client
begin

text \<open>
  The NGSI-LD client library: \<open>designer/public/lib/ngsi/LDngsiclient.js\<close> and, with the suffix \<open>_tpl\<close>,
  the methods that differ in \<open>application/template/NGSILD/javascript/ngsi/ngsiclient.js\<close>.
\<close>

section \<open>Entities\<close>

text \<open>\<open>for (var k in e) { jsonObj[k] = e[k] }\<close> on a fresh object.\<close>

definition LD_CtxElement2JSONObject :: "jval \<Rightarrow> jval" where
  "LD_CtxElement2JSONObject e = JObj (obj_of (jprops e))"

definition system_keys :: "string list" where
  "system_keys = [''id'', ''type'', ''modifiedAt'', ''createdAt'', ''observationSpace'', ''operationSpace'',
     ''location'', ''@context'']"

definition LD_JSONObject2CtxElement :: "jval \<Rightarrow> jval option" where
  "LD_JSONObject2CtxElement ctxObj =
     do { i \<leftarrow> jget ctxObj ''id'';
          t \<leftarrow> jget ctxObj ''type'';
          Some (JObj (obj_of ([(''id'', i), (''type'', t)] @
                              filter (\<lambda>(k, v). k \<notin> set system_keys) (jprops ctxObj)))) }"

section \<open>The client\<close>

text \<open>\<open>url.substring(0, url.lastIndexOf("/"))\<close>, the empty string when there is no slash.\<close>

definition strip_last_segment :: "string \<Rightarrow> string" where
  "strip_last_segment url = rev (drop 1 (dropWhile (\<lambda>c. c \<noteq> CHR ''/'') (rev url)))"

definition NGSILDclient :: "string \<Rightarrow> string" where
  "NGSILDclient url = (if str_includes url ''ngsi10'' then strip_last_segment url else url)"

definition core_context_link :: string where
  "core_context_link =
     ''<https://uri.etsi.org/ngsi-ld/v1/ngsi-ld-core-context.jsonld>; rel=\"http://www.w3.org/ns/json-ld#context\"; type=\"application/ld+json\"''"

definition ld_headers :: jval where
  "ld_headers = JObj (obj_of [(''content-type'', JStr ''application/json''), (''Accept'', JStr ''application/ld+json''),
      (''Link'', JStr core_context_link)])"

definition ld_plain_headers :: jval where
  "ld_plain_headers = JObj (obj_of [(''content-type'', JStr ''application/json''), (''Accept'', JStr ''application/ld+json'')])"

text \<open>The request body that the designer sends along with a DELETE and a GET.\<close>

definition iot_broker_filter :: jval where
  "iot_broker_filter =
     JObj (obj_of [(''entities'', JArr [JObj (obj_of [(''type'', JStr ''IoTBroker''), (''isPattern'', JBool True)])])])"

definition upsert_result :: "jval + http_resp \<Rightarrow> promise" where
  "upsert_result a =
     (case a of
        Inl e \<Rightarrow> Inl e
      | Inr r \<Rightarrow> Inr (if rs_status r = 204 then rs_data r else if rs_status r = 207 then rs_data r else JNull))"

definition LD_updateContext :: "axios \<Rightarrow> string \<Rightarrow> jval \<Rightarrow> promise option" where
  "LD_updateContext axios brokerURL ctxObj =
     do { updateCtxReq \<leftarrow> LD_JSONObject2CtxElement ctxObj;
          Some (upsert_result (axios
            (post_req (brokerURL @ ''/v1/entityOperations/upsert'') ld_headers (JArr [updateCtxReq])))) }"

definition resp_obj :: "http_resp \<Rightarrow> jval" where
  "resp_obj r = JObj [(''status'', JNum (rs_status r)), (''data'', rs_data r)]"

definition LD_deleteContext :: "axios \<Rightarrow> string \<Rightarrow> string \<Rightarrow> bool \<Rightarrow> promise" where
  "LD_deleteContext axios brokerURL entityId isFromDeviceTab =
     (let ldURL = (if isFromDeviceTab then brokerURL @ ''/v1/entities/'' @ entityId
                   else brokerURL @ ''/ngsi-ld/v1/entities/'' @ entityId)
      in case axios \<lparr>rq_method = ''delete'', rq_url = ldURL, rq_headers = ld_headers, rq_params = JUndef,
                     rq_data = iot_broker_filter\<rparr> of
           Inl e \<Rightarrow> Inl e
         | Inr r \<Rightarrow> Inr (if rs_status r = 201 then rs_data r
                        else if rs_status r = 204 then resp_obj r else JNull))"

definition GetEntitiesContext :: "axios \<Rightarrow> string \<Rightarrow> jval \<Rightarrow> promise" where
  "GetEntitiesContext axios brokerURL type' =
     axios_200 axios
       \<lparr>rq_method = ''get'', rq_url = brokerURL @ ''/v1/entities'',
        rq_headers = JObj (obj_of [(''Accept'', JStr ''application/ld+json''), (''content-type'', JStr ''application/json'')]),
        rq_params = JObj (obj_of [(''type'', type')]), rq_data = iot_broker_filter\<rparr>
       Some"

definition LD_queryContext :: "axios \<Rightarrow> string \<Rightarrow> jval \<Rightarrow> promise" where
  "LD_queryContext axios brokerURL queryCtxReq =
     axios_200 axios (post_req (brokerURL @ ''/v1/entityOperations/query'') ld_headers queryCtxReq)
       (\<lambda>ctxElements. Some (JArr [ctxElements]))"

definition LD_subscribeContext :: "axios \<Rightarrow> string \<Rightarrow> jval \<Rightarrow> promise" where
  "LD_subscribeContext axios brokerURL subscribeCtxReq =
     (case axios (post_req (brokerURL @ ''/v1/subscriptions/'') ld_headers subscribeCtxReq) of
        Inl e \<Rightarrow> Inl e
      | Inr r \<Rightarrow> if rs_status r = 201 then settle (subscription_id (rs_data r)) else Inr JNull)"

definition LD_unsubscribeContext :: "axios \<Rightarrow> string \<Rightarrow> jval \<Rightarrow> promise" where
  "LD_unsubscribeContext axios brokerURL sid =
     axios_200 axios
       (post_req (brokerURL @ ''/unsubscribeContext'') JUndef (JObj (obj_of [(''subscriptionId'', sid)])))
       Some"

text \<open>The NGSI9 part of the library names the scope fields \<open>type\<close> and \<open>value\<close>.\<close>

definition LD_nearby_req :: "jval \<Rightarrow> jval \<Rightarrow> jval option" where
  "LD_nearby_req mylocation num =
     do { lat \<leftarrow> jget mylocation ''latitude'';
          lon \<leftarrow> jget mylocation ''longitude'';
          Some (JObj (obj_of
            [(''entities'', JArr [JObj (obj_of [(''type'', JStr ''IoTBroker''), (''isPattern'', JBool True)])]),
             (''restriction'', JObj (obj_of [(''scopes'', JArr
                [JObj (obj_of [(''type'', JStr ''nearby''),
                   (''value'', JObj (obj_of [(''latitude'', lat), (''longitude'', lon), (''limit'', num)]))])])]))])) }"

definition LD_findNearbyIoTBroker :: "axios \<Rightarrow> string \<Rightarrow> jval \<Rightarrow> jval \<Rightarrow> promise option" where
  "LD_findNearbyIoTBroker axios discoveryURL mylocation num =
     do { discoveryReq \<leftarrow> LD_nearby_req mylocation num;
          Some (then_do (discoverContextAvailability axios discoveryURL discoveryReq) nearby_brokers) }"

section \<open>The methods of the fog function template\<close>

definition LD_updateContext_tpl :: "axios \<Rightarrow> string \<Rightarrow> jval \<Rightarrow> promise option" where
  "LD_updateContext_tpl axios brokerURL ctxObj =
     do { updateCtxReq \<leftarrow> LD_JSONObject2CtxElement ctxObj;
          Some (upsert_result (axios
            (post_req (brokerURL @ ''/ngsi-ld/v1/entityOperations/upsert'') ld_headers (JArr [updateCtxReq])))) }"

definition LD_deleteContext_tpl :: "axios \<Rightarrow> string \<Rightarrow> string \<Rightarrow> promise" where
  "LD_deleteContext_tpl axios brokerURL entityId =
     (case axios \<lparr>rq_method = ''delete'', rq_url = brokerURL @ ''/ngsi-ld/v1/entities/'' @ entityId,
                  rq_headers = ld_plain_headers, rq_params = JUndef, rq_data = JUndef\<rparr> of
        Inl e \<Rightarrow> Inl e
      | Inr r \<Rightarrow> Inr (if rs_status r = 204 then rs_data r else JNull))"

definition LD_queryContext_tpl :: "axios \<Rightarrow> string \<Rightarrow> jval \<Rightarrow> promise" where
  "LD_queryContext_tpl axios brokerURL id' =
     axios_200 axios
       \<lparr>rq_method = ''get'', rq_url = brokerURL @ ''/ngsi-ld/v1/entities/'' @ js_str id',
        rq_headers = ld_plain_headers, rq_params = JUndef, rq_data = JUndef\<rparr>
       (\<lambda>ctxElements. Some (JArr [ctxElements]))"

definition LD_subscribeContext_tpl :: "axios \<Rightarrow> string \<Rightarrow> jval \<Rightarrow> promise" where
  "LD_subscribeContext_tpl axios brokerURL subscribeCtxReq =
     axios_200 axios (post_req (brokerURL @ ''/ngsi-ld/v1/subscriptions/'') ld_headers subscribeCtxReq) subscription_id"

section \<open>Properties\<close>

lemma is_prefix_append: "is_prefix pat (pat @ s)"
  by (induction pat) auto

lemma str_includes_append: "str_includes s pat \<Longrightarrow> str_includes (pre @ s) pat"
  by (induction pre) auto

lemma str_includes_segment: "str_includes (pre @ pat @ post) pat"
proof -
  have "str_includes (pat @ post) pat"
    using is_prefix_append [of pat post] by (cases "pat @ post") auto
  then show ?thesis by (rule str_includes_append)
qed

lemma strip_last_segment_append:
  "CHR ''/'' \<notin> set seg \<Longrightarrow> strip_last_segment (base @ ''/'' @ seg) = base"
proof -
  assume a: "CHR ''/'' \<notin> set seg"
  have "dropWhile (\<lambda>c. c \<noteq> CHR ''/'') (rev seg @ CHR ''/'' # rev base) = CHR ''/'' # rev base"
    using a by (subst dropWhile_append2) auto
  then show ?thesis by (simp add: strip_last_segment_def)
qed

text \<open>
  A client constructed with the URL of an NGSI10 endpoint talks to the base of that URL, for
  every base; a URL that mentions no NGSI10 endpoint is kept as it is.
\<close>

theorem NGSILDclient_base_url:
  "NGSILDclient (base @ ''/ngsi10'') = base \<and> (\<not> str_includes url ''ngsi10'' \<longrightarrow> NGSILDclient url = url)"
proof -
  have "str_includes (base @ ''/ngsi10'') ''ngsi10''"
    using str_includes_segment [of "base @ ''/''" "''ngsi10''" "[]"] by simp
  moreover have "strip_last_segment (base @ ''/ngsi10'') = base"
    using strip_last_segment_append [of "''ngsi10''" base] by simp
  ultimately show ?thesis by (simp add: NGSILDclient_def)
qed

theorem NGSILDclient_base_url_witness:
  "\<not> str_includes ''http://h:8080'' ''ngsi10'' \<and> NGSILDclient ''http://h:8080'' = ''http://h:8080'' \<and>
   NGSILDclient ''http://h:8080/ngsi10'' = ''http://h:8080''"
  using NGSILDclient_base_url [of "''http://h:8080''" "''http://h:8080''"] by simp

text \<open>
  The entity sent to the broker keeps the identifier, the type and every property of the
  published object except the six system properties, which are dropped; no property is invented.
\<close>

theorem LD_element_properties:
  assumes "canonical ps"
  shows "\<exists>qs. LD_JSONObject2CtxElement (JObj ps) = Some (JObj qs) \<and> canonical qs \<and>
           (\<forall>k. map_of qs k =
              (if k = ''id'' \<or> k = ''type'' then Some (obj_get ps k)
               else if k \<in> set system_keys then None else map_of ps k))"
proof -
  let ?rest = "filter (\<lambda>(k, v). k \<notin> set system_keys) ps"
  let ?kvs = "[(''id'', obj_get ps ''id''), (''type'', obj_get ps ''type'')] @ ?rest"
  have sys: "''id'' \<in> set system_keys" "''type'' \<in> set system_keys"
    by (simp_all add: system_keys_def)
  have "''__proto__'' \<notin> fst ` set ?kvs"
    using assms by (auto simp: canonical_def)
  moreover have "distinct (map fst ?rest)"
    using assms by (auto simp: canonical_def distinct_map_filter)
  ultimately have "map_of (obj_of ?kvs) k =
      (if k = ''id'' \<or> k = ''type'' then Some (obj_get ps k)
       else if k \<in> set system_keys then None else map_of ps k)" for k
    using sys by (auto simp: map_of_obj_of map_add_def map_of_rev_canonical map_of_filter_keys split: option.splits)
  then show ?thesis
    by (auto simp: LD_JSONObject2CtxElement_def)
qed

theorem LD_element_properties_witness:
  "\<exists>qs. LD_JSONObject2CtxElement (JObj [(''id'', JStr ''e''), (''type'', JStr ''Car''), (''createdAt'', JNum 0), (''speed'', JNum 9)]) =
     Some (JObj qs) \<and> canonical qs \<and>
     (\<forall>k. map_of qs k =
        (if k = ''id'' \<or> k = ''type''
         then Some (obj_get [(''id'', JStr ''e''), (''type'', JStr ''Car''), (''createdAt'', JNum 0), (''speed'', JNum 9)] k)
         else if k \<in> set system_keys then None
         else map_of [(''id'', JStr ''e''), (''type'', JStr ''Car''), (''createdAt'', JNum 0), (''speed'', JNum 9)] k))"
  by (rule LD_element_properties) (simp add: canonical_plain plain_def is_digit_def)

text \<open>Copying an entity property by property gives the same entity.\<close>

lemma LD_copy: "canonical ps \<Longrightarrow> LD_CtxElement2JSONObject (JObj ps) = JObj ps"
  by (simp add: LD_CtxElement2JSONObject_def obj_of_canonical)

text \<open>
  On the creation of a subscription that the broker acknowledges with status 201, the client
  of the designer returns the subscription identifier, while the client of the fog function template,
  which tests for status 200, returns \<open>null\<close>.
\<close>

theorem LD_subscribe_created:
  assumes "\<And>rq. axios rq = Inr \<lparr>rs_status = 201, rs_data = JObj [(''subscribeResponse'', JObj [(''subscriptionId'', JStr sid)])]\<rparr>"
  shows "LD_subscribeContext axios u req = Inr (JStr sid) \<and> LD_subscribeContext_tpl axios u req = Inr JNull"
  using assms
  by (simp add: LD_subscribeContext_def LD_subscribeContext_tpl_def axios_200_def subscription_id_def settle_def js_access)

theorem LD_subscribe_created_witness:
  "LD_subscribeContext (\<lambda>rq. Inr \<lparr>rs_status = 201, rs_data = JObj [(''subscribeResponse'', JObj [(''subscriptionId'', JStr ''s1'')])]\<rparr>) ''u'' JNull = Inr (JStr ''s1'') \<and>
   LD_subscribeContext_tpl (\<lambda>rq. Inr \<lparr>rs_status = 201, rs_data = JObj [(''subscribeResponse'', JObj [(''subscriptionId'', JStr ''s1'')])]\<rparr>) ''u'' JNull = Inr JNull"
  by (rule LD_subscribe_created) simp

end
