(* ===== verification/NGSI_Agent.thy ===== *)
theory NGSI_Agent
  imports NGSI_LD_Client
begin

text \<open>
  The NGSI agent, the HTTP front end of every fog function:
  \<open>application/template/NGSI/javascript/ngsi/ngsiagent.js\<close> and its NGSI-LD variant
  \<open>application/template/NGSILD/javascript/ngsi/ngsiagent.js\<close>.  The application behind the agent is a state
  \<open>'s\<close> and the two handlers it registers.  A handler returns the new state and, unless it throws, what it
  sent as response.  The web framework is modelled by the order in which the route's middleware runs and by
  where an error goes; a request that no handler answers is \<open>Falls_Through\<close> (the framework's own default
  applies to it).
\<close>

datatype reply = NoReply | Replied int jval

type_synonym 's notify_fn = "jval \<Rightarrow> jval list \<Rightarrow> 's \<Rightarrow> 's \<times> reply option"
type_synonym 's admin_fn = "jval \<Rightarrow> jval list \<Rightarrow> 's \<Rightarrow> 's \<times> reply option"

record 's agent =
  notifyHandler :: "'s notify_fn option"
  adminHandler :: "'s admin_fn option"

definition init_agent :: "'s agent" where
  "init_agent = \<lparr>notifyHandler = None, adminHandler = None\<rparr>"

definition setNotifyHandler :: "'s notify_fn \<Rightarrow> 's agent \<Rightarrow> 's agent" where
  "setNotifyHandler newHandler a = a\<lparr>notifyHandler := Some newHandler\<rparr>"

definition setAdminHandler :: "'s admin_fn \<Rightarrow> 's agent \<Rightarrow> 's agent" where
  "setAdminHandler newHandler a = a\<lparr>adminHandler := Some newHandler\<rparr>"

section \<open>Errors\<close>

record js_error =
  err_name :: string
  err_message :: string
  err_code :: jval

definition type_error :: js_error where
  "type_error = \<lparr>err_name = ''TypeError'', err_message = [], err_code = JUndef\<rparr>"

text \<open>
  \<open>new Error({message: '...'})\<close>: the constructor converts its argument to a string, so the message of the
  object is lost.
\<close>

definition errorNotFound :: js_error where
  "errorNotFound = \<lparr>err_name = ''Error'', err_message = ''[object Object]'', err_code = JUndef\<rparr>"

text \<open>\<open>errors\<close> is declared nowhere, so constructing the error for a wrong content type throws.\<close>

definition errors_not_defined :: js_error where
  "errors_not_defined = \<lparr>err_name = ''ReferenceError'', err_message = ''errors is not defined'', err_code = JUndef\<rparr>"

definition ensureType :: "bool \<Rightarrow> js_error option" where
  "ensureType is_json = (if is_json then None else Some errors_not_defined)"

text \<open>\<open>String(code).match(/^[2345]\d\d$/)\<close>\<close>

fun http_code :: "string \<Rightarrow> bool" where
  "http_code [a, b, c] = (a \<in> set ''2345'' \<and> is_digit b \<and> is_digit c)"
| "http_code s = False"

definition handleError :: "js_error \<Rightarrow> jval \<times> jval" where
  "handleError error =
     (if truthy (err_code error) \<and> http_code (js_str (err_code error)) then err_code error else JNum 500,
      JObj (obj_of [(''name'', JStr (err_name error)), (''message'', JStr (err_message error))]))"

section \<open>Reading a notification\<close>

fun read_responses :: "jval list \<Rightarrow> jval list option" where
  "read_responses [] = Some []"
| "read_responses (response # rs) =
     do { sc \<leftarrow> jget response ''statusCode'';
          c \<leftarrow> jget sc ''code'';
          flexObjs \<leftarrow> (if js_eq c (JStr ''200'') then
                         do { e \<leftarrow> jget response ''contextElement'';
                              flexObj \<leftarrow> CtxElement2JSONObject e;
                              Some [flexObj] }
                       else Some []);
          rest \<leftarrow> read_responses rs;
          Some (flexObjs @ rest) }"

definition readContextElements :: "jval \<Rightarrow> jval list option" where
  "readContextElements body =
     do { cr \<leftarrow> jget body ''contextResponses'';
          rs \<leftarrow> jelems cr;
          read_responses rs }"

definition LD_readContextElements :: "jval \<Rightarrow> jval list option" where
  "LD_readContextElements body =
     do { t \<leftarrow> jget body ''type'';
          (if js_eq t (JStr ''Notification'') then
             do { NotificationData \<leftarrow> jget body ''data'';
                  es \<leftarrow> jelems NotificationData;
                  Some (map LD_CtxElement2JSONObject es) }
           else Some []) }"

section \<open>The routes\<close>

text \<open>What a route handler ends with: an error passed on to \<open>handleError\<close>, or the reply it sent.\<close>

type_synonym 's route_result = "'s \<times> (js_error + reply)"

definition finish_handler :: "'s \<times> reply option \<Rightarrow> 's route_result" where
  "finish_handler r = (fst r, case snd r of None \<Rightarrow> Inl type_error | Some rep \<Rightarrow> Inr rep)"

definition handleNotify :: "(jval \<Rightarrow> jval list option) \<Rightarrow> 's agent \<Rightarrow> jval \<Rightarrow> 's \<Rightarrow> 's route_result" where
  "handleNotify readElements a body s =
     (case notifyHandler a of
        None \<Rightarrow> (s, Inl errorNotFound)
      | Some h \<Rightarrow>
          (case readElements body of
             None \<Rightarrow> (s, Inl type_error)
           | Some ctxs \<Rightarrow> finish_handler (h body ctxs s)))"

definition handleAdmin :: "'s agent \<Rightarrow> jval \<Rightarrow> 's \<Rightarrow> 's route_result" where
  "handleAdmin a body s =
     (case adminHandler a of
        None \<Rightarrow> (s, Inl errorNotFound)
      | Some h \<Rightarrow>
          (case body of
             JArr commands \<Rightarrow> finish_handler (h body commands s)
           | _ \<Rightarrow> (s, Inr NoReply)))"

text \<open>
  A request that no code of the agent answers is passed on, by \<open>next()\<close>, to the final handler of Express, which is
  no part of the program.
\<close>

datatype response = Response jval jval | Falls_Through

text \<open>
  A POST request to the agent: \<open>ensureType\<close> runs first, then the handler of the route
  (\<open>loadContextRoutes\<close>); \<open>handleError\<close> is the last middleware of the application (\<open>start\<close>).
\<close>

definition respond :: "'s route_result \<Rightarrow> 's \<times> response" where
  "respond r =
     (case r of
        (s, Inl e) \<Rightarrow> (s, case handleError e of (c, b) \<Rightarrow> Response c b)
      | (s, Inr NoReply) \<Rightarrow> (s, Falls_Through)
      | (s, Inr (Replied c b)) \<Rightarrow> (s, Response (JNum c) b))"

definition agent_post ::
  "(jval \<Rightarrow> jval list option) \<Rightarrow> 's agent \<Rightarrow> string \<Rightarrow> bool \<Rightarrow> jval \<Rightarrow> 's \<Rightarrow> 's \<times> response" where
  "agent_post readElements a path is_json body s =
     (if path = ''/notifyContext'' \<or> path = ''/admin'' then
        (case ensureType is_json of
           Some e \<Rightarrow> respond (s, Inl e)
         | None \<Rightarrow>
             respond (if path = ''/notifyContext'' then handleNotify readElements a body s else handleAdmin a body s))
      else (s, Falls_Through))"

section \<open>Properties\<close>

definition ctx_response :: "jval \<Rightarrow> jval \<Rightarrow> jval" where
  "ctx_response code e = JObj [(''contextElement'', e), (''statusCode'', JObj [(''code'', code)])]"

lemma to_number_200: "to_number ''200'' = Some 200"
  by (simp add: to_number_def trim_def is_space_def is_digit_def parse_nat_def)

lemma js_eq_200: "js_eq (JNum n) (JStr ''200'') = (n = 200)"
  by (auto simp: js_eq_def is_prim_def to_number_200)

lemma read_successful_elements:
  assumes "list_all (\<lambda>(c, eid, as, ms). canonical (named_props as) \<and> canonical (named_props ms)) xs"
  shows "readContextElements (JObj [(''contextResponses'', JArr
           (map (\<lambda>(c, eid, as, ms). ctx_response (JNum c) (ctx_element eid as ms)) xs))]) =
         Some (map (\<lambda>(c, eid, as, ms). ctx_object eid as ms) (filter (\<lambda>(c, _). c = 200) xs))"
proof -
  have "read_responses (map (\<lambda>(c, eid, as, ms). ctx_response (JNum c) (ctx_element eid as ms)) xs) =
          Some (map (\<lambda>(c, eid, as, ms). ctx_object eid as ms) (filter (\<lambda>(c, _). c = 200) xs))"
    using assms
  proof (induction xs)
    case Nil
    show ?case by simp
  next
    case (Cons x xs)
    obtain c eid as ms where x: "x = (c, eid, as, ms)" by (cases x)
    from Cons show ?case
      by (simp add: x ctx_response_def js_access js_eq_200 CtxElement2JSONObject_ctx_element
          obj_of_canonical ctx_object_def)
  qed
  then show ?thesis by (simp add: readContextElements_def js_access)
qed

text \<open>
  The context objects that reach the application are exactly the converted elements of the
  context responses with status code 200, in the order of the notification: no element of a failed
  response is delivered and none of a successful one is lost.
\<close>

theorem notify_delivers_successful_elements:
  assumes "list_all (\<lambda>(c, eid, as, ms). canonical (named_props as) \<and> canonical (named_props ms)) xs"
  shows "readContextElements (JObj [(''contextResponses'', JArr
           (map (\<lambda>(c, eid, as, ms). ctx_response (JNum c) (ctx_element eid as ms)) xs))]) =
         Some (map (\<lambda>(c, eid, as, ms). ctx_object eid as ms) (filter (\<lambda>(c, _). c = 200) xs))"
  using assms by (rule read_successful_elements)

theorem notify_delivers_successful_elements_witness:
  "readContextElements (JObj [(''contextResponses'', JArr
     (map (\<lambda>(c, eid, as, ms). ctx_response (JNum c) (ctx_element eid as ms))
        [(200, JStr ''a'', [], []), (404, JStr ''b'', [], [])]))]) =
   Some (map (\<lambda>(c, eid, as, ms). ctx_object eid as ms)
     (filter (\<lambda>(c, _). c = 200) [(200 :: int, JStr ''a'', [], []), (404, JStr ''b'', [], [])]))"
  by (rule notify_delivers_successful_elements) (simp add: named_props_def)

text \<open>
  A request that is not JSON, or that arrives before the application has registered the
  handler of its route, changes nothing in the application and is answered with status 500.
\<close>

theorem agent_rejects:
  "agent_post rd a ''/notifyContext'' False body s = (s, Response (JNum 500)
      (JObj [(''name'', JStr ''ReferenceError''), (''message'', JStr ''errors is not defined'')])) \<and>
   agent_post rd a ''/admin'' False body s = agent_post rd a ''/notifyContext'' False body s \<and>
   agent_post rd init_agent ''/notifyContext'' True body s = (s, Response (JNum 500)
      (JObj [(''name'', JStr ''Error''), (''message'', JStr ''[object Object]'')])) \<and>
   agent_post rd init_agent ''/admin'' True body s = agent_post rd init_agent ''/notifyContext'' True body s"
  by (simp add: agent_post_def ensureType_def respond_def handleError_def errors_not_defined_def
      handleNotify_def handleAdmin_def init_agent_def errorNotFound_def js_literal)

lemma http_code_parse:
  assumes "http_code s"
  shows "200 \<le> parse_nat s \<and> parse_nat s \<le> 599"
proof -
  obtain a b c where s: "s = [a, b, c]" and a: "a \<in> set ''2345''" and "is_digit b" "is_digit c"
    using assms by (cases s rule: http_code.cases) auto
  then have "(of_char b :: nat) - 48 \<le> 9" "(of_char c :: nat) - 48 \<le> 9"
    by (auto simp: is_digit_def)
  then show ?thesis using a by (auto simp: s parse_nat_def)
qed

text \<open>
  The status that \<open>handleError\<close> sends is 500 unless the error carries a code, and then it is
  that code, which is a three-digit status between 200 and 599.
\<close>

theorem handleError_status:
  "fst (handleError e) = JNum 500 \<or>
   fst (handleError e) = err_code e \<and> 200 \<le> parse_nat (js_str (err_code e)) \<and> parse_nat (js_str (err_code e)) \<le> 599"
  by (auto simp: handleError_def dest: http_code_parse)

end
