(* ===== verification/Fog_Template.thy ===== *)
theory Fog_Template
  imports NGSI_Agent
begin

text \<open>
  The runtime of a fog function, \<open>application/template/NGSI/javascript/main.js\<close>: the admin commands that
  configure it, the three callbacks it offers to the user's function, and the two modes in which it runs.

  The module's variables are the record \<open>fogapp\<close>; \<open>sent\<close> is the sequence of requests the client has issued.
  A client is the broker URL it was constructed with, which the code never checks.  The user's function is a
  parameter: for a received entity and its own state \<open>'u\<close> it performs a sequence of calls to the callbacks and
  may throw at the end.
\<close>

datatype fog_call = CallPublish jval | CallQuery jval | CallSubscribe jval

record 'u fogapp =
  ngsi10client :: "jval option"
  brokerURL :: jval
  outputs :: "jval list"
  input :: props
  myReferenceURL :: jval
  myCorrelatorID :: jval
  mySubscriptionId :: jval
  isConfigured :: bool
  sent :: "http_req list"
  user :: 'u

definition init_fogapp :: "'u \<Rightarrow> 'u fogapp" where
  "init_fogapp u = \<lparr>ngsi10client = None, brokerURL = JUndef, outputs = [], input = [], myReferenceURL = JUndef,
     myCorrelatorID = JNull, mySubscriptionId = JNull, isConfigured = False, sent = [], user = u\<rparr>"

section \<open>Configuration commands\<close>

text \<open>Each operation assumes, as its caller has checked, that the command is not \<open>null\<close> or \<open>undefined\<close>.\<close>

definition field :: "jval \<Rightarrow> string \<Rightarrow> jval" where
  "field v k = (case jget v k of Some w \<Rightarrow> w | None \<Rightarrow> JUndef)"

definition setCorrelatorID :: "jval \<Rightarrow> 'u fogapp \<Rightarrow> 'u fogapp" where
  "setCorrelatorID cmd s = s\<lparr>myCorrelatorID := field cmd ''correlatorID''\<rparr>"

definition connectBroker :: "jval \<Rightarrow> 'u fogapp \<Rightarrow> 'u fogapp" where
  "connectBroker cmd s =
     s\<lparr>brokerURL := field cmd ''brokerURL'', ngsi10client := Some (field cmd ''brokerURL'')\<rparr>"

definition setReferenceURL :: "jval \<Rightarrow> 'u fogapp \<Rightarrow> 'u fogapp" where
  "setReferenceURL cmd s = s\<lparr>myReferenceURL := field cmd ''url''\<rparr>"

definition setInputs :: "jval \<Rightarrow> 'u fogapp \<Rightarrow> 'u fogapp" where
  "setInputs cmd s =
     s\<lparr>input := obj_put ''type'' (field cmd ''type'') (obj_put ''id'' (field cmd ''id'') (input s))\<rparr>"

definition setOutputs :: "jval \<Rightarrow> 'u fogapp \<Rightarrow> 'u fogapp" where
  "setOutputs cmd s =
     s\<lparr>outputs := outputs s @ [JObj (obj_of [(''id'', field cmd ''id''), (''type'', field cmd ''type'')])]\<rparr>"

definition handleCmd :: "jval \<Rightarrow> 'u fogapp \<Rightarrow> 'u fogapp step" where
  "handleCmd commandObj s =
     (case jget commandObj ''command'' of
        None \<Rightarrow> (s, False)
      | Some c \<Rightarrow>
          (if js_eq c (JStr ''CONNECT_BROKER'') then connectBroker commandObj s
           else if js_eq c (JStr ''SET_INPUTS'') then setInputs commandObj s
           else if js_eq c (JStr ''SET_OUTPUTS'') then setOutputs commandObj s
           else if js_eq c (JStr ''SET_REFERENCE'') then setReferenceURL commandObj s
           else if js_eq c (JStr ''SET_CORRELATORID'') then setCorrelatorID commandObj s
           else s, True))"

fun handleCmds :: "jval list \<Rightarrow> 'u fogapp \<Rightarrow> 'u fogapp step" where
  "handleCmds [] s = (s, True)"
| "handleCmds (cmd # cmds) s =
     (case handleCmd cmd s of (s', True) \<Rightarrow> handleCmds cmds s' | (s', False) \<Rightarrow> (s', False))"

definition handleAdminCmds :: "jval \<Rightarrow> jval list \<Rightarrow> 'u fogapp \<Rightarrow> 'u fogapp \<times> reply option" where
  "handleAdminCmds body commands s =
     (case handleCmds commands s of
        (s', False) \<Rightarrow> (s', None)
      | (s', True) \<Rightarrow> (s'\<lparr>isConfigured := True\<rparr>, Some (Replied 200 (JObj []))))"

section \<open>The callbacks of the user's function\<close>

definition url_of :: "jval \<Rightarrow> string \<Rightarrow> string" where
  "url_of base path = js_str base @ path"

text \<open>The headers of an update and of a subscription.\<close>

definition myheaders :: "'u fogapp \<Rightarrow> jval" where
  "myheaders s =
     JObj (obj_of ([(''content-type'', JStr ''application/json'')] @
       (if is_nullish (myCorrelatorID s) then [] else [(''Fiware-Correlator'', myCorrelatorID s)])))"

definition query :: "jval \<Rightarrow> 'u fogapp \<Rightarrow> 'u fogapp step" where
  "query queryCtxReq s =
     (case ngsi10client s of
        None \<Rightarrow> (s, True)
      | Some u \<Rightarrow> (s\<lparr>sent := sent s @ [post_req (url_of u ''/queryContext'') JUndef queryCtxReq]\<rparr>, True))"

text \<open>
  \<open>subscribeCtxReq.reference = myReferenceURL\<close> in strict mode: a primitive value makes the assignment throw,
  and a property set on an array is not part of its JSON text.
\<close>

definition subscribe :: "jval \<Rightarrow> 'u fogapp \<Rightarrow> 'u fogapp step" where
  "subscribe subscribeCtxReq s =
     (case ngsi10client s of
        None \<Rightarrow> (s, True)
      | Some u \<Rightarrow>
          (case subscribeCtxReq of
             JObj ps \<Rightarrow>
               (s\<lparr>sent := sent s @ [post_req (url_of u ''/subscribeContext'') (myheaders s)
                                      (JObj (obj_put ''reference'' (myReferenceURL s) ps))]\<rparr>, True)
           | JArr xs \<Rightarrow>
               (s\<lparr>sent := sent s @ [post_req (url_of u ''/subscribeContext'') (myheaders s) (JArr xs)]\<rparr>, True)
           | _ \<Rightarrow> (s, False)))"

text \<open>The callback of the subscription: its promise was fulfilled with a subscription identifier.\<close>

definition on_subscribed :: "promise \<Rightarrow> 'u fogapp \<Rightarrow> 'u fogapp" where
  "on_subscribed p s = (case p of Inl e \<Rightarrow> s | Inr subscriptionId \<Rightarrow> s\<lparr>mySubscriptionId := subscriptionId\<rparr>)"

definition publish :: "jval \<Rightarrow> 'u fogapp \<Rightarrow> 'u fogapp step" where
  "publish ctxUpdate s =
     (case ngsi10client s of
        None \<Rightarrow> (s, True)
      | Some u \<Rightarrow>
          (case JSONObject2CtxElement ctxUpdate of
             None \<Rightarrow> (s, False)
           | Some e \<Rightarrow>
               (s\<lparr>sent := sent s @ [post_req (url_of u ''/updateContext'') (myheaders s) (update_req_body e ''UPDATE'')]\<rparr>,
                True)))"

fun do_call :: "fog_call \<Rightarrow> 'u fogapp \<Rightarrow> 'u fogapp step" where
  "do_call (CallPublish v) s = publish v s"
| "do_call (CallQuery v) s = query v s"
| "do_call (CallSubscribe v) s = subscribe v s"

fun do_calls :: "fog_call list \<Rightarrow> 'u fogapp \<Rightarrow> 'u fogapp step" where
  "do_calls [] s = (s, True)"
| "do_calls (c # cs) s = (case do_call c s of (s', True) \<Rightarrow> do_calls cs s' | (s', False) \<Rightarrow> (s', False))"

text \<open>The user's function: the calls it makes on an entity, its next state, and whether it throws after them.\<close>

type_synonym 'u fog_fn = "jval \<Rightarrow> 'u \<Rightarrow> fog_call list \<times> 'u \<times> bool"

definition run_handler :: "'u fog_fn \<Rightarrow> jval \<Rightarrow> 'u fogapp \<Rightarrow> 'u fogapp step" where
  "run_handler h e s =
     (case h e (user s) of
        (cs, u', ok) \<Rightarrow> (case do_calls cs (s\<lparr>user := u'\<rparr>) of (s', done) \<Rightarrow> (s', done \<and> ok)))"

section \<open>Notifications and modes of execution\<close>

text \<open>Each object is handled under its own \<open>try\<close>: an exception never stops the objects after it.\<close>

fun handleNotifyObjects :: "'u fog_fn \<Rightarrow> jval list \<Rightarrow> 'u fogapp \<Rightarrow> 'u fogapp" where
  "handleNotifyObjects h [] s = s"
| "handleNotifyObjects h (e # es) s = handleNotifyObjects h es (fst (run_handler h e s))"

definition app_notify :: "'u fog_fn \<Rightarrow> 'u fogapp notify_fn" where
  "app_notify h body ctxObjects s = (handleNotifyObjects h ctxObjects s, Some NoReply)"

definition fetch_input_req :: "'u fogapp \<Rightarrow> http_req" where
  "fetch_input_req s =
     post_req (url_of (brokerURL s) ''/queryContext'') JUndef
       (JObj (if \<not> is_nullish (obj_get (input s) ''type'') then
                obj_of [(''entities'', JArr [JObj (obj_of [(''type'', obj_get (input s) ''type''), (''isPattern'', JBool True)])])]
              else if \<not> is_nullish (obj_get (input s) ''id'') then
                obj_of [(''entities'', JArr [JObj (obj_of [(''id'', obj_get (input s) ''id''), (''isPattern'', JBool False)])])]
              else []))"

definition fetchInputByQuery :: "axios \<Rightarrow> 'u fogapp \<Rightarrow> promise" where
  "fetchInputByQuery axios s = axios_200 axios (fetch_input_req s) query_result"

text \<open>
  \<open>query2execution\<close>: after the query has returned, the statement \<open>np\<close> reads an undeclared variable in
  strict mode and throws, so the loop over the received objects is never reached.
\<close>

definition query2execution :: "axios \<Rightarrow> 'u fog_fn \<Rightarrow> 'u fogapp \<Rightarrow> 'u fogapp step" where
  "query2execution axios h s =
     (let s' = s\<lparr>sent := sent s @ [fetch_input_req s]\<rparr> in
      case fetchInputByQuery axios s of
        Inl e \<Rightarrow> (s', False)
      | Inr ctxObjects \<Rightarrow> (s', False))"

definition notify2execution :: "'u fog_fn \<Rightarrow> 'u fogapp agent" where
  "notify2execution h = setAdminHandler handleAdminCmds (setNotifyHandler (app_notify h) init_agent)"

text \<open>
  The configuration given in the environment: the variable \<open>adminCfg\<close> may be absent, fail to parse, or hold
  a value; the broker URL of the Kubernetes branch is read from the variable \<open>brokerURL\<close>.
\<close>

datatype env_json = Absent | Unparsable | Parsed jval

definition configure :: "jval \<Rightarrow> 'u fogapp \<Rightarrow> 'u fogapp" where
  "configure v s = (case jelems v of None \<Rightarrow> s | Some commands \<Rightarrow> fst (handleCmds commands s))"

definition operation_config :: "env_json \<Rightarrow> jval \<Rightarrow> 'u fogapp \<Rightarrow> 'u fogapp" where
  "operation_config adminCfg env_brokerURL s =
     (case adminCfg of
        Absent \<Rightarrow>
          connectBroker (JObj (obj_of [(''command'', JStr ''CONNECT_BROKER''), (''url'', env_brokerURL)])) s
      | Unparsable \<Rightarrow> s
      | Parsed v \<Rightarrow> configure v s)"

definition runInOperationMode ::
  "axios \<Rightarrow> 'u fog_fn \<Rightarrow> env_json \<Rightarrow> jval \<Rightarrow> jval \<Rightarrow> 'u fogapp \<Rightarrow> 'u fogapp \<times> 'u fogapp agent" where
  "runInOperationMode axios h adminCfg env_brokerURL syncMode s =
     (let s' = operation_config adminCfg env_brokerURL s in
      if js_eq syncMode (JStr ''yes'') then (fst (query2execution axios h s'), init_agent)
      else (s', notify2execution h))"

definition runInTestMode :: "axios \<Rightarrow> 'u fog_fn \<Rightarrow> env_json \<Rightarrow> 'u fogapp \<Rightarrow> 'u fogapp" where
  "runInTestMode axios h config_json s =
     fst (query2execution axios h (case config_json of Parsed v \<Rightarrow> configure v s | _ \<Rightarrow> s))"

text \<open>The function shipped with the template does nothing with a received entity.\<close>

definition template_function :: "'u fog_fn" where
  "template_function contextEntity u =
     (if is_nullish contextEntity then ([], u, True)
      else case jget contextEntity ''attributes'' of
             None \<Rightarrow> ([], u, False)
           | Some a \<Rightarrow> ([], u, True))"

section \<open>Interfaces\<close>

interpretation cmds: stepwise handleCmd handleCmds
  by unfold_locales (auto split: prod.split bool.split)

interpretation calls: stepwise do_call do_calls
  by unfold_locales (auto split: prod.split bool.split)

lemmas fogapp_op_defs = setCorrelatorID_def connectBroker_def setReferenceURL_def setInputs_def setOutputs_def

section \<open>Properties\<close>

lemma do_call_frame:
  "ngsi10client (fst (do_call c s)) = ngsi10client s" "myCorrelatorID (fst (do_call c s)) = myCorrelatorID s"
  "brokerURL (fst (do_call c s)) = brokerURL s" "user (fst (do_call c s)) = user s"
  by (cases c; simp add: publish_def query_def subscribe_def split: option.split jval.split)+

lemma do_call_unconnected: "ngsi10client s = None \<Longrightarrow> do_call c s = (s, True)"
  by (cases c) (simp_all add: publish_def query_def subscribe_def)

lemma do_calls_unconnected: "ngsi10client s = None \<Longrightarrow> do_calls cs s = (s, True)"
  by (induction cs) (simp_all add: do_call_unconnected)

text \<open>
  Before the runtime has been connected to a broker, no notification makes it send a request,
  whatever the user's function does: its calls are dropped.
\<close>

theorem unconnected_sends_nothing:
  assumes "ngsi10client s = None"
  shows "sent (handleNotifyObjects h es s) = sent s \<and> ngsi10client (handleNotifyObjects h es s) = None"
  using assms
proof (induction es arbitrary: s)
  case Nil
  then show ?case by simp
next
  case (Cons e es)
  then have "fst (run_handler h e s) = s\<lparr>user := fst (snd (h e (user s)))\<rparr>"
    by (simp add: run_handler_def do_calls_unconnected split: prod.split)
  with Cons show ?case by simp
qed

theorem unconnected_sends_nothing_witness:
  "sent (handleNotifyObjects (\<lambda>e u. ([CallPublish e], u, True)) [JObj []] (init_fogapp (0::nat))) = [] \<and>
   ngsi10client (handleNotifyObjects (\<lambda>e u. ([CallPublish e], u, True)) [JObj []] (init_fogapp (0::nat))) = None"
  using unconnected_sends_nothing [of "init_fogapp (0::nat)" "\<lambda>e u. ([CallPublish e], u, True)" "[JObj []]"]
  by (simp add: init_fogapp_def)

text \<open>The requests a request log has gained, and what every gained request looks like.\<close>

definition app_request :: "jval \<Rightarrow> jval \<Rightarrow> http_req \<Rightarrow> bool" where
  "app_request u corr rq =
     (rq_method rq = ''post'' \<and>
      (rq_url rq = url_of u ''/queryContext'' \<or>
       (rq_url rq = url_of u ''/updateContext'' \<or> rq_url rq = url_of u ''/subscribeContext'') \<and>
       (is_nullish corr \<or> (\<exists>ps. rq_headers rq = JObj ps \<and> obj_get ps ''Fiware-Correlator'' = corr))))"

lemma myheaders_correlator:
  "is_nullish (myCorrelatorID s) \<or>
   (\<exists>ps. myheaders s = JObj ps \<and> obj_get ps ''Fiware-Correlator'' = myCorrelatorID s)"
  by (auto simp: myheaders_def js_literal js_access)

definition sends_from :: "jval \<Rightarrow> jval \<Rightarrow> http_req list \<Rightarrow> 'u fogapp \<Rightarrow> bool" where
  "sends_from u corr old s =
     (ngsi10client s = Some u \<and> myCorrelatorID s = corr \<and>
      (\<exists>new. sent s = old @ new \<and> list_all (app_request u corr) new))"

lemma sends_from_extend:
  "sends_from u corr old s \<Longrightarrow> app_request u corr rq \<Longrightarrow>
   ngsi10client s' = ngsi10client s \<Longrightarrow> myCorrelatorID s' = myCorrelatorID s \<Longrightarrow> sent s' = sent s @ [rq] \<Longrightarrow>
   sends_from u corr old s'"
  by (auto simp: sends_from_def)

lemma app_request_query: "app_request u corr (post_req (url_of u ''/queryContext'') hs d)"
  by (simp add: app_request_def post_req_def)

lemma app_request_headers:
  assumes "path = ''/updateContext'' \<or> path = ''/subscribeContext''"
  shows "app_request u (myCorrelatorID s) (post_req (url_of u path) (myheaders s) d)"
  using assms myheaders_correlator [of s] by (auto simp: app_request_def post_req_def)

lemma do_call_sends:
  assumes "sends_from u corr old s"
  shows "sends_from u corr old (fst (do_call c s))"
proof -
  have u: "ngsi10client s = Some u" and c: "corr = myCorrelatorID s"
    using assms by (auto simp: sends_from_def)
  note ext = sends_from_extend [OF assms]
  show ?thesis
    unfolding c using assms [unfolded c]
    by (cases c)
      (auto simp: publish_def query_def subscribe_def u split: option.split jval.split
        intro: ext [unfolded c] app_request_query app_request_headers)
qed

lemma run_handler_sends:
  "sends_from u corr old s \<Longrightarrow> sends_from u corr old (fst (run_handler h e s))"
proof -
  assume "sends_from u corr old s"
  then have s: "sends_from u corr old (s\<lparr>user := v\<rparr>)" for v by (simp add: sends_from_def)
  obtain cs v ok where h: "h e (user s) = (cs, v, ok)" by (cases "h e (user s)")
  have "sends_from u corr old (fst (do_calls cs (s\<lparr>user := v\<rparr>)))"
    by (rule calls.run_invariant) (simp_all add: do_call_sends s)
  then show ?thesis by (auto simp: run_handler_def h split: prod.split)
qed

lemma handleNotifyObjects_sends:
  "sends_from u corr old s \<Longrightarrow> sends_from u corr old (handleNotifyObjects h es s)"
  by (induction es arbitrary: s) (simp_all add: run_handler_sends)

text \<open>
  While a connected runtime handles a notification, every request it sends is a POST to the
  context API of the configured broker, and every update and subscription among them carries the
  correlator that was set for this task, which the brokers use to cut message loops.
\<close>

theorem notification_requests_carry_correlator:
  assumes "ngsi10client s = Some u"
  shows "\<exists>new. sent (handleNotifyObjects h es s) = sent s @ new \<and> list_all (app_request u (myCorrelatorID s)) new"
proof -
  have "sends_from u (myCorrelatorID s) (sent s) s"
    using assms by (simp add: sends_from_def)
  then have "sends_from u (myCorrelatorID s) (sent s) (handleNotifyObjects h es s)"
    by (rule handleNotifyObjects_sends)
  then show ?thesis by (auto simp: sends_from_def)
qed

theorem notification_requests_carry_correlator_witness:
  "\<exists>new. sent (handleNotifyObjects (\<lambda>e u. ([CallPublish e], u, True)) [ctx_object JNull [] []]
            ((init_fogapp ())\<lparr>ngsi10client := Some (JStr ''http://b''), myCorrelatorID := JStr ''c7''\<rparr>)) = [] @ new \<and>
     list_all (app_request (JStr ''http://b'') (JStr ''c7'')) new"
  using notification_requests_carry_correlator
    [of "(init_fogapp ())\<lparr>ngsi10client := Some (JStr ''http://b''), myCorrelatorID := JStr ''c7''\<rparr>" "JStr ''http://b''"
       "\<lambda>e u. ([CallPublish e], u, True)" "[ctx_object JNull [] []]"]
  by (simp add: init_fogapp_def)

section \<open>What a configuration does\<close>

definition cmd_name :: "jval \<Rightarrow> string option" where
  "cmd_name cmd = (case cmd of JObj ps \<Rightarrow> (case obj_get ps ''command'' of JStr n \<Rightarrow> Some n | _ \<Rightarrow> None) | _ \<Rightarrow> None)"

definition output_stream :: "jval \<Rightarrow> jval" where
  "output_stream cmd = JObj (obj_of [(''id'', field cmd ''id''), (''type'', field cmd ''type'')])"

lemma handleCmd_named:
  assumes "cmd_name cmd = Some n"
  shows "handleCmd cmd s =
    (if n = ''CONNECT_BROKER'' then connectBroker cmd s
     else if n = ''SET_INPUTS'' then setInputs cmd s
     else if n = ''SET_OUTPUTS'' then setOutputs cmd s
     else if n = ''SET_REFERENCE'' then setReferenceURL cmd s
     else if n = ''SET_CORRELATORID'' then setCorrelatorID cmd s
     else s, True)"
proof -
  obtain ps where "cmd = JObj ps" "obj_get ps ''command'' = JStr n"
    using assms by (auto simp: cmd_name_def split: jval.splits)
  then show ?thesis by (simp add: handleCmd_def js_eq_JStr)
qed

lemma handleCmd_outputs:
  assumes "cmd_name cmd = Some n"
  shows "outputs (fst (handleCmd cmd s)) = outputs s @ (if n = ''SET_OUTPUTS'' then [output_stream cmd] else [])"
    and "ngsi10client (fst (handleCmd cmd s)) =
           (if n = ''CONNECT_BROKER'' then Some (field cmd ''brokerURL'') else ngsi10client s)"
  by (simp_all add: handleCmd_named [OF assms] fogapp_op_defs output_stream_def)

lemma handleCmds_completes: "list_all (\<lambda>c. cmd_name c \<noteq> None) cmds \<Longrightarrow> snd (handleCmds cmds s)"
  by (subst cmds.run_all_ok) (auto simp: list_all_iff handleCmd_named)

text \<open>
  A configuration of named commands completes; it extends the outputs by exactly its
  \<open>SET_OUTPUTS\<close> commands, in order, and leaves the client of its last \<open>CONNECT_BROKER\<close> command; commands
  with an unknown name change nothing of these.
\<close>

theorem handleCmds_effect:
  assumes "list_all (\<lambda>c. cmd_name c \<noteq> None) cmds"
  shows "snd (handleCmds cmds s) \<and>
     outputs (fst (handleCmds cmds s)) =
       outputs s @ map output_stream (filter (\<lambda>c. cmd_name c = Some ''SET_OUTPUTS'') cmds) \<and>
     ngsi10client (fst (handleCmds cmds s)) =
       (case filter (\<lambda>c. cmd_name c = Some ''CONNECT_BROKER'') (rev cmds) of
          [] \<Rightarrow> ngsi10client s
        | c # _ \<Rightarrow> Some (field c ''brokerURL''))"
  using assms
proof (induction cmds arbitrary: s)
  case Nil
  then show ?case by simp
next
  case (Cons c cmds)
  then obtain n where n: "cmd_name c = Some n" by auto
  obtain s' where st: "handleCmd c s = (s', True)" by (simp add: handleCmd_named [OF n])
  note eff = handleCmd_outputs [OF n, of s, unfolded st, simplified]
  from Cons.prems have "list_all (\<lambda>c. cmd_name c \<noteq> None) cmds" by simp
  note IH = Cons.IH [OF this, of s']
  show ?case
    using IH by (auto simp: st eff n split: list.split)
qed

definition sample_cmds :: "jval list" where
  "sample_cmds =
     [JObj [(''command'', JStr ''CONNECT_BROKER''), (''brokerURL'', JStr ''http://b/ngsi10'')],
      JObj [(''command'', JStr ''SET_OUTPUTS''), (''id'', JStr ''Stream.1''), (''type'', JStr ''Out'')]]"

theorem handleCmds_effect_witness:
  "outputs (fst (handleCmds sample_cmds (init_fogapp ()))) =
     [JObj [(''id'', JStr ''Stream.1''), (''type'', JStr ''Out'')]] \<and>
   ngsi10client (fst (handleCmds sample_cmds (init_fogapp ()))) = Some (JStr ''http://b/ngsi10'')"
  using handleCmds_effect [of sample_cmds "init_fogapp ()"]
  by (simp add: sample_cmds_def cmd_name_def output_stream_def field_def init_fogapp_def js_access js_literal)

text \<open>
  Without an \<open>adminCfg\<close> (the Kubernetes deployment) the runtime is connected, whatever broker
  URL the environment gives, to the URL \<open>undefined\<close>: the command built there names its field \<open>url\<close> while
  \<open>connectBroker\<close> reads \<open>brokerURL\<close>; the first publication goes to \<open>undefined/updateContext\<close>.
\<close>

theorem kubernetes_config_loses_broker_url:
  assumes "JSONObject2CtxElement v = Some e"
  shows "sent (fst (publish v (operation_config Absent env_brokerURL (init_fogapp u)))) =
     [post_req ''undefined/updateContext'' (JObj [(''content-type'', JStr ''application/json'')])
        (update_req_body e ''UPDATE'')]"
  using assms
  by (simp add: operation_config_def connectBroker_def publish_def field_def url_of_def myheaders_def
      init_fogapp_def js_access js_literal)

theorem kubernetes_config_loses_broker_url_witness:
  "sent (fst (publish (ctx_object JNull [] []) (operation_config Absent (JStr ''http://broker:8070'') (init_fogapp ())))) =
     [post_req ''undefined/updateContext'' (JObj [(''content-type'', JStr ''application/json'')])
        (update_req_body (ctx_element JNull [] []) ''UPDATE'')]"
  by (rule kubernetes_config_loses_broker_url) (rule JSONObject2CtxElement_ctx_object)

lemma handleCmd_frame:
  "sent (fst (handleCmd c s)) = sent s" "user (fst (handleCmd c s)) = user s"
  by (simp_all add: handleCmd_def fogapp_op_defs split: option.split)

lemma configure_frame: "sent (configure v s) = sent s \<and> user (configure v s) = user s"
proof (cases "jelems v")
  case (Some commands)
  have "sent (fst (handleCmds commands s)) = sent s \<and> user (fst (handleCmds commands s)) = user s"
    by (rule cmds.run_invariant [where P = "\<lambda>t. sent t = sent s \<and> user t = user s"])
      (simp_all add: handleCmd_frame)
  with Some show ?thesis by (simp add: configure_def)
qed (simp add: configure_def)

text \<open>
  In the test mode (and in the synchronous operation mode, which runs the same code) the runtime
  applies its configuration, issues its input query and stops: whatever the configuration and whatever
  the broker answers, the user's function is never run and the query is the only request.
\<close>

theorem test_mode_never_runs_handler:
  "\<exists>q. sent (runInTestMode axios h cfg s) = sent s @ [q] \<and> rq_method q = ''post'' \<and>
       user (runInTestMode axios h cfg s) = user s"
  by (auto simp: runInTestMode_def query2execution_def Let_def configure_frame fetch_input_req_def post_req_def
      split: sum.split env_json.split)

text \<open>
  Once the asynchronous mode has installed its handlers, a JSON notification of well-formed
  context responses runs the user's function on exactly the successful elements, in order, and is then left
  to the final handler of the web framework, since no code of the agent answers it; a JSON array of named
  commands on the admin route configures the runtime and is answered with 200.
\<close>

theorem notify_mode_end_to_end:
  assumes "list_all (\<lambda>(c, eid, as, ms). canonical (named_props as) \<and> canonical (named_props ms)) xs"
    and "list_all (\<lambda>c. cmd_name c \<noteq> None) cmds"
  shows "agent_post readContextElements (notify2execution h) ''/notifyContext'' True
           (JObj [(''contextResponses'', JArr
              (map (\<lambda>(c, eid, as, ms). ctx_response (JNum c) (ctx_element eid as ms)) xs))]) s =
         (handleNotifyObjects h (map (\<lambda>(c, eid, as, ms). ctx_object eid as ms) (filter (\<lambda>(c, _). c = 200) xs)) s,
          Falls_Through) \<and>
         agent_post readContextElements (notify2execution h) ''/admin'' True (JArr cmds) s =
         ((fst (handleCmds cmds s))\<lparr>isConfigured := True\<rparr>, Response (JNum 200) (JObj []))"
proof -
  obtain s' where "handleCmds cmds s = (s', True)"
    using handleCmds_completes [OF assms(2), of s] by (cases "handleCmds cmds s") auto
  then show ?thesis
    using read_successful_elements [OF assms(1)]
    by (simp add: agent_post_def ensureType_def notify2execution_def setAdminHandler_def setNotifyHandler_def
        init_agent_def handleNotify_def handleAdmin_def app_notify_def handleAdminCmds_def finish_handler_def respond_def)
qed

theorem notify_mode_end_to_end_witness:
  "agent_post readContextElements (notify2execution (\<lambda>e u. ([CallPublish e], u, True))) ''/notifyContext'' True
     (JObj [(''contextResponses'', JArr
        (map (\<lambda>(c, eid, as, ms). ctx_response (JNum c) (ctx_element eid as ms)) [(200, JStr ''a'', [], [])]))]) (init_fogapp ()) =
   (handleNotifyObjects (\<lambda>e u. ([CallPublish e], u, True)) (map (\<lambda>(c, eid, as, ms). ctx_object eid as ms)
      (filter (\<lambda>(c, _). c = 200) [(200 :: int, JStr ''a'', [], [])])) (init_fogapp ()), Falls_Through) \<and>
   agent_post readContextElements (notify2execution (\<lambda>e u. ([CallPublish e], u, True))) ''/admin'' True (JArr sample_cmds) (init_fogapp ()) =
   ((fst (handleCmds sample_cmds (init_fogapp ())))\<lparr>isConfigured := True\<rparr>, Response (JNum 200) (JObj []))"
  by (rule notify_mode_end_to_end) (simp_all add: named_props_def sample_cmds_def cmd_name_def js_access)

end
