(* ===== verification/Fog_Template_LD.thy ===== *)
theory Fog_Template_LD
  imports Fog_Template
begin

text \<open>
  The runtime of a fog function for NGSI-LD, \<open>application/template/NGSILD/javascript/main.js\<close>.  It differs from the
  runtime for NGSI v1 in its client, whose constructor rejects a URL that is no string, in the shape of its
  requests, and in its one-time execution, which reaches the user's function.
\<close>

record 'u ldapp =
  ld_client :: "jval option"
  ld_brokerURL :: jval
  ld_outputs :: "jval list"
  ld_input :: props
  ld_referenceURL :: jval
  ld_subscriptionId :: jval
  ld_isConfigured :: bool
  ld_sent :: "http_req list"
  ld_user :: 'u

definition init_ldapp :: "'u \<Rightarrow> 'u ldapp" where
  "init_ldapp u = \<lparr>ld_client = None, ld_brokerURL = JUndef, ld_outputs = [], ld_input = [], ld_referenceURL = JUndef,
     ld_subscriptionId = JNull, ld_isConfigured = False, ld_sent = [], ld_user = u\<rparr>"

section \<open>Configuration commands\<close>

text \<open>\<open>new NGSILDclient(url)\<close>: the URL the client keeps; a value without the method \<open>includes\<close> throws.\<close>

fun new_NGSILDclient :: "jval \<Rightarrow> jval option" where
  "new_NGSILDclient (JStr url) = Some (JStr (NGSILDclient url))"
| "new_NGSILDclient (JArr xs) = (if JStr ''ngsi10'' \<in> set xs then None else Some (JArr xs))"
| "new_NGSILDclient v = None"

definition LD_connectBroker :: "jval \<Rightarrow> 'u ldapp \<Rightarrow> 'u ldapp step" where
  "LD_connectBroker cmd s =
     (let u = field cmd ''brokerURL''; s1 = s\<lparr>ld_brokerURL := u\<rparr> in
      case new_NGSILDclient u of None \<Rightarrow> (s1, False) | Some c \<Rightarrow> (s1\<lparr>ld_client := Some c\<rparr>, True))"

definition LD_setReferenceURL :: "jval \<Rightarrow> 'u ldapp \<Rightarrow> 'u ldapp" where
  "LD_setReferenceURL cmd s = s\<lparr>ld_referenceURL := field cmd ''url''\<rparr>"

definition LD_setInputs :: "jval \<Rightarrow> 'u ldapp \<Rightarrow> 'u ldapp" where
  "LD_setInputs cmd s =
     s\<lparr>ld_input := obj_put ''type'' (field cmd ''type'') (obj_put ''id'' (field cmd ''id'') (ld_input s))\<rparr>"

definition LD_setOutputs :: "jval \<Rightarrow> 'u ldapp \<Rightarrow> 'u ldapp" where
  "LD_setOutputs cmd s =
     s\<lparr>ld_outputs := ld_outputs s @ [JObj (obj_of [(''id'', field cmd ''id''), (''type'', field cmd ''type'')])]\<rparr>"

definition LD_handleCmd :: "jval \<Rightarrow> 'u ldapp \<Rightarrow> 'u ldapp step" where
  "LD_handleCmd commandObj s =
     (case jget commandObj ''command'' of
        None \<Rightarrow> (s, False)
      | Some c \<Rightarrow>
          (if js_eq c (JStr ''CONNECT_BROKER'') then LD_connectBroker commandObj s
           else if js_eq c (JStr ''SET_INPUTS'') then (LD_setInputs commandObj s, True)
           else if js_eq c (JStr ''SET_OUTPUTS'') then (LD_setOutputs commandObj s, True)
           else if js_eq c (JStr ''SET_REFERENCE'') then (LD_setReferenceURL commandObj s, True)
           else (s, True)))"

fun LD_handleCmds :: "jval list \<Rightarrow> 'u ldapp \<Rightarrow> 'u ldapp step" where
  "LD_handleCmds [] s = (s, True)"
| "LD_handleCmds (cmd # cmds) s =
     (case LD_handleCmd cmd s of (s', True) \<Rightarrow> LD_handleCmds cmds s' | (s', False) \<Rightarrow> (s', False))"

definition LD_handleAdmin :: "jval \<Rightarrow> jval list \<Rightarrow> 'u ldapp \<Rightarrow> 'u ldapp \<times> reply option" where
  "LD_handleAdmin body commands s =
     (case LD_handleCmds commands s of
        (s', False) \<Rightarrow> (s', None)
      | (s', True) \<Rightarrow> (s'\<lparr>ld_isConfigured := True\<rparr>, Some (Replied 200 (JObj []))))"

section \<open>The callbacks of the user's function\<close>

definition ld_get_req :: "string \<Rightarrow> jval \<Rightarrow> http_req" where
  "ld_get_req u hs = \<lparr>rq_method = ''get'', rq_url = u, rq_headers = hs, rq_params = JUndef, rq_data = JUndef\<rparr>"

definition LD_query :: "jval \<Rightarrow> 'u ldapp \<Rightarrow> 'u ldapp step" where
  "LD_query queryCtxReq s =
     (case ld_client s of
        None \<Rightarrow> (s, True)
      | Some u \<Rightarrow>
          (s\<lparr>ld_sent := ld_sent s @ [ld_get_req (url_of u (''/ngsi-ld/v1/entities/'' @ js_str queryCtxReq)) ld_plain_headers]\<rparr>, True))"

text \<open>\<open>subscribeCtxReq.notification.endpoint.uri = myReferenceURL\<close>\<close>

definition set_endpoint :: "jval \<Rightarrow> jval \<Rightarrow> jval option" where
  "set_endpoint uri rq =
     do { n \<leftarrow> jget rq ''notification'';
          e \<leftarrow> jget n ''endpoint'';
          (case (rq, n, e) of
             (JObj rs, JObj ns, JObj es) \<Rightarrow>
               Some (JObj (obj_put ''notification'' (JObj (obj_put ''endpoint'' (JObj (obj_put ''uri'' uri es)) ns)) rs))
           | (_, _, JObj es) \<Rightarrow> Some rq
           | (_, _, JArr xs) \<Rightarrow> Some rq
           | (_, _, JFun f) \<Rightarrow> Some rq
           | _ \<Rightarrow> None) }"

definition LD_subscribe :: "jval \<Rightarrow> 'u ldapp \<Rightarrow> 'u ldapp step" where
  "LD_subscribe subscribeCtxReq s =
     (case ld_client s of
        None \<Rightarrow> (s, True)
      | Some u \<Rightarrow>
          (case set_endpoint (ld_referenceURL s) subscribeCtxReq of
             None \<Rightarrow> (s, False)
           | Some rq \<Rightarrow> (s\<lparr>ld_sent := ld_sent s @ [post_req (url_of u ''/ngsi-ld/v1/subscriptions/'') ld_headers rq]\<rparr>, True)))"

text \<open>The callback of the subscription.\<close>

definition LD_on_subscribed :: "promise \<Rightarrow> 'u ldapp \<Rightarrow> 'u ldapp" where
  "LD_on_subscribed p s = (case p of Inl e \<Rightarrow> s | Inr subscriptionId \<Rightarrow> s\<lparr>ld_subscriptionId := subscriptionId\<rparr>)"

definition LD_publish :: "jval \<Rightarrow> 'u ldapp \<Rightarrow> 'u ldapp step" where
  "LD_publish ctxUpdate s =
     (case ld_client s of
        None \<Rightarrow> (s, True)
      | Some u \<Rightarrow>
          (case LD_JSONObject2CtxElement ctxUpdate of
             None \<Rightarrow> (s, False)
           | Some e \<Rightarrow>
               (s\<lparr>ld_sent := ld_sent s @ [post_req (url_of u ''/ngsi-ld/v1/entityOperations/upsert'') ld_headers (JArr [e])]\<rparr>, True)))"

fun LD_call :: "fog_call \<Rightarrow> 'u ldapp \<Rightarrow> 'u ldapp step" where
  "LD_call (CallPublish v) s = LD_publish v s"
| "LD_call (CallQuery v) s = LD_query v s"
| "LD_call (CallSubscribe v) s = LD_subscribe v s"

fun LD_calls :: "fog_call list \<Rightarrow> 'u ldapp \<Rightarrow> 'u ldapp step" where
  "LD_calls [] s = (s, True)"
| "LD_calls (c # cs) s = (case LD_call c s of (s', True) \<Rightarrow> LD_calls cs s' | (s', False) \<Rightarrow> (s', False))"

definition LD_run_handler :: "'u fog_fn \<Rightarrow> jval \<Rightarrow> 'u ldapp \<Rightarrow> 'u ldapp step" where
  "LD_run_handler h e s =
     (case h e (ld_user s) of
        (cs, u', ok) \<Rightarrow> (case LD_calls cs (s\<lparr>ld_user := u'\<rparr>) of (s', done) \<Rightarrow> (s', done \<and> ok)))"

section \<open>Notifications and modes of execution\<close>

fun LD_handleNotify :: "'u fog_fn \<Rightarrow> jval list \<Rightarrow> 'u ldapp \<Rightarrow> 'u ldapp" where
  "LD_handleNotify h [] s = s"
| "LD_handleNotify h (e # es) s = LD_handleNotify h es (fst (LD_run_handler h e s))"

definition LD_app_notify :: "'u fog_fn \<Rightarrow> 'u ldapp notify_fn" where
  "LD_app_notify h body ctxObjects s = (LD_handleNotify h ctxObjects s, Some NoReply)"

definition LD_fetch_req :: "'u ldapp \<Rightarrow> http_req" where
  "LD_fetch_req s =
     ld_get_req (url_of (ld_brokerURL s) (''/ngsi-ld/v1/entities/'' @ js_str (obj_get (ld_input s) ''id'')))
       (JObj [(''Accept'', JStr ''application/json''), (''Content-Type'', JStr ''application/ld+json'')])"

definition LD_fetchInputByQuery :: "axios \<Rightarrow> 'u ldapp \<Rightarrow> promise" where
  "LD_fetchInputByQuery axios s =
     axios_200 axios (LD_fetch_req s) (\<lambda>ctxElements. Some (JArr [LD_CtxElement2JSONObject ctxElements]))"

text \<open>\<open>query2execution\<close>: an exception, also one of the user's function, ends the loop.\<close>

fun LD_execute :: "'u fog_fn \<Rightarrow> jval list \<Rightarrow> 'u ldapp \<Rightarrow> 'u ldapp step" where
  "LD_execute h [] s = (s, True)"
| "LD_execute h (e # es) s = (case LD_run_handler h e s of (s', True) \<Rightarrow> LD_execute h es s' | (s', False) \<Rightarrow> (s', False))"

definition LD_query2execution :: "axios \<Rightarrow> 'u fog_fn \<Rightarrow> 'u ldapp \<Rightarrow> 'u ldapp step" where
  "LD_query2execution axios h s =
     (let s' = s\<lparr>ld_sent := ld_sent s @ [LD_fetch_req s]\<rparr> in
      case LD_fetchInputByQuery axios s of
        Inl e \<Rightarrow> (s', False)
      | Inr ctxObjects \<Rightarrow>
          (case jelems ctxObjects of None \<Rightarrow> (s', False) | Some es \<Rightarrow> LD_execute h es s'))"

definition LD_notify2execution :: "'u fog_fn \<Rightarrow> 'u ldapp agent" where
  "LD_notify2execution h = setAdminHandler LD_handleAdmin (setNotifyHandler (LD_app_notify h) init_agent)"

definition LD_configure :: "jval \<Rightarrow> 'u ldapp \<Rightarrow> 'u ldapp" where
  "LD_configure v s = (case jelems v of None \<Rightarrow> s | Some commands \<Rightarrow> fst (LD_handleCmds commands s))"

text \<open>
  The configuration in operation mode.  Without \<open>adminCfg\<close> (the Kubernetes deployment) the command that is built
  names its field \<open>url\<close>, and \<open>connectBroker\<close> runs outside any \<open>try\<close>: \<open>False\<close> is an exception that ends the program.
\<close>

definition LD_operation_config :: "env_json \<Rightarrow> jval \<Rightarrow> 'u ldapp \<Rightarrow> 'u ldapp step" where
  "LD_operation_config adminCfg env_brokerURL s =
     (case adminCfg of
        Absent \<Rightarrow> LD_connectBroker (JObj (obj_of [(''command'', JStr ''CONNECT_BROKER''), (''url'', env_brokerURL)])) s
      | Unparsable \<Rightarrow> (s, True)
      | Parsed v \<Rightarrow> (LD_configure v s, True))"

definition LD_runInOperationMode ::
  "axios \<Rightarrow> 'u fog_fn \<Rightarrow> env_json \<Rightarrow> jval \<Rightarrow> jval \<Rightarrow> 'u ldapp \<Rightarrow> ('u ldapp \<times> 'u ldapp agent) option" where
  "LD_runInOperationMode axios h adminCfg env_brokerURL syncMode s =
     (case LD_operation_config adminCfg env_brokerURL s of
        (s', False) \<Rightarrow> None
      | (s', True) \<Rightarrow>
          Some (if js_eq syncMode (JStr ''yes'') then (fst (LD_query2execution axios h s'), init_agent)
                else (s', LD_notify2execution h)))"

definition LD_runInTestMode :: "axios \<Rightarrow> 'u fog_fn \<Rightarrow> env_json \<Rightarrow> 'u ldapp \<Rightarrow> 'u ldapp" where
  "LD_runInTestMode axios h config_json s =
     fst (LD_query2execution axios h (case config_json of Parsed v \<Rightarrow> LD_configure v s | _ \<Rightarrow> s))"

text \<open>The function shipped with the template publishes what it receives.\<close>

definition LD_template_function :: "'u fog_fn" where
  "LD_template_function contextEntity u = (if is_nullish contextEntity then [] else [CallPublish contextEntity], u, True)"

section \<open>Properties\<close>

interpretation ld_cmds: stepwise LD_handleCmd LD_handleCmds
  by unfold_locales (auto split: prod.split bool.split)

interpretation ld_calls: stepwise LD_call LD_calls
  by unfold_locales (auto split: prod.split bool.split)

interpretation ld_exec: stepwise "LD_run_handler h" "LD_execute h" for h
  by unfold_locales (auto split: prod.split bool.split)

text \<open>
  Without an \<open>adminCfg\<close> the NGSI-LD runtime never starts, whatever broker URL the environment gives: the
  constructor of the client is called with \<open>undefined\<close> and throws.
\<close>

theorem LD_kubernetes_start_fails:
  "LD_runInOperationMode axios h Absent env_brokerURL syncMode s = None"
  by (simp add: LD_runInOperationMode_def LD_operation_config_def LD_connectBroker_def field_def js_access js_literal Let_def)

text \<open>
  After a \<open>CONNECT_BROKER\<close> command with the URL of the NGSI10 endpoint of a broker, which is what the
  engine sends, publications go to the base of that URL while the one-time execution asks for its input entity
  under the full URL, on which the broker offers no NGSI-LD interface.
\<close>

theorem LD_one_time_execution_asks_the_wrong_url:
  assumes "LD_JSONObject2CtxElement v = Some e"
  shows "let s = fst (LD_handleCmd (JObj [(''command'', JStr ''CONNECT_BROKER''), (''brokerURL'', JStr (base @ ''/ngsi10''))]) (init_ldapp u))
         in map rq_url (ld_sent (fst (LD_publish v s))) = [base @ ''/ngsi-ld/v1/entityOperations/upsert''] \<and>
            rq_url (LD_fetch_req (LD_setInputs (JObj [(''id'', JStr i), (''type'', JStr t)]) s)) =
              base @ ''/ngsi10/ngsi-ld/v1/entities/'' @ i"
proof -
  have "NGSILDclient (base @ ''/ngsi10'') = base"
    using strip_last_segment_append [of "''ngsi10''" base] str_includes_segment [of "base @ ''/''" "''ngsi10''" "[]"]
    by (simp add: NGSILDclient_def)
  with assms show ?thesis
    by (simp add: LD_handleCmd_def LD_connectBroker_def LD_publish_def LD_fetch_req_def ld_get_req_def post_req_def LD_setInputs_def
        init_ldapp_def field_def url_of_def js_access js_eq_JStr Let_def)
qed

theorem LD_one_time_execution_asks_the_wrong_url_witness:
  "let s = fst (LD_handleCmd (JObj [(''command'', JStr ''CONNECT_BROKER''), (''brokerURL'', JStr (''http://b'' @ ''/ngsi10''))]) (init_ldapp ()))
   in map rq_url (ld_sent (fst (LD_publish (JObj [(''id'', JStr ''e''), (''type'', JStr ''T'')]) s))) = [''http://b'' @ ''/ngsi-ld/v1/entityOperations/upsert''] \<and>
      rq_url (LD_fetch_req (LD_setInputs (JObj [(''id'', JStr ''e''), (''type'', JStr ''T'')]) s)) = ''http://b'' @ ''/ngsi10/ngsi-ld/v1/entities/'' @ ''e''"
  by (rule LD_one_time_execution_asks_the_wrong_url [where e = "JObj [(''id'', JStr ''e''), (''type'', JStr ''T'')]"])
    (simp add: LD_JSONObject2CtxElement_def system_keys_def js_access js_literal)

lemma LD_template_publishes:
  assumes "ld_client s = Some c" and "\<not> is_nullish e" and "LD_JSONObject2CtxElement e = Some e'"
  shows "LD_run_handler LD_template_function e s =
    (s\<lparr>ld_sent := ld_sent s @ [post_req (url_of c ''/ngsi-ld/v1/entityOperations/upsert'') ld_headers (JArr [e'])]\<rparr>, True)"
  using assms by (simp add: LD_run_handler_def LD_template_function_def LD_publish_def)

text \<open>
  The NGSI-LD template, connected to a broker, answers a notification of entities by publishing each of
  them once, in the order of the notification, without the attributes that the broker manages itself.
\<close>

theorem LD_template_echoes_notification:
  assumes "ld_client s = Some c" and "list_all (\<lambda>ps. canonical ps) es"
  shows "agent_post LD_readContextElements (LD_notify2execution LD_template_function) ''/notifyContext'' True
           (JObj [(''type'', JStr ''Notification''), (''data'', JArr (map JObj es))]) s =
     (s\<lparr>ld_sent := ld_sent s @ map (\<lambda>ps. post_req (url_of c ''/ngsi-ld/v1/entityOperations/upsert'') ld_headers
          (JArr [JObj (obj_of ([(''id'', obj_get ps ''id''), (''type'', obj_get ps ''type'')] @ filter (\<lambda>(k, v). k \<notin> set system_keys) ps))])) es\<rparr>,
      Falls_Through)"
proof -
  have "LD_handleNotify LD_template_function (map JObj es) t =
      t\<lparr>ld_sent := ld_sent t @ map (\<lambda>ps. post_req (url_of c ''/ngsi-ld/v1/entityOperations/upsert'') ld_headers
          (JArr [JObj (obj_of ([(''id'', obj_get ps ''id''), (''type'', obj_get ps ''type'')] @ filter (\<lambda>(k, v). k \<notin> set system_keys) ps))])) es\<rparr>"
    if "ld_client t = Some c" for t
    using that
  proof (induction es arbitrary: t)
    case (Cons ps es)
    then show ?case by (simp add: LD_template_publishes LD_JSONObject2CtxElement_def)
  qed simp
  moreover have "LD_readContextElements (JObj [(''type'', JStr ''Notification''), (''data'', JArr (map JObj es))]) = Some (map JObj es)"
    using assms(2) by (auto simp: LD_readContextElements_def LD_CtxElement2JSONObject_def obj_of_canonical list_all_iff js_access js_eq_JStr)
  ultimately show ?thesis using assms(1)
    by (simp add: agent_post_def ensureType_def LD_notify2execution_def setAdminHandler_def setNotifyHandler_def init_agent_def
        handleNotify_def LD_app_notify_def finish_handler_def respond_def)
qed

theorem LD_template_echoes_notification_witness:
  "map rq_url (ld_sent (fst (agent_post LD_readContextElements (LD_notify2execution LD_template_function) ''/notifyContext'' True
     (JObj [(''type'', JStr ''Notification''), (''data'', JArr (map JObj [[(''id'', JStr ''e1'')], [(''id'', JStr ''e2'')]]))])
     ((init_ldapp ())\<lparr>ld_client := Some (JStr ''http://b'')\<rparr>)))) =
   [''http://b/ngsi-ld/v1/entityOperations/upsert'', ''http://b/ngsi-ld/v1/entityOperations/upsert'']"
  using LD_template_echoes_notification [of "(init_ldapp ())\<lparr>ld_client := Some (JStr ''http://b'')\<rparr>" "JStr ''http://b''"
      "[[(''id'', JStr ''e1'')], [(''id'', JStr ''e2'')]]"]
  by (simp add: canonical_plain plain_def is_digit_def init_ldapp_def post_req_def url_of_def)

end
