(* ===== verification/Window_Operators.thy ===== *)
theory Window_Operators
  imports NGSI_Agent
begin

text \<open>
  Two operators that aggregate a stream: \<open>application/operator/counter/main.js\<close>, which counts the entities received in
  consecutive time windows, and \<open>application/operator/sum/main.js\<close>, which adds the latest values of all entities.
  The time that \<open>Date.now()\<close> returns is an argument of the functions that read it.
\<close>

section \<open>The runtime of an operator\<close>

text \<open>
  The variables both programs share; \<open>'x\<close> holds the variables of the aggregation.  \<open>ops_sent\<close> is the sequence of
  requests issued.
\<close>

record 'x opapp =
  ops_client :: "jval option"
  ops_outputs :: "jval list"
  ops_configured :: bool
  ops_sent :: "http_req list"
  ops_data :: 'x

definition init_opapp :: "'x \<Rightarrow> 'x opapp" where
  "init_opapp x = \<lparr>ops_client = None, ops_outputs = [], ops_configured = False, ops_sent = [], ops_data = x\<rparr>"

text \<open>A command is known to be no \<open>null\<close> when its fields are read.\<close>

definition cmd_field :: "jval \<Rightarrow> string \<Rightarrow> jval" where
  "cmd_field v k = (case jget v k of Some w \<Rightarrow> w | None \<Rightarrow> JUndef)"

definition ops_connectBroker :: "jval \<Rightarrow> 'x opapp \<Rightarrow> 'x opapp" where
  "ops_connectBroker cmd s = s\<lparr>ops_client := Some (cmd_field cmd ''brokerURL'')\<rparr>"

definition ops_setOutputs :: "jval \<Rightarrow> 'x opapp \<Rightarrow> 'x opapp" where
  "ops_setOutputs cmd s =
     s\<lparr>ops_outputs := ops_outputs s @ [JObj [(''id'', cmd_field cmd ''id''), (''type'', cmd_field cmd ''type'')]]\<rparr>"

text \<open>The \<open>switch\<close> compares strictly.\<close>

definition ops_handleCmd :: "jval \<Rightarrow> 'x opapp \<Rightarrow> 'x opapp step" where
  "ops_handleCmd commandObj s =
     (case jget commandObj ''command'' of
        None \<Rightarrow> (s, False)
      | Some c \<Rightarrow>
          (if c = JStr ''CONNECT_BROKER'' then ops_connectBroker commandObj s
           else if c = JStr ''SET_OUTPUTS'' then ops_setOutputs commandObj s
           else s, True))"

fun ops_handleCmds :: "jval list \<Rightarrow> 'x opapp \<Rightarrow> 'x opapp step" where
  "ops_handleCmds [] s = (s, True)"
| "ops_handleCmds (c # cs) s = (case ops_handleCmd c s of (s', True) \<Rightarrow> ops_handleCmds cs s' | (s', False) \<Rightarrow> (s', False))"

definition ops_handleAdmin :: "jval list \<Rightarrow> 'x opapp \<Rightarrow> 'x opapp \<times> reply option" where
  "ops_handleAdmin commands s =
     (case ops_handleCmds commands s of
        (s', False) \<Rightarrow> (s', None)
      | (s', True) \<Rightarrow> (s'\<lparr>ops_configured := True\<rparr>, Some (Replied 200 (JObj []))))"

text \<open>The statements at the start of the program: \<open>None\<close> is an \<open>adminCfg\<close> that cannot be parsed.\<close>

definition ops_start :: "jval option \<Rightarrow> 'x opapp \<Rightarrow> 'x opapp" where
  "ops_start adminCfg s =
     (case Option.bind adminCfg jelems of
        None \<Rightarrow> s
      | Some commands \<Rightarrow>
          (case ops_handleCmds commands s of (s', ok) \<Rightarrow> if ok then s'\<lparr>ops_configured := True\<rparr> else s'))"

text \<open>
  \<open>updateContext(stat)\<close> of both programs; \<open>name\<close> is the attribute with the aggregated value.  It throws when no
  output stream or no client is configured.
\<close>

definition stat_entity :: "string \<Rightarrow> jval \<Rightarrow> int \<Rightarrow> jval \<Rightarrow> jval" where
  "stat_entity name out time v =
     JObj [(''entityId'', JObj [(''id'', cmd_field out ''id''), (''type'', cmd_field out ''type''), (''isPattern'', JBool False)]),
       (''attributes'', JObj [(''time'', JObj [(''type'', JStr ''integer''), (''value'', JNum time)]),
                            (name, JObj [(''type'', JStr ''integer''), (''value'', v)])])]"

definition ops_updateContext :: "string \<Rightarrow> int \<Rightarrow> jval \<Rightarrow> 'x opapp \<Rightarrow> 'x opapp step" where
  "ops_updateContext name time v s =
     (if \<not> ops_configured s then (s, True)
      else case (ops_outputs s, ops_client s) of
             (out # _, Some u) \<Rightarrow>
               (case JSONObject2CtxElement (stat_entity name out time v) of
                  None \<Rightarrow> (s, False)
                | Some e \<Rightarrow>
                    (s\<lparr>ops_sent := ops_sent s @ [post_req (js_str u @ ''/updateContext'') JUndef (update_req_body e ''UPDATE'')]\<rparr>, True))
           | _ \<Rightarrow> (s, False))"

section \<open>The counter\<close>

definition tInterval :: int where
  "tInterval = 5000"

record window =
  tBegin :: int
  totalNumAnomaly :: int

text \<open>
  The program is shared by several operators, which differ in how they publish the statistics of a window:
  \<open>upd\<close> is the function \<open>updateContext\<close> for the begin of the window and its count.
\<close>

type_synonym stat_update = "int \<Rightarrow> jval \<Rightarrow> window opapp \<Rightarrow> window opapp step"

definition close_window :: "stat_update \<Rightarrow> int \<Rightarrow> window opapp \<Rightarrow> window opapp step" where
  "close_window upd n s =
     (case upd (tBegin (ops_data s)) (JNum (totalNumAnomaly (ops_data s))) s of
        (s', False) \<Rightarrow> (s', False)
      | (s', True) \<Rightarrow> (s'\<lparr>ops_data := \<lparr>tBegin = tBegin (ops_data s') + tInterval, totalNumAnomaly = n\<rparr>\<rparr>, True))"

definition onTimer :: "stat_update \<Rightarrow> int \<Rightarrow> window opapp \<Rightarrow> window opapp step" where
  "onTimer upd now s = (if now - tBegin (ops_data s) \<ge> tInterval then close_window upd 0 s else (s, True))"

definition counter :: "stat_update \<Rightarrow> int \<Rightarrow> window opapp \<Rightarrow> window opapp step" where
  "counter upd now s =
     (if now - tBegin (ops_data s) \<ge> tInterval then close_window upd 1 s
      else (s\<lparr>ops_data := (ops_data s)\<lparr>totalNumAnomaly := totalNumAnomaly (ops_data s) + 1\<rparr>\<rparr>, True))"

text \<open>\<open>handleNotify\<close>: one call of \<open>counter\<close> per entity, each at its own time.\<close>

fun counter_handleNotify :: "stat_update \<Rightarrow> int list \<Rightarrow> window opapp \<Rightarrow> window opapp step" where
  "counter_handleNotify upd [] s = (s, True)"
| "counter_handleNotify upd (now # ts) s =
     (case counter upd now s of (s', True) \<Rightarrow> counter_handleNotify upd ts s' | (s', False) \<Rightarrow> (s', False))"

datatype stream_event = Arrival int | Timer int

fun counter_event :: "stat_update \<Rightarrow> stream_event \<Rightarrow> window opapp \<Rightarrow> window opapp step" where
  "counter_event upd (Arrival now) s = counter upd now s"
| "counter_event upd (Timer now) s = onTimer upd now s"

fun counter_events :: "stat_update \<Rightarrow> stream_event list \<Rightarrow> window opapp \<Rightarrow> window opapp step" where
  "counter_events upd [] s = (s, True)"
| "counter_events upd (e # es) s = (case counter_event upd e s of (s', True) \<Rightarrow> counter_events upd es s' | (s', False) \<Rightarrow> (s', False))"

text \<open>\<open>updateContext\<close> of the counter.\<close>

definition counter_updateContext :: stat_update where
  "counter_updateContext time n s = ops_updateContext ''counter'' time n s"

interpretation op_cmds: stepwise ops_handleCmd ops_handleCmds
  by unfold_locales (auto split: prod.split bool.split)

interpretation ctr: stepwise "counter_event upd" "counter_events upd" for upd
  by unfold_locales (auto split: prod.split bool.split)

interpretation ctr_notify: stepwise "counter upd" "counter_handleNotify upd" for upd
  by unfold_locales (auto split: prod.split bool.split)

section \<open>The sum\<close>

text \<open>\<open>acc + v\<close>: \<open>None\<close> is \<open>NaN\<close>, the sum of a number and \<open>undefined\<close>.\<close>

fun js_plus :: "jval option \<Rightarrow> jval \<Rightarrow> jval option" where
  "js_plus (Some (JNum m)) (JNum n) = Some (JNum (m + n))"
| "js_plus (Some (JNum m)) (JBool b) = Some (JNum (m + (if b then 1 else 0)))"
| "js_plus (Some (JNum m)) JNull = Some (JNum m)"
| "js_plus (Some (JNum m)) JUndef = None"
| "js_plus (Some acc) v = Some (JStr (js_str acc @ js_str v))"
| "js_plus None (JNum n) = None"
| "js_plus None (JBool b) = None"
| "js_plus None JNull = None"
| "js_plus None JUndef = None"
| "js_plus None v = Some (JStr (''NaN'' @ js_str v))"

definition sum_total :: "props \<Rightarrow> jval option" where
  "sum_total records = fold (\<lambda>(eid, v) acc. js_plus acc v) records (Some (JNum 0))"

text \<open>\<open>NaN\<close> is \<open>null\<close> in the body of the request.\<close>

definition sum_updateContext :: "int \<Rightarrow> jval option \<Rightarrow> props opapp \<Rightarrow> props opapp step" where
  "sum_updateContext time ttl s = ops_updateContext ''sum'' time (case ttl of Some v \<Rightarrow> v | None \<Rightarrow> JNull) s"

definition sum_onTimer :: "int \<Rightarrow> props opapp \<Rightarrow> props opapp step" where
  "sum_onTimer now s = sum_updateContext now (sum_total (ops_data s)) s"

definition sum_entity :: "jval \<Rightarrow> props opapp \<Rightarrow> props opapp step" where
  "sum_entity msg s =
     (case do { e \<leftarrow> jget msg ''entityId''; eid \<leftarrow> jget e ''id'';
                as \<leftarrow> jget msg ''attributes''; n \<leftarrow> jget as ''num''; v \<leftarrow> jget n ''value''; Some (eid, v) } of
        None \<Rightarrow> (s, False)
      | Some (eid, v) \<Rightarrow> (s\<lparr>ops_data := obj_put (js_str eid) v (ops_data s)\<rparr>, True))"

fun sum_handleNotify :: "jval list \<Rightarrow> props opapp \<Rightarrow> props opapp step" where
  "sum_handleNotify [] s = (s, True)"
| "sum_handleNotify (m # ms) s = (case sum_entity m s of (s', True) \<Rightarrow> sum_handleNotify ms s' | (s', False) \<Rightarrow> (s', False))"

text \<open>What reaches the program: commands of the engine, notifications and its timer.\<close>

datatype sum_input = SumAdmin "jval list" | SumNotify "jval list" | SumTimer int

fun sum_step :: "sum_input \<Rightarrow> props opapp \<Rightarrow> props opapp step" where
  "sum_step (SumAdmin commands) s = (case ops_handleAdmin commands s of (s', r) \<Rightarrow> (s', r \<noteq> None))"
| "sum_step (SumNotify ctxObjects) s = sum_handleNotify ctxObjects s"
| "sum_step (SumTimer now) s = sum_onTimer now s"

interpretation sums: stepwise sum_entity sum_handleNotify
  by unfold_locales (auto split: prod.split bool.split)

section \<open>Properties of the counter\<close>

definition stat_request :: "string \<Rightarrow> jval \<Rightarrow> jval \<Rightarrow> int \<Rightarrow> int \<Rightarrow> http_req" where
  "stat_request name u out time n =
     post_req (js_str u @ ''/updateContext'') JUndef
       (update_req_body (ctx_element (JObj [(''id'', cmd_field out ''id''), (''type'', cmd_field out ''type''), (''isPattern'', JBool False)])
          [(''time'', JStr ''integer'', JNum time), (name, JStr ''integer'', JNum n)] []) ''UPDATE'')"

lemma ops_updateContext_configured:
  assumes "ops_configured s" and "ops_client s = Some u" and "ops_outputs s = out # os" and "name \<noteq> ''__proto__''"
  shows "ops_updateContext name t (JNum n) s = (s\<lparr>ops_sent := ops_sent s @ [stat_request name u out t n]\<rparr>, True)"
proof -
  have "JSONObject2CtxElement (stat_entity name out t (JNum n)) =
      Some (ctx_element (JObj [(''id'', cmd_field out ''id''), (''type'', cmd_field out ''type''), (''isPattern'', JBool False)])
          [(''time'', JStr ''integer'', JNum t), (name, JStr ''integer'', JNum n)] [])"
    by (simp add: JSONObject2CtxElement_def stat_entity_def js_access js_literal ctx_element_def named_elems_def)
  with assms show ?thesis by (simp add: ops_updateContext_def stat_request_def)
qed

definition counter_request :: "jval \<Rightarrow> jval \<Rightarrow> int \<Rightarrow> int \<Rightarrow> http_req" where
  "counter_request u out time n = stat_request ''counter'' u out time n"

text \<open>What is published is a sequence of windows, each with the number of entities counted in it.\<close>

definition windows :: "(int \<Rightarrow> int \<Rightarrow> http_req) \<Rightarrow> int \<Rightarrow> int list \<Rightarrow> http_req list" where
  "windows request t0 ns = map (\<lambda>i. request (t0 + tInterval * int i) (ns ! i)) [0..<length ns]"

lemma windows_snoc: "windows request t0 (ns @ [n]) = windows request t0 ns @ [request (t0 + tInterval * int (length ns)) n]"
  by (simp add: windows_def nth_append)

fun entities :: "stream_event list \<Rightarrow> nat" where
  "entities [] = 0"
| "entities (Arrival now # es) = Suc (entities es)"
| "entities (Timer now # es) = entities es"

text \<open>
  What the count of a program relies on: as long as the program is set up, which neither the count nor a publication
  changes, \<open>updateContext\<close> sends one request with the begin of the window and its count.
\<close>

locale window_publisher =
  fixes upd :: stat_update and set_up :: "window opapp \<Rightarrow> bool" and request :: "int \<Rightarrow> int \<Rightarrow> http_req"
  assumes publishes: "set_up s \<Longrightarrow> upd t (JNum n) s = (s\<lparr>ops_sent := ops_sent s @ [request t n]\<rparr>, True)"
    and set_up_data: "set_up (s\<lparr>ops_data := d\<rparr>) = set_up s"
    and set_up_sent: "set_up (s\<lparr>ops_sent := rs\<rparr>) = set_up s"
begin

definition counter_inv :: "int \<Rightarrow> nat \<Rightarrow> window opapp \<Rightarrow> bool" where
  "counter_inv t0 seen s =
     (set_up s \<and>
      (\<exists>ns. ops_sent s = windows request t0 ns \<and> tBegin (ops_data s) = t0 + tInterval * int (length ns) \<and>
            sum_list ns + totalNumAnomaly (ops_data s) = int seen \<and> list_all (\<lambda>n. 0 \<le> n) ns \<and> 0 \<le> totalNumAnomaly (ops_data s)))"

lemma close_window_inv:
  assumes "counter_inv t0 seen s" and "0 \<le> n"
  shows "\<exists>s'. close_window upd n s = (s', True) \<and> counter_inv t0 (seen + nat n) s'"
proof -
  obtain ns where ns: "set_up s" "ops_sent s = windows request t0 ns" "tBegin (ops_data s) = t0 + tInterval * int (length ns)"
      "sum_list ns + totalNumAnomaly (ops_data s) = int seen" "list_all (\<lambda>n. 0 \<le> n) ns" "0 \<le> totalNumAnomaly (ops_data s)"
    using assms(1) by (auto simp: counter_inv_def)
  let ?s = "s\<lparr>ops_sent := ops_sent s @ [request (tBegin (ops_data s)) (totalNumAnomaly (ops_data s))],
      ops_data := \<lparr>tBegin = tBegin (ops_data s) + tInterval, totalNumAnomaly = n\<rparr>\<rparr>"
  have "close_window upd n s = (?s, True)" using publishes [OF ns(1)] by (simp add: close_window_def)
  moreover have "ops_sent ?s = windows request t0 (ns @ [totalNumAnomaly (ops_data s)])"
    using ns(2,3) by (simp add: windows_snoc)
  moreover have "sum_list (ns @ [totalNumAnomaly (ops_data s)]) + totalNumAnomaly (ops_data ?s) = int (seen + nat n)"
    using ns(4) assms(2) by simp
  moreover have "tBegin (ops_data ?s) = t0 + tInterval * int (length (ns @ [totalNumAnomaly (ops_data s)]))"
    using ns(3) by (simp add: distrib_left)
  ultimately show ?thesis using assms(2) ns(1,5,6) unfolding counter_inv_def
    by (intro exI [of _ ?s] conjI exI [of _ "ns @ [totalNumAnomaly (ops_data s)]"]) (simp_all add: set_up_data set_up_sent)
qed

lemma counter_event_inv:
  assumes "counter_inv t0 seen s"
  shows "\<exists>s'. counter_event upd e s = (s', True) \<and> counter_inv t0 (seen + entities [e]) s'"
proof (cases e)
  case (Arrival now)
  show ?thesis
  proof (cases "now - tBegin (ops_data s) \<ge> tInterval")
    case True
    then show ?thesis using close_window_inv [OF assms, of 1] Arrival by (simp add: counter_def)
  next
    case False
    let ?s = "s\<lparr>ops_data := (ops_data s)\<lparr>totalNumAnomaly := totalNumAnomaly (ops_data s) + 1\<rparr>\<rparr>"
    have "counter_inv t0 (Suc seen) ?s"
      using assms unfolding counter_inv_def by (fastforce simp: set_up_data)
    with False Arrival show ?thesis by (simp add: counter_def)
  qed
next
  case (Timer now)
  then show ?thesis using assms close_window_inv [OF assms, of 0] by (simp add: onTimer_def)
qed

lemma counter_events_inv:
  "counter_inv t0 seen s \<Longrightarrow> \<exists>t. counter_events upd es s = (t, True) \<and> counter_inv t0 (seen + entities es) t"
proof (induction es arbitrary: s seen)
  case (Cons e es)
  obtain s1 where s1: "counter_event upd e s = (s1, True)" "counter_inv t0 (seen + entities [e]) s1"
    using counter_event_inv [OF Cons.prems] by blast
  from Cons.IH [OF s1(2)] s1(1) show ?case by (cases e) simp_all
qed simp

lemma counts_every_entity:
  assumes "set_up s" and "ops_sent s = []" and "ops_data s = \<lparr>tBegin = t0, totalNumAnomaly = 0\<rparr>"
  shows "\<exists>t ns. counter_events upd es s = (t, True) \<and> ops_sent t = windows request t0 ns \<and>
     tBegin (ops_data t) = t0 + tInterval * int (length ns) \<and>
     sum_list ns + totalNumAnomaly (ops_data t) = int (entities es)"
proof -
  have "counter_inv t0 0 s"
    using assms unfolding counter_inv_def windows_def by (intro conjI exI [of _ "[]"]) simp_all
  from counter_events_inv [OF this, of es] show ?thesis unfolding counter_inv_def by fastforce
qed

end

definition set_up :: "jval \<Rightarrow> jval \<Rightarrow> window opapp \<Rightarrow> bool" where
  "set_up u out s = (ops_configured s \<and> ops_client s = Some u \<and> (\<exists>os. ops_outputs s = out # os))"

interpretation ctr_windows: window_publisher counter_updateContext "set_up u out" "counter_request u out" for u out
  by unfold_locales (auto simp: set_up_def counter_updateContext_def counter_request_def ops_updateContext_configured)

text \<open>
  A configured counter never fails, and over any sequence of entities and timer events, at whatever times,
  it publishes consecutive windows of five seconds, none twice and none left out; the counts of the published
  windows and the count of the open one add up to exactly the number of entities received.
\<close>

theorem counter_counts_every_entity:
  assumes "set_up u out s" and "ops_sent s = []" and "ops_data s = \<lparr>tBegin = t0, totalNumAnomaly = 0\<rparr>"
  shows "\<exists>t ns. counter_events counter_updateContext es s = (t, True) \<and> ops_sent t = windows (counter_request u out) t0 ns \<and>
     tBegin (ops_data t) = t0 + tInterval * int (length ns) \<and>
     sum_list ns + totalNumAnomaly (ops_data t) = int (entities es)"
  using assms by (rule ctr_windows.counts_every_entity)

definition sample_counter :: "window opapp" where
  "sample_counter = \<lparr>ops_client = Some (JStr ''http://b''), ops_outputs = [JObj [(''id'', JStr ''Stream.1''), (''type'', JStr ''Stat'')]],
     ops_configured = True, ops_sent = [], ops_data = \<lparr>tBegin = 0, totalNumAnomaly = 0\<rparr>\<rparr>"

theorem counter_counts_every_entity_witness:
  "\<exists>t ns. counter_events counter_updateContext [Arrival 100, Arrival 4000, Timer 5000, Arrival 6000] sample_counter = (t, True) \<and>
     ops_sent t = windows (counter_request (JStr ''http://b'') (JObj [(''id'', JStr ''Stream.1''), (''type'', JStr ''Stat'')])) 0 ns \<and>
     sum_list ns + totalNumAnomaly (ops_data t) = 3"
  using counter_counts_every_entity [of "JStr ''http://b''" "JObj [(''id'', JStr ''Stream.1''), (''type'', JStr ''Stat'')]" sample_counter 0
      "[Arrival 100, Arrival 4000, Timer 5000, Arrival 6000]"]
  by (auto simp: sample_counter_def set_up_def)

section \<open>Properties of the sum\<close>

definition num_msg :: "string \<times> int \<Rightarrow> jval" where
  "num_msg p = JObj [(''entityId'', JObj [(''id'', JStr (fst p))]), (''attributes'', JObj [(''num'', JObj [(''value'', JNum (snd p))])])]"

text \<open>The latest value of each entity, and their sum.\<close>

definition latest :: "(string \<times> int) list \<Rightarrow> string \<Rightarrow> int" where
  "latest ms k = the (map_of (rev ms) k)"

lemma sum_entity_num: "sum_entity (num_msg p) s = (s\<lparr>ops_data := obj_put (fst p) (JNum (snd p)) (ops_data s)\<rparr>, True)"
  by (simp add: sum_entity_def num_msg_def js_access)

lemma sum_handleNotify_num:
  "sum_handleNotify (map num_msg ms) s =
     (s\<lparr>ops_data := obj.put_all (map (\<lambda>p. (fst p, JNum (snd p))) ms) (ops_data s)\<rparr>, True)"
  by (induction ms arbitrary: s) (simp_all add: sum_entity_num)

lemma sum_total_numbers:
  "fold (\<lambda>(eid, v) acc. js_plus acc v) (map (\<lambda>(k, n). (k, JNum n)) rs) (Some (JNum m)) = Some (JNum (m + sum_list (map snd rs)))"
  by (induction rs arbitrary: m) (auto simp: algebra_simps)

lemma map_of_rev_JNum: "map_of (rev (map (\<lambda>p. (fst p, JNum (snd p))) ms)) k = map_option JNum (map_of (rev ms) k)"
proof -
  have "rev (map (\<lambda>p. (fst p, JNum (snd p))) ms) = map (\<lambda>(k, n). (k, JNum n)) (rev ms)"
    by (simp add: rev_map case_prod_beta)
  then show ?thesis by (simp only: map_of_map comp_apply)
qed

text \<open>
  The sum operator publishes the sum of the latest value of every entity that was ever received: a newer
  value of an entity replaces the older one, and entities without news keep counting.
\<close>

theorem sum_of_latest_values:
  assumes "''__proto__'' \<notin> fst ` set ms" and "ops_data s = []"
    and "ops_configured s" and "ops_client s = Some u" and "ops_outputs s = out # os"
  shows "\<exists>t. sum_step (SumNotify (map num_msg ms)) s = (t, True) \<and> ops_sent t = ops_sent s \<and>
     sum_step (SumTimer now) t =
       (t\<lparr>ops_sent := ops_sent t @ [stat_request ''sum'' u out now (\<Sum>k \<in> fst ` set ms. latest ms k)]\<rparr>, True)"
proof -
  let ?ps = "map (\<lambda>p. (fst p, JNum (snd p))) ms"
  let ?rs = "obj_of ?ps"
  have look: "map_of ?rs k = map_option JNum (map_of (rev ms) k)" for k
  proof -
    have "''__proto__'' \<notin> fst ` set ?ps" using assms(1) by (force simp: image_iff)
    from map_of_obj_of [OF this] show ?thesis by (simp only: map_of_rev_JNum)
  qed
  have dist: "distinct (map fst ?rs)" by (rule canonical_distinct) simp
  have keys: "fst ` set ?rs = fst ` set ms"
  proof (intro set_eqI)
    fix k
    have "k \<in> fst ` set ?rs \<longleftrightarrow> map_of ?rs k \<noteq> None" by (simp add: map_of_eq_None_iff)
    also have "\<dots> \<longleftrightarrow> k \<in> fst ` set (rev ms)" by (simp add: look map_of_eq_None_iff)
    finally show "k \<in> fst ` set ?rs \<longleftrightarrow> k \<in> fst ` set ms" by simp
  qed
  have val: "snd p = JNum (latest ms (fst p))" if "p \<in> set ?rs" for p
  proof -
    have "map_of ?rs (fst p) = Some (snd p)" using dist that by simp
    then show ?thesis by (auto simp: look latest_def)
  qed
  have rs: "?rs = map (\<lambda>(k, n). (k, JNum n)) (map (\<lambda>k. (k, latest ms k)) (map fst ?rs))"
    using val by (simp add: map_idI case_prod_beta comp_def prod_eq_iff)
  have "sum_total ?rs = Some (JNum (sum_list (map (latest ms) (map fst ?rs))))"
    unfolding sum_total_def by (subst rs, subst sum_total_numbers) (simp add: comp_def)
  also have "sum_list (map (latest ms) (map fst ?rs)) = (\<Sum>k \<in> fst ` set ms. latest ms k)"
    using sum_list_distinct_conv_sum_set [OF dist, of "latest ms"] keys by simp
  finally have total: "sum_total ?rs = Some (JNum (\<Sum>k \<in> fst ` set ms. latest ms k))" .
  let ?t = "s\<lparr>ops_data := ?rs\<rparr>"
  have "sum_step (SumNotify (map num_msg ms)) s = (?t, True)"
    using assms(2) by (simp add: sum_handleNotify_num obj_of_eq_put_all)
  moreover have "sum_step (SumTimer now) ?t =
      (?t\<lparr>ops_sent := ops_sent ?t @ [stat_request ''sum'' u out now (\<Sum>k \<in> fst ` set ms. latest ms k)]\<rparr>, True)"
    using ops_updateContext_configured [of ?t u out os "''sum''"] assms(3-5) by (simp add: sum_onTimer_def sum_updateContext_def total)
  ultimately show ?thesis by force
qed

definition sample_sum :: "props opapp" where
  "sample_sum = (init_opapp [])\<lparr>ops_client := Some (JStr ''http://b''), ops_outputs := [JObj [(''id'', JStr ''Stream.1''), (''type'', JStr ''Stat'')]],
     ops_configured := True\<rparr>"

theorem sum_of_latest_values_witness:
  "\<exists>t. sum_step (SumNotify (map num_msg [(''a'', 5), (''b'', 7), (''a'', 1)])) sample_sum = (t, True) \<and>
     sum_step (SumTimer 100) t = (t\<lparr>ops_sent := ops_sent t @
       [stat_request ''sum'' (JStr ''http://b'') (JObj [(''id'', JStr ''Stream.1''), (''type'', JStr ''Stat'')]) 100 8]\<rparr>, True)"
proof -
  have "(\<Sum>k \<in> fst ` set [(''a'', 5), (''b'', 7), (''a'', 1)]. latest [(''a'', 5), (''b'', 7), (''a'', 1)] k) = 8"
    by (simp add: latest_def insert_commute)
  with sum_of_latest_values [of "[(''a'', 5), (''b'', 7), (''a'', 1)]" sample_sum "JStr ''http://b''"
      "JObj [(''id'', JStr ''Stream.1''), (''type'', JStr ''Stat'')]" "[]" 100] show ?thesis
    by (auto simp: sample_sum_def init_opapp_def simp del: list.map sum_handleNotify.simps)
qed

end
