(* ===== verification/Buffered_Runtime.thy ===== *)
theory Buffered_Runtime
  imports NGSI_Agent
begin

text \<open>
  The runtime of the operators that buffer what their function publishes before a broker is known: the \<open>main.js\<close> under
  \<open>application/operator/controller\<close>, of which \<open>geohash\<close>, \<open>converter\<close>, \<open>predictor\<close>, \<open>detector\<close> and \<open>homegateway\<close> have copies,
  and the variant of \<open>smartparking\<close> and the adapters.  The variants differ in what an entry of the buffer is,
  \<open>'b\<close>; the variables of the operator's function extend the record.  \<open>k_sent\<close> is the sequence of requests that were sent.
\<close>

record 'b runtime =
  k_client :: "jval option"
  k_outputs :: "jval list"
  k_referenceURL :: jval
  k_subscriptionId :: jval
  k_configured :: bool
  k_buffer :: "'b list"
  k_sent :: "http_req list"

definition init_runtime :: "'b runtime" where
  "init_runtime = \<lparr>k_client = None, k_outputs = [], k_referenceURL = JUndef, k_subscriptionId = JNull, k_configured = False,
     k_buffer = [], k_sent = []\<rparr>"

text \<open>In most of the variants an entry is \<open>{ctxObj: ctxUpdate, outputIdx: index}\<close>.\<close>

type_synonym entry = "jval \<times> jval"
type_synonym 'a entry_runtime = "(entry, 'a) runtime_scheme"

definition k_field :: "jval \<Rightarrow> string \<Rightarrow> jval" where
  "k_field v k = (case jget v k of Some w \<Rightarrow> w | None \<Rightarrow> JUndef)"

section \<open>Sending\<close>

text \<open>\<open>v > 0\<close> and \<open>v >= 0\<close> for the index that accompanies a publication.\<close>

fun js_positive :: "jval \<Rightarrow> bool" where
  "js_positive (JNum n) = (n > 0)"
| "js_positive (JBool b) = b"
| "js_positive (JStr s) = (case to_number s of Some n \<Rightarrow> n > 0 | None \<Rightarrow> False)"
| "js_positive v = False"

fun js_nonneg :: "jval \<Rightarrow> bool" where
  "js_nonneg (JNum n) = (n \<ge> 0)"
| "js_nonneg (JBool b) = True"
| "js_nonneg (JStr s) = (case to_number s of Some n \<Rightarrow> n \<ge> 0 | None \<Rightarrow> False)"
| "js_nonneg JNull = True"
| "js_nonneg v = False"

text \<open>
  \<open>ctxObj.entityId.id = outputs[i].id; ctxObj.entityId.type = outputs[i].type\<close>, followed by further assignments to
  \<open>ctxObj.entityId\<close> in one of the variants.
\<close>

definition assign_entity :: "(string \<times> jval) list \<Rightarrow> jval \<Rightarrow> jval option" where
  "assign_entity kvs ctxObj =
     (case ctxObj of
        JObj ps \<Rightarrow>
          (case obj_get ps ''entityId'' of
             JObj es \<Rightarrow> Some (JObj (obj_put ''entityId'' (JObj (fold (\<lambda>(k, v) es. obj_put k v es) kvs es)) ps))
           | JArr xs \<Rightarrow> Some ctxObj
           | JFun f \<Rightarrow> Some ctxObj
           | _ \<Rightarrow> None)
      | _ \<Rightarrow> None)"

definition name_entity :: "jval list \<Rightarrow> nat \<Rightarrow> jval \<Rightarrow> jval option" where
  "name_entity outs i ctxObj =
     (if i < length outs then assign_entity [(''id'', k_field (outs ! i) ''id''), (''type'', k_field (outs ! i) ''type'')] ctxObj
      else None)"

definition update_request :: "jval \<Rightarrow> jval \<Rightarrow> http_req option" where
  "update_request u ctxObj =
     do { e \<leftarrow> JSONObject2CtxElement ctxObj;
          Some (post_req (js_str u @ ''/updateContext'') JUndef (update_req_body e ''UPDATE'')) }"

text \<open>
  The loop over the buffer, at position \<open>i\<close>.  \<open>naming\<close> tells from the output index of an entry whether its entity gets
  the identity of an output, which is the output at the position of the entry in the buffer.  The entity that is
  named is the one in the buffer.
\<close>

type_synonym naming = "jval list \<Rightarrow> nat \<Rightarrow> jval \<Rightarrow> jval \<Rightarrow> jval option"

fun send_buffer :: "naming \<Rightarrow> nat \<Rightarrow> entry list \<Rightarrow> 'a entry_runtime \<Rightarrow> 'a entry_runtime step" where
  "send_buffer naming i [] s = (s, True)"
| "send_buffer naming i ((ctxObj, idx) # rest) s =
     (case naming (k_outputs s) i idx ctxObj of
        None \<Rightarrow> (s, False)
      | Some ob \<Rightarrow>
          (let s1 = s\<lparr>k_buffer := (k_buffer s)[i := (ob, idx)]\<rparr> in
           case Option.bind (k_client s1) (\<lambda>u. update_request u ob) of
             None \<Rightarrow> (s1, False)
           | Some rq \<Rightarrow> send_buffer naming (Suc i) rest (s1\<lparr>k_sent := k_sent s1 @ [rq]\<rparr>)))"

definition send_all :: "naming \<Rightarrow> 'a entry_runtime \<Rightarrow> 'a entry_runtime step" where
  "send_all naming s =
     (case send_buffer naming 0 (k_buffer s) s of (s', ok) \<Rightarrow> (if ok then s'\<lparr>k_buffer := []\<rparr> else s', ok))"

definition flush_naming :: naming where
  "flush_naming outs i idx ob = (if js_positive idx then name_entity outs i ob else Some ob)"

definition publish_naming :: naming where
  "publish_naming outs i idx ob = (if js_nonneg idx then name_entity outs i ob else Some ob)"

definition sendUpdateWithinBuffer :: "'a entry_runtime \<Rightarrow> 'a entry_runtime step" where
  "sendUpdateWithinBuffer s = send_all flush_naming s"

definition publish_with :: "naming \<Rightarrow> jval \<Rightarrow> jval \<Rightarrow> 'a entry_runtime \<Rightarrow> 'a entry_runtime step" where
  "publish_with naming ctxUpdate index s =
     (let s1 = s\<lparr>k_buffer := k_buffer s @ [(ctxUpdate, index)]\<rparr> in
      if k_client s1 = None then (s1, True) else send_all naming s1)"

definition k_publish :: "jval \<Rightarrow> jval \<Rightarrow> 'a entry_runtime \<Rightarrow> 'a entry_runtime step" where
  "k_publish ctxUpdate index s = publish_with publish_naming ctxUpdate index s"

text \<open>Without a client the call on \<open>null\<close> throws.\<close>

definition subscribe_request :: "jval \<Rightarrow> jval \<Rightarrow> props \<Rightarrow> http_req" where
  "subscribe_request u reference ps =
     post_req (js_str u @ ''/subscribeContext'') JUndef (JObj (obj_put ''reference'' reference ps))"

definition k_subscribe :: "jval \<Rightarrow> ('b, 'a) runtime_scheme \<Rightarrow> ('b, 'a) runtime_scheme step" where
  "k_subscribe subscribeCtxReq s =
     (case (subscribeCtxReq, k_client s) of
        (JObj ps, Some u) \<Rightarrow> (s\<lparr>k_sent := k_sent s @ [subscribe_request u (k_referenceURL s) ps]\<rparr>, True)
      | _ \<Rightarrow> (s, False))"

definition k_on_subscribed :: "promise \<Rightarrow> ('b, 'a) runtime_scheme \<Rightarrow> ('b, 'a) runtime_scheme" where
  "k_on_subscribed p s = (case p of Inl e \<Rightarrow> s | Inr subscriptionId \<Rightarrow> s\<lparr>k_subscriptionId := subscriptionId\<rparr>)"

section \<open>Configuration\<close>

definition k_connectBroker :: "jval \<Rightarrow> ('b, 'a) runtime_scheme \<Rightarrow> ('b, 'a) runtime_scheme" where
  "k_connectBroker cmd s = s\<lparr>k_client := Some (k_field cmd ''brokerURL'')\<rparr>"

definition k_setReferenceURL :: "jval \<Rightarrow> ('b, 'a) runtime_scheme \<Rightarrow> ('b, 'a) runtime_scheme" where
  "k_setReferenceURL cmd s = s\<lparr>k_referenceURL := k_field cmd ''url''\<rparr>"

definition k_setOutputs :: "jval \<Rightarrow> ('b, 'a) runtime_scheme \<Rightarrow> ('b, 'a) runtime_scheme" where
  "k_setOutputs cmd s = s\<lparr>k_outputs := k_outputs s @ [JObj [(''id'', k_field cmd ''id''), (''type'', k_field cmd ''type'')]]\<rparr>"

definition k_handleCmd :: "jval \<Rightarrow> ('b, 'a) runtime_scheme \<Rightarrow> ('b, 'a) runtime_scheme step" where
  "k_handleCmd commandObj s =
     (case jget commandObj ''command'' of
        None \<Rightarrow> (s, False)
      | Some c \<Rightarrow>
          (if js_eq c (JStr ''CONNECT_BROKER'') then k_connectBroker commandObj s
           else if js_eq c (JStr ''SET_OUTPUTS'') then k_setOutputs commandObj s
           else if js_eq c (JStr ''SET_REFERENCE'') then k_setReferenceURL commandObj s
           else s, True))"

text \<open>The copies without subscriptions dispatch with a \<open>switch\<close>, that is with \<open>===\<close>, and have no reference URL.\<close>

definition switch_handleCmd :: "jval \<Rightarrow> ('b, 'a) runtime_scheme \<Rightarrow> ('b, 'a) runtime_scheme step" where
  "switch_handleCmd commandObj s =
     (case jget commandObj ''command'' of
        None \<Rightarrow> (s, False)
      | Some c \<Rightarrow>
          (if c = JStr ''CONNECT_BROKER'' then k_connectBroker commandObj s
           else if c = JStr ''SET_OUTPUTS'' then k_setOutputs commandObj s
           else s, True))"

text \<open>The loops over commands and over notified entities: an exception leaves them.\<close>

fun run_steps :: "('c \<Rightarrow> 's \<Rightarrow> 's step) \<Rightarrow> 'c list \<Rightarrow> 's \<Rightarrow> 's step" where
  "run_steps f [] s = (s, True)"
| "run_steps f (c # cs) s = (case f c s of (s', True) \<Rightarrow> run_steps f cs s' | (s', False) \<Rightarrow> (s', False))"

text \<open>With \<open>try { ... } catch (error) { ... }\<close> around the call of the function, the loop goes on.\<close>

definition caught :: "('c \<Rightarrow> 's \<Rightarrow> 's step) \<Rightarrow> 'c \<Rightarrow> 's \<Rightarrow> 's step" where
  "caught f c s = (fst (f c s), True)"

interpretation steps: stepwise f "run_steps f" for f
  by unfold_locales (auto split: prod.split bool.split)

text \<open>A loop that completes does not notice the \<open>catch\<close>.\<close>

lemma run_steps_caught: "run_steps f cs s = (t, True) \<Longrightarrow> run_steps (caught f) cs s = (t, True)"
proof (induction cs arbitrary: s)
  case (Cons c cs)
  obtain s' ok where f: "f c s = (s', ok)" by fastforce
  with Cons.prems have ok by (cases ok) auto
  with Cons f show ?case by (simp add: caught_def)
qed simp

text \<open>A program over a sequence of events; an exception ends the handling of one event.\<close>

definition over_events :: "('i \<Rightarrow> 's \<Rightarrow> 's step) \<Rightarrow> 'i list \<Rightarrow> 's \<Rightarrow> 's" where
  "over_events step is s = fold (\<lambda>i s. fst (step i s)) is s"

lemma over_events_invariant: "\<lbrakk>P s; \<And>i s. P s \<Longrightarrow> P (fst (step i s))\<rbrakk> \<Longrightarrow> P (over_events step is s)"
  unfolding over_events_def by (induction "is" arbitrary: s) auto

definition handle_cmds_with ::
    "(jval \<Rightarrow> 's \<Rightarrow> 's step) \<Rightarrow> ('s \<Rightarrow> 's step) \<Rightarrow> jval list \<Rightarrow> 's \<Rightarrow> 's step" where
  "handle_cmds_with handleCmd flush commands s =
     (case run_steps handleCmd commands s of (s', False) \<Rightarrow> (s', False) | (s', True) \<Rightarrow> flush s')"

definition k_handleCmds :: "jval list \<Rightarrow> 'a entry_runtime \<Rightarrow> 'a entry_runtime step" where
  "k_handleCmds commands s = handle_cmds_with k_handleCmd sendUpdateWithinBuffer commands s"

definition switch_handleCmds :: "jval list \<Rightarrow> 'a entry_runtime \<Rightarrow> 'a entry_runtime step" where
  "switch_handleCmds commands s = handle_cmds_with switch_handleCmd sendUpdateWithinBuffer commands s"

definition admin_with ::
    "(jval list \<Rightarrow> ('b, 'a) runtime_scheme \<Rightarrow> ('b, 'a) runtime_scheme step) \<Rightarrow>
     jval list \<Rightarrow> ('b, 'a) runtime_scheme \<Rightarrow> ('b, 'a) runtime_scheme \<times> reply option" where
  "admin_with handleCmds commands s =
     (case handleCmds commands s of
        (s', False) \<Rightarrow> (s', None)
      | (s', True) \<Rightarrow> (s'\<lparr>k_configured := True\<rparr>, Some (Replied 200 (JObj []))))"

definition k_handleAdmin :: "jval list \<Rightarrow> 'a entry_runtime \<Rightarrow> 'a entry_runtime \<times> reply option" where
  "k_handleAdmin commands s = admin_with k_handleCmds commands s"

text \<open>The statements at the start of the program: \<open>None\<close> is an \<open>adminCfg\<close> that cannot be parsed.\<close>

definition start_with ::
    "(jval list \<Rightarrow> ('b, 'a) runtime_scheme \<Rightarrow> ('b, 'a) runtime_scheme step) \<Rightarrow>
     jval option \<Rightarrow> ('b, 'a) runtime_scheme \<Rightarrow> ('b, 'a) runtime_scheme" where
  "start_with handleCmds adminCfg s =
     (case Option.bind adminCfg jelems of
        None \<Rightarrow> s
      | Some commands \<Rightarrow>
          (case handleCmds commands s of (s', ok) \<Rightarrow> if ok then s'\<lparr>k_configured := True\<rparr> else s'))"

definition k_start :: "jval option \<Rightarrow> 'a entry_runtime \<Rightarrow> 'a entry_runtime" where
  "k_start adminCfg s = start_with k_handleCmds adminCfg s"

text \<open>What reaches such a program after its start.\<close>

datatype input = Admin "jval list" | Notified "jval list"

section \<open>Laws of sending\<close>

lemma k_buffer_id: "k_buffer s = b \<Longrightarrow> s\<lparr>k_buffer := b\<rparr> = s"
  by (cases s) simp

lemma publish_unconnected:
  "k_client s = None \<Longrightarrow> publish_with naming x idx s = (s\<lparr>k_buffer := k_buffer s @ [(x, idx)]\<rparr>, True)"
  by (simp add: publish_with_def Let_def)

lemma publish_connected:
  assumes "k_client s = Some u" and "k_buffer s = []" and "naming (k_outputs s) 0 idx x = Some ob" and "update_request u ob = Some rq"
  shows "publish_with naming x idx s = (s\<lparr>k_sent := k_sent s @ [rq]\<rparr>, True)"
  using assms by (cases s) (simp add: publish_with_def send_all_def Let_def)

text \<open>Entries whose entities are not renamed are sent in their order.\<close>

lemma send_buffer_unnamed:
  assumes "k_client s = Some u" and "k_buffer s = ds @ es" and "length ds = i"
    and "\<And>j ob idx. (ob, idx) \<in> set es \<Longrightarrow> naming (k_outputs s) j idx ob = Some ob \<and> update_request u ob = Some (rq ob)"
  shows "send_buffer naming i es s = (s\<lparr>k_sent := k_sent s @ map (rq \<circ> fst) es\<rparr>, True)"
  using assms
proof (induction es arbitrary: i ds s)
  case (Cons e es)
  obtain ob idx where e: "e = (ob, idx)" by fastforce
  let ?t = "s\<lparr>k_sent := k_sent s @ [rq ob]\<rparr>"
  have named: "naming (k_outputs s) i idx ob = Some ob" "update_request u ob = Some (rq ob)"
    using Cons.prems(4) [of ob idx] by (simp_all add: e)
  have keep: "s\<lparr>k_buffer := (k_buffer s)[i := (ob, idx)]\<rparr> = s"
    using Cons.prems(2,3) by (intro k_buffer_id) (auto simp: e)
  have "send_buffer naming (Suc i) es ?t = (?t\<lparr>k_sent := k_sent ?t @ map (rq \<circ> fst) es\<rparr>, True)"
    using Cons.prems by (intro Cons.IH [of ?t "ds @ [e]"]) auto
  then show ?case using Cons.prems(1) named keep by (simp add: e Let_def)
qed simp

lemma send_all_unnamed:
  assumes "k_client s = Some u"
    and "\<And>j ob idx. (ob, idx) \<in> set (k_buffer s) \<Longrightarrow> naming (k_outputs s) j idx ob = Some ob \<and> update_request u ob = Some (rq ob)"
  shows "send_all naming s = (s\<lparr>k_sent := k_sent s @ map (rq \<circ> fst) (k_buffer s), k_buffer := []\<rparr>, True)"
  using send_buffer_unnamed [OF assms(1), of "[]"] assms(2) by (simp add: send_all_def)

text \<open>The configuration commands of the engine.\<close>

abbreviation connect_command :: "jval \<Rightarrow> jval" where
  "connect_command u \<equiv> JObj [(''command'', JStr ''CONNECT_BROKER''), (''brokerURL'', u)]"

abbreviation output_command :: "jval \<Rightarrow> jval \<Rightarrow> jval" where
  "output_command i t \<equiv> JObj [(''command'', JStr ''SET_OUTPUTS''), (''id'', i), (''type'', t)]"

lemma k_handleCmd_connect: "k_handleCmd (connect_command u) s = (s\<lparr>k_client := Some u\<rparr>, True)"
  by (simp add: k_handleCmd_def k_connectBroker_def k_field_def js_access js_eq_JStr)

lemma k_handleCmd_output:
  "k_handleCmd (output_command i t) s = (s\<lparr>k_outputs := k_outputs s @ [JObj [(''id'', i), (''type'', t)]]\<rparr>, True)"
  by (simp add: k_handleCmd_def k_setOutputs_def k_field_def js_access js_eq_JStr)

lemma switch_handleCmd_connect: "switch_handleCmd (connect_command u) s = (s\<lparr>k_client := Some u\<rparr>, True)"
  by (simp add: switch_handleCmd_def k_connectBroker_def k_field_def js_access)

lemma switch_handleCmd_output:
  "switch_handleCmd (output_command i t) s = (s\<lparr>k_outputs := k_outputs s @ [JObj [(''id'', i), (''type'', t)]]\<rparr>, True)"
  by (simp add: switch_handleCmd_def k_setOutputs_def k_field_def js_access)

lemmas commands = k_handleCmd_connect k_handleCmd_output switch_handleCmd_connect switch_handleCmd_output

text \<open>A property that the commands and the sending keep is kept by the configuration.\<close>

lemma admin_keeps:
  assumes "\<And>c s. P s \<Longrightarrow> P (fst (cmd c s))" and "\<And>s. P s \<Longrightarrow> P (fst (flush s))" and "\<And>s. P s \<Longrightarrow> P (s\<lparr>k_configured := True\<rparr>)" and "P s"
  shows "P (fst (admin_with (handle_cmds_with cmd flush) cs s))"
proof -
  obtain s1 ok1 where s1: "run_steps cmd cs s = (s1, ok1)" by fastforce
  obtain s2 ok2 where s2: "flush s1 = (s2, ok2)" by fastforce
  have "P s1" using steps.run_invariant [of cs P cmd s] assms(1,4) by (simp add: s1)
  moreover from this have "P s2" using assms(2) [of s1] by (simp add: s2)
  ultimately show ?thesis using assms(3) by (cases ok1; cases ok2) (simp_all add: admin_with_def handle_cmds_with_def s1 s2)
qed

lemma handleCmds_eq:
  "k_handleCmds = handle_cmds_with k_handleCmd sendUpdateWithinBuffer"
  "switch_handleCmds = handle_cmds_with switch_handleCmd sendUpdateWithinBuffer"
  by (simp_all add: fun_eq_iff k_handleCmds_def switch_handleCmds_def)

end
