(* ===== verification/Controller.thy ===== *)
theory Controller
  imports Buffered_Runtime
begin

text \<open>
  The awning controller, \<open>application/operator/controller\<close>: its \<open>function.js\<close>, which turns predictions into commands, in
  the runtime of \<open>Buffered_Runtime\<close>.
\<close>

record controller = "entry runtime" +
  awningID :: jval

definition init_controller :: controller where
  "init_controller = \<lparr>k_client = None, k_outputs = [], k_referenceURL = JUndef, k_subscriptionId = JNull, k_configured = False,
     k_buffer = [], k_sent = [], awningID = JNull\<rparr>"

section \<open>The function\<close>

definition awning_command :: "jval \<Rightarrow> bool \<Rightarrow> jval" where
  "awning_command aid raining =
     JObj [(''entityId'', JObj []), (''attributes'', JObj [(''command'', JObj [(''type'', JStr ''string''),
         (''value'', JStr (if raining then ''open'' else ''close''))])]),
       (''metadata'', JObj [(''awningID'', JObj [(''type'', JStr ''string''), (''value'', aid)])])]"

definition k_handler :: "jval \<Rightarrow> controller \<Rightarrow> controller step" where
  "k_handler contextEntity s =
     (if is_nullish contextEntity then (s, True)
      else if is_nullish (k_field contextEntity ''attributes'') then (s, True)
      else case Option.bind (jget contextEntity ''entityId'') (\<lambda>e. do { t \<leftarrow> jget e ''type''; i \<leftarrow> jget e ''id''; Some (t, i) }) of
             None \<Rightarrow> (s, False)
           | Some (t, i) \<Rightarrow>
               (if js_eq t (JStr ''SmartAwning'') then
                  k_subscribe (JObj [(''entities'', JArr [JObj [(''type'', JStr ''Prediction''), (''isPattern'', JBool True)]])])
                    (s\<lparr>awningID := i\<rparr>)
                else if js_eq t (JStr ''Prediction'') then
                  (case Option.bind (jget (k_field contextEntity ''attributes'') ''raining'') (\<lambda>r. jget r ''value'') of
                     None \<Rightarrow> (s, False)
                   | Some v \<Rightarrow> k_publish (awning_command (awningID s) (js_eq v (JBool True))) (JNum 0) s)
                else (s, True)))"

definition k_handleNotify :: "jval list \<Rightarrow> controller \<Rightarrow> controller step" where
  "k_handleNotify ctxObjects s = run_steps k_handler ctxObjects s"

section \<open>Properties\<close>

definition prediction :: "bool \<Rightarrow> jval" where
  "prediction b = JObj [(''entityId'', JObj [(''id'', JStr ''p''), (''type'', JStr ''Prediction'')]),
     (''attributes'', JObj [(''raining'', JObj [(''value'', JBool b)])])]"

definition command_element :: "props \<Rightarrow> jval \<Rightarrow> bool \<Rightarrow> jval" where
  "command_element eid aid b =
     ctx_element (JObj eid) [(''command'', JStr ''string'', JStr (if b then ''open'' else ''close''))] [(''awningID'', JStr ''string'', aid)]"

lemma k_handler_prediction: "k_handler (prediction b) s = k_publish (awning_command (awningID s) b) (JNum 0) s"
  by (simp add: k_handler_def prediction_def k_field_def js_access js_eq_JStr js_eq_def is_prim_def)

lemma update_request_command:
  "update_request u (JObj [(''entityId'', JObj eid), (''attributes'', JObj [(''command'', JObj [(''type'', JStr ''string''),
         (''value'', JStr (if b then ''open'' else ''close''))])]), (''metadata'', JObj [(''awningID'', JObj [(''type'', JStr ''string''), (''value'', aid)])])]) =
     Some (post_req (js_str u @ ''/updateContext'') JUndef (update_req_body (command_element eid aid b) ''UPDATE''))"
  by (simp add: update_request_def JSONObject2CtxElement_def command_element_def ctx_element_def named_elems_def js_access js_literal)

text \<open>
  A connected controller with an output and nothing buffered answers each prediction at once with one
  command under the identity of its first output: \<open>open\<close> if it rains and \<open>close\<close> otherwise.
\<close>

theorem controller_commands_follow_predictions:
  assumes "k_client s = Some u" and "k_outputs s = JObj [(''id'', i), (''type'', t)] # os" and "k_buffer s = []"
  shows "k_handleNotify (map prediction bs) s =
    (s\<lparr>k_sent := k_sent s @ map (\<lambda>b. post_req (js_str u @ ''/updateContext'') JUndef
        (update_req_body (command_element [(''id'', i), (''type'', t)] (awningID s) b) ''UPDATE'')) bs\<rparr>, True)"
  using assms
proof (induction bs arbitrary: s)
  case (Cons b bs)
  have "name_entity (k_outputs s) 0 (awning_command (awningID s) b) =
      Some (JObj [(''entityId'', JObj [(''id'', i), (''type'', t)]), (''attributes'', JObj [(''command'', JObj [(''type'', JStr ''string''),
         (''value'', JStr (if b then ''open'' else ''close''))])]), (''metadata'', JObj [(''awningID'', JObj [(''type'', JStr ''string''), (''value'', awningID s)])])])"
    using Cons.prems(2) by (simp add: name_entity_def assign_entity_def awning_command_def k_field_def js_access js_literal)
  then have "k_handler (prediction b) s =
      (s\<lparr>k_sent := k_sent s @ [post_req (js_str u @ ''/updateContext'') JUndef
        (update_req_body (command_element [(''id'', i), (''type'', t)] (awningID s) b) ''UPDATE'')]\<rparr>, True)"
    using publish_connected [OF Cons.prems(1,3)]
    by (simp add: k_handler_prediction k_publish_def publish_naming_def update_request_command)
  with Cons show ?case by (simp add: k_handleNotify_def)
qed (simp add: k_handleNotify_def)

theorem controller_commands_follow_predictions_witness:
  "k_handleNotify (map prediction [True, False])
     (init_controller\<lparr>k_client := Some (JStr ''http://b''), k_outputs := [JObj [(''id'', JStr ''Stream.1''), (''type'', JStr ''Cmd'')]]\<rparr>) =
   ((init_controller\<lparr>k_client := Some (JStr ''http://b''), k_outputs := [JObj [(''id'', JStr ''Stream.1''), (''type'', JStr ''Cmd'')]]\<rparr>)
      \<lparr>k_sent := k_sent (init_controller\<lparr>k_client := Some (JStr ''http://b''), k_outputs := [JObj [(''id'', JStr ''Stream.1''), (''type'', JStr ''Cmd'')]]\<rparr>) @
        map (\<lambda>b. post_req (js_str (JStr ''http://b'') @ ''/updateContext'') JUndef
          (update_req_body (command_element [(''id'', JStr ''Stream.1''), (''type'', JStr ''Cmd'')]
             (awningID (init_controller\<lparr>k_client := Some (JStr ''http://b''), k_outputs := [JObj [(''id'', JStr ''Stream.1''), (''type'', JStr ''Cmd'')]]\<rparr>)) b) ''UPDATE''))
          [True, False]\<rparr>, True)"
  by (rule controller_commands_follow_predictions) (simp_all add: init_controller_def)

text \<open>
  A command that is published before the controller is connected is sent, once the configuration
  arrives, without the identity of the output: the loop that sends the buffer then tests the output index with
  \<open>> 0\<close>, while a direct publication tests it with \<open>>= 0\<close>.
\<close>

theorem buffered_command_loses_identity:
  assumes "k_client s = None" and "k_buffer s = []" and "k_sent s = []"
  shows "let s1 = fst (k_handler (prediction b) s);
             s2 = fst (k_handleCmds [JObj [(''command'', JStr ''CONNECT_BROKER''), (''brokerURL'', JStr u)],
                                     JObj [(''command'', JStr ''SET_OUTPUTS''), (''id'', JStr i), (''type'', JStr t)]] s1)
         in k_sent s2 = [post_req (u @ ''/updateContext'') JUndef (update_req_body (command_element [] (awningID s) b) ''UPDATE'')]"
proof -
  have "k_handler (prediction b) s = (s\<lparr>k_buffer := [(awning_command (awningID s) b, JNum 0)]\<rparr>, True)"
    using assms by (simp add: k_handler_prediction k_publish_def publish_unconnected)
  moreover have "update_request (JStr u) (awning_command (awningID s) b) =
      Some (post_req (u @ ''/updateContext'') JUndef (update_req_body (command_element [] (awningID s) b) ''UPDATE''))"
    using update_request_command [of "JStr u" "[]" b "awningID s"] by (simp add: awning_command_def)
  ultimately show ?thesis
    using assms
    by (simp add: k_handleCmds_def handle_cmds_with_def commands sendUpdateWithinBuffer_def send_all_def flush_naming_def Let_def)
qed

theorem buffered_command_loses_identity_witness:
  "let s1 = fst (k_handler (prediction True) init_controller);
       s2 = fst (k_handleCmds [JObj [(''command'', JStr ''CONNECT_BROKER''), (''brokerURL'', JStr ''http://b'')],
                               JObj [(''command'', JStr ''SET_OUTPUTS''), (''id'', JStr ''Stream.1''), (''type'', JStr ''Cmd'')]] s1)
   in k_sent s2 = [post_req (''http://b'' @ ''/updateContext'') JUndef (update_req_body (command_element [] (awningID init_controller) True) ''UPDATE'')]"
  by (rule buffered_command_loses_identity) (simp_all add: init_controller_def)

end
