(* ===== verification/Location_Operators.thy ===== *)
theory Location_Operators
  imports Buffered_Runtime
begin

text \<open>
  Operators in the runtime of \<open>Buffered_Runtime\<close> under \<open>application/operator\<close>: \<open>geohash\<close> and \<open>converter\<close> annotate entities
  with the geohash of their location, \<open>predictor\<close> republishes entities, \<open>detector\<close> only receives them.  The package
  \<open>ngeohash\<close> is not part of the repository: its \<open>encode\<close> is a parameter.
\<close>

type_synonym encoder = "jval \<Rightarrow> jval \<Rightarrow> jval \<Rightarrow> jval"

section \<open>The functions\<close>

text \<open>
  The part that the handlers of \<open>geohash\<close> and \<open>converter\<close> share: an entity is ignored, reading its location throws, or it
  has a geohash.
\<close>

datatype location = Ignored | Unreadable | Located jval

definition locate :: "encoder \<Rightarrow> jval \<Rightarrow> location" where
  "locate encode contextEntity =
     (if is_nullish contextEntity then Ignored
      else let attributes = k_field contextEntity ''attributes'' in
        if is_nullish attributes then Ignored
        else if is_nullish (k_field attributes ''location'') then Ignored
        else if \<not> is_nullish (k_field attributes ''geohash'') then Ignored
        else case do { myposition \<leftarrow> jget (k_field attributes ''location'') ''value'';
                       latitude \<leftarrow> jget myposition ''latitude'';
                       longitude \<leftarrow> jget myposition ''longitude'';
                       Some (encode latitude longitude (JNum 4)) } of
               None \<Rightarrow> Unreadable
             | Some hashstring \<Rightarrow> Located hashstring)"

definition typed_string :: "jval \<Rightarrow> jval" where
  "typed_string v = JObj [(''type'', JStr ''string''), (''value'', v)]"

definition geohash_entity :: "jval \<Rightarrow> jval \<Rightarrow> jval" where
  "geohash_entity hashstring contextEntity =
     JObj [(''entityId'', k_field contextEntity ''entityId''),
           (''attributes'', JObj [(''geohash'', typed_string hashstring)]),
           (''metadata'', JObj [(''geohash'', typed_string hashstring)])]"

definition converter_entity :: "jval \<Rightarrow> jval \<Rightarrow> jval" where
  "converter_entity hashstring contextEntity =
     JObj [(''entityId'', k_field contextEntity ''entityId''),
           (''attributes'', JObj [(''geohash'', typed_string hashstring),
              (''raining'', k_field (k_field contextEntity ''attributes'') ''raining'')]),
           (''metadata'', JObj [(''geohash'', typed_string hashstring)])]"

definition geohash_handler :: "encoder \<Rightarrow> jval \<Rightarrow> entry runtime \<Rightarrow> entry runtime step" where
  "geohash_handler encode contextEntity s =
     (case locate encode contextEntity of
        Ignored \<Rightarrow> (s, True)
      | Unreadable \<Rightarrow> (s, False)
      | Located hashstring \<Rightarrow> k_publish (geohash_entity hashstring contextEntity) (JNum (-1)) s)"

definition converter_handler :: "encoder \<Rightarrow> jval \<Rightarrow> entry runtime \<Rightarrow> entry runtime step" where
  "converter_handler encode contextEntity s =
     (case locate encode contextEntity of
        Ignored \<Rightarrow> (s, True)
      | Unreadable \<Rightarrow> (s, False)
      | Located hashstring \<Rightarrow> k_publish (converter_entity hashstring contextEntity) (JNum 0) s)"

definition predictor_handler :: "jval \<Rightarrow> entry runtime \<Rightarrow> entry runtime step" where
  "predictor_handler contextEntity s =
     (if is_nullish contextEntity then (s, True)
      else if is_nullish (k_field contextEntity ''attributes'') then (s, True)
      else k_publish contextEntity (JNum 0) s)"

definition detector_handler :: "jval \<Rightarrow> entry runtime \<Rightarrow> entry runtime step" where
  "detector_handler contextEntity s = (s, True)"

section \<open>The programs\<close>

fun geohash_step :: "encoder \<Rightarrow> input \<Rightarrow> entry runtime \<Rightarrow> entry runtime step" where
  "geohash_step encode (Admin commands) s = (case admin_with switch_handleCmds commands s of (s', r) \<Rightarrow> (s', r \<noteq> None))"
| "geohash_step encode (Notified ctxObjects) s = run_steps (geohash_handler encode) ctxObjects s"

fun converter_step :: "encoder \<Rightarrow> input \<Rightarrow> entry runtime \<Rightarrow> entry runtime step" where
  "converter_step encode (Admin commands) s = (case admin_with switch_handleCmds commands s of (s', r) \<Rightarrow> (s', r \<noteq> None))"
| "converter_step encode (Notified ctxObjects) s = run_steps (converter_handler encode) ctxObjects s"

fun predictor_step :: "input \<Rightarrow> entry runtime \<Rightarrow> entry runtime step" where
  "predictor_step (Admin commands) s = (case admin_with switch_handleCmds commands s of (s', r) \<Rightarrow> (s', r \<noteq> None))"
| "predictor_step (Notified ctxObjects) s = run_steps predictor_handler ctxObjects s"

fun detector_step :: "input \<Rightarrow> entry runtime \<Rightarrow> entry runtime step" where
  "detector_step (Admin commands) s = (case admin_with k_handleCmds commands s of (s', r) \<Rightarrow> (s', r \<noteq> None))"
| "detector_step (Notified ctxObjects) s = run_steps detector_handler ctxObjects s"

definition switch_start :: "jval option \<Rightarrow> entry runtime" where
  "switch_start adminCfg = start_with switch_handleCmds adminCfg init_runtime"

section \<open>Every annotation is delivered\<close>

definition annotation :: "jval \<Rightarrow> jval \<Rightarrow> jval \<Rightarrow> http_req" where
  "annotation u hashstring contextEntity =
     post_req (js_str u @ ''/updateContext'') JUndef (update_req_body (ctx_element (k_field contextEntity ''entityId'')
       [(''geohash'', JStr ''string'', hashstring)] [(''geohash'', JStr ''string'', hashstring)]) ''UPDATE'')"

lemma update_request_geohash: "update_request u (geohash_entity h e) = Some (annotation u h e)"
proof -
  have "geohash_entity h e = ctx_object (k_field e ''entityId'') [(''geohash'', JStr ''string'', h)] [(''geohash'', JStr ''string'', h)]"
    by (simp add: geohash_entity_def ctx_object_def named_props_def typed_string_def)
  then show ?thesis by (simp add: update_request_def JSONObject2CtxElement_ctx_object annotation_def)
qed

text \<open>The updates that a list of entities leads to.\<close>

fun annotations :: "encoder \<Rightarrow> jval \<Rightarrow> jval list \<Rightarrow> http_req list" where
  "annotations encode u [] = []"
| "annotations encode u (e # es) = (case locate encode e of Located h \<Rightarrow> annotation u h e # annotations encode u es | _ \<Rightarrow> annotations encode u es)"

fun pending :: "encoder \<Rightarrow> jval list \<Rightarrow> entry list" where
  "pending encode [] = []"
| "pending encode (e # es) = (case locate encode e of Located h \<Rightarrow> (geohash_entity h e, JNum (-1)) # pending encode es | _ \<Rightarrow> pending encode es)"

definition readable :: "encoder \<Rightarrow> jval list \<Rightarrow> bool" where
  "readable encode es = list_all (\<lambda>e. locate encode e \<noteq> Unreadable) es"

lemma notified_unconnected:
  "\<lbrakk>k_client s = None; readable encode es\<rbrakk> \<Longrightarrow>
     run_steps (geohash_handler encode) es s = (s\<lparr>k_buffer := k_buffer s @ pending encode es\<rparr>, True)"
proof (induction es arbitrary: s)
  case (Cons e es)
  then show ?case
    by (cases "locate encode e") (simp_all add: readable_def geohash_handler_def k_publish_def publish_unconnected)
qed simp

lemma notified_connected:
  "\<lbrakk>k_client s = Some u; k_buffer s = []; readable encode es\<rbrakk> \<Longrightarrow>
     run_steps (geohash_handler encode) es s = (s\<lparr>k_sent := k_sent s @ annotations encode u es\<rparr>, True)"
proof (induction es arbitrary: s)
  case (Cons e es)
  have "k_publish (geohash_entity h e) (JNum (-1)) s = (s\<lparr>k_sent := k_sent s @ [annotation u h e]\<rparr>, True)" for h
    using publish_connected [OF Cons.prems(1,2), of publish_naming "JNum (-1)" "geohash_entity h e" "geohash_entity h e"]
    by (simp add: k_publish_def publish_naming_def update_request_geohash)
  with Cons show ?case by (cases "locate encode e") (simp_all add: readable_def geohash_handler_def)
qed simp

lemma flush_pending:
  assumes "k_client s = Some u" and "k_buffer s = pending encode es"
  shows "sendUpdateWithinBuffer s = (s\<lparr>k_sent := k_sent s @ annotations encode u es, k_buffer := []\<rparr>, True)"
proof -
  let ?rq = "\<lambda>ob. the (update_request u ob)"
  have "map (?rq \<circ> fst) (pending encode es) = annotations encode u es"
    by (induction es) (auto simp: update_request_geohash split: location.split)
  moreover have "flush_naming (k_outputs s) j idx ob = Some ob \<and> update_request u ob = Some (?rq ob)"
    if "(ob, idx) \<in> set (pending encode es)" for j ob idx
    using that by (induction es) (auto simp: update_request_geohash flush_naming_def split: location.splits)
  ultimately show ?thesis
    using send_all_unnamed [OF assms(1), of flush_naming ?rq] assms(2) by (simp add: sendUpdateWithinBuffer_def)
qed

text \<open>
  Claim C34. No annotation of the geohash operator is lost, repeated or reordered, whatever part of the entities
  arrives before the operator is connected: it sends one update for each entity that has a location and no geohash yet,
  in the order of their arrival.
\<close>

theorem geohash_annotations_delivered:
  assumes "readable encode (es1 @ es2)"
  shows "\<exists>t. run_steps (geohash_step encode) [Notified es1, Admin [connect_command u], Notified es2] init_runtime = (t, True) \<and>
     k_sent t = annotations encode u (es1 @ es2) \<and> k_buffer t = []"
proof -
  have append: "annotations encode u (es1 @ es2) = annotations encode u es1 @ annotations encode u es2"
    by (induction es1) (simp_all split: location.split)
  have "readable encode es1" "readable encode es2" using assms by (simp_all add: readable_def)
  then show ?thesis
    by (simp add: notified_unconnected notified_connected admin_with_def switch_handleCmds_def handle_cmds_with_def commands
        flush_pending append init_runtime_def)
qed

definition sample_located :: "string \<Rightarrow> jval" where
  "sample_located i = JObj [(''entityId'', JObj [(''id'', JStr i)]), (''attributes'', JObj [(''location'', JObj [(''value'',
     JObj [(''latitude'', JNum 49), (''longitude'', JNum 8)])])])]"

theorem geohash_annotations_delivered_witness:
  "\<exists>t. run_steps (geohash_step (\<lambda>la lo n. JStr ''u0y1''))
       [Notified [sample_located ''a''], Admin [connect_command (JStr ''http://b'')], Notified [sample_located ''b'']] init_runtime = (t, True) \<and>
     k_sent t = annotations (\<lambda>la lo n. JStr ''u0y1'') (JStr ''http://b'') ([sample_located ''a''] @ [sample_located ''b'']) \<and> k_buffer t = []"
  by (rule geohash_annotations_delivered) (simp add: readable_def locate_def sample_located_def k_field_def js_access js_literal Let_def)

section \<open>An entity that blocks the converter\<close>

text \<open>An attribute that is \<open>undefined\<close> or \<open>null\<close> makes the conversion for the update throw.\<close>

definition poisoned :: "jval \<Rightarrow> bool" where
  "poisoned ob = (case k_field ob ''attributes'' of JObj as \<Rightarrow> \<exists>p \<in> set as. is_nullish (snd p) | _ \<Rightarrow> False)"

lemma jget_nullish: "is_nullish v \<Longrightarrow> jget v k = None"
  by (cases v) simp_all

lemma named_list_nullish: "p \<in> set ps \<Longrightarrow> is_nullish (snd p) \<Longrightarrow> named_list ps = None"
  by (induction ps) (auto simp: jget_nullish bind_eq_None_conv split: prod.splits)

lemma update_request_poisoned: "poisoned ob \<Longrightarrow> update_request u ob = None"
proof -
  assume "poisoned ob"
  then obtain as where "k_field ob ''attributes'' = JObj as" "named_list as = None"
    by (auto simp: poisoned_def named_list_nullish split: jval.splits)
  then have "jget ob ''attributes'' = Some (JObj as) \<and> named_list as = None"
    by (auto simp: k_field_def split: option.splits)
  then show ?thesis by (cases "jget ob ''entityId''") (simp_all add: update_request_def JSONObject2CtxElement_def)
qed

lemma name_entity_poisoned: "\<lbrakk>poisoned ob; name_entity outs i ob = Some ob'\<rbrakk> \<Longrightarrow> poisoned ob'"
  by (auto simp: name_entity_def assign_entity_def poisoned_def k_field_def js_access split: if_splits jval.splits)

text \<open>The first entry of the buffer cannot be sent, and stays there.\<close>

definition blocked :: "'a entry_runtime \<Rightarrow> bool" where
  "blocked s = (case k_buffer s of [] \<Rightarrow> False | e # es \<Rightarrow> poisoned (fst e))"

lemma send_all_blocked:
  assumes "blocked s" and "naming = flush_naming \<or> naming = publish_naming"
  shows "blocked (fst (send_all naming s)) \<and> k_sent (fst (send_all naming s)) = k_sent s \<and> \<not> snd (send_all naming s)"
proof -
  obtain ob idx es where b: "k_buffer s = (ob, idx) # es" "poisoned ob"
    using assms(1) by (auto simp: blocked_def split: list.splits)
  show ?thesis
  proof (cases "naming (k_outputs s) 0 idx ob")
    case (Some ob')
    then have "poisoned ob'"
      using assms(2) b(2) name_entity_poisoned by (auto simp: flush_naming_def publish_naming_def split: if_splits)
    then show ?thesis
      using b Some by (cases "k_client s") (simp_all add: send_all_def Let_def blocked_def update_request_poisoned)
  qed (use assms(1) b in \<open>simp add: send_all_def\<close>)
qed

lemma k_publish_blocked:
  assumes "blocked s"
  shows "blocked (fst (k_publish x idx s)) \<and> k_sent (fst (k_publish x idx s)) = k_sent s"
proof -
  have "blocked (s\<lparr>k_buffer := k_buffer s @ [(x, idx)]\<rparr>)" using assms by (auto simp: blocked_def split: list.splits)
  then show ?thesis using send_all_blocked [of _ publish_naming] by (auto simp: k_publish_def publish_with_def Let_def)
qed

definition stays_blocked :: "http_req list \<Rightarrow> 'a entry_runtime \<Rightarrow> bool" where
  "stays_blocked sent s = (blocked s \<and> k_sent s = sent)"

lemma converter_handler_blocked: "stays_blocked sent s \<Longrightarrow> stays_blocked sent (fst (converter_handler encode e s))"
  using k_publish_blocked by (auto simp: converter_handler_def stays_blocked_def split: location.split)

lemma switch_handleCmd_blocked: "stays_blocked sent s \<Longrightarrow> stays_blocked sent (fst (switch_handleCmd c s))"
  by (auto simp: switch_handleCmd_def k_connectBroker_def k_setOutputs_def stays_blocked_def blocked_def split: option.split)

lemma flush_blocked: "stays_blocked sent s \<Longrightarrow> stays_blocked sent (fst (sendUpdateWithinBuffer s))"
  using send_all_blocked [of s flush_naming] by (auto simp: sendUpdateWithinBuffer_def stays_blocked_def)

lemma configured_blocked: "stays_blocked sent s \<Longrightarrow> stays_blocked sent (s\<lparr>k_configured := True\<rparr>)"
  by (simp add: stays_blocked_def blocked_def)

lemma converter_step_blocked: "stays_blocked sent s \<Longrightarrow> stays_blocked sent (fst (converter_step encode i s))"
proof (induction encode i s rule: converter_step.induct)
  case (1 encode commands s)
  then have "stays_blocked sent (fst (admin_with switch_handleCmds commands s))"
    unfolding handleCmds_eq by (intro admin_keeps [where P = "stays_blocked sent"]) (simp_all add: switch_handleCmd_blocked flush_blocked configured_blocked)
  then show ?case by (auto split: prod.split)
next
  case (2 encode es s)
  then show ?case
    using steps.run_invariant [of es "stays_blocked sent" "converter_handler encode" s] by (simp add: converter_handler_blocked)
qed

lemma poisoned_converter_entity:
  "is_nullish (k_field (k_field e ''attributes'') ''raining'') \<Longrightarrow> poisoned (converter_entity h e)"
  by (simp add: poisoned_def converter_entity_def k_field_def js_access)

text \<open>
  One entity with a location and without the attribute \<open>raining\<close> stops the converter for good: its update
  cannot be converted, it stays at the head of the buffer, and whatever commands and notifications follow, the converter
  sends nothing any more.
\<close>

theorem converter_stops:
  assumes "locate encode e = Located h" and "is_nullish (k_field (k_field e ''attributes'') ''raining'')" and "k_buffer s = []"
  shows "k_sent (fold (\<lambda>i s. fst (converter_step encode i s)) inputs (fst (converter_step encode (Notified [e]) s))) = k_sent s"
proof -
  let ?s = "s\<lparr>k_buffer := [(converter_entity h e, JNum 0)]\<rparr>"
  have "stays_blocked (k_sent s) ?s" using assms by (simp add: stays_blocked_def blocked_def poisoned_converter_entity)
  then have "stays_blocked (k_sent s) (fst (converter_handler encode e s))"
    using send_all_blocked [of ?s publish_naming] assms(1,3)
    by (auto simp: converter_handler_def k_publish_def publish_with_def stays_blocked_def Let_def)
  then have "stays_blocked (k_sent s) (fst (converter_step encode (Notified [e]) s))"
    by (cases "converter_handler encode e s") (simp split: bool.split)
  then have "stays_blocked (k_sent s) (fold (\<lambda>i s. fst (converter_step encode i s)) inputs (fst (converter_step encode (Notified [e]) s)))"
    by (induction inputs rule: rev_induct) (simp_all add: converter_step_blocked)
  then show ?thesis by (simp add: stays_blocked_def)
qed

theorem converter_stops_witness:
  "k_sent (fold (\<lambda>i s. fst (converter_step (\<lambda>la lo n. JStr ''u0y1'') i s)) [Admin [output_command (JStr ''o'') (JStr ''T'')], Notified [sample_located ''b'']]
     (fst (converter_step (\<lambda>la lo n. JStr ''u0y1'') (Notified [sample_located ''a'']) (init_runtime\<lparr>k_client := Some (JStr ''http://b'')\<rparr>)))) =
   k_sent (init_runtime\<lparr>k_client := Some (JStr ''http://b'')\<rparr> :: entry runtime)"
  by (rule converter_stops) (simp_all add: locate_def sample_located_def k_field_def js_access js_literal Let_def init_runtime_def)

end
