(* ===== verification/Broker_Entities.thy ===== *)
theory Broker_Entities
  imports NGSI_Agent
begin

text \<open>
  The entities of a broker, \<open>broker/thinBroker.go\<close> and \<open>broker/utils.go\<close>: how an update changes a stored entity, and what a
  subscriber is notified of.  This is the part of the broker that the operators interact through; its subscriptions,
  its registration at the discovery and the forwarding to other brokers are not modelled.
\<close>

section \<open>Elements\<close>

text \<open>Attributes and metadata are lists of names, types and values.  The metadata of an attribute is not modelled.\<close>

type_synonym named = "string \<times> string \<times> jval"

record entity_id =
  eid_type :: string
  eid_isPattern :: bool
  eid_id :: string

record element =
  Entity :: entity_id
  Attributes :: "named list"
  Metadata :: "named list"

type_synonym entities = "string \<Rightarrow> element option"

section \<open>Updates\<close>

text \<open>Attributes of the names in the update are removed, and all attributes of the update are appended.\<close>

definition updateAttributes :: "named list \<Rightarrow> named list \<Rightarrow> named list" where
  "updateAttributes currentAttributes newAttributes =
     filter (\<lambda>attr. fst attr \<notin> set (map fst newAttributes)) currentAttributes @ newAttributes"

text \<open>Metadata of an existing name gets the new value and keeps its type; otherwise it is appended.\<close>

fun updateDomainMetadata :: "named \<Rightarrow> named list \<Rightarrow> named list" where
  "updateDomainMetadata metadata [] = [metadata]"
| "updateDomainMetadata (n, t, v) ((m, u, w) # ms) =
     (if m = n then (m, u, v) # ms else (m, u, w) # updateDomainMetadata (n, t, v) ms)"

definition updateContextElement :: "element \<Rightarrow> entities \<Rightarrow> entities" where
  "updateContextElement ctxElem es =
     (case es (eid_id (Entity ctxElem)) of
        None \<Rightarrow> es(eid_id (Entity ctxElem) \<mapsto> ctxElem)
      | Some curElement \<Rightarrow>
          es(eid_id (Entity ctxElem) \<mapsto>
            curElement\<lparr>Attributes := updateAttributes (Attributes curElement) (Attributes ctxElem),
                       Metadata := fold updateDomainMetadata (Metadata ctxElem) (Metadata curElement)\<rparr>))"

section \<open>Notifications\<close>

definition CloneWithSelectedAttributes :: "string list \<Rightarrow> element \<Rightarrow> element" where
  "CloneWithSelectedAttributes selectedAttributes ce =
     ce\<lparr>Attributes :=
         (if selectedAttributes = [] then Attributes ce
          else concat (map (\<lambda>requiredAttrName. filter (\<lambda>ctxAttr. fst ctxAttr = requiredAttrName) (Attributes ce)) selectedAttributes))\<rparr>"

text \<open>
  \<open>UpdateContext2LocalSite\<close> and \<open>notifySubscribers\<close>: the update is applied, and each subscriber, given by the attributes it
  selected, is notified of the stored entity.
\<close>

definition UpdateContext2LocalSite :: "string list list \<Rightarrow> element \<Rightarrow> entities \<Rightarrow> entities \<times> element list" where
  "UpdateContext2LocalSite subscribers ctxElem es =
     (let es' = updateContextElement ctxElem es in
      (es', map (\<lambda>selectedAttributes. CloneWithSelectedAttributes selectedAttributes (the (es' (eid_id (Entity ctxElem))))) subscribers))"

text \<open>A deletion is announced by an element that has nothing but the identifier.\<close>

definition emptyElement :: "string \<Rightarrow> element" where
  "emptyElement eid = \<lparr>Entity = \<lparr>eid_type = [], eid_isPattern = False, eid_id = eid\<rparr>, Attributes = [], Metadata = []\<rparr>"

definition deleteEntity :: "string list list \<Rightarrow> string \<Rightarrow> entities \<Rightarrow> entities \<times> element list" where
  "deleteEntity subscribers eid es = (es(eid := None), map (\<lambda>_. emptyElement eid) subscribers)"

section \<open>The wire format\<close>

text \<open>Empty strings and \<open>false\<close> are omitted; a field that is omitted is read as \<open>undefined\<close>.\<close>

definition json_string :: "string \<Rightarrow> jval" where
  "json_string t = (if t = [] then JUndef else JStr t)"

definition json_entity :: "entity_id \<Rightarrow> jval" where
  "json_entity e =
     JObj ((if eid_type e = [] then [] else [(''type'', JStr (eid_type e))]) @
           (if eid_isPattern e then [(''isPattern'', JBool True)] else []) @
           (if eid_id e = [] then [] else [(''id'', JStr (eid_id e))]))"

definition json_named :: "named list \<Rightarrow> (string \<times> jval \<times> jval) list" where
  "json_named as = map (\<lambda>(n, t, v). (n, json_string t, v)) as"

definition json_element :: "element \<Rightarrow> jval" where
  "json_element e = ctx_element (json_entity (Entity e)) (json_named (Attributes e)) (json_named (Metadata e))"

text \<open>The body of a notification, \<open>postNGSIV1NotifyContext\<close>.\<close>

definition notification_body :: "string \<Rightarrow> element list \<Rightarrow> jval" where
  "notification_body subscriptionId ctxElems =
     JObj [(''subscriptionId'', JStr subscriptionId),
           (''contextResponses'', JArr (map (\<lambda>elem. JObj [(''contextElement'', json_element elem),
              (''statusCode'', JObj [(''code'', JNum 200), (''reasonPhrase'', JStr ''OK'')])]) ctxElems))]"

text \<open>\<open>json.Unmarshal\<close>: a field of another type is an error, a missing one keeps the zero value.\<close>

fun parse_string :: "jval \<Rightarrow> string option" where
  "parse_string JUndef = Some []"
| "parse_string JNull = Some []"
| "parse_string (JStr s) = Some s"
| "parse_string v = None"

fun parse_bool :: "jval \<Rightarrow> bool option" where
  "parse_bool JUndef = Some False"
| "parse_bool JNull = Some False"
| "parse_bool (JBool b) = Some b"
| "parse_bool v = None"

fun parse_entity :: "jval \<Rightarrow> entity_id option" where
  "parse_entity (JObj ps) =
     do { t \<leftarrow> parse_string (obj_get ps ''type'');
          p \<leftarrow> parse_bool (obj_get ps ''isPattern'');
          i \<leftarrow> parse_string (obj_get ps ''id'');
          Some \<lparr>eid_type = t, eid_isPattern = p, eid_id = i\<rparr> }"
| "parse_entity JUndef = Some \<lparr>eid_type = [], eid_isPattern = False, eid_id = []\<rparr>"
| "parse_entity JNull = Some \<lparr>eid_type = [], eid_isPattern = False, eid_id = []\<rparr>"
| "parse_entity v = None"

fun parse_named :: "jval list \<Rightarrow> named list option" where
  "parse_named [] = Some []"
| "parse_named (JObj ps # vs) =
     do { n \<leftarrow> parse_string (obj_get ps ''name'');
          t \<leftarrow> parse_string (obj_get ps ''type'');
          rest \<leftarrow> parse_named vs;
          Some ((n, t, obj_get ps ''value'') # rest) }"
| "parse_named (v # vs) = None"

fun parse_list :: "jval \<Rightarrow> named list option" where
  "parse_list JUndef = Some []"
| "parse_list JNull = Some []"
| "parse_list (JArr vs) = parse_named vs"
| "parse_list v = None"

fun parse_element :: "jval \<Rightarrow> element option" where
  "parse_element (JObj ps) =
     do { e \<leftarrow> parse_entity (obj_get ps ''entityId'');
          as \<leftarrow> parse_list (obj_get ps ''attributes'');
          ms \<leftarrow> parse_list (obj_get ps ''domainMetadata'');
          Some \<lparr>Entity = e, Attributes = as, Metadata = ms\<rparr> }"
| "parse_element v = None"

section \<open>Laws of the entities\<close>

lemma updateAttributes_lookup:
  "map_of (updateAttributes as bs) n = (case map_of bs n of Some x \<Rightarrow> Some x | None \<Rightarrow> map_of as n)"
proof (cases "map_of bs n")
  case None
  then have "n \<notin> fst ` set bs" by (simp add: map_of_eq_None_iff)
  then have "map_of (filter (\<lambda>attr. fst attr \<notin> set (map fst bs)) as) n = map_of as n"
    by (induction as) auto
  with None show ?thesis by (simp add: updateAttributes_def map_add_def split: option.split)
next
  case (Some x)
  then have "n \<in> fst ` set bs" by (metis domI domIff map_of_eq_None_iff)
  then have "map_of (filter (\<lambda>attr. fst attr \<notin> set (map fst bs)) as) n = None"
    by (force simp: map_of_eq_None_iff)
  with Some show ?thesis by (simp add: updateAttributes_def map_add_def)
qed

lemma updateDomainMetadata_names:
  "set (map fst (updateDomainMetadata x ms)) = insert (fst x) (set (map fst ms))"
  by (induction x ms rule: updateDomainMetadata.induct) auto

lemma updateDomainMetadata_distinct:
  "distinct (map fst ms) \<Longrightarrow> distinct (map fst (updateDomainMetadata x ms))"
proof (induction x ms rule: updateDomainMetadata.induct)
  case (2 n t v m u w ms)
  then show ?case using updateDomainMetadata_names [of "(n, t, v)" ms] by (auto simp del: set_map)
qed simp

text \<open>The invariant of the stored entities: they are stored under their identifier, and no name occurs twice.\<close>

definition entities_ok :: "entities \<Rightarrow> bool" where
  "entities_ok es = (\<forall>k e. es k = Some e \<longrightarrow> eid_id (Entity e) = k \<and> distinct (map fst (Attributes e)) \<and> distinct (map fst (Metadata e)))"

lemma entities_ok_D:
  "\<lbrakk>entities_ok es; es k = Some e\<rbrakk> \<Longrightarrow> eid_id (Entity e) = k \<and> distinct (map fst (Attributes e)) \<and> distinct (map fst (Metadata e))"
  by (simp add: entities_ok_def)

lemma fold_metadata_distinct: "distinct (map fst ms) \<Longrightarrow> distinct (map fst (fold updateDomainMetadata xs ms))"
  by (induction xs arbitrary: ms) (simp_all add: updateDomainMetadata_distinct)

lemma updateAttributes_distinct:
  "\<lbrakk>distinct (map fst as); distinct (map fst bs)\<rbrakk> \<Longrightarrow> distinct (map fst (updateAttributes as bs))"
  by (auto simp: updateAttributes_def distinct_map_filter)

text \<open>
  The entities of a broker stay well formed: updates that name no attribute and no metadata twice keep every
  entity under its own identifier and its names distinct.
\<close>

theorem updateContextElement_keeps_entities:
  assumes "entities_ok es" and "distinct (map fst (Attributes e))" and "distinct (map fst (Metadata e))"
  shows "entities_ok (updateContextElement e es)"
proof (cases "es (eid_id (Entity e))")
  case None
  with assms show ?thesis by (auto simp: entities_ok_def updateContextElement_def)
next
  case (Some cur)
  from entities_ok_D [OF assms(1) Some] assms show ?thesis
    by (simp add: Some entities_ok_def updateContextElement_def updateAttributes_distinct fold_metadata_distinct del: distinct_map)
qed

definition sample_element :: element where
  "sample_element = \<lparr>Entity = \<lparr>eid_type = ''Car'', eid_isPattern = False, eid_id = ''Car.1''\<rparr>, Attributes = [(''a'', ''integer'', JNum 1)], Metadata = []\<rparr>"

theorem updateContextElement_keeps_entities_witness: "entities_ok (updateContextElement sample_element Map.empty)"
  by (rule updateContextElement_keeps_entities) (simp_all add: entities_ok_def sample_element_def)

end
