(* ===== verification/Operator_Link.thy ===== *)
theory Operator_Link
  imports Buffered_Runtime Broker_Entities
begin

text \<open>
  The connection between the operators and the entities of a broker: the objects that an operator is given for a
  notification of the broker, and the updates that the broker is given for the requests of an operator.
\<close>

text \<open>
  What a subscriber makes of a notification of a stored element (\<open>postNGSIV1NotifyContext\<close> of the broker and the agent of the
  operator), and what the broker makes of a posted update.
\<close>

definition notified :: "string \<Rightarrow> element \<Rightarrow> jval list" where
  "notified sid e = (case readContextElements (notification_body sid [e]) of Some obs \<Rightarrow> obs | None \<Rightarrow> [])"

definition posted_updates :: "http_req \<Rightarrow> element list" where
  "posted_updates rq =
     (case rq_data rq of
        JObj ps \<Rightarrow>
          (if obj_get ps ''updateAction'' = JStr ''UPDATE'' then
             (case obj_get ps ''contextElements'' of
                JArr es \<Rightarrow> (case those (map parse_element es) of Some us \<Rightarrow> us | None \<Rightarrow> [])
              | _ \<Rightarrow> [])
           else [])
      | _ \<Rightarrow> [])"

text \<open>The identifiers of the entities that the broker deletes for a request.\<close>

definition posted_deletes :: "http_req \<Rightarrow> string list" where
  "posted_deletes rq =
     (case rq_data rq of
        JObj ps \<Rightarrow>
          (if obj_get ps ''updateAction'' = JStr ''DELETE'' then
             (case obj_get ps ''contextElements'' of
                JArr es \<Rightarrow> (case those (map parse_element es) of Some us \<Rightarrow> map (eid_id \<circ> Entity) us | None \<Rightarrow> [])
              | _ \<Rightarrow> [])
           else [])
      | _ \<Rightarrow> [])"

definition new_updates :: "('b, 'a) runtime_scheme \<Rightarrow> ('b, 'a) runtime_scheme \<Rightarrow> element list" where
  "new_updates s s' = concat (map posted_updates (drop (length (k_sent s)) (k_sent s')))"

definition ready :: "('b, 'a) runtime_scheme \<Rightarrow> bool" where
  "ready s = (k_client s \<noteq> None \<and> k_buffer s = [])"

abbreviation has :: "string \<Rightarrow> element \<Rightarrow> bool" where
  "has n e \<equiv> map_of (Attributes e) n \<noteq> None"

text \<open>Reading a notification.\<close>

definition readable_element :: "element \<Rightarrow> bool" where
  "readable_element e = (distinct (map fst (Attributes e)) \<and> ''__proto__'' \<notin> set (map fst (Attributes e)) \<and> eid_id (Entity e) \<noteq> [])"

definition notified_object :: "element \<Rightarrow> jval" where
  "notified_object e =
     JObj [(''entityId'', json_entity (Entity e)), (''attributes'', JObj (obj_of (named_props (json_named (Attributes e))))),
           (''metadata'', JObj (obj_of (named_props (json_named (Metadata e)))))]"

lemma notified_eq: "notified sid e = [notified_object e]"
  by (simp add: notified_def notification_body_def readContextElements_def js_access js_literal js_eq_200 json_element_def
      CtxElement2JSONObject_ctx_element notified_object_def)

definition json_attribute :: "(string \<times> jval) option \<Rightarrow> jval" where
  "json_attribute a = (case a of None \<Rightarrow> JUndef | Some (t, v) \<Rightarrow> JObj [(''type'', json_string t), (''value'', v)])"

lemma map_of_json_named:
  "map_of (named_props (json_named as)) n = map_option (\<lambda>a. json_attribute (Some a)) (map_of as n)"
  by (induction as) (auto simp: named_props_def json_named_def json_attribute_def)

lemma json_named_Nil [simp]: "json_named [] = []"
  by (simp add: json_named_def)

lemma keys_json_named: "map fst (named_props (json_named as)) = map fst as"
  by (induction as) (auto simp: named_props_def json_named_def)

lemma obj_get_json_named:
  assumes "distinct (map fst as)" and "''__proto__'' \<notin> set (map fst as)" and "n \<notin> set object_proto"
  shows "obj_get (obj_of (named_props (json_named as))) n = json_attribute (map_of as n)"
proof -
  let ?ps = "named_props (json_named as)"
  have names: "''__proto__'' \<notin> fst ` set ?ps" "distinct (map fst ?ps)"
    unfolding list.set_map [symmetric] keys_json_named using assms(1,2) by simp_all
  have "map_of (obj_of ?ps) n = map_option (\<lambda>a. json_attribute (Some a)) (map_of as n)"
    by (simp only: map_of_obj_of [OF names(1)] map_of_rev_canonical [OF names(2)] map_of_json_named)
  then show ?thesis
    using assms(3) by (auto simp: obj_get_def json_attribute_def split: option.split)
qed

lemma notified_attribute:
  "\<lbrakk>readable_element e; n \<notin> set object_proto\<rbrakk> \<Longrightarrow>
     k_field (k_field (notified_object e) ''attributes'') n = json_attribute (map_of (Attributes e) n)"
  by (simp add: readable_element_def notified_object_def k_field_def js_access obj_get_json_named)

lemma notified_nullish [simp]:
  "\<not> is_nullish (notified_object e)" "\<not> is_nullish (k_field (notified_object e) ''attributes'')"
  "is_nullish (json_attribute a) \<longleftrightarrow> a = None"
  by (simp_all add: notified_object_def k_field_def js_access json_attribute_def split: option.split)

lemma parse_json_string: "parse_string (json_string t) = Some t"
  by (simp add: json_string_def)

lemma parse_named_json: "parse_named (named_elems (json_named as)) = Some as"
  by (induction as) (auto simp: named_elems_def json_named_def js_access parse_json_string)

lemma posted_updates_element:
  "parse_entity (JObj ps) = Some i \<Longrightarrow>
     posted_updates (post_req u h (update_req_body (ctx_element (JObj ps) (json_named as) (json_named ms)) ''UPDATE'')) =
       [\<lparr>Entity = i, Attributes = as, Metadata = ms\<rparr>]"
  by (simp add: posted_updates_def post_req_def update_req_body_def js_literal js_access ctx_element_def parse_named_json del: parse_entity.simps)

lemma update_request_posted:
  assumes "JSONObject2CtxElement ob = Some (ctx_element (JObj ps) (json_named as) (json_named ms))" and "parse_entity (JObj ps) = Some i"
  shows "\<exists>rq. update_request u ob = Some rq \<and> posted_updates rq = [\<lparr>Entity = i, Attributes = as, Metadata = ms\<rparr>]"
  using assms(1) posted_updates_element [OF assms(2)] by (simp add: update_request_def)

lemma new_updates_same [simp]: "new_updates s s = []"
  by (simp add: new_updates_def)

lemma caught_single: "run_steps (caught f) [x] s = (fst (f x s), True)"
  by (simp add: caught_def)

lemma CloneWithSelectedAttributes_all [simp]: "CloneWithSelectedAttributes [] e = e"
  by (simp add: CloneWithSelectedAttributes_def)

text \<open>A readable update keeps what is stored readable, and what it says of an attribute holds afterwards.\<close>

lemma element_updated:
  assumes "readable_element u" and "\<And>e. es (eid_id (Entity u)) = Some e \<Longrightarrow> readable_element e"
  shows "\<exists>n. updateContextElement u es = es(eid_id (Entity u) \<mapsto> n) \<and> readable_element n \<and>
    Entity n = Entity (case es (eid_id (Entity u)) of None \<Rightarrow> u | Some e \<Rightarrow> e) \<and>
    (\<forall>k. map_of (Attributes n) k =
       (case map_of (Attributes u) k of Some a \<Rightarrow> Some a
        | None \<Rightarrow> Option.bind (es (eid_id (Entity u))) (\<lambda>e. map_of (Attributes e) k)))"
proof (cases "es (eid_id (Entity u))")
  case None
  with assms(1) show ?thesis by (auto simp: updateContextElement_def split: option.split)
next
  case (Some e)
  let ?as = "updateAttributes (Attributes e) (Attributes u)"
  note e = assms(2) [OF Some]
  have "distinct (map fst ?as)"
    using e assms(1) by (intro updateAttributes_distinct) (simp_all add: readable_element_def)
  moreover have "set (map fst ?as) \<subseteq> set (map fst (Attributes u)) \<union> set (map fst (Attributes e))"
    by (auto simp: updateAttributes_def)
  ultimately have "readable_element (e\<lparr>Attributes := ?as, Metadata := fold updateDomainMetadata (Metadata u) (Metadata e)\<rparr>)"
    using e assms(1) by (auto simp: readable_element_def simp del: set_map)
  then show ?thesis
    by (intro exI [of _ "e\<lparr>Attributes := ?as, Metadata := fold updateDomainMetadata (Metadata u) (Metadata e)\<rparr>"])
      (simp add: Some updateContextElement_def updateAttributes_lookup split: option.split)
qed

lemma updated_readable:
  assumes "readable_element u" and "\<And>e. es (eid_id (Entity u)) = Some e \<Longrightarrow> readable_element e"
  shows "\<exists>n. UpdateContext2LocalSite [[]] u es = (es(eid_id (Entity u) \<mapsto> n), [n]) \<and> readable_element n \<and>
    eid_type (Entity n) = eid_type (Entity (case es (eid_id (Entity u)) of None \<Rightarrow> u | Some e \<Rightarrow> e)) \<and>
    (\<forall>k a. map_of (Attributes u) k = Some a \<longrightarrow> map_of (Attributes n) k = Some a)"
proof -
  obtain n where n: "updateContextElement u es = es(eid_id (Entity u) \<mapsto> n)" "readable_element n"
      "Entity n = Entity (case es (eid_id (Entity u)) of None \<Rightarrow> u | Some e \<Rightarrow> e)"
      "\<And>k. map_of (Attributes n) k = (case map_of (Attributes u) k of Some a \<Rightarrow> Some a
        | None \<Rightarrow> Option.bind (es (eid_id (Entity u))) (\<lambda>e. map_of (Attributes e) k))"
    using element_updated [of u es, OF assms] by blast
  then show ?thesis by (intro exI [of _ n]) (simp add: UpdateContext2LocalSite_def)
qed

lemma selected_readable:
  "readable_element e \<Longrightarrow> readable_element (CloneWithSelectedAttributes [k] e)"
  "map_of (Attributes (CloneWithSelectedAttributes [k] e)) k = map_of (Attributes e) k"
proof -
  let ?as = "filter (\<lambda>a. fst a = k) (Attributes e)"
  have "set (map fst ?as) \<subseteq> set (map fst (Attributes e))" by auto
  moreover have "distinct (map fst (Attributes e)) \<Longrightarrow> distinct (map fst ?as)" by (rule distinct_map_filter)
  ultimately show "readable_element e \<Longrightarrow> readable_element (CloneWithSelectedAttributes [k] e)"
    by (auto simp: readable_element_def CloneWithSelectedAttributes_def simp del: set_map)
  have "map_of (filter (\<lambda>a. fst a = k) as) k = map_of as k" for as :: "named list" by (induction as) auto
  then show "map_of (Attributes (CloneWithSelectedAttributes [k] e)) k = map_of (Attributes e) k"
    by (simp add: CloneWithSelectedAttributes_def)
qed

end
