(* ===== verification/Home_Gateway.thy ===== *)
theory Home_Gateway
  imports Operator_Link
begin

text \<open>
  The home gateway, \<open>application/operator/homegateway\<close>: the operators of the microphone (\<open>acoustic\<close>) and of the push button
  turn the events of their device into alerts of its home, and the operator of a speaker issues the commands for the
  speaker.  They run in the runtime of \<open>Buffered_Runtime\<close> and interact through the entities of homes.
\<close>

section \<open>Microphone and push button\<close>

text \<open>
  The update of the home: \<open>None\<close> is an exception, \<open>Some None\<close> an entity that is ignored.  The two functions differ in the
  type of the alert and in the attribute that names the device.
\<close>

definition gateway_update :: "string \<Rightarrow> string \<Rightarrow> jval \<Rightarrow> jval option option" where
  "gateway_update alert_type device contextEntity =
     (if is_nullish contextEntity then Some None
      else let attributes = k_field contextEntity ''attributes''; metadata = k_field contextEntity ''metadata'' in
        if is_nullish attributes then Some None
        else do { homeID \<leftarrow> jget metadata ''homeID'';
                  (if is_nullish homeID then Some None
                   else do { eid \<leftarrow> jget contextEntity ''entityId'';
                             i \<leftarrow> jget eid ''id'';
                             Some (Some (JObj
                               [(''entityId'', JObj [(''id'', JStr (''Home.'' @ js_str (k_field homeID ''value''))), (''type'', JStr ''Home''), (''isPattern'', JBool False)]),
                                (''attributes'', JObj
                                   ((if is_nullish (k_field attributes ''detectedEvent'') then []
                                     else [(''alert'', JObj [(''type'', JStr ''object''), (''value'',
                                             JObj [(''type'', JStr alert_type), (''reason'', k_field (k_field attributes ''detectedEvent'') ''value''), (''device'', i)])])]) @
                                    [(device, JObj [(''type'', JStr ''string''), (''value'', i)])])),
                                (''metadata'', JObj
                                   (if is_nullish (k_field metadata ''location'') then [] else [(''location'', k_field metadata ''location'')]))])) }) })"

definition acoustic_naming :: naming where
  "acoustic_naming outs i idx ob =
     (if js_nonneg idx then
        (if i < length outs then
           assign_entity [(''id'', k_field (outs ! i) ''id''), (''type'', k_field (outs ! i) ''type''), (''isPattern'', JBool False)] ob
         else None)
      else Some ob)"

definition acoustic_handler :: "jval \<Rightarrow> entry runtime \<Rightarrow> entry runtime step" where
  "acoustic_handler contextEntity s =
     (case gateway_update ''EMERGENCY'' ''microphone'' contextEntity of
        None \<Rightarrow> (s, False)
      | Some None \<Rightarrow> (s, True)
      | Some (Some updateEntity) \<Rightarrow> publish_with acoustic_naming updateEntity (JNum (-1)) s)"

definition pushbutton_handler :: "jval \<Rightarrow> entry runtime \<Rightarrow> entry runtime step" where
  "pushbutton_handler contextEntity s =
     (case gateway_update ''ASK_FOR_HELP'' ''pushbutton'' contextEntity of
        None \<Rightarrow> (s, False)
      | Some None \<Rightarrow> (s, True)
      | Some (Some updateEntity) \<Rightarrow> k_publish updateEntity (JNum (-1)) s)"

fun acoustic_step :: "input \<Rightarrow> entry runtime \<Rightarrow> entry runtime step" where
  "acoustic_step (Admin commands) s = (case admin_with switch_handleCmds commands s of (s', r) \<Rightarrow> (s', r \<noteq> None))"
| "acoustic_step (Notified ctxObjects) s = run_steps acoustic_handler ctxObjects s"

fun pushbutton_step :: "input \<Rightarrow> entry runtime \<Rightarrow> entry runtime step" where
  "pushbutton_step (Admin commands) s = (case admin_with switch_handleCmds commands s of (s', r) \<Rightarrow> (s', r \<noteq> None))"
| "pushbutton_step (Notified ctxObjects) s = run_steps pushbutton_handler ctxObjects s"

section \<open>The speaker\<close>

record speaker = "entry runtime" +
  speakerID :: jval
  myHomeID :: jval

text \<open>Two statements in sequence.\<close>

definition seq_step :: "'s step \<Rightarrow> ('s \<Rightarrow> 's step) \<Rightarrow> 's step" where
  "seq_step r f = (case r of (s, ok) \<Rightarrow> if ok then f s else (s, False))"

definition speaker_subscription :: "string \<Rightarrow> string \<Rightarrow> jval" where
  "speaker_subscription type attribute =
     JObj [(''entities'', JArr [JObj [(''type'', JStr type), (''isPattern'', JBool True)]]), (''attributes'', JArr [JStr attribute])]"

text \<open>\<open>subscribe\<close>; the client under \<open>speaker/ngsi\<close> asks for reliable delivery in the headers.\<close>

definition reliable_headers :: jval where
  "reliable_headers = JObj [(''Accept'', JStr ''application/json''), (''Require-Reliability'', JStr ''true''),
     (''Content-Type'', JStr ''application/json'')]"

definition speaker_subscribe :: "jval \<Rightarrow> speaker \<Rightarrow> speaker step" where
  "speaker_subscribe subscribeCtxReq s =
     (case (subscribeCtxReq, k_client s) of
        (JObj ps, Some u) \<Rightarrow> (s\<lparr>k_sent := k_sent s @ [post_req (js_str u @ ''/subscribeContext'') reliable_headers
           (JObj (obj_put ''reference'' (k_referenceURL s) ps))]\<rparr>, True)
      | _ \<Rightarrow> (s, False))"

text \<open>A speaker is announced: its home learns of it, and the alerts and announcements are subscribed to.\<close>

definition announce_speaker :: "jval \<Rightarrow> speaker \<Rightarrow> speaker step" where
  "announce_speaker contextEntity s =
     (let s1 = s\<lparr>speakerID := k_field (k_field contextEntity ''entityId'') ''id''\<rparr> in
      case do { metadata \<leftarrow> jget contextEntity ''metadata'';
                homeID \<leftarrow> jget metadata ''homeID'';
                v \<leftarrow> jget homeID ''value'';
                Some (metadata, v) } of
        None \<Rightarrow> (s1, False)
      | Some (metadata, v) \<Rightarrow>
          (let s2 = s1\<lparr>myHomeID := JStr (''Home.'' @ js_str v)\<rparr>;
               updateEntity = JObj
                 [(''entityId'', JObj [(''id'', myHomeID s2), (''type'', JStr ''Home''), (''isPattern'', JBool False)]),
                  (''attributes'', JObj [(''speaker'', JObj [(''type'', JStr ''string''), (''value'', speakerID s2)])]),
                  (''metadata'', JObj (if is_nullish (k_field metadata ''location'') then [] else [(''location'', k_field metadata ''location'')]))]
           in seq_step (k_publish updateEntity (JNum (-1)) s2)
                (\<lambda>s. seq_step (speaker_subscribe (speaker_subscription ''Home'' ''alert'') s)
                   (speaker_subscribe (speaker_subscription ''Announcement'' ''annoucement'')))))"

definition attached_speaker :: "jval \<Rightarrow> speaker \<Rightarrow> jval" where
  "attached_speaker attributes s =
     (if is_nullish (k_field attributes ''speaker'') then speakerID s else k_field (k_field attributes ''speaker'') ''value'')"

definition speaker_command :: "jval \<Rightarrow> jval \<Rightarrow> jval" where
  "speaker_command attachedSpeakerID alert =
     JObj [(''entityId'', JObj [(''id'', attachedSpeakerID), (''isPattern'', JBool False)]),
           (''attributes'', JObj [(''command'', JObj [(''type'', JStr ''object''), (''value'', alert)])])]"

definition handle_home :: "jval \<Rightarrow> speaker \<Rightarrow> speaker step" where
  "handle_home contextEntity s =
     (let attributes = k_field contextEntity ''attributes''; attachedSpeakerID = attached_speaker attributes s in
      if is_nullish attachedSpeakerID then (s, True)
      else case jget (k_field attributes ''alert'') ''value'' of
             None \<Rightarrow> (s, False)
           | Some alert \<Rightarrow>
               (if js_eq (k_field (k_field contextEntity ''entityId'') ''id'') (myHomeID s) then (s, True)
                else k_publish (speaker_command attachedSpeakerID alert) (JNum (-1)) s))"

definition handle_announcement :: "jval \<Rightarrow> speaker \<Rightarrow> speaker step" where
  "handle_announcement contextEntity s =
     (let attributes = k_field contextEntity ''attributes''; attachedSpeakerID = attached_speaker attributes s in
      if is_nullish attachedSpeakerID then (s, True)
      else case jget (k_field attributes ''annoucement'') ''value'' of
             None \<Rightarrow> (s, False)
           | Some annoucement \<Rightarrow>
               k_publish (speaker_command attachedSpeakerID (JObj [(''type'', JStr ''BROADCAST''), (''value'', annoucement)])) (JNum (-1)) s)"

definition speaker_handler :: "jval \<Rightarrow> speaker \<Rightarrow> speaker step" where
  "speaker_handler contextEntity s =
     (if is_nullish contextEntity then (s, True)
      else if is_nullish (k_field contextEntity ''attributes'') then (s, True)
      else case Option.bind (jget contextEntity ''entityId'') (\<lambda>e. jget e ''type'') of
             None \<Rightarrow> (s, False)
           | Some t \<Rightarrow>
               (if js_eq t (JStr ''Speaker'') then announce_speaker contextEntity s
                else if js_eq t (JStr ''Home'') then handle_home contextEntity s
                else if js_eq t (JStr ''Announcement'') then handle_announcement contextEntity s
                else (s, True)))"

fun speaker_step :: "input \<Rightarrow> speaker \<Rightarrow> speaker step" where
  "speaker_step (Admin commands) s = (case k_handleAdmin commands s of (s', r) \<Rightarrow> (s', r \<noteq> None))"
| "speaker_step (Notified ctxObjects) s = run_steps (caught speaker_handler) ctxObjects s"

section \<open>An alarm\<close>

definition alarm :: "string \<Rightarrow> element \<Rightarrow> jval \<Rightarrow> jval" where
  "alarm alert_type d event = JObj [(''type'', JStr alert_type), (''reason'', event), (''device'', JStr (eid_id (Entity d)))]"

text \<open>
  A device with a home and an event, and the update of the home that its operator sends: the location of the home is that of the
  device, if the device has one, as the simulated microphone of \<open>application/device/homegateway/acoustic.py\<close> does.
\<close>

definition device_event :: "element \<Rightarrow> jval \<Rightarrow> jval \<Rightarrow> bool" where
  "device_event d home event =
     (readable_element d \<and> distinct (map fst (Metadata d)) \<and> ''__proto__'' \<notin> set (map fst (Metadata d)) \<and>
      (\<exists>t. map_of (Metadata d) ''homeID'' = Some (t, home)) \<and> (\<exists>t. map_of (Attributes d) ''detectedEvent'' = Some (t, event)))"

definition device_place :: "element \<Rightarrow> named list" where
  "device_place d = (case map_of (Metadata d) ''location'' of None \<Rightarrow> [] | Some (t, v) \<Rightarrow> [(''location'', t, v)])"

definition home_update :: "string \<Rightarrow> string \<Rightarrow> element \<Rightarrow> jval \<Rightarrow> jval \<Rightarrow> element" where
  "home_update alert_type device d home event =
     \<lparr>Entity = \<lparr>eid_type = ''Home'', eid_isPattern = False, eid_id = ''Home.'' @ js_str home\<rparr>,
      Attributes = [(''alert'', ''object'', alarm alert_type d event), (device, ''string'', JStr (eid_id (Entity d)))], Metadata = device_place d\<rparr>"

definition home_props :: "jval \<Rightarrow> props" where
  "home_props home = [(''id'', JStr (''Home.'' @ js_str home)), (''type'', JStr ''Home''), (''isPattern'', JBool False)]"

lemma notified_metadata:
  "\<lbrakk>distinct (map fst (Metadata e)); ''__proto__'' \<notin> set (map fst (Metadata e)); n \<notin> set object_proto\<rbrakk> \<Longrightarrow>
     k_field (k_field (notified_object e) ''metadata'') n = json_attribute (map_of (Metadata e) n)"
  by (simp add: notified_object_def k_field_def js_access obj_get_json_named)

lemma notified_entity: "k_field (notified_object e) ''entityId'' = json_entity (Entity e)"
  by (simp add: notified_object_def k_field_def js_access)

lemma gateway_names:
  "''detectedEvent'' \<notin> set object_proto" "''homeID'' \<notin> set object_proto" "''location'' \<notin> set object_proto" "''alert'' \<notin> set object_proto"
  "''speaker'' \<notin> set object_proto"
  by (simp_all add: object_proto_def)

lemma gateway_update_event:
  assumes "device_event d home event"
  shows "gateway_update alert_type device (notified_object d) =
    Some (Some (ctx_object (JObj (home_props home)) (json_named (Attributes (home_update alert_type device d home event))) (json_named (device_place d))))"
proof -
  obtain t t' where at: "map_of (Metadata d) ''homeID'' = Some (t, home)" "map_of (Attributes d) ''detectedEvent'' = Some (t', event)"
    using assms by (auto simp: device_event_def)
  have d: "readable_element d" "distinct (map fst (Metadata d))" "''__proto__'' \<notin> set (map fst (Metadata d))"
    using assms by (simp_all add: device_event_def)
  have attr: "k_field (json_attribute (Some (t, v))) ''value'' = v" for t v by (simp add: json_attribute_def k_field_def js_access)
  have meta: "jget (k_field (notified_object d) ''metadata'') ''homeID'' = Some (json_attribute (Some (t, home)))"
    using notified_metadata [OF d(2,3) gateway_names(2)] at(1) by (simp add: notified_object_def k_field_def js_access)
  have eid: "jget (notified_object d) ''entityId'' = Some (json_entity (Entity d))" by (simp add: notified_object_def js_access)
  have id: "jget (json_entity (Entity d)) ''id'' = Some (JStr (eid_id (Entity d)))"
    using d(1) by (simp add: json_entity_def js_access js_literal readable_element_def)
  show ?thesis
    by (simp add: gateway_update_def Let_def meta eid id notified_attribute [OF d(1)] notified_metadata [OF d(2,3)] gateway_names at attr)
      (cases "map_of (Metadata d) ''location''"; auto simp: ctx_object_def home_props_def home_update_def alarm_def json_named_def named_props_def
        json_string_def device_place_def json_attribute_def)
qed

lemma update_request_home:
  "update_request u (ctx_object (JObj (home_props home)) (json_named as) (json_named ms)) =
     Some (post_req (js_str u @ ''/updateContext'') JUndef (update_req_body (ctx_element (JObj (home_props home)) (json_named as) (json_named ms)) ''UPDATE''))"
  by (simp add: update_request_def JSONObject2CtxElement_ctx_object)

lemma posted_home_update:
  "posted_updates (post_req u h (update_req_body (ctx_element (JObj (home_props home))
     (json_named (Attributes (home_update alert_type device d home event))) (json_named (device_place d))) ''UPDATE'')) = [home_update alert_type device d home event]"
  by (subst posted_updates_element [of _ "Entity (home_update alert_type device d home event)"])
    (simp_all add: home_props_def home_update_def js_access)

lemma publish_home:
  assumes "ready s" and "naming = acoustic_naming \<or> naming = publish_naming"
  shows "\<exists>s'. publish_with naming (ctx_object (JObj (home_props home)) (json_named (Attributes (home_update alert_type device d home event))) (json_named (device_place d))) (JNum (-1)) s =
      (s', True) \<and> new_updates s s' = [home_update alert_type device d home event]"
proof -
  let ?x = "ctx_object (JObj (home_props home)) (json_named (Attributes (home_update alert_type device d home event))) (json_named (device_place d))"
  obtain u where u: "k_client s = Some u" "k_buffer s = []" using assms(1) by (auto simp: ready_def)
  have "naming (k_outputs s) 0 (JNum (-1)) ?x = Some ?x"
    using assms(2) by (auto simp: acoustic_naming_def publish_naming_def)
  from publish_connected [OF u, of naming, OF this update_request_home] show ?thesis
    by (simp add: new_updates_def posted_home_update)
qed

lemma alarm_published:
  assumes "device_event d home event" and "ready s"
  shows "\<exists>s'. acoustic_step (Notified (notified sid d)) s = (s', True) \<and> new_updates s s' = [home_update ''EMERGENCY'' ''microphone'' d home event]"
    and "\<exists>s'. pushbutton_step (Notified (notified sid d)) s = (s', True) \<and> new_updates s s' = [home_update ''ASK_FOR_HELP'' ''pushbutton'' d home event]"
proof -
  obtain s' where "publish_with acoustic_naming (ctx_object (JObj (home_props home)) (json_named (Attributes (home_update ''EMERGENCY'' ''microphone'' d home event))) (json_named (device_place d))) (JNum (-1)) s =
      (s', True)" "new_updates s s' = [home_update ''EMERGENCY'' ''microphone'' d home event]"
    using publish_home [OF assms(2)] by blast
  then show "\<exists>s'. acoustic_step (Notified (notified sid d)) s = (s', True) \<and> new_updates s s' = [home_update ''EMERGENCY'' ''microphone'' d home event]"
    by (simp add: notified_eq acoustic_handler_def gateway_update_event [OF assms(1)])
  obtain s'' where "publish_with publish_naming (ctx_object (JObj (home_props home)) (json_named (Attributes (home_update ''ASK_FOR_HELP'' ''pushbutton'' d home event))) (json_named (device_place d))) (JNum (-1)) s =
      (s'', True)" "new_updates s s'' = [home_update ''ASK_FOR_HELP'' ''pushbutton'' d home event]"
    using publish_home [OF assms(2)] by blast
  then show "\<exists>s'. pushbutton_step (Notified (notified sid d)) s = (s', True) \<and> new_updates s s' = [home_update ''ASK_FOR_HELP'' ''pushbutton'' d home event]"
    by (simp add: notified_eq pushbutton_handler_def k_publish_def gateway_update_event [OF assms(1)])
qed

text \<open>What a subscriber to the attribute \<open>alert\<close> is notified of after the update: that alert and nothing else.\<close>

lemma alert_selected:
  assumes "device \<noteq> ''alert''" and "\<forall>e. es (''Home.'' @ js_str home) = Some e \<longrightarrow> eid_type (Entity e) = ''Home'' \<and> eid_id (Entity e) = ''Home.'' @ js_str home"
  shows "\<exists>n. UpdateContext2LocalSite [[''alert'']] (home_update alert_type device d home event) es =
      (updateContextElement (home_update alert_type device d home event) es, [n]) \<and>
    Attributes n = [(''alert'', ''object'', alarm alert_type d event)] \<and> eid_type (Entity n) = ''Home'' \<and> eid_id (Entity n) = ''Home.'' @ js_str home"
  using assms
  by (cases "es (''Home.'' @ js_str home)")
    (auto simp: UpdateContext2LocalSite_def Let_def CloneWithSelectedAttributes_def updateContextElement_def updateAttributes_def home_update_def filter_empty_conv)

definition command_request :: "jval \<Rightarrow> string \<Rightarrow> jval \<Rightarrow> http_req" where
  "command_request u sp alert =
     post_req (js_str u @ ''/updateContext'') JUndef (update_req_body (ctx_element (JObj [(''id'', JStr sp), (''isPattern'', JBool False)])
       [(''command'', JStr ''object'', alert)] []) ''UPDATE'')"

lemma update_request_speaker: "update_request u (speaker_command (JStr sp) alert) = Some (command_request u sp alert)"
  by (simp add: speaker_command_def update_request_def JSONObject2CtxElement_def command_request_def ctx_element_def named_elems_def js_access js_literal)

lemma publish_command:
  assumes "k_client r = Some u" and "k_buffer r = []"
  shows "k_publish (speaker_command (JStr sp) alert) (JNum (-1)) r = (r\<lparr>k_sent := k_sent r @ [command_request u sp alert]\<rparr>, True)"
  unfolding k_publish_def
  by (rule publish_connected [OF assms _ update_request_speaker]) (simp add: publish_naming_def)

lemma speaker_alerted:
  assumes "Attributes n = [(''alert'', ''object'', a)]" and "eid_type (Entity n) = ''Home''" and "eid_id (Entity n) = h" and "h \<noteq> []"
    and "k_client r = Some u" and "k_buffer r = []" and "speakerID r = JStr sp" and "myHomeID r = JStr g"
  shows "speaker_step (Notified (notified sid n)) r =
    (if g = h then r else r\<lparr>k_sent := k_sent r @ [command_request u sp a]\<rparr>, True)"
proof -
  have n: "readable_element n" using assms(1,3,4) by (simp add: readable_element_def)
  have at: "k_field (k_field (notified_object n) ''attributes'') ''alert'' = JObj [(''type'', JStr ''object''), (''value'', a)]"
      "k_field (k_field (notified_object n) ''attributes'') ''speaker'' = JUndef"
    using assms(1) by (simp_all add: notified_attribute [OF n] gateway_names json_attribute_def json_string_def)
  have eid: "jget (notified_object n) ''entityId'' = Some (json_entity (Entity n))" by (simp add: notified_object_def js_access)
  have id: "jget (json_entity (Entity n)) ''type'' = Some (JStr ''Home'')" "k_field (json_entity (Entity n)) ''id'' = JStr h"
    using assms(2-4) by (simp_all add: json_entity_def k_field_def js_access js_literal)
  have "speaker_handler (notified_object n) r = handle_home (notified_object n) r"
    by (simp add: speaker_handler_def eid id js_eq_JStr)
  also have "\<dots> = (if g = h then r else r\<lparr>k_sent := k_sent r @ [command_request u sp a]\<rparr>, True)"
    using assms(5-8) by (auto simp: handle_home_def Let_def attached_speaker_def at notified_entity id js_access js_eq_JStr publish_command)
  finally show ?thesis by (simp only: speaker_step.simps notified_eq caught_single fst_conv)
qed

text \<open>
  Claim C23. An event at a microphone, with or without a location, is announced in the other homes only: the operator of the microphone publishes an
  alert of its home, together with the location if there is one, and the operator of a speaker, which subscribed to the alerts of homes, sends the command with that
  alert to its speaker exactly if the speaker belongs to another home.
\<close>

theorem alarm_reaches_other_homes:
  assumes "device_event d home event" and "ready s"
    and "\<forall>e. es (''Home.'' @ js_str home) = Some e \<longrightarrow> eid_type (Entity e) = ''Home'' \<and> eid_id (Entity e) = ''Home.'' @ js_str home"
    and "k_client r = Some u" and "k_buffer r = []" and "speakerID r = JStr sp" and "myHomeID r = JStr g"
  shows "\<exists>s' upd es' n. acoustic_step (Notified (notified sid d)) s = (s', True) \<and> new_updates s s' = [upd] \<and> Metadata upd = device_place d \<and>
     UpdateContext2LocalSite [[''alert'']] upd es = (es', [n]) \<and>
     speaker_step (Notified (notified sid' n)) r =
       (if g = ''Home.'' @ js_str home then r else r\<lparr>k_sent := k_sent r @ [command_request u sp (alarm ''EMERGENCY'' d event)]\<rparr>, True)"
proof -
  let ?upd = "home_update ''EMERGENCY'' ''microphone'' d home event"
  obtain s' where s': "acoustic_step (Notified (notified sid d)) s = (s', True)" "new_updates s s' = [?upd]"
    using alarm_published(1) [OF assms(1,2)] by blast
  obtain n where n: "UpdateContext2LocalSite [[''alert'']] ?upd es = (updateContextElement ?upd es, [n])"
      "Attributes n = [(''alert'', ''object'', alarm ''EMERGENCY'' d event)]" "eid_type (Entity n) = ''Home''" "eid_id (Entity n) = ''Home.'' @ js_str home"
    using alert_selected [of "''microphone''" es home "''EMERGENCY''" d event, OF _ assms(3)] by force
  have "speaker_step (Notified (notified sid' n)) r =
      (if g = ''Home.'' @ js_str home then r else r\<lparr>k_sent := k_sent r @ [command_request u sp (alarm ''EMERGENCY'' d event)]\<rparr>, True)"
    by (rule speaker_alerted [OF n(2-4) _ assms(4-7)]) simp
  moreover have "Metadata ?upd = device_place d" by (simp add: home_update_def)
  ultimately show ?thesis using s' n(1) by blast
qed

definition sample_microphone :: element where
  "sample_microphone = \<lparr>Entity = \<lparr>eid_type = ''Microphone'', eid_isPattern = False, eid_id = ''Device.Mic.1''\<rparr>,
     Attributes = [(''detectedEvent'', ''string'', JStr ''scream'')], Metadata = [(''location'', ''point'', JObj [(''latitude'', JNum 35), (''longitude'', JNum 138)]), (''homeID'', ''string'', JStr ''1'')]\<rparr>"

definition sample_speaker :: speaker where
  "sample_speaker = \<lparr>k_client = Some (JStr ''http://b''), k_outputs = [], k_referenceURL = JUndef, k_subscriptionId = JNull, k_configured = True,
     k_buffer = [], k_sent = [], speakerID = JStr ''Device.Speaker.2'', myHomeID = JStr ''Home.2''\<rparr>"

theorem alarm_reaches_other_homes_witness:
  "\<exists>s' upd es' n. acoustic_step (Notified (notified [] sample_microphone)) (init_runtime\<lparr>k_client := Some (JStr ''http://b'')\<rparr>) = (s', True) \<and>
     new_updates (init_runtime\<lparr>k_client := Some (JStr ''http://b'')\<rparr> :: entry runtime) s' = [upd] \<and> Metadata upd = device_place sample_microphone \<and>
     UpdateContext2LocalSite [[''alert'']] upd Map.empty = (es', [n]) \<and>
     speaker_step (Notified (notified [] n)) sample_speaker =
       (if ''Home.2'' = ''Home.'' @ js_str (JStr ''1'') then sample_speaker
        else sample_speaker\<lparr>k_sent := k_sent sample_speaker @
          [command_request (JStr ''http://b'') ''Device.Speaker.2'' (alarm ''EMERGENCY'' sample_microphone (JStr ''scream''))]\<rparr>, True)"
  by (rule alarm_reaches_other_homes)
    (simp_all add: device_event_def readable_element_def sample_microphone_def sample_speaker_def ready_def init_runtime_def)

end
