(* ===== verification/Raw_Runtime.thy ===== *)
theory Raw_Runtime
  imports Buffered_Runtime
begin

text \<open>
  The variant of the buffering runtime under \<open>application/operator/smartparking\<close>, which \<open>nodejs\<close>, \<open>IoTAgentJSON\<close>,
  \<open>NGSI-LD-Adapter\<close> and \<open>GeneralPurposeAdapter\<close> share: \<open>publish\<close> takes no output index and puts the bare update into the
  buffer, while \<open>sendUpdateWithinBuffer\<close> still expects entries with \<open>ctxObj\<close> and \<open>outputIdx\<close>.
\<close>

type_synonym 'a raw_runtime = "(jval, 'a) runtime_scheme"

text \<open>\<open>tmp.ctxObj\<close>, with the identity of an output if \<open>tmp.outputIdx > 0\<close>; \<open>None\<close> is an exception.\<close>

definition raw_entry :: "jval list \<Rightarrow> nat \<Rightarrow> jval \<Rightarrow> jval option" where
  "raw_entry outs i tmp =
     do { idx \<leftarrow> jget tmp ''outputIdx'';
          ctxObj \<leftarrow> jget tmp ''ctxObj'';
          (if js_positive idx then name_entity outs i ctxObj else Some ctxObj) }"

definition with_ctxObj :: "jval \<Rightarrow> jval \<Rightarrow> jval" where
  "with_ctxObj ob tmp =
     (case tmp of JObj ps \<Rightarrow> if js_positive (obj_get ps ''outputIdx'') then JObj (obj_put ''ctxObj'' ob ps) else tmp | _ \<Rightarrow> tmp)"

fun raw_flush :: "nat \<Rightarrow> jval list \<Rightarrow> 'a raw_runtime \<Rightarrow> 'a raw_runtime step" where
  "raw_flush i [] s = (s, True)"
| "raw_flush i (tmp # rest) s =
     (case raw_entry (k_outputs s) i tmp of
        None \<Rightarrow> (s, False)
      | Some ob \<Rightarrow>
          (let s1 = s\<lparr>k_buffer := (k_buffer s)[i := with_ctxObj ob tmp]\<rparr> in
           case Option.bind (k_client s1) (\<lambda>u. update_request u ob) of
             None \<Rightarrow> (s1, False)
           | Some rq \<Rightarrow> raw_flush (Suc i) rest (s1\<lparr>k_sent := k_sent s1 @ [rq]\<rparr>)))"

definition raw_sendUpdateWithinBuffer :: "'a raw_runtime \<Rightarrow> 'a raw_runtime step" where
  "raw_sendUpdateWithinBuffer s =
     (case raw_flush 0 (k_buffer s) s of (s', ok) \<Rightarrow> (if ok then s'\<lparr>k_buffer := []\<rparr> else s', ok))"

fun raw_send :: "jval list \<Rightarrow> 'a raw_runtime \<Rightarrow> 'a raw_runtime step" where
  "raw_send [] s = (s, True)"
| "raw_send (update # rest) s =
     (case Option.bind (k_client s) (\<lambda>u. update_request u update) of
        None \<Rightarrow> (s, False)
      | Some rq \<Rightarrow> raw_send rest (s\<lparr>k_sent := k_sent s @ [rq]\<rparr>))"

definition raw_publish :: "jval \<Rightarrow> 'a raw_runtime \<Rightarrow> 'a raw_runtime step" where
  "raw_publish ctxUpdate s =
     (let s1 = s\<lparr>k_buffer := k_buffer s @ [ctxUpdate]\<rparr> in
      if k_client s1 = None then (s1, True)
      else case raw_send (k_buffer s1) s1 of (s', ok) \<Rightarrow> (if ok then s'\<lparr>k_buffer := []\<rparr> else s', ok))"

text \<open>\<open>query\<close> and \<open>subscribe\<close> do nothing without a client.\<close>

definition raw_query :: "jval \<Rightarrow> 'a raw_runtime \<Rightarrow> 'a raw_runtime" where
  "raw_query queryCtxReq s =
     (case k_client s of
        None \<Rightarrow> s
      | Some u \<Rightarrow> s\<lparr>k_sent := k_sent s @ [post_req (js_str u @ ''/queryContext'') JUndef queryCtxReq]\<rparr>)"

definition raw_subscribe :: "jval \<Rightarrow> 'a raw_runtime \<Rightarrow> 'a raw_runtime step" where
  "raw_subscribe subscribeCtxReq s = (if k_client s = None then (s, True) else k_subscribe subscribeCtxReq s)"

definition raw_handleCmds :: "jval list \<Rightarrow> 'a raw_runtime \<Rightarrow> 'a raw_runtime step" where
  "raw_handleCmds commands s = handle_cmds_with k_handleCmd raw_sendUpdateWithinBuffer commands s"

definition raw_handleAdmin :: "jval list \<Rightarrow> 'a raw_runtime \<Rightarrow> 'a raw_runtime \<times> reply option" where
  "raw_handleAdmin commands s = admin_with raw_handleCmds commands s"

definition raw_start :: "jval option \<Rightarrow> 'a raw_runtime \<Rightarrow> 'a raw_runtime" where
  "raw_start adminCfg s = start_with raw_handleCmds adminCfg s"

text \<open>\<open>nodejs/main.js\<close>; the function is supplied when an image is built from it, so that it is a parameter.\<close>

fun nodejs_step :: "(jval \<Rightarrow> 'a raw_runtime \<Rightarrow> 'a raw_runtime step) \<Rightarrow> input \<Rightarrow> 'a raw_runtime \<Rightarrow> 'a raw_runtime step" where
  "nodejs_step handler (Admin commands) s = (case raw_handleAdmin commands s of (s', r) \<Rightarrow> (s', r \<noteq> None))"
| "nodejs_step handler (Notified ctxObjects) s = run_steps (caught handler) ctxObjects s"

section \<open>Laws of sending\<close>

lemma raw_send_all:
  "\<lbrakk>k_client s = Some u; \<And>x. x \<in> set xs \<Longrightarrow> update_request u x = Some (rq x)\<rbrakk> \<Longrightarrow>
     raw_send xs s = (s\<lparr>k_sent := k_sent s @ map rq xs\<rparr>, True)"
  by (induction xs arbitrary: s) simp_all

lemma raw_publish_unconnected:
  "k_client s = None \<Longrightarrow> raw_publish x s = (s\<lparr>k_buffer := k_buffer s @ [x]\<rparr>, True)"
  by (simp add: raw_publish_def Let_def)

lemma raw_publish_connected:
  assumes "k_client s = Some u" and "\<And>y. y \<in> set (k_buffer s @ [x]) \<Longrightarrow> update_request u y = Some (rq y)"
  shows "raw_publish x s = (s\<lparr>k_sent := k_sent s @ map rq (k_buffer s @ [x]), k_buffer := []\<rparr>, True)"
  using raw_send_all [of "s\<lparr>k_buffer := k_buffer s @ [x]\<rparr>" u "k_buffer s @ [x]" rq] assms
  by (simp add: raw_publish_def Let_def)

lemma raw_publish_empty:
  assumes "k_client s = Some u" and "k_buffer s = []" and "update_request u x = Some r"
  shows "raw_publish x s = (s\<lparr>k_sent := k_sent s @ [r]\<rparr>, True)"
  using raw_publish_connected [OF assms(1), of x "\<lambda>_. r"] assms k_buffer_id [of s "[]"] by (cases s) simp

section \<open>Buffered updates break the configuration\<close>

text \<open>An update as the functions build it: an object without a field \<open>ctxObj\<close>.\<close>

definition bare :: "jval \<Rightarrow> bool" where
  "bare x = (case x of JObj ps \<Rightarrow> obj_get ps ''ctxObj'' = JUndef \<and> obj_get ps ''outputIdx'' = JUndef | _ \<Rightarrow> False)"

lemma raw_flush_bare: "bare x \<Longrightarrow> raw_flush i (x # xs) s = (s\<lparr>k_buffer := (k_buffer s)[i := x]\<rparr>, False)"
  by (cases "k_client s")
    (auto simp: bare_def raw_entry_def with_ctxObj_def update_request_def JSONObject2CtxElement_def Let_def split: jval.splits)

lemma k_handleCmd_buffer: "k_buffer (fst (k_handleCmd c s)) = k_buffer s \<and> k_sent (fst (k_handleCmd c s)) = k_sent s"
  by (auto simp: k_handleCmd_def k_connectBroker_def k_setOutputs_def k_setReferenceURL_def split: option.split)

lemma k_cmds_buffer:
  "k_buffer (fst (run_steps k_handleCmd cs s)) = k_buffer s \<and> k_sent (fst (run_steps k_handleCmd cs s)) = k_sent s"
  by (rule steps.run_invariant [where P = "\<lambda>t. k_buffer t = k_buffer s \<and> k_sent t = k_sent s"]) (simp_all add: k_handleCmd_buffer)

text \<open>
  As soon as an update is in the buffer, every configuration request fails: no reply is sent, the runtime is
  not marked as configured, and nothing of the buffer is sent, although the commands are executed.
\<close>

theorem raw_admin_fails:
  assumes "k_buffer s = x # xs" and "bare x"
  shows "\<exists>t. raw_handleAdmin commands s = (t, None) \<and> k_buffer t = k_buffer s \<and> k_sent t = k_sent s \<and>
     t = fst (run_steps k_handleCmd commands s)"
proof -
  obtain t ok where t: "run_steps k_handleCmd commands s = (t, ok)" by fastforce
  have kept: "k_buffer t = x # xs" "k_sent t = k_sent s" using k_cmds_buffer [of commands s] assms(1) by (simp_all add: t)
  have "raw_sendUpdateWithinBuffer t = (t, False)"
    using raw_flush_bare [OF assms(2), of 0 xs t] kept k_buffer_id [of t "x # xs"] by (simp add: raw_sendUpdateWithinBuffer_def)
  then show ?thesis
    using assms(1) kept by (cases ok) (simp_all add: raw_handleAdmin_def admin_with_def raw_handleCmds_def handle_cmds_with_def t)
qed

theorem raw_admin_fails_witness:
  "\<exists>t. raw_handleAdmin [connect_command (JStr ''http://b'')] (init_runtime\<lparr>k_buffer := [JObj [(''entityId'', JObj [])]]\<rparr>) = (t, None) \<and>
     k_buffer t = k_buffer (init_runtime\<lparr>k_buffer := [JObj [(''entityId'', JObj [])]]\<rparr>) \<and>
     k_sent t = k_sent (init_runtime\<lparr>k_buffer := [JObj [(''entityId'', JObj [])]]\<rparr>) \<and>
     t = fst (run_steps k_handleCmd [connect_command (JStr ''http://b'')] (init_runtime\<lparr>k_buffer := [JObj [(''entityId'', JObj [])]]\<rparr>))"
  by (rule raw_admin_fails [of _ "JObj [(''entityId'', JObj [])]" "[]"]) (simp_all add: bare_def js_access js_literal)

text \<open>In the image for functions in JavaScript: a function that publishes before the configuration arrives is never configured.\<close>

corollary early_publication_blocks_configuration:
  assumes "k_client s = None" and "k_buffer s = []" and "handler e s = raw_publish x s" and "bare x"
  shows "snd (nodejs_step handler (Admin commands) (fst (nodejs_step handler (Notified [e]) s))) = False"
proof -
  have "fst (nodejs_step handler (Notified [e]) s) = s\<lparr>k_buffer := [x]\<rparr>"
    using assms(1-3) by (simp add: caught_def raw_publish_unconnected)
  moreover have "\<exists>t. raw_handleAdmin commands (s\<lparr>k_buffer := [x]\<rparr>) = (t, None)"
    using raw_admin_fails [of "s\<lparr>k_buffer := [x]\<rparr>" x "[]" commands] assms(4) by auto
  ultimately show ?thesis by auto
qed

end
