(* ===== verification/Smart_Parking.thy ===== *)
theory Smart_Parking
  imports Complex_Main Raw_Runtime Operator_Link
begin

text \<open>
  The smart parking application, \<open>application/operator/smartparking\<close>: the functions of the connected car, the
  recommender and the parking sites, in the runtime of \<open>Raw_Runtime\<close>, and the application as a whole, in which the
  operators interact through the entities of a broker.

  The clock and the literal destination, whose coordinates are no integers, are arguments.
\<close>

section \<open>The connected car\<close>

record car = "jval runtime" +
  parkingRequest :: jval

text \<open>\<open>{id: contextEntity.entityId.id, type: contextEntity.entityId.type, isPattern: false}\<close>\<close>

definition same_entity :: "jval \<Rightarrow> jval option" where
  "same_entity contextEntity =
     do { e \<leftarrow> jget contextEntity ''entityId'';
          i \<leftarrow> jget e ''id'';
          t \<leftarrow> jget e ''type'';
          Some (JObj [(''id'', i), (''type'', t), (''isPattern'', JBool False)]) }"

definition parking_request :: "jval \<Rightarrow> jval \<Rightarrow> jval" where
  "parking_request twentyMinutesLater destination =
     JObj [(''arrival_time'', twentyMinutesLater), (''destination'', destination)]"

definition car_handler :: "jval \<Rightarrow> jval \<Rightarrow> jval \<Rightarrow> car \<Rightarrow> car step" where
  "car_handler twentyMinutesLater destination contextEntity s =
     (if is_nullish contextEntity then (s, True)
      else let attributes = k_field contextEntity ''attributes'' in
        if is_nullish attributes then (s, True)
        else if \<not> is_nullish (k_field attributes ''ParkingRequest'') then (s, True)
        else if \<not> is_nullish (k_field attributes ''RecommendedParkingSite'') then (s, True)
        else case same_entity contextEntity of
               None \<Rightarrow> (s, False)
             | Some entityId \<Rightarrow>
                 (let request = parking_request twentyMinutesLater destination
                  in raw_publish (JObj [(''entityId'', entityId),
                        (''attributes'', JObj [(''ParkingRequest'', JObj [(''type'', JStr ''object''), (''value'', request)])])])
                       (s\<lparr>parkingRequest := request\<rparr>)))"

section \<open>The recommender\<close>

record recommender = "jval runtime" +
  previousReq :: jval

text \<open>The condition under which a request is the previous one; \<open>None\<close> is an exception, and \<open>&&\<close> stops at the first difference.\<close>

definition same_request :: "jval \<Rightarrow> jval \<Rightarrow> bool option" where
  "same_request previous req =
     do { t \<leftarrow> jget previous ''arrival_time'';
          t' \<leftarrow> jget req ''arrival_time'';
          (if \<not> js_eq t t' then Some False
           else do { d \<leftarrow> jget previous ''destination'';
                     la \<leftarrow> jget d ''latitude'';
                     d' \<leftarrow> jget req ''destination'';
                     la' \<leftarrow> jget d' ''latitude'';
                     (if \<not> js_eq la la' then Some False
                      else do { lo \<leftarrow> jget d ''longitude'';
                                lo' \<leftarrow> jget d' ''longitude'';
                                Some (js_eq lo lo') }) }) }"

definition recommender_handler :: "jval \<Rightarrow> recommender \<Rightarrow> recommender step" where
  "recommender_handler contextEntity s =
     (if is_nullish contextEntity then (s, True)
      else let attributes = k_field contextEntity ''attributes'' in
        if is_nullish attributes then (s, True)
        else if \<not> is_nullish (k_field attributes ''RecommendedParkingSite'') then (s, True)
        else if is_nullish (k_field attributes ''ParkingRequest'') then (s, True)
        else let parkingReq = k_field (k_field attributes ''ParkingRequest'') ''value'' in
          case (if is_nullish (previousReq s) then Some False else same_request (previousReq s) parkingReq) of
            None \<Rightarrow> (s, False)
          | Some True \<Rightarrow> (s, True)
          | Some False \<Rightarrow>
              (case same_entity contextEntity of
                 None \<Rightarrow> (s, False)
               | Some entityId \<Rightarrow>
                   (case raw_publish (JObj [(''entityId'', entityId),
                       (''attributes'', JObj [(''RecommendedParkingSite'', JObj [(''type'', JStr ''string''), (''value'', JStr ''Twin.ParkingSite.002'')])])]) s of
                      (s', False) \<Rightarrow> (s', False)
                    | (s', True) \<Rightarrow> (s'\<lparr>previousReq := parkingReq\<rparr>, True))))"

section \<open>The parking sites\<close>

text \<open>\<open>Math.random\<close> returns the numbers of a list.\<close>

definition id_characters :: string where
  "id_characters = ''ABCDEFGHIJKLMNOPQRSTUVWXYZabcdefghijklmnopqrstuvwxyz0123456789''"

definition makeid :: "rat list \<Rightarrow> string" where
  "makeid rs = map (\<lambda>r. id_characters ! nat \<lfloor>r * of_nat (length id_characters)\<rfloor>) rs"

text \<open>
  The private and the public site have the same function.  The variable \<open>attributes\<close> in its third condition is declared
  nowhere: reading it throws.
\<close>

definition site_handler :: "string \<Rightarrow> jval \<Rightarrow> jval runtime \<Rightarrow> jval runtime step" where
  "site_handler myID contextEntity s =
     (if is_nullish contextEntity then (s, True)
      else let attributes = k_field contextEntity ''attributes'' in
        if is_nullish attributes then (s, True)
        else if \<not> is_nullish (k_field attributes ''Updater'') then (s, False)
        else if is_nullish (k_field attributes ''datasource'') then (s, True)
        else case same_entity contextEntity of
               None \<Rightarrow> (s, False)
             | Some entityId \<Rightarrow>
                 raw_publish (JObj [(''entityId'', entityId),
                   (''attributes'', JObj [(''FreeParkingSpots'', JObj [(''type'', JStr ''integer''), (''value'', JNum 10)]),
                                          (''Updater'', JObj [(''type'', JStr ''string''), (''value'', JStr myID)])])]) s)"

section \<open>The programs\<close>

fun car_step :: "jval \<Rightarrow> jval \<Rightarrow> input \<Rightarrow> car \<Rightarrow> car step" where
  "car_step now destination (Admin commands) s = (case raw_handleAdmin commands s of (s', r) \<Rightarrow> (s', r \<noteq> None))"
| "car_step now destination (Notified ctxObjects) s = run_steps (caught (car_handler now destination)) ctxObjects s"

fun recommender_step :: "input \<Rightarrow> recommender \<Rightarrow> recommender step" where
  "recommender_step (Admin commands) s = (case raw_handleAdmin commands s of (s', r) \<Rightarrow> (s', r \<noteq> None))"
| "recommender_step (Notified ctxObjects) s = run_steps (caught recommender_handler) ctxObjects s"

fun private_site_step :: "string \<Rightarrow> input \<Rightarrow> jval runtime \<Rightarrow> jval runtime step" where
  "private_site_step myID (Admin commands) s = (case raw_handleAdmin commands s of (s', r) \<Rightarrow> (s', r \<noteq> None))"
| "private_site_step myID (Notified ctxObjects) s = run_steps (caught (site_handler myID)) ctxObjects s"

fun public_site_step :: "string \<Rightarrow> input \<Rightarrow> jval runtime \<Rightarrow> jval runtime step" where
  "public_site_step myID (Admin commands) s = (case raw_handleAdmin commands s of (s', r) \<Rightarrow> (s', r \<noteq> None))"
| "public_site_step myID (Notified ctxObjects) s = run_steps (caught (site_handler myID)) ctxObjects s"

lemma makeid_alphabet:
  assumes "list_all (\<lambda>r. 0 \<le> r \<and> r < 1) rs"
  shows "length (makeid rs) = length rs \<and> set (makeid rs) \<subseteq> set id_characters"
proof -
  have "id_characters ! nat \<lfloor>r * of_nat (length id_characters)\<rfloor> \<in> set id_characters" if "0 \<le> r" "r < 1" for r :: rat
  proof (rule nth_mem)
    have "r * of_nat (length id_characters) < of_nat (length id_characters)"
      using that(2) by (simp add: id_characters_def)
    then show "nat \<lfloor>r * of_nat (length id_characters)\<rfloor> < length id_characters"
      using that(1) by (simp add: id_characters_def nat_less_iff floor_less_iff)
  qed
  with assms show ?thesis by (auto simp: makeid_def list_all_iff)
qed

section \<open>The application\<close>

text \<open>The operators, the broker, and the messages between them, which may overtake each other.\<close>

record parking =
  updates :: "element list"
  stored :: entities
  to_car :: "element list"
  to_recommender :: "element list"
  the_car :: car
  the_recommender :: recommender

inductive parking_step :: "jval \<Rightarrow> parking \<Rightarrow> parking \<Rightarrow> bool" for destination where
  broker: "\<lbrakk>updates p = us @ e # vs; UpdateContext2LocalSite [[], []] e (stored p) = (es, [n, m])\<rbrakk> \<Longrightarrow>
     parking_step destination p (p\<lparr>updates := us @ vs, stored := es, to_car := to_car p @ [n], to_recommender := to_recommender p @ [m]\<rparr>)"
| car: "\<lbrakk>to_car p = ns @ n # ms; car_step now destination (Notified (notified sid n)) (the_car p) = (c, ok)\<rbrakk> \<Longrightarrow>
     parking_step destination p (p\<lparr>to_car := ns @ ms, the_car := c, updates := updates p @ new_updates (the_car p) c\<rparr>)"
| recommend: "\<lbrakk>to_recommender p = ns @ n # ms; recommender_step (Notified (notified sid n)) (the_recommender p) = (r, ok)\<rbrakk> \<Longrightarrow>
     parking_step destination p (p\<lparr>to_recommender := ns @ ms, the_recommender := r, updates := updates p @ new_updates (the_recommender p) r\<rparr>)"

lemma same_entity_notified:
  "eid_id (Entity e) \<noteq> [] \<Longrightarrow>
     same_entity (notified_object e) =
       Some (JObj [(''id'', JStr (eid_id (Entity e))), (''type'', json_string (eid_type (Entity e))), (''isPattern'', JBool False)])"
  by (simp add: same_entity_def notified_object_def json_entity_def json_string_def js_access js_literal)

text \<open>What the broker makes of an update that an operator publishes for the entity it was notified of.\<close>

definition own_update :: "element \<Rightarrow> named list \<Rightarrow> element" where
  "own_update e as =
     \<lparr>Entity = \<lparr>eid_type = eid_type (Entity e), eid_isPattern = False, eid_id = eid_id (Entity e)\<rparr>, Attributes = as, Metadata = []\<rparr>"

definition own_object :: "element \<Rightarrow> named list \<Rightarrow> jval" where
  "own_object e as =
     JObj [(''entityId'', JObj [(''id'', JStr (eid_id (Entity e))), (''type'', json_string (eid_type (Entity e))), (''isPattern'', JBool False)]),
           (''attributes'', JObj (named_props (json_named as)))]"

definition own_request :: "jval \<Rightarrow> element \<Rightarrow> named list \<Rightarrow> http_req" where
  "own_request u e as =
     post_req (js_str u @ ''/updateContext'') JUndef (update_req_body (ctx_element (JObj [(''id'', JStr (eid_id (Entity e))),
       (''type'', json_string (eid_type (Entity e))), (''isPattern'', JBool False)]) (json_named as) []) ''UPDATE'')"

lemma update_request_own: "update_request u (own_object e as) = Some (own_request u e as)"
  by (simp add: own_object_def update_request_def JSONObject2CtxElement_def own_request_def ctx_element_def js_access js_literal named_list_props)
    (simp add: named_elems_def)

lemma posted_updates_own: "posted_updates (own_request u e as) = [own_update e as]"
  using posted_updates_element [of "[(''id'', JStr (eid_id (Entity e))), (''type'', json_string (eid_type (Entity e))), (''isPattern'', JBool False)]"
      "Entity (own_update e as)" _ _ as "[]"]
  by (simp add: own_request_def own_update_def js_access parse_json_string)

definition request_attribute :: "jval \<Rightarrow> jval \<Rightarrow> named" where
  "request_attribute now destination = (''ParkingRequest'', ''object'', parking_request now destination)"

definition site_attribute :: named where
  "site_attribute = (''RecommendedParkingSite'', ''string'', JStr ''Twin.ParkingSite.002'')"

lemma plain_attribute_names: "''ParkingRequest'' \<notin> set object_proto" "''RecommendedParkingSite'' \<notin> set object_proto"
  "''Updater'' \<notin> set object_proto" "''datasource'' \<notin> set object_proto"
  by (simp_all add: object_proto_def)

lemma raw_publish_own:
  assumes "ready s"
  shows "\<exists>u. raw_publish (own_object e as) s = (s\<lparr>k_sent := k_sent s @ [own_request u e as]\<rparr>, True)"
proof -
  obtain u where "k_client s = Some u" "k_buffer s = []" using assms by (auto simp: ready_def)
  from raw_publish_empty [OF this update_request_own] show ?thesis by blast
qed

lemma car_ignores:
  "\<lbrakk>readable_element e; has ''ParkingRequest'' e \<or> has ''RecommendedParkingSite'' e\<rbrakk> \<Longrightarrow>
     car_step now destination (Notified (notified sid e)) c = (c, True)"
  by (auto simp: notified_eq caught_single car_handler_def Let_def notified_attribute plain_attribute_names simp del: run_steps.simps)

lemma car_asks:
  assumes "readable_element e" and "\<not> has ''ParkingRequest'' e" and "\<not> has ''RecommendedParkingSite'' e" and "ready c"
  shows "\<exists>c'. car_step now destination (Notified (notified sid e)) c = (c', True) \<and> ready c' \<and> length (k_sent c') = Suc (length (k_sent c)) \<and>
     new_updates c c' = [own_update e [request_attribute now destination]]"
proof -
  let ?s = "c\<lparr>parkingRequest := parking_request now destination\<rparr>"
  have "JObj [(''entityId'', JObj [(''id'', JStr (eid_id (Entity e))), (''type'', json_string (eid_type (Entity e))), (''isPattern'', JBool False)]),
      (''attributes'', JObj [(''ParkingRequest'', JObj [(''type'', JStr ''object''), (''value'', parking_request now destination)])])] =
    own_object e [request_attribute now destination]"
    by (simp add: own_object_def request_attribute_def named_props_def json_named_def json_string_def)
  moreover obtain u where "raw_publish (own_object e [request_attribute now destination]) ?s =
      (?s\<lparr>k_sent := k_sent ?s @ [own_request u e [request_attribute now destination]]\<rparr>, True)"
    using raw_publish_own [of ?s] assms(4) by (auto simp: ready_def)
  ultimately have "car_handler now destination (notified_object e) c =
      (?s\<lparr>k_sent := k_sent ?s @ [own_request u e [request_attribute now destination]]\<rparr>, True)"
    using assms by (simp add: car_handler_def Let_def notified_attribute plain_attribute_names same_entity_notified readable_element_def)
  then show ?thesis
    using assms(4) by (simp add: notified_eq caught_single ready_def new_updates_def posted_updates_own del: run_steps.simps)
qed

lemma recommender_ignores:
  "\<lbrakk>readable_element e; \<not> has ''ParkingRequest'' e \<or> has ''RecommendedParkingSite'' e\<rbrakk> \<Longrightarrow>
     recommender_step (Notified (notified sid e)) r = (r, True)"
  by (auto simp: notified_eq caught_single recommender_handler_def Let_def notified_attribute plain_attribute_names simp del: run_steps.simps)

lemma recommender_advises:
  assumes "readable_element e" and "has ''ParkingRequest'' e" and "\<not> has ''RecommendedParkingSite'' e" and "ready r" and "previousReq r = JNull"
  shows "\<exists>r'. recommender_step (Notified (notified sid e)) r = (r', True) \<and> ready r' \<and> length (k_sent r') = Suc (length (k_sent r)) \<and>
     new_updates r r' = [own_update e [site_attribute]]"
proof -
  have "JObj [(''entityId'', JObj [(''id'', JStr (eid_id (Entity e))), (''type'', json_string (eid_type (Entity e))), (''isPattern'', JBool False)]),
      (''attributes'', JObj [(''RecommendedParkingSite'', JObj [(''type'', JStr ''string''), (''value'', JStr ''Twin.ParkingSite.002'')])])] =
    own_object e [site_attribute]"
    by (simp add: own_object_def site_attribute_def named_props_def json_named_def json_string_def)
  moreover obtain u where "raw_publish (own_object e [site_attribute]) r = (r\<lparr>k_sent := k_sent r @ [own_request u e [site_attribute]]\<rparr>, True)"
    using raw_publish_own [OF assms(4)] by blast
  moreover have "eid_id (Entity e) \<noteq> []" using assms(1) by (simp add: readable_element_def)
  ultimately have "recommender_handler (notified_object e) r =
      (r\<lparr>k_sent := k_sent r @ [own_request u e [site_attribute]],
         previousReq := k_field (json_attribute (map_of (Attributes e) ''ParkingRequest'')) ''value''\<rparr>, True)"
    using assms by (auto simp: recommender_handler_def Let_def notified_attribute plain_attribute_names same_entity_notified)
  then show ?thesis
    using assms(4) by (auto simp: notified_eq caught_single ready_def new_updates_def posted_updates_own simp del: run_steps.simps)
qed

section \<open>Every execution ends with one recommendation\<close>

text \<open>The stored entity of the car in the course of the execution.\<close>

definition extended :: "element \<Rightarrow> named list \<Rightarrow> element" where
  "extended e as = e\<lparr>Attributes := Attributes e @ as\<rparr>"

definition plain_car :: "element \<Rightarrow> bool" where
  "plain_car e = (readable_element e \<and> \<not> has ''ParkingRequest'' e \<and> \<not> has ''RecommendedParkingSite'' e)"

lemma extended_simps [simp]:
  "Entity (extended e as) = Entity e" "Metadata (extended e as) = Metadata e" "Attributes (extended e as) = Attributes e @ as"
  "extended e [] = e" "own_update (extended e bs) as = own_update e as"
  by (simp_all add: extended_def own_update_def)

lemma updateContextElement_own:
  assumes "es (eid_id (Entity e)) = Some (extended e as)" and "map_of (Attributes (extended e as)) (fst b) = None"
  shows "updateContextElement (own_update e [b]) es = es(eid_id (Entity e) \<mapsto> extended e (as @ [b]))"
proof -
  have "filter (\<lambda>attr. fst attr \<notin> set (map fst [b])) (Attributes (extended e as)) = Attributes (extended e as)"
    using assms(2) by (intro filter_True) (auto simp: map_of_eq_None_iff image_iff simp del: extended_simps)
  then have "updateAttributes (Attributes (extended e as)) [b] = Attributes (extended e (as @ [b]))"
    by (simp add: updateAttributes_def)
  then show ?thesis using assms(1) by (simp add: updateContextElement_def own_update_def extended_def)
qed

text \<open>
  The phases: the car's update is on its way; it was stored; the car asked; the request was stored; a site was
  recommended; the recommendation was stored.
\<close>

definition entity_at :: "element \<Rightarrow> named \<Rightarrow> nat \<Rightarrow> element" where
  "entity_at e req i = extended e (if i < 3 then [] else if i < 5 then [req] else [req, site_attribute])"

definition pending_at :: "element \<Rightarrow> named \<Rightarrow> nat \<Rightarrow> element list" where
  "pending_at e req i =
     (if i = 0 then [e] else if i = 2 then [own_update e [req]] else if i = 4 then [own_update e [site_attribute]] else [])"

definition updates_left :: "nat \<Rightarrow> nat" where
  "updates_left i = (if i = 0 then 3 else if i \<le> 2 then 2 else if i \<le> 4 then 1 else 0)"

definition car_mail :: "element \<Rightarrow> named \<Rightarrow> nat \<Rightarrow> element list \<Rightarrow> bool" where
  "car_mail e req i ns =
     (if i = 1 then ns = [e] else if i < 3 then ns = [] else set ns \<subseteq> {extended e [req], extended e [req, site_attribute]})"

definition recommender_mail :: "element \<Rightarrow> named \<Rightarrow> nat \<Rightarrow> element list \<Rightarrow> bool" where
  "recommender_mail e req i ns =
     (if i = 0 then ns = []
      else if i = 3 then set ns \<subseteq> {e, extended e [req]} \<and> count_list ns (extended e [req]) = 1
      else if i = 5 then set ns \<subseteq> {e, extended e [req, site_attribute]}
      else set ns \<subseteq> {e})"

definition at_phase :: "element \<Rightarrow> named \<Rightarrow> nat \<Rightarrow> parking \<Rightarrow> bool" where
  "at_phase e req i p =
     (i \<le> 5 \<and> updates p = pending_at e req i \<and>
      stored p (eid_id (Entity e)) = (if i = 0 then None else Some (entity_at e req i)) \<and>
      car_mail e req i (to_car p) \<and> recommender_mail e req i (to_recommender p) \<and>
      ready (the_car p) \<and> length (k_sent (the_car p)) = (if i < 2 then 0 else 1) \<and>
      ready (the_recommender p) \<and> length (k_sent (the_recommender p)) = (if i < 4 then 0 else 1) \<and>
      (i < 4 \<longrightarrow> previousReq (the_recommender p) = JNull))"

definition work_left :: "nat \<Rightarrow> parking \<Rightarrow> nat" where
  "work_left i p = 3 * updates_left i + length (to_car p) + length (to_recommender p)"

lemma UpdateContext2LocalSite_both:
  "UpdateContext2LocalSite [[], []] x es = (es', [n, m]) \<longleftrightarrow>
     es' = updateContextElement x es \<and> n = the (es' (eid_id (Entity x))) \<and> m = n"
  by (auto simp: UpdateContext2LocalSite_def Let_def)

lemma extended_elements:
  assumes "plain_car e" and "fst req = ''ParkingRequest''"
  shows "readable_element e" "\<not> has ''ParkingRequest'' e" "\<not> has ''RecommendedParkingSite'' e"
    "readable_element (extended e [req])" "has ''ParkingRequest'' (extended e [req])" "\<not> has ''RecommendedParkingSite'' (extended e [req])"
    "readable_element (extended e [req, site_attribute])" "has ''RecommendedParkingSite'' (extended e [req, site_attribute])"
    "extended e [req] \<noteq> e"
  using assms
  by (auto simp: plain_car_def readable_element_def site_attribute_def map_add_def map_of_eq_None_iff extended_def split: option.split
      dest: arg_cong [of _ _ "\<lambda>x. length (Attributes x)"]) force+

lemma phase_broker:
  assumes "at_phase e req i p" and "plain_car e" and "fst req = ''ParkingRequest''" and "updates p = us @ x # vs"
    and "UpdateContext2LocalSite [[], []] x (stored p) = (es, [n, m])"
  shows "at_phase e req (Suc i) (p\<lparr>updates := us @ vs, stored := es, to_car := to_car p @ [n], to_recommender := to_recommender p @ [m]\<rparr>)"
    and "work_left i p = Suc (work_left (Suc i) (p\<lparr>updates := us @ vs, stored := es, to_car := to_car p @ [n], to_recommender := to_recommender p @ [m]\<rparr>))"
proof -
  note E = extended_elements [OF assms(2,3)]
  have i: "i \<in> {0, 2, 4}" "us = []" "vs = []" "[x] = pending_at e req i"
    using assms(1,4) by (auto simp: at_phase_def pending_at_def append_eq_Cons_conv split: if_splits)
  have id: "eid_id (Entity x) = eid_id (Entity e)" using i(1,4) by (auto simp: pending_at_def own_update_def)
  have absent: "map_of (Attributes (extended e [])) (fst req) = None" "map_of (Attributes (extended e [req])) (fst site_attribute) = None"
    using E(2,6) by (simp_all only: not_not site_attribute_def fst_conv assms(3) extended_simps(4))
  have es: "es = (stored p)(eid_id (Entity e) \<mapsto> entity_at e req (Suc i))"
  proof -
    consider "i = 0" | "i = 2" | "i = 4" using i(1) by blast
    then have "updateContextElement x (stored p) = (stored p)(eid_id (Entity e) \<mapsto> entity_at e req (Suc i))"
    proof cases
      case 1
      then show ?thesis using i(4) assms(1) by (simp add: updateContextElement_def at_phase_def pending_at_def entity_at_def)
    next
      case 2
      then have "stored p (eid_id (Entity e)) = Some (extended e [])" using assms(1) by (simp add: at_phase_def entity_at_def)
      from updateContextElement_own [of "stored p" e, OF this absent(1)] 2 i(4) show ?thesis by (simp add: pending_at_def entity_at_def)
    next
      case 3
      then have "stored p (eid_id (Entity e)) = Some (extended e [req])" using assms(1) by (simp add: at_phase_def entity_at_def)
      from updateContextElement_own [of "stored p" e, OF this absent(2)] 3 i(4) show ?thesis by (simp add: pending_at_def entity_at_def)
    qed
    with assms(5) show ?thesis by (simp only: UpdateContext2LocalSite_both)
  qed
  have nm: "n = entity_at e req (Suc i)" "m = n" using assms(5) es id by (auto simp: UpdateContext2LocalSite_both)
  show "at_phase e req (Suc i) (p\<lparr>updates := us @ vs, stored := es, to_car := to_car p @ [n], to_recommender := to_recommender p @ [m]\<rparr>)"
    using assms(1) i E(9) by (auto simp: at_phase_def nm es pending_at_def car_mail_def recommender_mail_def entity_at_def count_list_0_iff)
  show "work_left i p = Suc (work_left (Suc i) (p\<lparr>updates := us @ vs, stored := es, to_car := to_car p @ [n], to_recommender := to_recommender p @ [m]\<rparr>))"
    using i(1) by (auto simp: work_left_def updates_left_def)
qed

lemma phase_car:
  assumes "at_phase e req i p" and "plain_car e" and "fst req = ''ParkingRequest''" and "to_car p = ns @ n # ms"
    and "car_step now destination (Notified (notified sid n)) (the_car p) = (c, ok)"
  shows "\<exists>j req'. fst req' = ''ParkingRequest'' \<and>
     at_phase e req' j (p\<lparr>to_car := ns @ ms, the_car := c, updates := updates p @ new_updates (the_car p) c\<rparr>) \<and>
     work_left i p = Suc (work_left j (p\<lparr>to_car := ns @ ms, the_car := c, updates := updates p @ new_updates (the_car p) c\<rparr>))"
proof -
  note E = extended_elements [OF assms(2,3)]
  have mail: "car_mail e req i (ns @ n # ms)" using assms(1,4) by (simp add: at_phase_def)
  show ?thesis
  proof (cases "i = 1")
    case True
    with mail have n: "n = e" "ns = []" "ms = []" by (simp_all add: car_mail_def append_eq_Cons_conv)
    have "ready (the_car p)" using assms(1) by (simp add: at_phase_def)
    from car_asks [OF E(1-3) this, of now destination sid]
    have c: "ready c" "length (k_sent c) = Suc (length (k_sent (the_car p)))"
        "new_updates (the_car p) c = [own_update e [request_attribute now destination]]"
      using assms(5) by (auto simp: n)
    show ?thesis
      by (rule exI [of _ 2], rule exI [of _ "request_attribute now destination"])
        (use assms(1) True in \<open>auto simp: at_phase_def c n request_attribute_def pending_at_def entity_at_def car_mail_def recommender_mail_def
           work_left_def updates_left_def assms(4)\<close>)
  next
    case False
    with mail have i: "\<not> i < 3" "n \<in> {extended e [req], extended e [req, site_attribute]}" "car_mail e req i (ns @ ms)"
      by (auto simp: car_mail_def split: if_splits)
    have "readable_element n" "has ''ParkingRequest'' n \<or> has ''RecommendedParkingSite'' n" using i(2) E(4,5,7,8) by blast+
    then have "c = the_car p" using assms(5) by (simp only: car_ignores prod.inject)
    then show ?thesis
      by (intro exI [of _ i] exI [of _ req]) (use assms i in \<open>auto simp: at_phase_def work_left_def\<close>)
  qed
qed

lemma phase_recommender:
  assumes "at_phase e req i p" and "plain_car e" and "fst req = ''ParkingRequest''" and "to_recommender p = ns @ n # ms"
    and "recommender_step (Notified (notified sid n)) (the_recommender p) = (r, ok)"
  shows "\<exists>j. at_phase e req j (p\<lparr>to_recommender := ns @ ms, the_recommender := r, updates := updates p @ new_updates (the_recommender p) r\<rparr>) \<and>
     work_left i p = Suc (work_left j (p\<lparr>to_recommender := ns @ ms, the_recommender := r, updates := updates p @ new_updates (the_recommender p) r\<rparr>))"
proof -
  note E = extended_elements [OF assms(2,3)]
  have mail: "recommender_mail e req i (ns @ n # ms)" using assms(1,4) by (simp add: at_phase_def)
  show ?thesis
  proof (cases "i = 3 \<and> n = extended e [req]")
    case True
    with mail have ms: "set (ns @ ms) \<subseteq> {e}" by (auto simp: recommender_mail_def count_list_0_iff)
    have "ready (the_recommender p)" "previousReq (the_recommender p) = JNull" using assms(1) True by (simp_all add: at_phase_def)
    from recommender_advises [OF E(4-6) this, of sid]
    have r: "ready r" "length (k_sent r) = Suc (length (k_sent (the_recommender p)))"
        "new_updates (the_recommender p) r = [own_update e [site_attribute]]"
      using assms(5) True by auto
    show ?thesis
      by (rule exI [of _ 4])
        (use assms(1) True ms in \<open>auto simp: at_phase_def r pending_at_def entity_at_def car_mail_def recommender_mail_def
           work_left_def updates_left_def assms(4)\<close>)
  next
    case False
    with mail have i: "n \<in> {e, extended e [req, site_attribute]}" "recommender_mail e req i (ns @ ms)"
      using E(9) by (auto simp: recommender_mail_def split: if_splits)
    have "readable_element n" "\<not> has ''ParkingRequest'' n \<or> has ''RecommendedParkingSite'' n" using i(1) E(1,2,7,8) by blast+
    then have "r = the_recommender p" using assms(5) by (simp only: recommender_ignores prod.inject)
    then show ?thesis
      by (intro exI [of _ i]) (use assms i in \<open>auto simp: at_phase_def work_left_def\<close>)
  qed
qed

lemma phase_step:
  assumes "parking_step destination p q" and "at_phase e req i p" and "plain_car e" and "fst req = ''ParkingRequest''"
  shows "\<exists>j req'. fst req' = ''ParkingRequest'' \<and> at_phase e req' j q \<and> work_left i p = Suc (work_left j q)"
  using assms(1)
proof cases
  case (broker us x vs es n m)
  then show ?thesis using phase_broker [OF assms(2-4) broker(2,3)] assms(4) by blast
next
  case (car ns n ms now sid c ok)
  then show ?thesis using phase_car [OF assms(2-4) car(2,3)] by blast
next
  case (recommend ns n ms sid r ok)
  then show ?thesis using phase_recommender [OF assms(2-4) recommend(2,3)] assms(4) by blast
qed

lemma phase_steps:
  assumes "(parking_step destination ^^ n) p q" and "at_phase e req0 0 p" and "plain_car e" and "fst req0 = ''ParkingRequest''"
  shows "\<exists>j req. fst req = ''ParkingRequest'' \<and> at_phase e req j q \<and> work_left 0 p = n + work_left j q"
  using assms(1)
proof (induction n arbitrary: q)
  case 0
  then have "fst req0 = ''ParkingRequest'' \<and> at_phase e req0 0 q \<and> work_left 0 p = 0 + work_left 0 q" using assms(2,4) by simp
  then show ?case by blast
next
  case (Suc n)
  then obtain r where r: "(parking_step destination ^^ n) p r" "parking_step destination r q" by auto
  obtain j req where "fst req = ''ParkingRequest''" "at_phase e req j r" "work_left 0 p = n + work_left j r"
    using Suc.IH [OF r(1)] by blast
  with phase_step [OF r(2) _ assms(3)] show ?case by fastforce
qed

text \<open>A state in which nothing can happen has no messages left.\<close>

lemma parking_stuck:
  assumes "\<And>q. \<not> parking_step destination p q"
  shows "updates p = [] \<and> to_car p = [] \<and> to_recommender p = []"
proof -
  have "updates p = []"
  proof (rule ccontr)
    assume "updates p \<noteq> []"
    then obtain e vs where "updates p = [] @ e # vs" by (cases "updates p") auto
    from parking_step.broker [OF this UpdateContext2LocalSite_both [THEN iffD2]] assms show False by blast
  qed
  moreover have "to_car p = []"
  proof (rule ccontr)
    assume "to_car p \<noteq> []"
    then obtain n ms where n: "to_car p = [] @ n # ms" by (cases "to_car p") auto
    obtain c ok where "car_step JUndef destination (Notified (notified [] n)) (the_car p) = (c, ok)" by fastforce
    from parking_step.car [OF n this] assms show False by blast
  qed
  moreover have "to_recommender p = []"
  proof (rule ccontr)
    assume "to_recommender p \<noteq> []"
    then obtain n ms where n: "to_recommender p = [] @ n # ms" by (cases "to_recommender p") auto
    obtain r ok where "recommender_step (Notified (notified [] n)) (the_recommender p) = (r, ok)" by fastforce
    from parking_step.recommend [OF n this] assms show False by blast
  qed
  ultimately show ?thesis by simp
qed

definition parking_start :: "element \<Rightarrow> parking \<Rightarrow> bool" where
  "parking_start e p =
     (updates p = [e] \<and> stored p (eid_id (Entity e)) = None \<and> to_car p = [] \<and> to_recommender p = [] \<and>
      ready (the_car p) \<and> k_sent (the_car p) = [] \<and>
      ready (the_recommender p) \<and> k_sent (the_recommender p) = [] \<and> previousReq (the_recommender p) = JNull)"

lemma start_phase: "parking_start e p \<Longrightarrow> at_phase e req 0 p \<and> work_left 0 p = 9"
  by (simp add: parking_start_def at_phase_def pending_at_def car_mail_def recommender_mail_def work_left_def updates_left_def)

lemma parking_phases:
  assumes "parking_start e p" and "plain_car e" and "(parking_step destination ^^ n) p q"
  shows "\<exists>j req. fst req = ''ParkingRequest'' \<and> at_phase e req j q \<and> 9 = n + work_left j q"
  using phase_steps [OF assms(3), of e "request_attribute JUndef JUndef"] start_phase [OF assms(1)] assms(2)
  by (auto simp: request_attribute_def)

lemma parking_at_rest:
  assumes "parking_start e p" and "plain_car e" and "(parking_step destination ^^ n) p q" and "\<And>r. \<not> parking_step destination q r"
  shows "n = 9 \<and> length (k_sent (the_car q)) = 1 \<and> length (k_sent (the_recommender q)) = 1 \<and>
    (\<exists>t v. stored q (eid_id (Entity e)) = Some (extended e [(''ParkingRequest'', t, v), site_attribute]))"
proof -
  obtain j req where j: "fst req = ''ParkingRequest''" "at_phase e req j q" "9 = n + work_left j q"
    using parking_phases [OF assms(1-3)] by blast
  have empty: "updates q = []" "to_car q = []" "to_recommender q = []" using parking_stuck assms(4) by blast+
  then have "j = 5"
    using j(2) by (auto simp: at_phase_def pending_at_def car_mail_def recommender_mail_def split: if_splits)
  moreover from this have "n = 9" using j(3) empty by (simp add: work_left_def updates_left_def)
  ultimately show ?thesis
    using j(1,2) by (cases req) (auto simp: at_phase_def entity_at_def)
qed

text \<open>Some execution comes to rest, since none has more than nine steps.\<close>

lemma parking_completes:
  assumes "parking_start e p" and "plain_car e"
  shows "\<exists>n q. (parking_step destination ^^ n) p q \<and> (\<forall>r. \<not> parking_step destination q r)"
proof (rule ccontr)
  assume no: "\<nexists>n q. (parking_step destination ^^ n) p q \<and> (\<forall>r. \<not> parking_step destination q r)"
  have "\<exists>q. (parking_step destination ^^ n) p q" for n
  proof (induction n)
    case (Suc n)
    then obtain q where q: "(parking_step destination ^^ n) p q" by blast
    with no obtain r where "parking_step destination q r" by blast
    with q show ?case by (auto intro: relpowp_Suc_I)
  qed simp
  then obtain q where "(parking_step destination ^^ 10) p q" by blast
  from parking_phases [OF assms this] show False by auto
qed

text \<open>
  Claim C2. A car that appears leads to exactly one parking request and exactly one recommendation, in whatever order the
  messages between the broker and the operators are delivered: no execution has more than nine steps, and one that cannot
  go on has made nine and leaves the entity of the car with both attributes.  The operators do not answer their own updates.
\<close>

theorem parking_quiesces:
  assumes "parking_start e p" and "plain_car e" and "(parking_step destination ^^ n) p q"
  shows "n \<le> 9 \<and>
    ((\<forall>r. \<not> parking_step destination q r) \<longrightarrow>
       n = 9 \<and> length (k_sent (the_car q)) = 1 \<and> length (k_sent (the_recommender q)) = 1 \<and>
       (\<exists>t v. stored q (eid_id (Entity e)) = Some (extended e [(''ParkingRequest'', t, v), site_attribute])))"
  using parking_phases [OF assms] parking_at_rest [OF assms] by force

definition sample_car :: element where
  "sample_car = \<lparr>Entity = \<lparr>eid_type = ''ConnectedCar'', eid_isPattern = False, eid_id = ''Twin.Car.1''\<rparr>,
     Attributes = [(''speed'', ''integer'', JNum 50)], Metadata = []\<rparr>"

definition sample_parking :: parking where
  "sample_parking =
     \<lparr>updates = [sample_car], stored = Map.empty, to_car = [], to_recommender = [],
      the_car = \<lparr>k_client = Some (JStr ''http://b''), k_outputs = [], k_referenceURL = JUndef, k_subscriptionId = JNull, k_configured = True,
        k_buffer = [], k_sent = [], parkingRequest = JNull\<rparr>,
      the_recommender = \<lparr>k_client = Some (JStr ''http://b''), k_outputs = [], k_referenceURL = JUndef, k_subscriptionId = JNull, k_configured = True,
        k_buffer = [], k_sent = [], previousReq = JNull\<rparr>\<rparr>"

theorem parking_quiesces_witness:
  "\<exists>n q. (parking_step JUndef ^^ n) sample_parking q \<and> n \<le> 9 \<and>
    ((\<forall>r. \<not> parking_step JUndef q r) \<longrightarrow>
       n = 9 \<and> length (k_sent (the_car q)) = 1 \<and> length (k_sent (the_recommender q)) = 1 \<and>
       (\<exists>t v. stored q (eid_id (Entity sample_car)) = Some (extended sample_car [(''ParkingRequest'', t, v), site_attribute])))"
proof -
  let ?q = "sample_parking\<lparr>updates := [] @ [], stored := [''Twin.Car.1'' \<mapsto> sample_car], to_car := [] @ [sample_car], to_recommender := [] @ [sample_car]\<rparr>"
  have "parking_step JUndef sample_parking
      (sample_parking\<lparr>updates := [] @ [], stored := [''Twin.Car.1'' \<mapsto> sample_car], to_car := to_car sample_parking @ [sample_car],
         to_recommender := to_recommender sample_parking @ [sample_car]\<rparr>)"
    by (rule parking_step.broker [of _ _ sample_car])
      (simp_all add: sample_parking_def UpdateContext2LocalSite_both updateContextElement_def sample_car_def)
  then have "(parking_step JUndef ^^ 1) sample_parking ?q"
    unfolding relpowp_1 by (simp add: sample_parking_def)
  moreover have "parking_start sample_car sample_parking" by (simp add: parking_start_def sample_parking_def ready_def)
  moreover have "plain_car sample_car" by (simp add: plain_car_def readable_element_def sample_car_def)
  ultimately show ?thesis using parking_quiesces [of sample_car sample_parking 1 JUndef ?q] by blast
qed

section \<open>Deleting a car\<close>

text \<open>
  A deleted car comes back: the notification of the deletion has no attributes, so that the operator of the car
  takes it for a car without a request, and its update makes the broker create the entity again.
\<close>

theorem deleted_car_reappears:
  assumes "c \<noteq> []" and "ready s" and "deleteEntity [[]] c es = (es', [n])"
  shows "es' c = None \<and>
    (\<exists>s' u. car_step now destination (Notified (notified sid n)) s = (s', True) \<and> new_updates s s' = [u] \<and> updateContextElement u es' c \<noteq> None)"
proof -
  have n: "es' c = None" "n = emptyElement c" using assms(3) by (auto simp: deleteEntity_def)
  have "readable_element n" "\<not> has ''ParkingRequest'' n" "\<not> has ''RecommendedParkingSite'' n"
    using assms(1) by (simp_all add: n readable_element_def emptyElement_def)
  from car_asks [OF this assms(2), of now destination sid] obtain s' where
    "car_step now destination (Notified (notified sid n)) s = (s', True)" "new_updates s s' = [own_update n [request_attribute now destination]]"
    by blast
  moreover have "updateContextElement (own_update n [request_attribute now destination]) es' c \<noteq> None"
    by (simp add: n updateContextElement_def own_update_def emptyElement_def)
  ultimately show ?thesis using n(1) by blast
qed

theorem deleted_car_reappears_witness:
  "(Map.empty :: entities) ''Twin.Car.1'' = None \<and>
    (\<exists>s' u. car_step JUndef JUndef (Notified (notified [] (emptyElement ''Twin.Car.1''))) (the_car sample_parking) = (s', True) \<and>
       new_updates (the_car sample_parking) s' = [u] \<and>
       updateContextElement u Map.empty ''Twin.Car.1'' \<noteq> None)"
  by (rule deleted_car_reappears [of _ _ "[''Twin.Car.1'' \<mapsto> sample_car]"]) (auto simp: deleteEntity_def sample_parking_def ready_def)

section \<open>The parking sites\<close>

text \<open>No update removes an attribute.\<close>

lemma has_updated:
  assumes "es k = Some e" and "has a e"
  shows "\<exists>e'. updateContextElement u es k = Some e' \<and> has a e'"
  using assms by (cases "eid_id (Entity u) = k") (auto simp: updateContextElement_def updateAttributes_lookup split: option.split)

lemma has_fold_updated:
  "\<lbrakk>es k = Some e; has a e\<rbrakk> \<Longrightarrow> \<exists>e'. fold updateContextElement us es k = Some e' \<and> has a e'"
proof (induction us arbitrary: es e)
  case (Cons u us)
  from has_updated [of es k, OF Cons.prems] obtain e' where "updateContextElement u es k = Some e'" "has a e'" by blast
  from Cons.IH [of "updateContextElement u es", OF this] show ?case by simp
qed simp

lemma site_throws: "\<lbrakk>readable_element e; has ''Updater'' e\<rbrakk> \<Longrightarrow> site_handler myID (notified_object e) s = (s, False)"
  by (auto simp: site_handler_def Let_def notified_attribute plain_attribute_names)

lemma site_answers:
  assumes "readable_element e" and "\<not> has ''Updater'' e" and "has ''datasource'' e" and "ready s"
  shows "\<exists>u. site_handler myID (notified_object e) s =
    (s\<lparr>k_sent := k_sent s @ [own_request u e [(''FreeParkingSpots'', ''integer'', JNum 10), (''Updater'', ''string'', JStr myID)]]\<rparr>, True)"
proof -
  let ?as = "[(''FreeParkingSpots'', ''integer'', JNum 10), (''Updater'', ''string'', JStr myID)]"
  have "JObj [(''entityId'', JObj [(''id'', JStr (eid_id (Entity e))), (''type'', json_string (eid_type (Entity e))), (''isPattern'', JBool False)]),
      (''attributes'', JObj [(''FreeParkingSpots'', JObj [(''type'', JStr ''integer''), (''value'', JNum 10)]),
         (''Updater'', JObj [(''type'', JStr ''string''), (''value'', JStr myID)])])] = own_object e ?as"
    by (simp add: own_object_def named_props_def json_named_def json_string_def)
  moreover have "eid_id (Entity e) \<noteq> []" using assms(1) by (simp add: readable_element_def)
  moreover obtain u where "raw_publish (own_object e ?as) s = (s\<lparr>k_sent := k_sent s @ [own_request u e ?as]\<rparr>, True)"
    using raw_publish_own [OF assms(4)] by blast
  ultimately show ?thesis
    using assms by (auto simp: site_handler_def Let_def notified_attribute plain_attribute_names same_entity_notified)
qed

text \<open>
  A parking site answers its data source once: with the update it then publishes, the entity carries the
  attribute \<open>Updater\<close>, and whatever updates follow, also of the data source, every notification of the entity makes the
  function throw, so that nothing is published any more.
\<close>

theorem site_answers_once:
  assumes "es (eid_id (Entity e)) = Some e" and "readable_element e" and "has ''datasource'' e" and "\<not> has ''Updater'' e" and "ready s"
  shows "\<exists>s' u. private_site_step myID (Notified (notified sid e)) s = (s', True) \<and> new_updates s s' = [u] \<and>
    (\<forall>us e'. fold updateContextElement us (updateContextElement u es) (eid_id (Entity e)) = Some e' \<and> readable_element e' \<longrightarrow>
       (\<forall>t. private_site_step myID (Notified (notified sid e')) t = (t, True)))"
proof -
  let ?as = "[(''FreeParkingSpots'', ''integer'', JNum 10), (''Updater'', ''string'', JStr myID)]"
  obtain u where u: "site_handler myID (notified_object e) s = (s\<lparr>k_sent := k_sent s @ [own_request u e ?as]\<rparr>, True)"
    using site_answers [OF assms(2,4,3,5)] by blast
  let ?s = "s\<lparr>k_sent := k_sent s @ [own_request u e ?as]\<rparr>"
  have "private_site_step myID (Notified (notified sid e)) s = (?s, True)"
    by (simp add: notified_eq caught_single u del: run_steps.simps)
  moreover have "new_updates s ?s = [own_update e ?as]" by (simp add: new_updates_def posted_updates_own)
  moreover have "private_site_step myID (Notified (notified sid e')) t = (t, True)"
    if e': "fold updateContextElement us (updateContextElement (own_update e ?as) es) (eid_id (Entity e)) = Some e'" "readable_element e'" for us e' t
  proof -
    obtain e1 where "updateContextElement (own_update e ?as) es (eid_id (Entity e)) = Some e1" "has ''Updater'' e1"
      using assms(1) by (simp add: updateContextElement_def own_update_def updateAttributes_lookup)
    from has_fold_updated [of "updateContextElement (own_update e ?as) es", OF this, of us] e'(1) have "has ''Updater'' e'" by auto
    from site_throws [OF e'(2) this] show ?thesis by (simp only: private_site_step.simps notified_eq caught_single fst_conv)
  qed
  ultimately show ?thesis by blast
qed

definition sample_site :: element where
  "sample_site = \<lparr>Entity = \<lparr>eid_type = ''PrivateSite'', eid_isPattern = False, eid_id = ''Twin.Site.1''\<rparr>,
     Attributes = [(''datasource'', ''string'', JStr ''http://orion'')], Metadata = []\<rparr>"

theorem site_answers_once_witness:
  "\<exists>s' u. private_site_step ''abcde'' (Notified (notified [] sample_site)) (init_runtime\<lparr>k_client := Some (JStr ''http://b'')\<rparr>) = (s', True) \<and>
    new_updates (init_runtime\<lparr>k_client := Some (JStr ''http://b'')\<rparr> :: jval runtime) s' = [u] \<and>
    (\<forall>us e'. fold updateContextElement us (updateContextElement u [''Twin.Site.1'' \<mapsto> sample_site]) (eid_id (Entity sample_site)) = Some e' \<and>
         readable_element e' \<longrightarrow> (\<forall>t. private_site_step ''abcde'' (Notified (notified [] e')) t = (t, True)))"
  by (rule site_answers_once) (simp_all add: sample_site_def readable_element_def ready_def init_runtime_def)

end
