(* ===== verification/Adapters.thy ===== *)
theory Adapters
  imports Raw_Runtime
begin

text \<open>
  The adapters under \<open>application/operator\<close>, \<open>IoTAgentJSON\<close>, \<open>NGSI-LD-Adapter\<close> and \<open>GeneralPurposeAdapter\<close>: operators in the
  runtime of \<open>Raw_Runtime\<close> that configure another program by executing a shell script with values of the received entity.
  \<open>executed\<close> is the sequence of commands handed to the shell.
\<close>

record adapter = "jval runtime" +
  executed :: "string list"

definition init_adapter :: adapter where
  "init_adapter = \<lparr>k_client = None, k_outputs = [], k_referenceURL = JUndef, k_subscriptionId = JNull, k_configured = False,
     k_buffer = [], k_sent = [], executed = []\<rparr>"

text \<open>\<open>contextEntity.attributes.n.value.toString()\<close>; \<open>None\<close> is an exception.\<close>

definition attribute_text :: "jval \<Rightarrow> string \<Rightarrow> string option" where
  "attribute_text attributes n =
     do { a \<leftarrow> jget attributes n;
          v \<leftarrow> jget a ''value'';
          (if is_nullish v then None else Some (js_str v)) }"

definition run_script :: "string \<Rightarrow> string \<Rightarrow> string \<Rightarrow> jval \<Rightarrow> adapter \<Rightarrow> adapter step" where
  "run_script script first second attributes s =
     (case do { x \<leftarrow> attribute_text attributes first;
                y \<leftarrow> attribute_text attributes second;
                Some (script @ '' '' @ x @ '' '' @ y) } of
        None \<Rightarrow> (s, False)
      | Some command \<Rightarrow> (s\<lparr>executed := executed s @ [command]\<rparr>, True))"

definition iota_handler :: "jval \<Rightarrow> adapter \<Rightarrow> adapter step" where
  "iota_handler contextEntity s =
     (if is_nullish contextEntity then (s, True)
      else if is_nullish (k_field contextEntity ''attributes'') then (s, True)
      else run_script ''/opt/iotajson/iota-config.sh'' ''brokerIP'' ''brokerPort'' (k_field contextEntity ''attributes'') s)"

text \<open>These two read \<open>contextEntity.entityId.id\<close> before they test for \<open>null\<close>.\<close>

definition ld_adapter_handler :: "jval \<Rightarrow> adapter \<Rightarrow> adapter step" where
  "ld_adapter_handler contextEntity s =
     (case Option.bind (jget contextEntity ''entityId'') (\<lambda>e. jget e ''id'') of
        None \<Rightarrow> (s, False)
      | Some entityID \<Rightarrow>
          (if is_nullish contextEntity then (s, True)
           else if is_nullish (k_field contextEntity ''attributes'') then (s, True)
           else run_script ''../transformer-config.sh'' ''fogflowIP'' ''ngbIP'' (k_field contextEntity ''attributes'') s))"

definition gp_adapter_handler :: "jval \<Rightarrow> adapter \<Rightarrow> adapter step" where
  "gp_adapter_handler contextEntity s =
     (case Option.bind (jget contextEntity ''entityId'') (\<lambda>e. jget e ''id'') of
        None \<Rightarrow> (s, False)
      | Some entityID \<Rightarrow>
          (if is_nullish contextEntity then (s, True)
           else if is_nullish (k_field contextEntity ''attributes'') then (s, True)
           else run_script ''./gpadapter-config.sh'' ''brokerIP'' ''brokerPort'' (k_field contextEntity ''attributes'') s))"

fun iota_step :: "input \<Rightarrow> adapter \<Rightarrow> adapter step" where
  "iota_step (Admin commands) s = (case raw_handleAdmin commands s of (s', r) \<Rightarrow> (s', r \<noteq> None))"
| "iota_step (Notified ctxObjects) s = run_steps iota_handler ctxObjects s"

fun ld_adapter_step :: "input \<Rightarrow> adapter \<Rightarrow> adapter step" where
  "ld_adapter_step (Admin commands) s = (case raw_handleAdmin commands s of (s', r) \<Rightarrow> (s', r \<noteq> None))"
| "ld_adapter_step (Notified ctxObjects) s = run_steps ld_adapter_handler ctxObjects s"

fun gp_adapter_step :: "input \<Rightarrow> adapter \<Rightarrow> adapter step" where
  "gp_adapter_step (Admin commands) s = (case raw_handleAdmin commands s of (s', r) \<Rightarrow> (s', r \<noteq> None))"
| "gp_adapter_step (Notified ctxObjects) s = run_steps gp_adapter_handler ctxObjects s"

section \<open>Properties\<close>

definition broker_address :: "jval \<Rightarrow> string \<Rightarrow> string \<Rightarrow> jval" where
  "broker_address i ip port =
     JObj [(''entityId'', JObj [(''id'', i)]),
           (''attributes'', JObj [(''brokerIP'', JObj [(''type'', JStr ''string''), (''value'', JStr ip)]),
                                  (''brokerPort'', JObj [(''type'', JStr ''string''), (''value'', JStr port)])])]"

lemma attribute_text_address:
  "attribute_text (k_field (broker_address i ip port) ''attributes'') ''brokerIP'' = Some ip"
  "attribute_text (k_field (broker_address i ip port) ''attributes'') ''brokerPort'' = Some port"
  "\<not> is_nullish (k_field (broker_address i ip port) ''attributes'')" "\<not> is_nullish (broker_address i ip port)"
  by (simp_all add: attribute_text_def broker_address_def k_field_def js_access)

text \<open>
  The IoT agent hands the values of an entity to the shell as they are: for each entity with an address and a
  port it executes the script followed by these two texts, whatever they contain, so that a value with a separator of the
  shell adds commands of its own.
\<close>

theorem iota_executes_values:
  "iota_step (Notified (map (\<lambda>(i, ip, port). broker_address i ip port) es)) s =
     (s\<lparr>executed := executed s @ map (\<lambda>(i, ip, port). ''/opt/iotajson/iota-config.sh '' @ ip @ '' '' @ port) es\<rparr>, True)"
proof (induction es arbitrary: s)
  case (Cons e es)
  obtain i ip port where e: "e = (i, ip, port)" by (cases e)
  have "iota_handler (broker_address i ip port) s = (s\<lparr>executed := executed s @ [''/opt/iotajson/iota-config.sh '' @ ip @ '' '' @ port]\<rparr>, True)"
    by (simp add: iota_handler_def run_script_def attribute_text_address)
  with Cons.IH [of "s\<lparr>executed := executed s @ [''/opt/iotajson/iota-config.sh '' @ ip @ '' '' @ port]\<rparr>"] show ?case by (simp add: e)
qed simp

text \<open>The test for \<open>null\<close> comes too late in the other adapters.\<close>

lemma null_entity_throws: "ld_adapter_handler JNull s = (s, False)" "gp_adapter_handler JNull s = (s, False)" "iota_handler JNull s = (s, True)"
  by (simp_all add: ld_adapter_handler_def gp_adapter_handler_def iota_handler_def)

end
