(* ===== verification/Anomaly.thy ===== *)
theory Anomaly
  imports Fog_Template
begin

text \<open>
  The anomaly detector of the smart city example, \<open>application/operator/anomaly/main.js\<close> with its \<open>function.js\<close>:
  a runtime that publishes under the identity of its configured output, and a function that reports every reading
  of a power panel above a threshold, which rule entities change.  The text of the current time, \<open>toISOString()\<close>,
  is an argument of the functions that read the clock.
\<close>

record anomaly_app =
  an_client :: "jval option"
  an_brokerURL :: jval
  an_output :: props
  an_input :: props
  an_referenceURL :: jval
  an_subscriptionId :: jval
  an_configured :: bool
  an_sent :: "http_req list"
  an_threshold :: jval   \<comment> \<open>\<open>threshold\<close> of \<open>function.js\<close>; the variable of \<open>main.js\<close> is never read\<close>

definition init_anomaly :: anomaly_app where
  "init_anomaly = \<lparr>an_client = None, an_brokerURL = JUndef, an_output = [], an_input = [], an_referenceURL = JUndef,
     an_subscriptionId = JNull, an_configured = False, an_sent = [], an_threshold = JNum 30\<rparr>"

section \<open>Comparison\<close>

text \<open>\<open>v > w\<close>: two strings by their characters, other values as numbers; \<open>None\<close> is \<open>NaN\<close>.\<close>

fun str_less :: "string \<Rightarrow> string \<Rightarrow> bool" where
  "str_less s [] = False"
| "str_less [] (d # ds) = True"
| "str_less (c # cs) (d # ds) =
     ((of_char c :: nat) < of_char d \<or> c = d \<and> str_less cs ds)"

definition to_prim :: "jval \<Rightarrow> jval" where
  "to_prim v = (if is_prim v then v else JStr (js_str v))"

fun prim_number :: "jval \<Rightarrow> int option" where
  "prim_number (JNum n) = Some n"
| "prim_number (JBool b) = Some (if b then 1 else 0)"
| "prim_number JNull = Some 0"
| "prim_number (JStr s) = to_number s"
| "prim_number v = None"

definition js_gt :: "jval \<Rightarrow> jval \<Rightarrow> bool" where
  "js_gt v w =
     (case (to_prim v, to_prim w) of
        (JStr s, JStr t) \<Rightarrow> str_less t s
      | (p, q) \<Rightarrow> (case (prim_number p, prim_number q) of (Some m, Some n) \<Rightarrow> m > n | _ \<Rightarrow> False))"

lemma js_gt_num [simp]: "js_gt (JNum m) (JNum n) = (m > n)"
  by (simp add: js_gt_def to_prim_def is_prim_def)

section \<open>Configuration commands\<close>

definition an_connectBroker :: "jval \<Rightarrow> anomaly_app \<Rightarrow> anomaly_app" where
  "an_connectBroker cmd s = s\<lparr>an_brokerURL := field cmd ''brokerURL'', an_client := Some (field cmd ''brokerURL'')\<rparr>"

definition an_setReferenceURL :: "jval \<Rightarrow> anomaly_app \<Rightarrow> anomaly_app" where
  "an_setReferenceURL cmd s = s\<lparr>an_referenceURL := field cmd ''url''\<rparr>"

definition an_setInputs :: "jval \<Rightarrow> anomaly_app \<Rightarrow> anomaly_app" where
  "an_setInputs cmd s =
     s\<lparr>an_input := obj_put ''type'' (field cmd ''type'') (obj_put ''id'' (field cmd ''id'') (an_input s))\<rparr>"

definition an_setOutputs :: "jval \<Rightarrow> anomaly_app \<Rightarrow> anomaly_app" where
  "an_setOutputs cmd s =
     s\<lparr>an_output := obj_put ''type'' (field cmd ''type'') (obj_put ''id'' (field cmd ''id'') (an_output s))\<rparr>"

definition an_handleCmd :: "jval \<Rightarrow> anomaly_app \<Rightarrow> anomaly_app step" where
  "an_handleCmd commandObj s =
     (case jget commandObj ''command'' of
        None \<Rightarrow> (s, False)
      | Some c \<Rightarrow>
          (if js_eq c (JStr ''CONNECT_BROKER'') then an_connectBroker commandObj s
           else if js_eq c (JStr ''SET_INPUTS'') then an_setInputs commandObj s
           else if js_eq c (JStr ''SET_OUTPUTS'') then an_setOutputs commandObj s
           else if js_eq c (JStr ''SET_REFERENCE'') then an_setReferenceURL commandObj s
           else s, True))"

fun an_handleCmds :: "jval list \<Rightarrow> anomaly_app \<Rightarrow> anomaly_app step" where
  "an_handleCmds [] s = (s, True)"
| "an_handleCmds (c # cs) s = (case an_handleCmd c s of (s', True) \<Rightarrow> an_handleCmds cs s' | (s', False) \<Rightarrow> (s', False))"

definition an_handleAdmin :: "jval \<Rightarrow> jval list \<Rightarrow> anomaly_app \<Rightarrow> anomaly_app \<times> reply option" where
  "an_handleAdmin body commands s =
     (case an_handleCmds commands s of
        (s', False) \<Rightarrow> (s', None)
      | (s', True) \<Rightarrow> (s'\<lparr>an_configured := True\<rparr>, Some (Replied 200 (JObj []))))"

section \<open>Callbacks\<close>

definition an_query :: "jval \<Rightarrow> anomaly_app \<Rightarrow> anomaly_app step" where
  "an_query queryCtxReq s =
     (case an_client s of
        None \<Rightarrow> (s, True)
      | Some u \<Rightarrow> (s\<lparr>an_sent := an_sent s @ [post_req (url_of u ''/queryContext'') JUndef queryCtxReq]\<rparr>, True))"

definition an_subscribe :: "jval \<Rightarrow> anomaly_app \<Rightarrow> anomaly_app step" where
  "an_subscribe subscribeCtxReq s =
     (case an_client s of
        None \<Rightarrow> (s, True)
      | Some u \<Rightarrow>
          (case subscribeCtxReq of
             JObj ps \<Rightarrow>
               (s\<lparr>an_sent := an_sent s @ [post_req (url_of u ''/subscribeContext'') JUndef
                                            (JObj (obj_put ''reference'' (an_referenceURL s) ps))]\<rparr>, True)
           | JArr xs \<Rightarrow> (s\<lparr>an_sent := an_sent s @ [post_req (url_of u ''/subscribeContext'') JUndef (JArr xs)]\<rparr>, True)
           | _ \<Rightarrow> (s, False)))"

definition an_on_subscribed :: "promise \<Rightarrow> anomaly_app \<Rightarrow> anomaly_app" where
  "an_on_subscribed p s = (case p of Inl e \<Rightarrow> s | Inr subscriptionId \<Rightarrow> s\<lparr>an_subscriptionId := subscriptionId\<rparr>)"

text \<open>The entity under the identity of the output, if the output has been set; the caller passes an object.\<close>

definition output_identity :: "props \<Rightarrow> props \<Rightarrow> props" where
  "output_identity out ctxUpdate =
     (if obj_in out ''id'' \<and> obj_in out ''type'' then
        obj_put ''entityId'' (JObj (obj_of [(''id'', obj_get out ''id''), (''type'', obj_get out ''type''), (''isPattern'', JBool False)]))
          ctxUpdate
      else ctxUpdate)"

definition an_publish :: "props \<Rightarrow> anomaly_app \<Rightarrow> anomaly_app step" where
  "an_publish ctxUpdate s =
     (case an_client s of
        None \<Rightarrow> (s, True)
      | Some u \<Rightarrow>
          (case JSONObject2CtxElement (JObj (output_identity (an_output s) ctxUpdate)) of
             None \<Rightarrow> (s, False)
           | Some e \<Rightarrow>
               (s\<lparr>an_sent := an_sent s @ [post_req (url_of u ''/updateContext'') JUndef (update_req_body e ''UPDATE'')]\<rparr>, True)))"

section \<open>The function\<close>

definition anomaly_entity :: "string \<Rightarrow> jval \<Rightarrow> jval \<Rightarrow> jval \<Rightarrow> jval \<Rightarrow> props" where
  "anomaly_entity now deviceID shopID location watts =
     obj_of [(''attributes'', JObj (obj_of
        [(''when'', JObj (obj_of [(''type'', JStr ''string''), (''value'', JStr now)])),
         (''whichpanel'', JObj (obj_of [(''type'', JStr ''string''), (''value'', deviceID)])),
         (''shop'', JObj (obj_of [(''type'', JStr ''string''), (''value'', shopID)])),
         (''where'', JObj (obj_of [(''type'', JStr ''object''), (''value'', location)])),
         (''usage'', JObj (obj_of [(''type'', JStr ''integer''), (''value'', watts)]))])),
       (''metadata'', JObj (obj_of [(''shop'', JObj (obj_of [(''type'', JStr ''string''), (''value'', shopID)]))]))]"

text \<open>The fields of a power panel that the function reads; each of them may throw.\<close>

definition panel_fields :: "jval \<Rightarrow> (jval \<times> jval \<times> jval \<times> jval) option" where
  "panel_fields contextEntity =
     do { as \<leftarrow> jget contextEntity ''attributes''; us \<leftarrow> jget as ''usage''; watts \<leftarrow> jget us ''value'';
          e \<leftarrow> jget contextEntity ''entityId''; deviceID \<leftarrow> jget e ''id'';
          md \<leftarrow> jget contextEntity ''metadata''; sh \<leftarrow> jget md ''shop''; shopID \<leftarrow> jget sh ''value'';
          location \<leftarrow> jget md ''location'';
          Some (watts, deviceID, shopID, location) }"

definition an_handler :: "string \<Rightarrow> jval \<Rightarrow> anomaly_app \<Rightarrow> anomaly_app step" where
  "an_handler now contextEntity s =
     (if is_nullish contextEntity \<or> is_nullish (field contextEntity ''attributes'') then (s, True)
      else case Option.bind (jget contextEntity ''entityId'') (\<lambda>e. jget e ''type'') of
             None \<Rightarrow> (s, False)
           | Some type \<Rightarrow>
               (if js_eq type (JStr ''PowerPanel'') then
                  (case panel_fields contextEntity of
                     None \<Rightarrow> (s, False)
                   | Some (watts, deviceID, shopID, location) \<Rightarrow>
                       (if js_gt watts (an_threshold s) then an_publish (anomaly_entity now deviceID shopID location watts) s
                        else (s, True)))
                else if js_eq type (JStr ''Rule'') then
                  (case do { as \<leftarrow> jget contextEntity ''attributes''; t \<leftarrow> jget as ''threshold''; jget t ''value'' } of
                     None \<Rightarrow> (s, False)
                   | Some v \<Rightarrow> (s\<lparr>an_threshold := v\<rparr>, True))
                else (s, True)))"

section \<open>Notifications and modes of execution\<close>

text \<open>Each received object comes with the time at which it is handled.\<close>

fun an_handleNotify :: "(string \<times> jval) list \<Rightarrow> anomaly_app \<Rightarrow> anomaly_app" where
  "an_handleNotify [] s = s"
| "an_handleNotify ((now, e) # es) s = an_handleNotify es (fst (an_handler now e s))"

definition an_fetch_req :: "anomaly_app \<Rightarrow> http_req" where
  "an_fetch_req s =
     post_req (url_of (an_brokerURL s) ''/queryContext'') JUndef
       (JObj (if \<not> is_nullish (obj_get (an_input s) ''type'') then
                obj_of [(''entities'', JArr [JObj (obj_of [(''type'', obj_get (an_input s) ''type''), (''isPattern'', JBool True)])])]
              else if \<not> is_nullish (obj_get (an_input s) ''id'') then
                obj_of [(''entities'', JArr [JObj (obj_of [(''id'', obj_get (an_input s) ''id''), (''isPattern'', JBool False)])])]
              else []))"

definition an_fetchInputByQuery :: "axios \<Rightarrow> anomaly_app \<Rightarrow> promise" where
  "an_fetchInputByQuery axios s = axios_200 axios (an_fetch_req s) query_result"

text \<open>The loop of the one-time execution has one \<open>try\<close> around it; \<open>clock i\<close> is the time at which object \<open>i\<close> is handled.\<close>

fun an_execute :: "(string \<times> jval) list \<Rightarrow> anomaly_app \<Rightarrow> anomaly_app step" where
  "an_execute [] s = (s, True)"
| "an_execute ((now, e) # es) s = (case an_handler now e s of (s', True) \<Rightarrow> an_execute es s' | (s', False) \<Rightarrow> (s', False))"

definition an_query2execution :: "axios \<Rightarrow> (nat \<Rightarrow> string) \<Rightarrow> anomaly_app \<Rightarrow> anomaly_app step" where
  "an_query2execution axios clock s =
     (let s' = s\<lparr>an_sent := an_sent s @ [an_fetch_req s]\<rparr> in
      case an_fetchInputByQuery axios s of
        Inl e \<Rightarrow> (s', False)
      | Inr ctxObjects \<Rightarrow>
          (case jelems ctxObjects of
             None \<Rightarrow> (s', False)
           | Some es \<Rightarrow> an_execute (map (\<lambda>i. (clock i, es ! i)) [0..<length es]) s'))"

definition an_app_notify :: "(nat \<Rightarrow> string) \<Rightarrow> anomaly_app notify_fn" where
  "an_app_notify clock body es s = (an_handleNotify (map (\<lambda>i. (clock i, es ! i)) [0..<length es]) s, Some NoReply)"

definition an_notify2execution :: "(nat \<Rightarrow> string) \<Rightarrow> anomaly_app agent" where
  "an_notify2execution clock = setAdminHandler an_handleAdmin (setNotifyHandler (an_app_notify clock) init_agent)"

text \<open>An absent \<open>adminCfg\<close> is not parsed either, and the error is only logged.\<close>

definition an_configure :: "env_json \<Rightarrow> anomaly_app \<Rightarrow> anomaly_app" where
  "an_configure cfg s =
     (case cfg of Parsed v \<Rightarrow> (case jelems v of None \<Rightarrow> s | Some commands \<Rightarrow> fst (an_handleCmds commands s)) | _ \<Rightarrow> s)"

definition an_runInOperationMode ::
  "axios \<Rightarrow> (nat \<Rightarrow> string) \<Rightarrow> env_json \<Rightarrow> jval \<Rightarrow> anomaly_app \<Rightarrow> anomaly_app \<times> anomaly_app agent" where
  "an_runInOperationMode axios clock adminCfg syncMode s =
     (let s' = an_configure adminCfg s in
      if js_eq syncMode (JStr ''yes'') then (fst (an_query2execution axios clock s'), init_agent)
      else (s', an_notify2execution clock))"

definition an_runInTestMode :: "axios \<Rightarrow> (nat \<Rightarrow> string) \<Rightarrow> env_json \<Rightarrow> anomaly_app \<Rightarrow> anomaly_app" where
  "an_runInTestMode axios clock config_json s = fst (an_query2execution axios clock (an_configure config_json s))"

interpretation an_cmds: stepwise an_handleCmd an_handleCmds
  by unfold_locales (auto split: prod.split bool.split)

interpretation an_exec: stepwise "\<lambda>(now, e). an_handler now e" an_execute
  by unfold_locales (auto split: prod.split bool.split)

section \<open>What is detected\<close>

text \<open>
  The abstract behaviour of the detector: readings are reported when they exceed the threshold in force, and a
  rule replaces the threshold.
\<close>

record reading =
  r_panel :: string
  r_shop :: string
  r_where :: jval
  r_watts :: int

datatype city_event = Reading reading | NewRule int

fun detected :: "int \<Rightarrow> (string \<times> city_event) list \<Rightarrow> (string \<times> reading) list" where
  "detected thr [] = []"
| "detected thr ((now, Reading r) # es) = (if r_watts r > thr then [(now, r)] else []) @ detected thr es"
| "detected thr ((now, NewRule t) # es) = detected t es"

fun rule_in_force :: "int \<Rightarrow> (string \<times> city_event) list \<Rightarrow> int" where
  "rule_in_force thr [] = thr"
| "rule_in_force thr ((now, Reading r) # es) = rule_in_force thr es"
| "rule_in_force thr ((now, NewRule t) # es) = rule_in_force t es"

text \<open>
  What a detector has to do with a single event so that it follows the specification over any sequence of events: \<open>armed\<close>
  states are those in which it reports, with the threshold in force, and \<open>report\<close> is what it does with detected readings
  and the rule in force.
\<close>

locale rule_detector = stepwise "\<lambda>(now, e). handle now e" run
  for handle :: "string \<Rightarrow> jval \<Rightarrow> 's \<Rightarrow> 's \<times> bool" and run :: "(string \<times> jval) list \<Rightarrow> 's \<Rightarrow> 's \<times> bool" +
  fixes object :: "city_event \<Rightarrow> jval"
    and armed :: "int \<Rightarrow> 's \<Rightarrow> bool"
    and report :: "(string \<times> reading) list \<Rightarrow> int \<Rightarrow> 's \<Rightarrow> 's"
  assumes handles: "armed thr s \<Longrightarrow>
      handle now (object e) s = (report (detected thr [(now, e)]) (rule_in_force thr [(now, e)]) s, True)"
    and armed_report: "armed thr s \<Longrightarrow> armed thr' (report ds thr' s)"
    and report_report: "report ds' t' (report ds t s) = report (ds @ ds') t' s"
    and report_none: "armed thr s \<Longrightarrow> report [] thr s = s"
begin

lemma run_events:
  "armed thr s \<Longrightarrow> run (map (\<lambda>(now, e). (now, object e)) es) s = (report (detected thr es) (rule_in_force thr es) s, True)"
proof (induction es arbitrary: s thr)
  case (Cons p es)
  obtain now e where p: "p = (now, e)" by (cases p)
  have "detected thr (p # es) = detected thr [p] @ detected (rule_in_force thr [p]) es"
    "rule_in_force thr (p # es) = rule_in_force (rule_in_force thr [p]) es"
    by (cases e; simp add: p)+
  with Cons.prems Cons.IH [OF armed_report [OF Cons.prems]] show ?case
    by (simp add: p run_Cons handles report_report)
qed (simp add: run_Nil report_none)

end

text \<open>The entities that carry the events, and the request that reports a reading.\<close>

fun event_parts :: "city_event \<Rightarrow> jval \<times> (string \<times> jval \<times> jval) list \<times> (string \<times> jval \<times> jval) list" where
  "event_parts (Reading r) =
     (JObj [(''id'', JStr (r_panel r)), (''type'', JStr ''PowerPanel'')], [(''usage'', JStr ''integer'', JNum (r_watts r))],
      [(''shop'', JStr ''string'', JStr (r_shop r)), (''location'', JStr ''point'', r_where r)])"
| "event_parts (NewRule t) =
     (JObj [(''id'', JStr ''rule''), (''type'', JStr ''Rule'')], [(''threshold'', JStr ''integer'', JNum t)], [])"

definition event_object :: "city_event \<Rightarrow> jval" where
  "event_object e = (case event_parts e of (eid, as, ms) \<Rightarrow> ctx_object eid as ms)"

definition event_response :: "city_event \<Rightarrow> jval" where
  "event_response e = (case event_parts e of (eid, as, ms) \<Rightarrow> JObj [(''contextElement'', ctx_element eid as ms)])"

definition anomaly_request :: "jval \<Rightarrow> jval \<Rightarrow> jval \<Rightarrow> string \<times> reading \<Rightarrow> http_req" where
  "anomaly_request u i t d =
     post_req (url_of u ''/updateContext'') JUndef (update_req_body (ctx_element
        (JObj [(''id'', i), (''type'', t), (''isPattern'', JBool False)])
        [(''when'', JStr ''string'', JStr (fst d)), (''whichpanel'', JStr ''string'', JStr (r_panel (snd d))),
         (''shop'', JStr ''string'', JStr (r_shop (snd d))),
         (''where'', JStr ''object'', JObj [(''type'', JStr ''point''), (''value'', r_where (snd d))]),
         (''usage'', JStr ''integer'', JNum (r_watts (snd d)))]
        [(''shop'', JStr ''string'', JStr (r_shop (snd d)))]) ''UPDATE'')"

lemma publish_anomaly:
  assumes "an_client s = Some u" and "an_output s = [(''id'', i), (''type'', t)]"
  shows "an_publish (anomaly_entity now (JStr (r_panel r)) (JStr (r_shop r)) (JObj [(''type'', JStr ''point''), (''value'', r_where r)]) (JNum (r_watts r))) s =
     (s\<lparr>an_sent := an_sent s @ [anomaly_request u i t (now, r)]\<rparr>, True)"
  using assms
  by (simp add: an_publish_def output_identity_def anomaly_entity_def anomaly_request_def JSONObject2CtxElement_def
      ctx_element_def named_elems_def obj_in_def has_own_def js_access js_literal)

lemma an_handler_event:
  assumes "an_client s = Some u" and "an_output s = [(''id'', i), (''type'', t)]" and "an_threshold s = JNum thr"
  shows "an_handler now (event_object e) s =
     (s\<lparr>an_sent := an_sent s @ map (anomaly_request u i t) (detected thr [(now, e)]),
        an_threshold := JNum (rule_in_force thr [(now, e)])\<rparr>, True)"
proof (cases e)
  case (Reading r)
  have "panel_fields (event_object e) =
      Some (JNum (r_watts r), JStr (r_panel r), JStr (r_shop r), JObj [(''type'', JStr ''point''), (''value'', r_where r)])"
    by (simp add: Reading panel_fields_def event_object_def ctx_object_def named_props_def js_access)
  then show ?thesis
    using assms publish_anomaly [OF assms(1,2)]
    by (simp add: Reading an_handler_def event_object_def ctx_object_def field_def js_access js_eq_JStr)
next
  case (NewRule t')
  then show ?thesis
    using assms by (simp add: an_handler_def event_object_def ctx_object_def named_props_def field_def js_access js_eq_JStr)
qed

interpretation an_rules: rule_detector an_handler an_execute event_object
    "\<lambda>thr s. an_client s = Some u \<and> an_output s = [(''id'', i), (''type'', t)] \<and> an_threshold s = JNum thr"
    "\<lambda>ds thr s. s\<lparr>an_sent := an_sent s @ map (anomaly_request u i t) ds, an_threshold := JNum thr\<rparr>" for u i t
  by unfold_locales (simp_all add: an_handler_event)

lemma an_execute_events:
  assumes "an_client s = Some u" and "an_output s = [(''id'', i), (''type'', t)]" and "an_threshold s = JNum thr"
  shows "an_execute (map (\<lambda>(now, e). (now, event_object e)) es) s =
     (s\<lparr>an_sent := an_sent s @ map (anomaly_request u i t) (detected thr es),
        an_threshold := JNum (rule_in_force thr es)\<rparr>, True)"
  using assms by (intro an_rules.run_events) simp

text \<open>Under its own \<open>try\<close> for each object, a loop that never throws does the same.\<close>

lemma an_handleNotify_execute: "an_execute es s = (s', True) \<Longrightarrow> an_handleNotify es s = s'"
proof (induction es s rule: an_execute.induct)
  case (2 now e es s)
  then show ?case by (cases "an_handler now e s") (auto split: bool.splits)
qed simp

text \<open>
  A detector that is connected and has an output reports, over any sequence of panel readings and rule
  updates, exactly the readings above the threshold in force when they arrive, each once, in their order and under
  the identity of the output; the last rule is in force afterwards.
\<close>

theorem anomalies_follow_rules:
  assumes "an_client s = Some u" and "an_output s = [(''id'', i), (''type'', t)]" and "an_threshold s = JNum thr"
  shows "an_handleNotify (map (\<lambda>(now, e). (now, event_object e)) es) s =
     s\<lparr>an_sent := an_sent s @ map (anomaly_request u i t) (detected thr es),
       an_threshold := JNum (rule_in_force thr es)\<rparr>"
  using an_handleNotify_execute [OF an_execute_events [OF assms]] .

definition sample_detector :: anomaly_app where
  "sample_detector = init_anomaly\<lparr>an_client := Some (JStr ''http://b''), an_brokerURL := JStr ''http://b'',
     an_output := [(''id'', JStr ''Stream.1''), (''type'', JStr ''Anomaly'')]\<rparr>"

definition sample_reading :: "int \<Rightarrow> reading" where
  "sample_reading w = \<lparr>r_panel = ''Panel.1'', r_shop = ''shop'', r_where = JNull, r_watts = w\<rparr>"

theorem anomalies_follow_rules_witness:
  "an_sent (an_handleNotify (map (\<lambda>(now, e). (now, event_object e))
     [(''t1'', Reading (sample_reading 31)), (''t2'', NewRule 50), (''t3'', Reading (sample_reading 40)), (''t4'', Reading (sample_reading 51))])
     sample_detector) =
   map (anomaly_request (JStr ''http://b'') (JStr ''Stream.1'') (JStr ''Anomaly'')) [(''t1'', sample_reading 31), (''t4'', sample_reading 51)]"
  using anomalies_follow_rules [of sample_detector "JStr ''http://b''" "JStr ''Stream.1''" "JStr ''Anomaly''" 30
      "[(''t1'', Reading (sample_reading 31)), (''t2'', NewRule 50), (''t3'', Reading (sample_reading 40)), (''t4'', Reading (sample_reading 51))]"]
  by (simp add: sample_detector_def init_anomaly_def sample_reading_def)

text \<open>
  A one-time execution asks the broker for its input once and, when the broker answers with context
  elements, reports the same readings as a continuous execution that is notified of the same entities.
\<close>

theorem one_time_run_reports:
  assumes "an_client s = Some u" and "an_output s = [(''id'', i), (''type'', t)]" and "an_threshold s = JNum thr"
    and "axios (an_fetch_req s) = Inr \<lparr>rs_status = 200, rs_data = JObj [(''contextResponses'', JArr (map event_response es))]\<rparr>"
  shows "an_query2execution axios clock s =
     (s\<lparr>an_sent := an_sent s @ an_fetch_req s # map (anomaly_request u i t) (detected thr (map (\<lambda>k. (clock k, es ! k)) [0..<length es])),
        an_threshold := JNum (rule_in_force thr (map (\<lambda>k. (clock k, es ! k)) [0..<length es]))\<rparr>, True)"
proof -
  have parts: "map event_response es = map (\<lambda>(eid, as, ms). JObj [(''contextElement'', ctx_element eid as ms)]) (map event_parts es)"
    "map event_object es = map (\<lambda>(eid, as, ms). ctx_object eid as ms) (map event_parts es)"
    by (simp_all add: event_response_def event_object_def)
  have "canonical (named_props as) \<and> canonical (named_props ms)" if "event_parts e = (eid, as, ms)" for e eid as ms
    using that by (cases e) (auto simp: named_props_def canonical_plain plain_def is_digit_def)
  then have "convert_responses (map event_response es) = Some (map event_object es)"
    unfolding parts by (intro convert_ctx_elements) (auto simp: list_all_iff)
  then have "an_fetchInputByQuery axios s = Inr (JArr (map event_object es))"
    using assms(4) by (simp add: an_fetchInputByQuery_def axios_200_def query_result_def jelems_if_def settle_def js_access)
  moreover have "map (\<lambda>k. (clock k, map event_object es ! k)) [0..<length es] =
      map (\<lambda>(now, e). (now, event_object e)) (map (\<lambda>k. (clock k, es ! k)) [0..<length es])"
    by simp
  ultimately show ?thesis
    using an_execute_events [of "s\<lparr>an_sent := an_sent s @ [an_fetch_req s]\<rparr>" u i t thr "map (\<lambda>k. (clock k, es ! k)) [0..<length es]"] assms(1-3)
    by (simp add: an_query2execution_def Let_def del: map_map)
qed

theorem one_time_run_reports_witness:
  "an_sent (fst (an_query2execution (\<lambda>rq. Inr \<lparr>rs_status = 200, rs_data = JObj [(''contextResponses'', JArr (map event_response
       [Reading (sample_reading 31), Reading (sample_reading 5)]))]\<rparr>) (\<lambda>k. ''now'') sample_detector)) =
   [an_fetch_req sample_detector, anomaly_request (JStr ''http://b'') (JStr ''Stream.1'') (JStr ''Anomaly'') (''now'', sample_reading 31)]"
  using one_time_run_reports [of sample_detector "JStr ''http://b''" "JStr ''Stream.1''" "JStr ''Anomaly''" 30
      "\<lambda>rq. Inr \<lparr>rs_status = 200, rs_data = JObj [(''contextResponses'', JArr (map event_response [Reading (sample_reading 31), Reading (sample_reading 5)]))]\<rparr>"
      "[Reading (sample_reading 31), Reading (sample_reading 5)]" "\<lambda>k. ''now''"]
  by (simp add: sample_detector_def init_anomaly_def sample_reading_def)

end
