(* ===== verification/Power_Panel.thy ===== *)
theory Power_Panel
  imports Complex_Main Operator_Link Anomaly
begin

text \<open>
  The simulated power panel, \<open>application/device/powerpanel/powerpanel.js\<close>: a device that registers itself at a nearby
  broker, reports its usage periodically and removes itself when it is interrupted; and the application it is part of, in
  which the anomaly detector receives what the broker stores of the panel.
\<close>

record panel =
  pp_client :: "jval option"
  pp_timer :: bool
  pp_sent :: "http_req list"

definition init_panel :: panel where
  "init_panel = \<lparr>pp_client = None, pp_timer = False, pp_sent = []\<rparr>"

text \<open>\<open>Math.floor((Math.random() * 100) + 1)\<close>\<close>

definition usage_degree :: "rat \<Rightarrow> int" where
  "usage_degree random = \<lfloor>random * 100 + 1\<rfloor>"

definition panel_id :: "jval \<Rightarrow> jval" where
  "panel_id profile = JStr (''Device.'' @ js_str (k_field profile ''type'') @ ''.'' @ js_str (k_field profile ''id''))"

definition panel_entity :: "jval \<Rightarrow> jval" where
  "panel_entity profile = JObj [(''id'', panel_id profile), (''type'', k_field profile ''type''), (''isPattern'', JBool False)]"

definition typed :: "string \<Rightarrow> jval \<Rightarrow> jval" where
  "typed t v = JObj [(''type'', JStr t), (''value'', v)]"

text \<open>The update that a client sends; without a client the call on \<open>undefined\<close> throws.\<close>

definition pp_send :: "jval \<Rightarrow> panel \<Rightarrow> panel" where
  "pp_send ctxObj s =
     (case Option.bind (pp_client s) (\<lambda>u. update_request u ctxObj) of
        None \<Rightarrow> s
      | Some rq \<Rightarrow> s\<lparr>pp_sent := pp_sent s @ [rq]\<rparr>)"

definition registerDevice :: "jval \<Rightarrow> rat \<Rightarrow> panel \<Rightarrow> panel" where
  "registerDevice profile random s =
     pp_send (JObj
       [(''entityId'', panel_entity profile),
        (''attributes'', JObj [(''usage'', typed ''integer'' (JNum (usage_degree random))), (''shop'', typed ''string'' (k_field profile ''id'')),
                               (''iconURL'', typed ''string'' (k_field profile ''iconURL''))]),
        (''metadata'', JObj [(''location'', typed ''point'' (k_field profile ''location'')), (''shop'', typed ''string'' (k_field profile ''id''))])]) s"

definition pp_updateContext :: "jval \<Rightarrow> rat \<Rightarrow> panel \<Rightarrow> panel" where
  "pp_updateContext profile random s =
     pp_send (JObj
       [(''entityId'', panel_entity profile), (''attributes'', JObj [(''usage'', typed ''integer'' (JNum (usage_degree random)))])]) s"

text \<open>The answer of the discovery: a list of brokers, or anything else if there is none.\<close>

definition on_brokers :: "jval \<Rightarrow> jval \<Rightarrow> rat \<Rightarrow> panel \<Rightarrow> panel" where
  "on_brokers profile brokers random s =
     (case brokers of
        JArr (b # bs) \<Rightarrow> registerDevice profile random (s\<lparr>pp_client := Some b, pp_timer := True\<rparr>)
      | _ \<Rightarrow> s)"

definition delete_request :: "jval \<Rightarrow> jval \<Rightarrow> http_req" where
  "delete_request u entityId =
     post_req (js_str u @ ''/updateContext'') JUndef (update_req_body (JObj [(''entityId'', entityId)]) ''DELETE'')"

text \<open>The entity to delete has the type \<open>Device\<close>, unlike the one that was registered; it is deleted twice.\<close>

definition on_sigint :: "jval \<Rightarrow> panel \<Rightarrow> panel" where
  "on_sigint profile s =
     (case pp_client s of
        None \<Rightarrow> s
      | Some u \<Rightarrow>
          (let entity = JObj [(''id'', panel_id profile), (''type'', JStr ''Device''), (''isPattern'', JBool False)]
           in s\<lparr>pp_timer := False, pp_sent := pp_sent s @ [delete_request u entity, delete_request u entity]\<rparr>))"

datatype panel_event = Brokers jval rat | Tick rat | Sigint

fun panel_step :: "jval \<Rightarrow> panel_event \<Rightarrow> panel \<Rightarrow> panel" where
  "panel_step profile (Brokers brokers random) s = on_brokers profile brokers random s"
| "panel_step profile (Tick random) s = (if pp_timer s then pp_updateContext profile random s else s)"
| "panel_step profile Sigint s = on_sigint profile s"

section \<open>The updates of a panel\<close>

definition panel_profile :: "string \<Rightarrow> string \<Rightarrow> jval \<Rightarrow> jval" where
  "panel_profile pid icon loc =
     JObj [(''type'', JStr ''PowerPanel''), (''id'', JStr pid), (''iconURL'', JStr icon), (''location'', loc)]"

definition panel_name :: "string \<Rightarrow> string" where
  "panel_name pid = ''Device.PowerPanel.'' @ pid"

definition panel_update :: "string \<Rightarrow> named list \<Rightarrow> named list \<Rightarrow> element" where
  "panel_update pid as ms =
     \<lparr>Entity = \<lparr>eid_type = ''PowerPanel'', eid_isPattern = False, eid_id = panel_name pid\<rparr>, Attributes = as, Metadata = ms\<rparr>"

definition panel_registration :: "string \<Rightarrow> string \<Rightarrow> jval \<Rightarrow> int \<Rightarrow> element" where
  "panel_registration pid icon loc degree =
     panel_update pid [(''usage'', ''integer'', JNum degree), (''shop'', ''string'', JStr pid), (''iconURL'', ''string'', JStr icon)]
       [(''location'', ''point'', loc), (''shop'', ''string'', JStr pid)]"

definition usage_update :: "string \<Rightarrow> int \<Rightarrow> element" where
  "usage_update pid degree = panel_update pid [(''usage'', ''integer'', JNum degree)] []"

definition panel_props :: "string \<Rightarrow> props" where
  "panel_props pid = [(''id'', JStr (panel_name pid)), (''type'', JStr ''PowerPanel''), (''isPattern'', JBool False)]"

definition panel_request :: "jval \<Rightarrow> element \<Rightarrow> http_req" where
  "panel_request u e =
     post_req (js_str u @ ''/updateContext'') JUndef (update_req_body (ctx_element (JObj [(''id'', JStr (eid_id (Entity e))), (''type'', JStr (eid_type (Entity e))), (''isPattern'', JBool False)])
       (json_named (Attributes e)) (json_named (Metadata e))) ''UPDATE'')"

lemma panel_entity_profile: "panel_entity (panel_profile pid icon loc) = JObj (panel_props pid)"
  by (simp add: panel_entity_def panel_id_def panel_profile_def panel_props_def panel_name_def k_field_def js_access)

lemma register_profile:
  assumes "pp_client s = Some u"
  shows "registerDevice (panel_profile pid icon loc) r s = s\<lparr>pp_sent := pp_sent s @ [panel_request u (panel_registration pid icon loc (usage_degree r))]\<rparr>"
proof -
  have "JObj [(''entityId'', panel_entity (panel_profile pid icon loc)),
        (''attributes'', JObj [(''usage'', typed ''integer'' (JNum (usage_degree r))), (''shop'', typed ''string'' (k_field (panel_profile pid icon loc) ''id'')),
                               (''iconURL'', typed ''string'' (k_field (panel_profile pid icon loc) ''iconURL''))]),
        (''metadata'', JObj [(''location'', typed ''point'' (k_field (panel_profile pid icon loc) ''location'')), (''shop'', typed ''string'' (k_field (panel_profile pid icon loc) ''id''))])] =
      ctx_object (JObj (panel_props pid)) (json_named (Attributes (panel_registration pid icon loc (usage_degree r)))) (json_named (Metadata (panel_registration pid icon loc (usage_degree r))))"
    unfolding panel_entity_profile
    by (simp add: ctx_object_def panel_registration_def panel_update_def json_named_def named_props_def json_string_def typed_def k_field_def panel_profile_def js_access)
  then show ?thesis
    using assms unfolding registerDevice_def
    by (simp add: pp_send_def update_request_def JSONObject2CtxElement_ctx_object panel_request_def)
      (simp add: panel_registration_def panel_update_def panel_props_def)
qed

lemma update_profile:
  assumes "pp_client s = Some u"
  shows "pp_updateContext (panel_profile pid icon loc) r s = s\<lparr>pp_sent := pp_sent s @ [panel_request u (usage_update pid (usage_degree r))]\<rparr>"
  using assms unfolding pp_updateContext_def panel_entity_profile
  by (simp add: pp_send_def update_request_def JSONObject2CtxElement_def panel_request_def usage_update_def panel_update_def panel_props_def
      ctx_element_def named_elems_def json_named_def json_string_def typed_def js_access js_literal)

lemma posted_panel_request:
  "posted_updates (panel_request u (panel_update pid as ms)) = [panel_update pid as ms]"
  unfolding panel_request_def
  using posted_updates_element [of "[(''id'', JStr (panel_name pid)), (''type'', JStr ''PowerPanel''), (''isPattern'', JBool False)]"
      "Entity (panel_update pid as ms)" _ _ as ms]
  by (simp add: panel_update_def js_access)

lemma ticks:
  "\<lbrakk>pp_client s = Some u; pp_timer s\<rbrakk> \<Longrightarrow>
     fold (panel_step (panel_profile pid icon loc)) (map Tick rs) s =
       s\<lparr>pp_sent := pp_sent s @ map (\<lambda>r. panel_request u (usage_update pid (usage_degree r))) rs\<rparr>"
  by (induction rs arbitrary: s) (simp_all add: update_profile)

lemma no_ticks: "\<not> pp_timer s \<Longrightarrow> fold (panel_step profile) (map Tick rs) s = s"
  by (induction rs) simp_all

lemma usage_bounds: "\<lbrakk>0 \<le> r; r < 1\<rbrakk> \<Longrightarrow> 1 \<le> usage_degree r \<and> usage_degree r \<le> 100"
  unfolding usage_degree_def by (simp add: le_floor_iff floor_le_iff)

text \<open>
  A power panel that finds a broker registers itself, reports its usage at each tick of its timer and, when it is
  interrupted, sends the deletion twice and nothing any more; every usage that it reports is between 1 and 100.
\<close>

theorem panel_reports_within_bounds:
  assumes "list_all (\<lambda>r. 0 \<le> r \<and> r < 1) (r0 # rs)"
  shows "\<exists>d0 ds. pp_sent (fold (panel_step (panel_profile pid icon loc)) (Brokers (JArr (u # us)) r0 # map Tick rs @ Sigint # map Tick rs') init_panel) =
      panel_request u (panel_registration pid icon loc d0) # map (\<lambda>d. panel_request u (usage_update pid d)) ds @
        [delete_request u (JObj [(''id'', JStr (panel_name pid)), (''type'', JStr ''Device''), (''isPattern'', JBool False)]),
         delete_request u (JObj [(''id'', JStr (panel_name pid)), (''type'', JStr ''Device''), (''isPattern'', JBool False)])] \<and>
    length ds = length rs \<and> list_all (\<lambda>d. 1 \<le> d \<and> d \<le> 100) (d0 # ds)"
proof (intro exI conjI)
  let ?p = "panel_profile pid icon loc" and ?s = "init_panel\<lparr>pp_client := Some u, pp_timer := True\<rparr>"
  have id: "panel_id ?p = JStr (panel_name pid)"
    by (simp add: panel_id_def panel_name_def panel_profile_def k_field_def js_access)
  show "pp_sent (fold (panel_step ?p) (Brokers (JArr (u # us)) r0 # map Tick rs @ Sigint # map Tick rs') init_panel) =
      panel_request u (panel_registration pid icon loc (usage_degree r0)) # map (\<lambda>d. panel_request u (usage_update pid d)) (map usage_degree rs) @
        [delete_request u (JObj [(''id'', JStr (panel_name pid)), (''type'', JStr ''Device''), (''isPattern'', JBool False)]),
         delete_request u (JObj [(''id'', JStr (panel_name pid)), (''type'', JStr ''Device''), (''isPattern'', JBool False)])]"
    by (simp add: on_brokers_def register_profile ticks no_ticks on_sigint_def id init_panel_def comp_def Let_def)
  show "list_all (\<lambda>d. 1 \<le> d \<and> d \<le> 100) (usage_degree r0 # map usage_degree rs)"
    using assms by (auto simp: list_all_iff usage_bounds)
qed simp

theorem panel_reports_within_bounds_witness:
  "\<exists>d0 ds. pp_sent (fold (panel_step (panel_profile ''01'' ''i.png'' JUndef)) (Brokers (JArr [JStr ''http://b'']) (1/2) # map Tick [0, 99/100] @ Sigint # map Tick [0]) init_panel) =
      panel_request (JStr ''http://b'') (panel_registration ''01'' ''i.png'' JUndef d0) # map (\<lambda>d. panel_request (JStr ''http://b'') (usage_update ''01'' d)) ds @
        [delete_request (JStr ''http://b'') (JObj [(''id'', JStr (panel_name ''01'')), (''type'', JStr ''Device''), (''isPattern'', JBool False)]),
         delete_request (JStr ''http://b'') (JObj [(''id'', JStr (panel_name ''01'')), (''type'', JStr ''Device''), (''isPattern'', JBool False)])] \<and>
    length ds = length [0, 99/100 :: rat] \<and> list_all (\<lambda>d. 1 \<le> d \<and> d \<le> 100) (d0 # ds)"
  by (rule panel_reports_within_bounds) simp

section \<open>The detector behind the broker\<close>

text \<open>
  The broker applies the updates of the panel one by one and notifies the detector of what it stores; the notification of an update
  is taken to arrive before the next update. \<open>monitor\<close> starts from the requests that reach the broker, with their times.
\<close>

fun monitor_updates :: "string \<Rightarrow> (string \<times> element) list \<Rightarrow> entities \<times> anomaly_app \<Rightarrow> entities \<times> anomaly_app" where
  "monitor_updates sid [] (es, s) = (es, s)"
| "monitor_updates sid ((now, u) # us) (es, s) =
     (case UpdateContext2LocalSite [[]] u es of
        (es', ns) \<Rightarrow> monitor_updates sid us (es', an_handleNotify (map (Pair now) (concat (map (notified sid) ns))) s))"

definition monitor :: "string \<Rightarrow> (string \<times> http_req) list \<Rightarrow> entities \<times> anomaly_app \<Rightarrow> entities \<times> anomaly_app" where
  "monitor sid rqs es = monitor_updates sid (concat (map (\<lambda>(now, rq). map (Pair now) (posted_updates rq)) rqs)) es"

definition panel_reading :: "string \<Rightarrow> jval \<Rightarrow> int \<Rightarrow> reading" where
  "panel_reading pid loc d = \<lparr>r_panel = panel_name pid, r_shop = pid, r_where = loc, r_watts = d\<rparr>"

text \<open>What is stored of a panel with a usage.\<close>

definition panel_stored :: "string \<Rightarrow> jval \<Rightarrow> int \<Rightarrow> element \<Rightarrow> bool" where
  "panel_stored pid loc d e =
     (Entity e = \<lparr>eid_type = ''PowerPanel'', eid_isPattern = False, eid_id = panel_name pid\<rparr> \<and> distinct (map fst (Attributes e)) \<and>
      ''__proto__'' \<notin> set (map fst (Attributes e)) \<and> map_of (Attributes e) ''usage'' = Some (''integer'', JNum d) \<and>
      Metadata e = [(''location'', ''point'', loc), (''shop'', ''string'', JStr pid)])"

lemma panel_updated:
  assumes "es (panel_name pid) = Some e" and "panel_stored pid loc d e"
  shows "\<exists>e'. updateContextElement (usage_update pid d') es = es(panel_name pid \<mapsto> e') \<and> panel_stored pid loc d' e'"
proof (intro exI conjI)
  let ?new = "[(''usage'', ''integer'', JNum d')]"
  let ?e = "e\<lparr>Attributes := updateAttributes (Attributes e) ?new\<rparr>"
  show "updateContextElement (usage_update pid d') es = es(panel_name pid \<mapsto> ?e)"
    using assms(1) by (cases e) (simp add: updateContextElement_def usage_update_def panel_update_def)
  have "distinct (map fst (updateAttributes (Attributes e) ?new))"
    using assms(2) by (intro updateAttributes_distinct) (simp_all add: panel_stored_def)
  moreover have "set (map fst (updateAttributes (Attributes e) ?new)) \<subseteq> insert ''usage'' (set (map fst (Attributes e)))"
    by (auto simp: updateAttributes_def)
  ultimately show "panel_stored pid loc d' ?e"
    using assms(2) by (auto simp: panel_stored_def updateAttributes_lookup simp del: set_map)
qed

lemma panel_registered:
  assumes "es (panel_name pid) = None"
  shows "updateContextElement (panel_registration pid icon loc d) es = es(panel_name pid \<mapsto> panel_registration pid icon loc d) \<and>
    panel_stored pid loc d (panel_registration pid icon loc d)"
  using assms by (simp add: updateContextElement_def panel_registration_def panel_update_def panel_stored_def)

lemma detector_reading:
  assumes "panel_stored pid loc d e" and "an_client s = Some u" and "an_output s = [(''id'', i), (''type'', t)]" and "an_threshold s = JNum thr"
  shows "an_handleNotify (map (Pair now) (notified sid e)) s =
    s\<lparr>an_sent := an_sent s @ map (anomaly_request u i t) (detected thr [(now, Reading (panel_reading pid loc d))])\<rparr>"
proof -
  let ?as = "obj_of (named_props (json_named (Attributes e)))" and ?ms = "obj_of (named_props (json_named (Metadata e)))"
  have names: "''usage'' \<notin> set object_proto" "''shop'' \<notin> set object_proto" "''location'' \<notin> set object_proto"
    by (simp_all add: object_proto_def)
  have look: "obj_get ?as ''usage'' = JObj [(''type'', JStr ''integer''), (''value'', JNum d)]"
      "obj_get ?ms ''shop'' = JObj [(''type'', JStr ''string''), (''value'', JStr pid)]"
      "obj_get ?ms ''location'' = JObj [(''type'', JStr ''point''), (''value'', loc)]"
    using assms(1) names
    by (simp_all add: obj_get_json_named panel_stored_def json_attribute_def json_string_def)
  have "panel_fields (notified_object e) = Some (JNum d, JStr (panel_name pid), JStr pid, JObj [(''type'', JStr ''point''), (''value'', loc)])"
    using assms(1) by (simp add: panel_fields_def notified_object_def js_access look)
      (simp add: panel_stored_def json_entity_def panel_name_def js_access js_literal)
  moreover have "Option.bind (jget (notified_object e) ''entityId'') (\<lambda>e. jget e ''type'') = Some (JStr ''PowerPanel'')"
    using assms(1) by (simp add: panel_stored_def notified_object_def json_entity_def js_access)
  moreover have "\<not> is_nullish (field (notified_object e) ''attributes'')" by (simp add: field_def notified_object_def js_access)
  moreover note publish_anomaly [OF assms(2,3), of now "panel_reading pid loc d"]
  ultimately show ?thesis
    using assms(4) by (simp add: notified_eq an_handler_def js_eq_JStr panel_reading_def)
qed

lemma monitor_step:
  assumes "updateContextElement x es = es(panel_name pid \<mapsto> e)" and "eid_id (Entity x) = panel_name pid" and "panel_stored pid loc d e"
    and "an_client s = Some u" and "an_output s = [(''id'', i), (''type'', t)]" and "an_threshold s = JNum thr"
  shows "monitor_updates sid ((now, x) # xs) (es, s) = monitor_updates sid xs (es(panel_name pid \<mapsto> e),
    s\<lparr>an_sent := an_sent s @ map (anomaly_request u i t) (detected thr [(now, Reading (panel_reading pid loc d))])\<rparr>)"
proof -
  have "UpdateContext2LocalSite [[]] x es = (es(panel_name pid \<mapsto> e), [e])"
    using assms(1,2) by (simp add: UpdateContext2LocalSite_def Let_def)
  then show ?thesis using detector_reading [OF assms(3-6), of now sid] by simp
qed

lemma monitor_ticks:
  "\<lbrakk>es (panel_name pid) = Some e; panel_stored pid loc d e; an_client s = Some u; an_output s = [(''id'', i), (''type'', t)]; an_threshold s = JNum thr\<rbrakk> \<Longrightarrow>
     an_sent (snd (monitor_updates sid (map (\<lambda>(now, d). (now, usage_update pid d)) ds) (es, s))) =
       an_sent s @ map (anomaly_request u i t) (detected thr (map (\<lambda>(now, d). (now, Reading (panel_reading pid loc d))) ds))"
proof (induction ds arbitrary: es s e d)
  case (Cons p ds)
  obtain n d' where p: "p = (n, d')" by fastforce
  obtain e' where e': "updateContextElement (usage_update pid d') es = es(panel_name pid \<mapsto> e')" "panel_stored pid loc d' e'"
    using panel_updated [of es pid e, OF Cons.prems(1,2)] by blast
  let ?s = "s\<lparr>an_sent := an_sent s @ map (anomaly_request u i t) (detected thr [(n, Reading (panel_reading pid loc d'))])\<rparr>"
  have "monitor_updates sid (map (\<lambda>(now, d). (now, usage_update pid d)) (p # ds)) (es, s) =
      monitor_updates sid (map (\<lambda>(now, d). (now, usage_update pid d)) ds) (es(panel_name pid \<mapsto> e'), ?s)"
    using monitor_step [OF e'(1) _ e'(2) Cons.prems(3-5)] by (simp add: p usage_update_def panel_update_def del: monitor_updates.simps detected.simps)
  moreover have "an_sent (snd (monitor_updates sid (map (\<lambda>(now, d). (now, usage_update pid d)) ds) (es(panel_name pid \<mapsto> e'), ?s))) =
      an_sent ?s @ map (anomaly_request u i t) (detected thr (map (\<lambda>(now, d). (now, Reading (panel_reading pid loc d))) ds))"
    by (rule Cons.IH [of _ e' d']) (use e'(2) Cons.prems(3-5) in simp_all)
  moreover have "detected thr (map (\<lambda>(now, d). (now, Reading (panel_reading pid loc d))) (p # ds)) =
      detected thr [(n, Reading (panel_reading pid loc d'))] @ detected thr (map (\<lambda>(now, d). (now, Reading (panel_reading pid loc d))) ds)"
    by (simp add: p)
  ultimately show ?case by (simp only: map_append append_assoc) simp
qed simp

lemma panel_updates_reported:
  assumes "es (panel_name pid) = None" and "an_client s = Some u" and "an_output s = [(''id'', i), (''type'', t)]" and "an_threshold s = JNum thr"
  shows "an_sent (snd (monitor_updates sid ((now, panel_registration pid icon loc d) # map (\<lambda>(now, d). (now, usage_update pid d)) ds) (es, s))) =
    an_sent s @ map (anomaly_request u i t) (detected thr (map (\<lambda>(now, d). (now, Reading (panel_reading pid loc d))) ((now, d) # ds)))"
proof -
  let ?reg = "panel_registration pid icon loc d"
  let ?s = "s\<lparr>an_sent := an_sent s @ map (anomaly_request u i t) (detected thr [(now, Reading (panel_reading pid loc d))])\<rparr>"
  note reg = panel_registered [of es pid, OF assms(1), of icon loc d]
  have "eid_id (Entity ?reg) = panel_name pid" by (simp add: panel_registration_def panel_update_def)
  then have "monitor_updates sid ((now, ?reg) # map (\<lambda>(now, d). (now, usage_update pid d)) ds) (es, s) =
      monitor_updates sid (map (\<lambda>(now, d). (now, usage_update pid d)) ds) (es(panel_name pid \<mapsto> ?reg), ?s)"
    using monitor_step [OF conjunct1 [OF reg] _ conjunct2 [OF reg] assms(2-4)] by blast
  moreover have "an_sent (snd (monitor_updates sid (map (\<lambda>(now, d). (now, usage_update pid d)) ds) (es(panel_name pid \<mapsto> ?reg), ?s))) =
      an_sent ?s @ map (anomaly_request u i t) (detected thr (map (\<lambda>(now, d). (now, Reading (panel_reading pid loc d))) ds))"
    by (rule monitor_ticks [of _ _ ?reg loc d]) (use reg assms(2-4) in simp_all)
  moreover have "detected thr (map (\<lambda>(now, d). (now, Reading (panel_reading pid loc d))) ((now, d) # ds)) =
      detected thr [(now, Reading (panel_reading pid loc d))] @ detected thr (map (\<lambda>(now, d). (now, Reading (panel_reading pid loc d))) ds)"
    by simp
  ultimately show ?thesis by (simp only: map_append append_assoc) simp
qed

lemma panel_sends:
  "pp_sent (fold (panel_step (panel_profile pid icon loc)) (Brokers (JArr (b # bs)) r0 # map Tick rs) init_panel) =
     panel_request b (panel_registration pid icon loc (usage_degree r0)) # map (\<lambda>r. panel_request b (usage_update pid (usage_degree r))) rs"
  by (simp add: on_brokers_def register_profile ticks init_panel_def)

text \<open>
  Claim C12. The power panel, the broker and the anomaly detector together: the program of the panel finds a broker, registers
  itself and reports at each tick of its timer; the requests that it sends are applied by the broker, at the given times and one
  after the other, and the detector gets what the broker stores. Of the readings of the panel, the one of its
  registration included, exactly those above the threshold are reported, in their order and with the panel, its shop and
  its location, although the periodic updates carry neither shop nor location.
\<close>

theorem panel_anomalies_reported:
  assumes "es (panel_name pid) = None" and "an_client s = Some u" and "an_output s = [(''id'', i), (''type'', t)]" and "an_threshold s = JNum thr"
  shows "an_sent (snd (monitor sid
      (zip (t0 # map fst trs) (pp_sent (fold (panel_step (panel_profile pid icon loc)) (Brokers (JArr (b # bs)) r0 # map (\<lambda>(now, r). Tick r) trs) init_panel)))
      (es, s))) =
    an_sent s @ map (anomaly_request u i t)
      (detected thr (map (\<lambda>(now, r). (now, Reading (panel_reading pid loc (usage_degree r)))) ((t0, r0) # trs)))"
proof -
  have rs: "map (\<lambda>(now, r). Tick r) trs = map Tick (map snd trs)" by (simp add: case_prod_beta comp_def)
  have posted: "concat (map (\<lambda>(now, rq). map (Pair now) (posted_updates rq))
      (zip (t0 # map fst trs) (panel_request b (panel_registration pid icon loc (usage_degree r0)) #
         map (\<lambda>r. panel_request b (usage_update pid (usage_degree r))) (map snd trs)))) =
      (t0, panel_registration pid icon loc (usage_degree r0)) # map (\<lambda>(now, d). (now, usage_update pid d)) (map (\<lambda>(now, r). (now, usage_degree r)) trs)"
    by (induction trs) (auto simp: panel_registration_def usage_update_def posted_panel_request)
  have readings: "map (\<lambda>(now, d). (now, Reading (panel_reading pid loc d))) ((t0, usage_degree r0) # map (\<lambda>(now, r). (now, usage_degree r)) trs) =
      map (\<lambda>(now, r). (now, Reading (panel_reading pid loc (usage_degree r)))) ((t0, r0) # trs)" by auto
  show ?thesis
    using panel_updates_reported [where es = es and pid = pid, OF assms, of sid t0 icon loc "usage_degree r0" "map (\<lambda>(now, r). (now, usage_degree r)) trs"]
    unfolding monitor_def rs panel_sends posted readings .
qed

theorem panel_anomalies_reported_witness:
  "an_sent (snd (monitor [] (zip [''t0'', ''t1'', ''t2'']
       (pp_sent (fold (panel_step (panel_profile ''01'' ''i.png'' JUndef)) [Brokers (JArr [JStr ''http://b'']) (3/10), Tick (1/10), Tick (4/5)] init_panel)))
       (Map.empty, sample_detector))) =
   an_sent sample_detector @ map (anomaly_request (JStr ''http://b'') (JStr ''Stream.1'') (JStr ''Anomaly''))
     (detected 30 [(''t0'', Reading (panel_reading ''01'' JUndef 31)), (''t1'', Reading (panel_reading ''01'' JUndef 11)),
        (''t2'', Reading (panel_reading ''01'' JUndef 81))])"
  using panel_anomalies_reported [of Map.empty "''01''" sample_detector "JStr ''http://b''" "JStr ''Stream.1''" "JStr ''Anomaly''" 30 "[]" "''t0''"
      "[(''t1'', 1/10), (''t2'', 4/5)]" "''i.png''" JUndef "JStr ''http://b''" "[]" "3/10"]
  by (simp add: sample_detector_def init_anomaly_def usage_degree_def del: panel_step.simps)

end
