(* ===== verification/Rabbit.thy ===== *)
theory Rabbit
  imports JS_Prelude "HOL-Library.Multiset"
begin

text \<open>
  The RabbitMQ client of the designer, \<open>designer/rabbitmq.cjs\<close>: a connection that is re-established after
  every failure, and a queue of the messages that could not be published yet.

  The module's variables are the first fields of the record \<open>mq\<close>.  The activations of asynchronous functions
  that are suspended at an \<open>await\<close> are the list \<open>tasks\<close>; a step of the machine resumes one of them, delivers
  an event of the AMQP library, fires the reconnect timer or is a call of \<open>Publish\<close>.  A connection and the
  channel created on it share a number.  The last fields record the history: the messages given to
  \<open>Publish\<close>, the contents handed to the channel, the messages whose promise was fulfilled or rejected, and
  how often the callback for the first connection was called.  \<open>'m\<close> is the type of a message and \<open>'w\<close> of
  its serialised form.
\<close>

datatype 'm task =
    AwaitConnect                  \<comment> \<open>\<open>await amqplib.connect\<close>\<close>
  | AwaitChannel nat              \<comment> \<open>\<open>await conn.createChannel()\<close>\<close>
  | AwaitSetup nat nat            \<comment> \<open>exchange, queue, bindings, consumer: how many are done\<close>
  | FlushLoop                     \<comment> \<open>\<open>flushPendingMessages\<close> at the condition of its loop\<close>
  | FlushSent 'm                  \<comment> \<open>its \<open>publishNow\<close> has returned\<close>
  | FlushDrain nat 'm             \<comment> \<open>its \<open>publishNow\<close> waits for \<open>drain\<close>\<close>
  | FlushErr 'm                   \<comment> \<open>its \<open>publishNow\<close> has thrown\<close>
  | PubDrain nat 'm               \<comment> \<open>a direct publication waits for \<open>drain\<close>\<close>
  | PubFailed 'm                  \<comment> \<open>a direct publication has thrown\<close>

record ('m, 'w) mq =
  isReady :: bool
  isConnecting :: bool
  amqpConn :: "nat option"
  amqpChannel :: "nat option"
  reconnectTimer :: bool
  hasCalledAfterConnected :: bool
  pendingMessages :: "'m list"
  tasks :: "'m task list"
  nextConn :: nat
  listeners :: "nat list"
  accepted :: "'m list"
  wire :: "'w list"
  delivered :: "'m list"
  rejected :: "'m list"
  callbacks :: nat

definition init_mq :: "('m, 'w) mq" where
  "init_mq = \<lparr>isReady = False, isConnecting = False, amqpConn = None, amqpChannel = None, reconnectTimer = False,
     hasCalledAfterConnected = False, pendingMessages = [], tasks = [], nextConn = 0, listeners = [],
     accepted = [], wire = [], delivered = [], rejected = [], callbacks = 0\<rparr>"

section \<open>The functions of the module\<close>

definition subscribed_keys :: "string list" where
  "subscribed_keys = [''designer.*'', ''task.'']"

text \<open>The calls awaited after the channel exists: exchange, queue, one binding per key, consumer.\<close>

definition setup_calls :: nat where
  "setup_calls = 3 + length subscribed_keys"

definition scheduleReconnect :: "('m, 'w) mq \<Rightarrow> ('m, 'w) mq" where
  "scheduleReconnect s = (if reconnectTimer s then s else s\<lparr>reconnectTimer := True\<rparr>)"

definition removeAllListeners :: "('m, 'w) mq \<Rightarrow> ('m, 'w) mq" where
  "removeAllListeners s =
     (case amqpConn s of None \<Rightarrow> s | Some c \<Rightarrow> s\<lparr>listeners := removeAll c (listeners s), amqpConn := None\<rparr>)"

definition onDisconnected :: "('m, 'w) mq \<Rightarrow> ('m, 'w) mq" where
  "onDisconnected s =
     (if \<not> isReady s \<and> amqpConn s = None \<and> amqpChannel s = None then scheduleReconnect s
      else scheduleReconnect
             (removeAllListeners (s\<lparr>isReady := False, isConnecting := False, amqpChannel := None\<rparr>)))"

text \<open>\<open>connect\<close> up to its first \<open>await\<close>, and its \<open>catch\<close> block.\<close>

definition connect :: "('m, 'w) mq \<Rightarrow> ('m, 'w) mq" where
  "connect s = (if isConnecting s then s else s\<lparr>isConnecting := True, tasks := tasks s @ [AwaitConnect]\<rparr>)"

definition connect_failed :: "('m, 'w) mq \<Rightarrow> ('m, 'w) mq" where
  "connect_failed s =
     scheduleReconnect (removeAllListeners (s\<lparr>isConnecting := False, amqpChannel := None\<rparr>))"

text \<open>\<open>connect\<close> after \<open>amqplib.connect\<close> and after \<open>createChannel\<close>.\<close>

definition on_connected :: "nat \<Rightarrow> ('m, 'w) mq \<Rightarrow> ('m, 'w) mq" where
  "on_connected c s = s\<lparr>amqpConn := Some c, nextConn := Suc c, listeners := listeners s @ [c]\<rparr>"

definition on_channel :: "nat \<Rightarrow> ('m, 'w) mq \<Rightarrow> ('m, 'w) mq" where
  "on_channel c s = s\<lparr>amqpChannel := Some c\<rparr>"

text \<open>\<open>connect\<close> after the consumer is set up, up to the call of \<open>flushPendingMessages\<close>.\<close>

definition on_ready :: "('m, 'w) mq \<Rightarrow> ('m, 'w) mq" where
  "on_ready s =
     (let s1 = s\<lparr>isReady := True, isConnecting := False\<rparr> in
      if hasCalledAfterConnected s1 then s1
      else s1\<lparr>hasCalledAfterConnected := True, callbacks := Suc (callbacks s1)\<rparr>)"

definition Init :: "('m, 'w) mq \<Rightarrow> ('m, 'w) mq" where
  "Init s = connect s"

definition timer_fired :: "('m, 'w) mq \<Rightarrow> ('m, 'w) mq" where
  "timer_fired s = connect (s\<lparr>reconnectTimer := False\<rparr>)"

text \<open>What \<open>amqpChannel.publish\<close> does with a message: it accepts it, asks to wait for \<open>drain\<close>, or throws.\<close>

datatype publish_result = Accepted | BufferFull | Thrown

definition can_publish :: "('m, 'w) mq \<Rightarrow> bool" where
  "can_publish s = (isReady s \<and> amqpChannel s \<noteq> None)"

definition Publish :: "('m \<Rightarrow> 'w) \<Rightarrow> publish_result \<Rightarrow> 'm \<Rightarrow> ('m, 'w) mq \<Rightarrow> ('m, 'w) mq" where
  "Publish enc r m s0 =
     (let s = s0\<lparr>accepted := accepted s0 @ [m]\<rparr> in
      case (isReady s, amqpChannel s) of
        (True, Some c) \<Rightarrow>
          (case r of
             Accepted \<Rightarrow> s\<lparr>wire := wire s @ [enc m], delivered := delivered s @ [m]\<rparr>
           | BufferFull \<Rightarrow> s\<lparr>wire := wire s @ [enc m], tasks := tasks s @ [PubDrain c m]\<rparr>
           | Thrown \<Rightarrow> s\<lparr>tasks := tasks s @ [PubFailed m]\<rparr>)
      | _ \<Rightarrow>
          (let s' = s\<lparr>pendingMessages := pendingMessages s @ [m]\<rparr> in
           if \<not> isConnecting s' \<and> \<not> reconnectTimer s' then connect s' else s'))"

text \<open>The callback for the first connection publishes some messages and then throws, which the \<open>catch\<close> block of \<open>connect\<close> takes.\<close>

definition callback_throws :: "('m \<Rightarrow> 'w) \<Rightarrow> (publish_result \<times> 'm) list \<Rightarrow> ('m, 'w) mq \<Rightarrow> ('m, 'w) mq" where
  "callback_throws enc ps s = connect_failed (fold (\<lambda>(r, m). Publish enc r m) ps (on_ready s))"

text \<open>The \<open>catch\<close> of a direct publication.\<close>

definition publish_failed :: "'m \<Rightarrow> ('m, 'w) mq \<Rightarrow> ('m, 'w) mq" where
  "publish_failed m s = onDisconnected (s\<lparr>pendingMessages := pendingMessages s @ [m]\<rparr>)"

text \<open>\<open>pendingMessages.shift()\<close> followed by \<open>item.resolve()\<close> or \<open>item.reject(err)\<close>.\<close>

definition shift_resolve :: "'m \<Rightarrow> ('m, 'w) mq \<Rightarrow> ('m, 'w) mq" where
  "shift_resolve m s = s\<lparr>pendingMessages := tl (pendingMessages s), delivered := delivered s @ [m]\<rparr>"

definition shift_reject :: "'m \<Rightarrow> ('m, 'w) mq \<Rightarrow> ('m, 'w) mq" where
  "shift_reject m s = s\<lparr>pendingMessages := tl (pendingMessages s), rejected := rejected s @ [m]\<rparr>"

text \<open>
  One pass through the loop of \<open>flushPendingMessages\<close>, from its condition to its \<open>await\<close>: the next state of
  the client and of the activation, which has ended when it is \<open>None\<close>.
\<close>

definition flush_iteration ::
  "('m \<Rightarrow> 'w) \<Rightarrow> publish_result \<Rightarrow> ('m, 'w) mq \<Rightarrow> ('m, 'w) mq \<times> 'm task option" where
  "flush_iteration enc r s =
     (case (pendingMessages s, isReady s, amqpChannel s) of
        (m # ms, True, Some c) \<Rightarrow>
          (case r of
             Accepted \<Rightarrow> (s\<lparr>wire := wire s @ [enc m]\<rparr>, Some (FlushSent m))
           | BufferFull \<Rightarrow> (s\<lparr>wire := wire s @ [enc m]\<rparr>, Some (FlushDrain c m))
           | Thrown \<Rightarrow> (s, Some (FlushErr m)))
      | _ \<Rightarrow> (s, None))"

definition flush_error :: "'m \<Rightarrow> ('m, 'w) mq \<Rightarrow> ('m, 'w) mq \<times> 'm task option" where
  "flush_error m s = (if \<not> can_publish s then (s, None) else (shift_reject m s, Some FlushLoop))"

section \<open>The step relation\<close>

definition set_task :: "'m task list \<Rightarrow> 'm task option \<Rightarrow> 'm task list \<Rightarrow> ('m, 'w) mq \<Rightarrow> ('m, 'w) mq" where
  "set_task xs t ys s = s\<lparr>tasks := xs @ (case t of None \<Rightarrow> [] | Some t' \<Rightarrow> [t']) @ ys\<rparr>"

inductive mq_step :: "('m \<Rightarrow> 'w) \<Rightarrow> ('m, 'w) mq \<Rightarrow> ('m, 'w) mq \<Rightarrow> bool" for enc :: "'m \<Rightarrow> 'w" where
  publish: "mq_step enc s (Publish enc r m s)"
| timer: "reconnectTimer s \<Longrightarrow> mq_step enc s (timer_fired s)"
| connected: "tasks s = xs @ AwaitConnect # ys \<Longrightarrow>
     mq_step enc s (on_connected (nextConn s) (set_task xs (Some (AwaitChannel (nextConn s))) ys s))"
| channel: "tasks s = xs @ AwaitChannel c # ys \<Longrightarrow>
     mq_step enc s (on_channel c (set_task xs (Some (AwaitSetup c 0)) ys s))"
| setup_step: "tasks s = xs @ AwaitSetup c k # ys \<Longrightarrow> Suc k < setup_calls \<Longrightarrow>
     mq_step enc s (set_task xs (Some (AwaitSetup c (Suc k))) ys s)"
| ready: "tasks s = xs @ AwaitSetup c k # ys \<Longrightarrow> Suc k = setup_calls \<Longrightarrow>
     mq_step enc s (on_ready (set_task xs (Some FlushLoop) ys s))"
| ready_throws: "tasks s = xs @ AwaitSetup c k # ys \<Longrightarrow> Suc k = setup_calls \<Longrightarrow> \<not> hasCalledAfterConnected s \<Longrightarrow>
     mq_step enc s (callback_throws enc ps (set_task xs None ys s))"
| failed: "tasks s = xs @ t # ys \<Longrightarrow> t = AwaitConnect \<or> t = AwaitChannel c \<or> t = AwaitSetup c k \<Longrightarrow>
     mq_step enc s (connect_failed (set_task xs None ys s))"
| conn_closed: "c \<in> set (listeners s) \<Longrightarrow> mq_step enc s (onDisconnected s)"
| channel_closed: "c < nextConn s \<Longrightarrow> mq_step enc s (if isReady s then onDisconnected s else s)"
| flush: "tasks s = xs @ FlushLoop # ys \<Longrightarrow> flush_iteration enc r s = (s', t) \<Longrightarrow> mq_step enc s (set_task xs t ys s')"
| flush_sent: "tasks s = xs @ FlushSent m # ys \<Longrightarrow> mq_step enc s (set_task xs (Some FlushLoop) ys (shift_resolve m s))"
| flush_drained: "tasks s = xs @ FlushDrain c m # ys \<Longrightarrow>
     mq_step enc s (set_task xs (Some FlushLoop) ys (shift_resolve m s))"
| flush_err: "tasks s = xs @ FlushErr m # ys \<Longrightarrow> flush_error m s = (s', t) \<Longrightarrow> mq_step enc s (set_task xs t ys s')"
| pub_drained: "tasks s = xs @ PubDrain c m # ys \<Longrightarrow>
     mq_step enc s (set_task xs None ys (s\<lparr>delivered := delivered s @ [m]\<rparr>))"
| pub_failed: "tasks s = xs @ PubFailed m # ys \<Longrightarrow> mq_step enc s (publish_failed m (set_task xs None ys s))"

inductive mq_reachable :: "('m \<Rightarrow> 'w) \<Rightarrow> ('m, 'w) mq \<Rightarrow> bool" for enc :: "'m \<Rightarrow> 'w" where
  start: "mq_reachable enc (Init init_mq)"
| step: "mq_reachable enc s \<Longrightarrow> mq_step enc s t \<Longrightarrow> mq_reachable enc t"

section \<open>Invariants\<close>

lemmas mq_op_defs = Publish_def timer_fired_def on_connected_def on_channel_def on_ready_def connect_def
  connect_failed_def onDisconnected_def scheduleReconnect_def removeAllListeners_def publish_failed_def
  shift_resolve_def shift_reject_def set_task_def Let_def

interpretation mq: state_machine "mq_step enc" "Init init_mq" "mq_reachable enc" for enc
proof
  fix s P
  assume s: "mq_reachable enc s" and start: "P (Init init_mq)"
    and step: "\<And>s t. mq_reachable enc s \<Longrightarrow> P s \<Longrightarrow> mq_step enc s t \<Longrightarrow> P t"
  from s show "P s" by (induction rule: mq_reachable.induct) (fact start, rule step)
qed (auto intro: mq_reachable.intros)

subsection \<open>The callback for the first connection\<close>

definition callback_inv :: "('m, 'w) mq \<Rightarrow> bool" where
  "callback_inv s = (callbacks s = (if hasCalledAfterConnected s then 1 else 0))"

lemma flush_iteration_frame:
  "flush_iteration enc r s = (s', t) \<Longrightarrow>
     callbacks s' = callbacks s \<and> hasCalledAfterConnected s' = hasCalledAfterConnected s \<and> isReady s' = isReady s \<and>
     isConnecting s' = isConnecting s \<and> amqpChannel s' = amqpChannel s \<and> amqpConn s' = amqpConn s \<and>
     reconnectTimer s' = reconnectTimer s \<and> tasks s' = tasks s \<and> pendingMessages s' = pendingMessages s \<and>
     accepted s' = accepted s \<and> delivered s' = delivered s \<and> rejected s' = rejected s"
  by (auto simp: flush_iteration_def split: list.splits option.splits bool.splits publish_result.splits)

lemma flush_error_frame:
  "flush_error m s = (s', t) \<Longrightarrow>
     callbacks s' = callbacks s \<and> hasCalledAfterConnected s' = hasCalledAfterConnected s \<and> isReady s' = isReady s \<and>
     isConnecting s' = isConnecting s \<and> amqpChannel s' = amqpChannel s \<and> amqpConn s' = amqpConn s \<and>
     reconnectTimer s' = reconnectTimer s \<and> tasks s' = tasks s \<and> accepted s' = accepted s"
  by (auto simp: flush_error_def shift_reject_def split: if_splits)

lemma publishes_keep:
  assumes "\<And>r m s. P s \<Longrightarrow> P (Publish enc r m s)" and "P s"
  shows "P (fold (\<lambda>(r, m). Publish enc r m) ps s)"
  using assms(2) by (induction ps arbitrary: s) (auto intro: assms(1))

lemma callback_throws_keeps:
  assumes "\<And>r m s. P s \<Longrightarrow> P (Publish enc r m s)" and "\<And>s. P s \<Longrightarrow> P (connect_failed s)" and "P (on_ready s)"
  shows "P (callback_throws enc ps s)"
  unfolding callback_throws_def by (rule assms(2), rule publishes_keep [where P = P]) (rule assms(1), assumption, rule assms(3))

lemma callback_inv_ops:
  "callback_inv s \<Longrightarrow> callback_inv (Publish enc r m s)"
  "callback_inv s \<Longrightarrow> callback_inv (connect_failed s)"
  by (auto simp: callback_inv_def mq_op_defs split: option.split publish_result.split bool.split)

lemma callback_inv_step: "mq_step enc s t \<Longrightarrow> callback_inv s \<Longrightarrow> callback_inv t"
proof (induction rule: mq_step.induct)
  case (ready_throws s xs c k ys ps)
  then have "callback_inv (on_ready (set_task xs None ys s))" by (simp add: callback_inv_def on_ready_def set_task_def Let_def)
  then show ?case by (rule callback_throws_keeps [where P = callback_inv, rotated 2]) (simp_all add: callback_inv_ops)
qed (auto simp: callback_inv_def mq_op_defs dest!: flush_iteration_frame flush_error_frame
      split: option.split publish_result.split bool.split)

lemma callback_inv_init: "callback_inv (Init init_mq)"
  by (simp add: callback_inv_def Init_def init_mq_def connect_def)

text \<open>
  Over any number of disconnections and reconnections the callback given to \<open>Init\<close>, which issues
  the stored intents to the master, is called at most once.
\<close>

theorem callback_at_most_once:
  assumes "mq_reachable enc s"
  shows "callbacks s \<le> 1"
proof -
  have "callback_inv s"
    by (rule mq.invariant [where P = callback_inv, OF callback_inv_step callback_inv_init assms])
  then show ?thesis by (simp add: callback_inv_def)
qed

theorem callback_at_most_once_witness: "callbacks (Init init_mq :: (nat, nat) mq) \<le> 1"
  by (rule callback_at_most_once [OF mq_reachable.start])

subsection \<open>The connection is always ready, being established, or scheduled\<close>

fun is_early :: "'m task \<Rightarrow> bool" where
  "is_early AwaitConnect = True"
| "is_early (AwaitChannel c) = True"
| "is_early t = False"

fun is_setup :: "'m task \<Rightarrow> bool" where
  "is_setup (AwaitSetup c k) = True"
| "is_setup t = False"

definition conn_inv :: "('m, 'w) mq \<Rightarrow> bool" where
  "conn_inv s =
     ((amqpChannel s = None \<longrightarrow> reconnectTimer s \<or> list_ex is_early (tasks s)) \<and>
      (isConnecting s \<and> amqpChannel s = None \<longrightarrow> list_ex is_early (tasks s)) \<and>
      (\<not> isReady s \<and> amqpChannel s \<noteq> None \<longrightarrow> list_ex is_setup (tasks s)))"

lemma conn_inv_init: "conn_inv (Init init_mq)"
  by (simp add: conn_inv_def Init_def init_mq_def connect_def)

lemma conn_inv_failed: "conn_inv (connect_failed s)"
  by (simp add: conn_inv_def connect_failed_def scheduleReconnect_def removeAllListeners_def split: option.split)

lemma conn_inv_disconnected: "conn_inv s \<Longrightarrow> conn_inv (onDisconnected s)"
  by (auto simp: conn_inv_def onDisconnected_def scheduleReconnect_def removeAllListeners_def split: option.split)

text \<open>The part of the invariant that firing the timer keeps; starting an attempt restores the rest.\<close>

definition conn_pre :: "('m, 'w) mq \<Rightarrow> bool" where
  "conn_pre s =
     ((isConnecting s \<and> amqpChannel s = None \<longrightarrow> list_ex is_early (tasks s)) \<and>
      (\<not> isReady s \<and> amqpChannel s \<noteq> None \<longrightarrow> list_ex is_setup (tasks s)))"

lemma conn_inv_pre: "conn_inv s \<Longrightarrow> conn_pre s"
  by (simp add: conn_inv_def conn_pre_def)

lemma conn_inv_connect: "conn_pre s \<Longrightarrow> conn_inv (connect s)"
  by (auto simp: conn_inv_def conn_pre_def connect_def)

lemma conn_inv_timer: "conn_inv s \<Longrightarrow> conn_inv (timer_fired s)"
  unfolding timer_fired_def by (rule conn_inv_connect) (simp add: conn_inv_def conn_pre_def)

text \<open>\<open>same_conn s t\<close>: the two states agree on the connection, and \<open>t\<close> has every connection task of \<open>s\<close>.\<close>

definition same_conn :: "('m, 'w) mq \<Rightarrow> ('m, 'w) mq \<Rightarrow> bool" where
  "same_conn s t =
     (amqpChannel t = amqpChannel s \<and> isReady t = isReady s \<and> isConnecting t = isConnecting s \<and>
      reconnectTimer t = reconnectTimer s \<and> (list_ex is_early (tasks s) \<longrightarrow> list_ex is_early (tasks t)) \<and>
      (list_ex is_setup (tasks s) \<longrightarrow> list_ex is_setup (tasks t)))"

lemma conn_inv_same: "conn_inv s \<Longrightarrow> same_conn s t \<Longrightarrow> conn_inv t"
  unfolding conn_inv_def same_conn_def by auto

lemma conn_inv_publish: "conn_inv s \<Longrightarrow> conn_inv (Publish enc r m s)"
proof (cases "isReady s \<and> amqpChannel s \<noteq> None")
  case True
  assume inv: "conn_inv s"
  from True have "same_conn s (Publish enc r m s)"
    by (cases r) (auto simp: same_conn_def Publish_def Let_def)
  with inv show ?thesis by (rule conn_inv_same)
next
  case False
  let ?s = "s\<lparr>accepted := accepted s @ [m], pendingMessages := pendingMessages s @ [m]\<rparr>"
  assume "conn_inv s"
  then have s: "conn_inv ?s" by (simp add: conn_inv_def)
  have "Publish enc r m s = (if \<not> isConnecting ?s \<and> \<not> reconnectTimer ?s then connect ?s else ?s)"
    using False by (auto simp: Publish_def Let_def split: option.split bool.split)
  then show ?thesis using s conn_inv_connect [OF conn_inv_pre [OF s]] by simp
qed

lemma same_conn_resumed:
  assumes "tasks s = xs @ t # ys" and "\<not> is_early t" and "\<not> is_setup t" and "tasks s' = tasks s"
    and "amqpChannel s' = amqpChannel s" and "isReady s' = isReady s" and "isConnecting s' = isConnecting s"
    and "reconnectTimer s' = reconnectTimer s"
  shows "same_conn s (set_task xs t' ys s')"
  using assms by (simp add: same_conn_def set_task_def)

lemma conn_inv_step: "mq_step enc s t \<Longrightarrow> conn_inv s \<Longrightarrow> conn_inv t"
proof (induction rule: mq_step.induct)
  case (publish s r m)
  then show ?case by (simp add: conn_inv_publish)
next
  case (timer s)
  then show ?case by (simp add: conn_inv_timer)
next
  case (connected s xs ys)
  then show ?case by (simp add: conn_inv_def on_connected_def set_task_def)
next
  case (channel s xs c ys)
  then show ?case by (simp add: conn_inv_def on_channel_def set_task_def)
next
  case (setup_step s xs c k ys)
  then show ?case by (simp add: conn_inv_def set_task_def)
next
  case (ready s xs c k ys)
  then show ?case by (simp add: conn_inv_def on_ready_def set_task_def Let_def)
next
  case (ready_throws s xs c k ys ps)
  show ?case unfolding callback_throws_def by (rule conn_inv_failed)
next
  case (failed s xs t ys c k)
  show ?case by (rule conn_inv_failed)
next
  case (conn_closed c s)
  then show ?case by (simp add: conn_inv_disconnected)
next
  case (channel_closed c s)
  then show ?case by (simp add: conn_inv_disconnected)
next
  case (flush s xs ys r s' t)
  from flush.prems show ?case
    by (rule conn_inv_same, intro same_conn_resumed [OF flush.hyps(1)])
      (use flush_iteration_frame [OF flush.hyps(2)] in simp_all)
next
  case (flush_sent s xs m ys)
  from flush_sent.prems show ?case
    by (rule conn_inv_same, intro same_conn_resumed [OF flush_sent.hyps]) (simp_all add: shift_resolve_def)
next
  case (flush_drained s xs c m ys)
  from flush_drained.prems show ?case
    by (rule conn_inv_same, intro same_conn_resumed [OF flush_drained.hyps]) (simp_all add: shift_resolve_def)
next
  case (flush_err s xs m ys s' t)
  from flush_err.prems show ?case
    by (rule conn_inv_same, intro same_conn_resumed [OF flush_err.hyps(1)])
      (use flush_error_frame [OF flush_err.hyps(2)] in simp_all)
next
  case (pub_drained s xs c m ys)
  from pub_drained.prems show ?case
    by (rule conn_inv_same, intro same_conn_resumed [OF pub_drained.hyps]) simp_all
next
  case (pub_failed s xs m ys)
  from pub_failed.prems have "conn_inv (set_task xs None ys s)"
    by (rule conn_inv_same, intro same_conn_resumed [OF pub_failed.hyps]) simp_all
  then show ?case unfolding publish_failed_def
    by (intro conn_inv_disconnected) (simp add: conn_inv_def)
qed

text \<open>
  Claim C36. The client is never stuck: in every reachable state it has a ready channel, or a connection
  attempt is in flight, or the reconnect timer is armed.
\<close>

theorem never_stuck:
  assumes "mq_reachable enc s"
  shows "can_publish s \<or> reconnectTimer s \<or> list_ex (\<lambda>t. is_early t \<or> is_setup t) (tasks s)"
proof -
  have "conn_inv s"
    by (rule mq.invariant [where P = conn_inv, OF conn_inv_step conn_inv_init assms])
  then show ?thesis by (auto simp: conn_inv_def can_publish_def list_ex_iff)
qed

theorem never_stuck_witness:
  "can_publish (Init init_mq :: (nat, nat) mq) \<or> reconnectTimer (Init init_mq :: (nat, nat) mq) \<or>
   list_ex (\<lambda>t. is_early t \<or> is_setup t) (tasks (Init init_mq :: (nat, nat) mq))"
  by (rule never_stuck [OF mq_reachable.start])

subsection \<open>No message is lost\<close>

fun is_flush :: "'m task \<Rightarrow> bool" where
  "is_flush FlushLoop = True"
| "is_flush (FlushSent m) = True"
| "is_flush (FlushDrain c m) = True"
| "is_flush (FlushErr m) = True"
| "is_flush t = False"

text \<open>The message that a direct publication holds while it is suspended.\<close>

fun held :: "'m task \<Rightarrow> 'm multiset" where
  "held (PubDrain c m) = {#m#}"
| "held (PubFailed m) = {#m#}"
| "held t = {#}"

text \<open>A suspended flush is about the message at the head of the queue.\<close>

fun at_head :: "'m list \<Rightarrow> 'm task \<Rightarrow> bool" where
  "at_head ms (FlushSent m) = (ms \<noteq> [] \<and> hd ms = m)"
| "at_head ms (FlushDrain c m) = (ms \<noteq> [] \<and> hd ms = m)"
| "at_head ms (FlushErr m) = (ms \<noteq> [] \<and> hd ms = m)"
| "at_head ms t = True"

definition flush_count :: "('m, 'w) mq \<Rightarrow> nat" where
  "flush_count s = length (filter is_flush (tasks s))"

definition in_transit :: "('m, 'w) mq \<Rightarrow> 'm multiset" where
  "in_transit s = sum_list (map held (tasks s))"

definition msg_inv :: "('m, 'w) mq \<Rightarrow> bool" where
  "msg_inv s =
     (mset (accepted s) = mset (delivered s) + mset (rejected s) + mset (pendingMessages s) + in_transit s \<and>
      list_all (at_head (pendingMessages s)) (tasks s))"

text \<open>Runs in which a flush is not started while an earlier one is still suspended.\<close>

inductive mq_calm :: "('m \<Rightarrow> 'w) \<Rightarrow> ('m, 'w) mq \<Rightarrow> bool" for enc :: "'m \<Rightarrow> 'w" where
  calm_start: "mq_calm enc (Init init_mq)"
| calm_step: "mq_calm enc s \<Longrightarrow> mq_step enc s t \<Longrightarrow> flush_count t \<le> 1 \<Longrightarrow> mq_calm enc t"

interpretation calm: state_machine "\<lambda>s t. mq_step enc s t \<and> flush_count t \<le> 1" "Init init_mq" "mq_calm enc" for enc
proof
  fix s P
  assume s: "mq_calm enc s" and start: "P (Init init_mq)"
    and step: "\<And>s t. mq_calm enc s \<Longrightarrow> P s \<Longrightarrow> mq_step enc s t \<and> flush_count t \<le> 1 \<Longrightarrow> P t"
  from s show "P s" by (induction rule: mq_calm.induct) (fact start, rule step, auto)
qed (auto intro: mq_calm.intros)

lemma at_head_other: "\<not> is_flush t \<Longrightarrow> at_head ms t"
  by (cases t) auto

lemma at_head_append: "at_head ms t \<Longrightarrow> at_head (ms @ [m]) t"
  by (cases t) (auto simp: hd_append)

lemma list_all_at_head_append: "list_all (at_head ms) ts \<Longrightarrow> list_all (at_head (ms @ [m])) ts"
  by (auto simp: list_all_iff intro: at_head_append)

lemma only_flush:
  assumes "tasks s = xs @ t # ys" and "is_flush t" and "flush_count s \<le> 1"
  shows "list_all (at_head ms) xs \<and> list_all (at_head ms) ys"
proof -
  have "filter is_flush xs = []" "filter is_flush ys = []"
    using assms by (auto simp: flush_count_def)
  then show ?thesis by (auto simp: filter_empty_conv list_all_iff intro: at_head_other)
qed

lemma msg_inv_connect: "msg_inv s \<Longrightarrow> msg_inv (connect s)"
  by (simp add: msg_inv_def connect_def in_transit_def)

lemma msg_inv_disconnected: "msg_inv s \<Longrightarrow> msg_inv (onDisconnected s)"
  by (simp add: msg_inv_def onDisconnected_def scheduleReconnect_def removeAllListeners_def in_transit_def split: option.split)

lemma msg_inv_publish: "msg_inv s \<Longrightarrow> msg_inv (Publish enc r m s)"
proof (cases "isReady s \<and> amqpChannel s \<noteq> None")
  case True
  assume "msg_inv s"
  with True show ?thesis by (cases r) (auto simp: msg_inv_def Publish_def Let_def in_transit_def)
next
  case False
  let ?s = "s\<lparr>accepted := accepted s @ [m], pendingMessages := pendingMessages s @ [m]\<rparr>"
  assume "msg_inv s"
  then have s: "msg_inv ?s" by (auto simp: msg_inv_def in_transit_def intro: list_all_at_head_append)
  have "Publish enc r m s = (if \<not> isConnecting ?s \<and> \<not> reconnectTimer ?s then connect ?s else ?s)"
    using False by (auto simp: Publish_def Let_def split: option.split bool.split)
  then show ?thesis using s msg_inv_connect [OF s] by simp
qed

lemma msg_inv_failed: "msg_inv s \<Longrightarrow> msg_inv (connect_failed s)"
  by (simp add: msg_inv_def connect_failed_def scheduleReconnect_def removeAllListeners_def in_transit_def split: option.split)

lemma msg_inv_flush:
  assumes "msg_inv s" and "tasks s = xs @ FlushLoop # ys" and "flush_iteration enc r s = (s', t)"
  shows "msg_inv (set_task xs t ys s')"
proof -
  have "case t of None \<Rightarrow> True | Some t' \<Rightarrow> held t' = {#} \<and> at_head (pendingMessages s) t'"
    using assms(3) by (auto simp: flush_iteration_def split: list.splits option.splits bool.splits publish_result.splits)
  then show ?thesis
    using assms(1,2) flush_iteration_frame [OF assms(3)]
    by (auto simp: msg_inv_def set_task_def in_transit_def split: option.split)
qed

lemma msg_inv_shift:
  assumes "msg_inv s" and "tasks s = xs @ t # ys" and "is_flush t" and "held t = {#}" and "flush_count s \<le> 1"
    and "pendingMessages s = m # ms"
  shows "msg_inv (set_task xs (Some FlushLoop) ys (shift_resolve m s))"
    and "msg_inv (set_task xs (Some FlushLoop) ys (shift_reject m s))"
  using assms only_flush [OF assms(2,3,5), of ms]
  by (auto simp: msg_inv_def set_task_def in_transit_def shift_resolve_def shift_reject_def)

lemma at_head_pending:
  assumes "msg_inv s" and "tasks s = xs @ t # ys" and "t = FlushSent m \<or> t = FlushDrain c m \<or> t = FlushErr m"
  shows "pendingMessages s = m # tl (pendingMessages s)"
  using assms by (auto simp: msg_inv_def)

lemma msg_inv_step:
  assumes "mq_step enc s t" and "msg_inv s" and "flush_count s \<le> 1"
  shows "msg_inv t"
  using assms
proof (induction rule: mq_step.induct)
  case (publish s r m)
  then show ?case by (simp add: msg_inv_publish)
next
  case (timer s)
  then show ?case
    unfolding timer_fired_def by (intro msg_inv_connect) (simp add: msg_inv_def in_transit_def)
next
  case (ready_throws s xs c k ys ps)
  then have "msg_inv (on_ready (set_task xs None ys s))" by (simp add: msg_inv_def on_ready_def set_task_def in_transit_def Let_def)
  then show ?case by (rule callback_throws_keeps [where P = msg_inv, rotated 2]) (simp_all add: msg_inv_publish msg_inv_failed)
next
  case (failed s xs t ys c k)
  then show ?case by (intro msg_inv_failed) (auto simp: set_task_def msg_inv_def in_transit_def)
next
  case (flush s xs ys r s' t)
  then show ?case by (blast intro: msg_inv_flush)
next
  case (flush_sent s xs m ys)
  then show ?case by (auto intro!: msg_inv_shift at_head_pending)
next
  case (flush_drained s xs c m ys)
  then show ?case by (auto intro!: msg_inv_shift at_head_pending)
next
  case (flush_err s xs m ys s' t)
  then have "pendingMessages s = m # tl (pendingMessages s)" by (blast intro: at_head_pending)
  with flush_err have "msg_inv (set_task xs (Some FlushLoop) ys (shift_reject m s))"
    by (auto intro!: msg_inv_shift)
  with flush_err show ?case
    by (auto simp: flush_error_def msg_inv_def set_task_def in_transit_def split: if_splits)
next
  case (pub_failed s xs m ys)
  then have "msg_inv ((set_task xs None ys s)\<lparr>pendingMessages := pendingMessages s @ [m]\<rparr>)"
    by (auto simp: msg_inv_def set_task_def in_transit_def intro: list_all_at_head_append)
  then show ?case
    unfolding publish_failed_def by (intro msg_inv_disconnected) (simp add: set_task_def)
next
  case (pub_drained s xs c m ys)
  then show ?case by (simp add: msg_inv_def set_task_def in_transit_def)
qed (simp_all add: msg_inv_def set_task_def in_transit_def on_connected_def on_channel_def on_ready_def Let_def
      msg_inv_disconnected [unfolded msg_inv_def in_transit_def])

text \<open>A connection that is established from the attempt at a given place, with nothing else happening in between.\<close>

definition established :: "'m task list \<Rightarrow> 'm task list \<Rightarrow> ('m, 'w) mq \<Rightarrow> ('m, 'w) mq" where
  "established xs ys s = on_ready (set_task xs (Some FlushLoop) ys (on_channel (nextConn s) (on_connected (nextConn s) s)))"

lemma established_steps:
  assumes "tasks s = xs @ AwaitConnect # ys"
  shows "(mq_step enc)\<^sup>*\<^sup>* s (established xs ys s)"
proof -
  let ?s = "\<lambda>k. set_task xs (Some (AwaitSetup (nextConn s) k)) ys (on_channel (nextConn s) (on_connected (nextConn s) s))"
  have connected: "mq_step enc s (on_connected (nextConn s) (set_task xs (Some (AwaitChannel (nextConn s))) ys s))"
    using assms by (rule mq_step.connected)
  have channel: "mq_step enc (on_connected (nextConn s) (set_task xs (Some (AwaitChannel (nextConn s))) ys s)) (?s 0)"
    using mq_step.channel [of "on_connected (nextConn s) (set_task xs (Some (AwaitChannel (nextConn s))) ys s)" xs "nextConn s" ys enc]
    by (cases s) (simp add: on_connected_def on_channel_def set_task_def)
  have next_call: "mq_step enc (?s k) (?s (Suc k))" if "Suc k < setup_calls" for k
    using mq_step.setup_step [of "?s k" xs "nextConn s" k ys enc] that by (simp add: set_task_def)
  have ready: "mq_step enc (?s k) (established xs ys s)" if "Suc k = setup_calls" for k
    using mq_step.ready [of "?s k" xs "nextConn s" k ys enc] that by (simp add: set_task_def established_def)
  have calls: "(mq_step enc)\<^sup>*\<^sup>* (?s 0) (?s k)" if "k < setup_calls" for k
    using that by (induction k) (auto intro: rtranclp.rtrancl_into_rtrancl next_call)
  have "(mq_step enc)\<^sup>*\<^sup>* (?s 0) (established xs ys s)"
    by (rule rtranclp.rtrancl_into_rtrancl [OF calls [of "setup_calls - 1"] ready]) (simp_all add: setup_calls_def)
  with connected channel show ?thesis by (meson converse_rtranclp_into_rtranclp)
qed

lemma reachable_steps: "mq_reachable enc s \<Longrightarrow> (mq_step enc)\<^sup>*\<^sup>* s t \<Longrightarrow> mq_reachable enc t"
  by (rotate_tac, induction rule: rtranclp_induct) (auto intro: mq_reachable.step)

text \<open>
  Two flushes that overlap: the first waits for \<open>drain\<close> when the connection is lost; the flush of the next connection sends the
  same message and removes it, and when the first goes on, it removes the next one.
\<close>

lemma overlapping_flushes:
  "\<exists>s. mq_reachable enc s \<and> accepted s = [m1, m2] \<and> wire s = [enc m1, enc m1] \<and> delivered s = [m1, m1] \<and> rejected s = [] \<and>
     pendingMessages s = [] \<and> in_transit s = {#}"
proof -
  let ?p = "Publish enc Accepted m2 (Publish enc Accepted m1 (Init init_mq))"
  have p: "mq_reachable enc ?p" by (meson mq_reachable.intros mq_step.publish)
  let ?e = "established [] [] ?p"
  have e: "mq_reachable enc ?e"
    by (rule reachable_steps [OF p established_steps]) (simp add: Publish_def Init_def init_mq_def connect_def)
  let ?w = "set_task [] (Some (FlushDrain 0 m1)) [] (?e\<lparr>wire := [enc m1]\<rparr>)"
  have w: "mq_step enc ?e ?w"
    by (rule mq_step.flush [where r = BufferFull])
      (simp_all add: established_def flush_iteration_def mq_op_defs Init_def init_mq_def)
  let ?d = "timer_fired (onDisconnected ?w)"
  have d1: "mq_step enc ?w (onDisconnected ?w)"
    by (rule mq_step.conn_closed [where c = 0]) (simp add: established_def mq_op_defs Init_def init_mq_def)
  have d2: "mq_step enc (onDisconnected ?w) ?d" by (rule mq_step.timer) (simp add: established_def mq_op_defs Init_def init_mq_def)
  from e w d1 d2 have d: "mq_reachable enc ?d" by (meson mq_reachable.step)
  let ?f = "established [FlushDrain 0 m1] [] ?d"
  have f: "mq_reachable enc ?f"
    by (rule reachable_steps [OF d established_steps]) (simp add: established_def mq_op_defs Init_def init_mq_def)
  let ?g = "set_task [FlushDrain 0 m1] (Some (FlushSent m1)) [] (?f\<lparr>wire := [enc m1, enc m1]\<rparr>)"
  have g: "mq_step enc ?f ?g"
    by (rule mq_step.flush [where r = Accepted])
      (simp_all add: established_def flush_iteration_def mq_op_defs Init_def init_mq_def)
  let ?h = "set_task [FlushDrain 0 m1] (Some FlushLoop) [] (shift_resolve m1 ?g)"
  have h: "mq_step enc ?g ?h" by (rule mq_step.flush_sent) (simp add: set_task_def)
  let ?i = "set_task [] (Some FlushLoop) [FlushLoop] (shift_resolve m1 ?h)"
  have i: "mq_step enc ?h ?i" by (rule mq_step.flush_drained [where c = 0]) (simp add: set_task_def)
  from f g h i have "mq_reachable enc ?i" by (meson mq_reachable.step)
  then show ?thesis
    by (intro exI [of _ ?i]) (simp add: established_def mq_op_defs Init_def init_mq_def in_transit_def)
qed

text \<open>
  Claim C7. As long as no flush starts while an earlier one is suspended (\<open>mq_calm\<close>), every message given to \<open>Publish\<close> is
  accounted for exactly once: its promise was fulfilled, its promise was rejected, it is in the queue,
  or a direct publication still holds it. The condition is needed: for any two messages the client can reach, over a connection
  that is lost while the flush waits for \<open>drain\<close>, a state in which the first was sent twice and the second is gone, neither
  sent nor queued, and its promise never settled.
\<close>

theorem messages_conserved:
  "(\<forall>s. mq_calm enc s \<longrightarrow> mset (accepted s) = mset (delivered s) + mset (rejected s) + mset (pendingMessages s) + in_transit s) \<and>
   (\<exists>s. mq_reachable enc s \<and> accepted s = [m1, m2] \<and> wire s = [enc m1, enc m1] \<and> delivered s = [m1, m1] \<and> rejected s = [] \<and>
      pendingMessages s = [] \<and> in_transit s = {#})"
proof -
  have "msg_inv s \<and> flush_count s \<le> 1" if "mq_calm enc s" for s
  proof (rule calm.invariant [OF _ _ that])
    show "msg_inv (Init init_mq) \<and> flush_count (Init init_mq) \<le> 1"
      by (simp add: msg_inv_def Init_def init_mq_def connect_def in_transit_def flush_count_def)
  qed (blast intro: msg_inv_step)
  then show ?thesis using overlapping_flushes [of enc m1 m2] by (simp add: msg_inv_def)
qed

theorem messages_conserved_witness:
  "mset (accepted (Publish id Accepted 7 (Init init_mq :: (nat, nat) mq))) = {#7#} \<and>
   mset (accepted (Publish id Accepted 7 (Init init_mq :: (nat, nat) mq))) =
     mset (delivered (Publish id Accepted 7 (Init init_mq))) + mset (rejected (Publish id Accepted 7 (Init init_mq))) +
     mset (pendingMessages (Publish id Accepted 7 (Init init_mq))) + in_transit (Publish id Accepted 7 (Init init_mq))"
proof -
  have "flush_count (Publish id Accepted 7 (Init init_mq :: (nat, nat) mq)) \<le> 1"
    by (simp add: Publish_def Init_def init_mq_def connect_def flush_count_def)
  from messages_conserved [THEN conjunct1, rule_format, OF mq_calm.calm_step [OF mq_calm.calm_start mq_step.publish this]]
  show ?thesis by (simp add: Publish_def Init_def init_mq_def connect_def)
qed

subsection \<open>The queue is drained in order\<close>

lemma flush_one:
  assumes "tasks s = xs @ FlushLoop # ys" and "can_publish s" and "pendingMessages s = m # ms"
  shows "\<exists>t. (mq_step enc)\<^sup>*\<^sup>* s t \<and> tasks t = xs @ FlushLoop # ys \<and> can_publish t \<and> pendingMessages t = ms \<and>
     wire t = wire s @ [enc m] \<and> delivered t = delivered s @ [m] \<and> rejected t = rejected s"
proof -
  let ?s1 = "s\<lparr>wire := wire s @ [enc m]\<rparr>"
  let ?s2 = "set_task xs (Some (FlushSent m)) ys ?s1"
  let ?s3 = "set_task xs (Some FlushLoop) ys (shift_resolve m ?s2)"
  have "flush_iteration enc Accepted s = (?s1, Some (FlushSent m))"
    using assms(2,3) by (auto simp: flush_iteration_def can_publish_def)
  then have "mq_step enc s ?s2" using assms(1) by (blast intro: mq_step.flush)
  moreover have "tasks ?s2 = xs @ FlushSent m # ys" by (simp add: set_task_def)
  then have "mq_step enc ?s2 ?s3" by (rule mq_step.flush_sent)
  ultimately have "(mq_step enc)\<^sup>*\<^sup>* s ?s3" by (meson converse_rtranclp_into_rtranclp r_into_rtranclp)
  moreover have "tasks ?s3 = xs @ FlushLoop # ys \<and> can_publish ?s3 \<and> pendingMessages ?s3 = ms \<and>
     wire ?s3 = wire s @ [enc m] \<and> delivered ?s3 = delivered s @ [m] \<and> rejected ?s3 = rejected s"
    using assms(2,3) by (simp add: set_task_def shift_resolve_def can_publish_def)
  ultimately show ?thesis by blast
qed

lemma flush_drains:
  assumes "tasks s = xs @ FlushLoop # ys" and "can_publish s"
  shows "\<exists>t. (mq_step enc)\<^sup>*\<^sup>* s t \<and> pendingMessages t = [] \<and> can_publish t \<and> wire t = wire s @ map enc (pendingMessages s) \<and>
     delivered t = delivered s @ pendingMessages s \<and> rejected t = rejected s"
  using assms
proof (induction "pendingMessages s" arbitrary: s)
  case Nil
  then show ?case by (intro exI [of _ s]) simp
next
  case (Cons m ms)
  then obtain s1 where 1: "(mq_step enc)\<^sup>*\<^sup>* s s1" "tasks s1 = xs @ FlushLoop # ys" "can_publish s1" "pendingMessages s1 = ms"
      "wire s1 = wire s @ [enc m]" "delivered s1 = delivered s @ [m]" "rejected s1 = rejected s"
    using flush_one [of s xs ys m ms enc] by auto
  with Cons.hyps(1) [of s1] obtain t where 2: "(mq_step enc)\<^sup>*\<^sup>* s1 t" "pendingMessages t = []" "can_publish t" "wire t = wire s1 @ map enc ms"
      "delivered t = delivered s1 @ ms" "rejected t = rejected s1"
    by auto
  from 1(1) 2(1) have "(mq_step enc)\<^sup>*\<^sup>* s t" by (rule rtranclp_trans)
  moreover have "wire t = wire s @ map enc (m # ms)" "delivered t = delivered s @ m # ms" "rejected t = rejected s"
    using 1 2 by simp_all
  ultimately show ?case using 2(2,3) Cons.hyps(2) by metis
qed

text \<open>
  A flush over a channel that accepts what it is given empties the queue: every waiting message is
  put on the wire exactly once, in the order in which the messages were queued, and its promise is fulfilled.
\<close>

theorem flush_drains_in_order:
  assumes "tasks s = xs @ FlushLoop # ys" and "can_publish s"
  shows "\<exists>t. (mq_step enc)\<^sup>*\<^sup>* s t \<and> pendingMessages t = [] \<and> wire t = wire s @ map enc (pendingMessages s) \<and>
     delivered t = delivered s @ pendingMessages s \<and> rejected t = rejected s"
  using flush_drains [OF assms, of enc] by blast

definition waiting_mq :: "(nat, nat) mq" where
  "waiting_mq = init_mq\<lparr>isReady := True, amqpChannel := Some 0, pendingMessages := [1, 2], tasks := [FlushLoop]\<rparr>"

theorem flush_drains_in_order_witness:
  "\<exists>t. (mq_step (\<lambda>n. n + 10))\<^sup>*\<^sup>* waiting_mq t \<and> pendingMessages t = [] \<and> wire t = [11, 12] \<and> delivered t = [1, 2] \<and> rejected t = []"
  using flush_drains_in_order [of waiting_mq "[]" "[]" "\<lambda>n. n + 10"]
  by (simp add: waiting_mq_def init_mq_def can_publish_def)

subsection \<open>The client can always recover\<close>

text \<open>An activation that sets up a channel has at least one call ahead of it.\<close>

fun setup_ahead :: "'m task \<Rightarrow> bool" where
  "setup_ahead (AwaitSetup c k) = (k < setup_calls)"
| "setup_ahead t = True"

definition setup_inv :: "('m, 'w) mq \<Rightarrow> bool" where
  "setup_inv s = list_all setup_ahead (tasks s)"

lemma setup_inv_ops:
  "setup_inv s \<Longrightarrow> setup_inv (Publish enc r m s)"
  "setup_inv s \<Longrightarrow> setup_inv (connect_failed s)"
  by (auto simp: setup_inv_def mq_op_defs split: option.split publish_result.split bool.split)

lemma setup_inv_step: "mq_step enc s t \<Longrightarrow> setup_inv s \<Longrightarrow> setup_inv t"
proof (induction rule: mq_step.induct)
  case (ready_throws s xs c k ys ps)
  then have "setup_inv (on_ready (set_task xs None ys s))" by (simp add: setup_inv_def on_ready_def set_task_def Let_def)
  then show ?case by (rule callback_throws_keeps [where P = setup_inv, rotated 2]) (simp_all add: setup_inv_ops)
next
  case (flush s xs ys r s' t)
  then show ?case using flush_iteration_frame [OF flush.hyps(2)]
    by (auto simp: setup_inv_def set_task_def flush_iteration_def split: list.splits option.splits bool.splits publish_result.splits)
next
  case (flush_err s xs m ys s' t)
  then show ?case using flush_error_frame [OF flush_err.hyps(2)]
    by (auto simp: setup_inv_def set_task_def flush_error_def split: if_splits)
qed (auto simp: setup_inv_def mq_op_defs setup_calls_def split: option.split publish_result.split bool.split)

lemma setup_inv_init: "setup_inv (Init init_mq)"
  by (simp add: setup_inv_def Init_def init_mq_def connect_def)

text \<open>\<open>same_msgs s t\<close>: the two states agree on the messages.\<close>

definition same_msgs :: "('m, 'w) mq \<Rightarrow> ('m, 'w) mq \<Rightarrow> bool" where
  "same_msgs s t =
     (pendingMessages t = pendingMessages s \<and> wire t = wire s \<and> delivered t = delivered s \<and> rejected t = rejected s)"

definition becomes_ready :: "('m \<Rightarrow> 'w) \<Rightarrow> ('m, 'w) mq \<Rightarrow> bool" where
  "becomes_ready enc s = (\<exists>t xs ys. (mq_step enc)\<^sup>*\<^sup>* s t \<and> can_publish t \<and> tasks t = xs @ FlushLoop # ys \<and> same_msgs s t)"

lemma becomes_ready_step: "mq_step enc s t \<Longrightarrow> becomes_ready enc t \<Longrightarrow> same_msgs s t \<Longrightarrow> becomes_ready enc s"
  unfolding becomes_ready_def same_msgs_def by (metis converse_rtranclp_into_rtranclp)

lemma ready_from_setup:
  "tasks s = xs @ AwaitSetup c k # ys \<Longrightarrow> k < setup_calls \<Longrightarrow> amqpChannel s \<noteq> None \<Longrightarrow> becomes_ready enc s"
proof (induction "setup_calls - k" arbitrary: s k)
  case (Suc n)
  show ?case
  proof (cases "Suc k = setup_calls")
    case True
    let ?t = "on_ready (set_task xs (Some FlushLoop) ys s)"
    have "mq_step enc s ?t" using Suc.prems(1) True by (rule mq_step.ready)
    moreover have "can_publish ?t" "tasks ?t = xs @ FlushLoop # ys" "same_msgs s ?t"
      using Suc.prems(3) by (simp_all add: on_ready_def set_task_def can_publish_def same_msgs_def Let_def)
    ultimately show ?thesis unfolding becomes_ready_def by blast
  next
    case False
    let ?t = "set_task xs (Some (AwaitSetup c (Suc k))) ys s"
    have k: "Suc k < setup_calls" using False Suc.prems(2) by simp
    have "mq_step enc s ?t" using Suc.prems(1) k by (rule mq_step.setup_step)
    moreover have "becomes_ready enc ?t"
      using Suc.hyps(1) [of "Suc k" ?t] Suc.hyps(2) Suc.prems(3) k by (simp add: set_task_def)
    ultimately show ?thesis by (rule becomes_ready_step) (simp add: same_msgs_def set_task_def)
  qed
qed simp

lemma ready_from_channel:
  assumes "tasks s = xs @ AwaitChannel c # ys"
  shows "becomes_ready enc s"
proof -
  let ?t = "on_channel c (set_task xs (Some (AwaitSetup c 0)) ys s)"
  have "becomes_ready enc ?t"
    by (rule ready_from_setup [of _ xs c 0 ys]) (simp_all add: on_channel_def set_task_def setup_calls_def)
  then show ?thesis
    by (rule becomes_ready_step [OF mq_step.channel [OF assms]]) (simp add: same_msgs_def on_channel_def set_task_def)
qed

lemma ready_from_connect:
  assumes "tasks s = xs @ AwaitConnect # ys"
  shows "becomes_ready enc s"
proof -
  let ?t = "on_connected (nextConn s) (set_task xs (Some (AwaitChannel (nextConn s))) ys s)"
  have "becomes_ready enc ?t"
    by (rule ready_from_channel [of _ xs "nextConn s" ys]) (simp add: on_connected_def set_task_def)
  then show ?thesis
    by (rule becomes_ready_step [OF mq_step.connected [OF assms]]) (simp add: same_msgs_def on_connected_def set_task_def)
qed

lemma ready_from_early: "list_ex is_early (tasks s) \<Longrightarrow> becomes_ready enc s"
  by (auto simp: list_ex_iff dest!: split_list elim!: is_early.elims intro: ready_from_connect ready_from_channel)

lemma ready_from_timer:
  assumes "conn_inv s" and "reconnectTimer s" and "amqpChannel s = None"
  shows "becomes_ready enc s"
proof (rule becomes_ready_step [OF mq_step.timer [OF assms(2)]])
  show "same_msgs s (timer_fired s)" by (simp add: same_msgs_def timer_fired_def connect_def)
  show "becomes_ready enc (timer_fired s)"
    by (rule ready_from_early) (use assms in \<open>auto simp: conn_inv_def timer_fired_def connect_def\<close>)
qed

lemma becomes_ready:
  assumes "mq_reachable enc s" and "\<not> can_publish s"
  shows "becomes_ready enc s"
proof (cases "amqpChannel s")
  case None
  have "conn_inv s" by (rule mq.invariant [where P = conn_inv, OF conn_inv_step conn_inv_init assms(1)])
  then show ?thesis using None ready_from_timer ready_from_early by (auto simp: conn_inv_def)
next
  case (Some c)
  have inv: "conn_inv s" by (rule mq.invariant [where P = conn_inv, OF conn_inv_step conn_inv_init assms(1)])
  have ahead: "setup_inv s" by (rule mq.invariant [where P = setup_inv, OF setup_inv_step setup_inv_init assms(1)])
  from inv Some assms(2) have "list_ex is_setup (tasks s)" by (simp add: conn_inv_def can_publish_def)
  then obtain xs d k ys where t: "tasks s = xs @ AwaitSetup d k # ys"
    by (auto simp: list_ex_iff dest!: split_list elim!: is_setup.elims)
  with ahead have "k < setup_calls" by (simp add: setup_inv_def)
  with t Some show ?thesis by (intro ready_from_setup) auto
qed

text \<open>
  Claim C9. The client recovers whenever RabbitMQ lets it: from every reachable state without a usable channel the
  code can reach, by connecting and flushing, a state with a ready channel and an empty queue in which the messages
  that waited have been put on the wire once each and in their order, and their promises are fulfilled.
\<close>

theorem recovery_delivers_pending:
  assumes "mq_reachable enc s" and "\<not> can_publish s"
  shows "\<exists>t. (mq_step enc)\<^sup>*\<^sup>* s t \<and> can_publish t \<and> pendingMessages t = [] \<and>
     wire t = wire s @ map enc (pendingMessages s) \<and> delivered t = delivered s @ pendingMessages s \<and> rejected t = rejected s"
proof -
  obtain r xs ys where r: "(mq_step enc)\<^sup>*\<^sup>* s r" "can_publish r" "tasks r = xs @ FlushLoop # ys" "same_msgs s r"
    using becomes_ready [OF assms] by (auto simp: becomes_ready_def)
  from flush_drains [OF r(3,2)] obtain t where "(mq_step enc)\<^sup>*\<^sup>* r t" "can_publish t" "pendingMessages t = []"
      "wire t = wire r @ map enc (pendingMessages r)" "delivered t = delivered r @ pendingMessages r" "rejected t = rejected r"
    by blast
  with r show ?thesis by (intro exI [of _ t]) (auto simp: same_msgs_def)
qed

theorem recovery_delivers_pending_witness:
  "\<exists>t. (mq_step (\<lambda>n. n + 10))\<^sup>*\<^sup>* (Publish (\<lambda>n. n + 10) Accepted 7 (Init (init_mq :: (nat, nat) mq))) t \<and>
     can_publish t \<and> pendingMessages t = [] \<and> wire t = [17] \<and> delivered t = [7]"
proof -
  let ?s = "Publish (\<lambda>n. n + 10) Accepted 7 (Init (init_mq :: (nat, nat) mq))"
  have "mq_reachable (\<lambda>n. n + 10) ?s" by (rule mq_reachable.step [OF mq_reachable.start mq_step.publish])
  moreover have "\<not> can_publish ?s" "pendingMessages ?s = [7]" "wire ?s = []" "delivered ?s = []"
    by (simp_all add: Publish_def Init_def init_mq_def connect_def can_publish_def)
  ultimately show ?thesis using recovery_delivers_pending [of "\<lambda>n. n + 10" ?s] by auto
qed

end
