(* ===== verification/Designer_Store.thy ===== *)
theory Designer_Store
  imports NGSI_Client Rabbit "HOL-Library.AList"
begin

text \<open>
  The state of the designer, \<open>designer/main.js\<close>: its database, the tasks reported by the workers, the
  websocket subscriptions and the connection to RabbitMQ, with the functions of the module that are no
  request handlers.

  Several paths of the code lead to the same mutable object: \<open>db.data.services[n].topology\<close> and
  \<open>db.data.topologies[n]\<close>, \<open>fogfunction.intent\<close> and the payload of a message that still waits in the
  queue of \<open>rabbitmq.cjs\<close>, \<open>db.data.operators[n]\<close> and an element of \<open>topology.operators\<close>.  The operators,
  topologies, fog functions and intents are therefore cells of an explicit store, and the places that
  hold them hold a \<open>JRef\<close>.  Every other object is reachable along one path only and is a plain value.
\<close>

section \<open>The store\<close>

type_synonym store = "props list"

definition cell :: "store \<Rightarrow> nat \<Rightarrow> props" where
  "cell h a = (if a < length h then h ! a else [])"

text \<open>\<open>v.k\<close>, \<open>v.k = w\<close> in strict mode, and \<open>v.hasOwnProperty(k)\<close>; \<open>None\<close> is a thrown \<open>TypeError\<close>.\<close>

fun sget :: "store \<Rightarrow> jval \<Rightarrow> string \<Rightarrow> jval option" where
  "sget h (JRef a) k = Some (obj_get (cell h a) k)"
| "sget h v k = jget v k"

fun sput :: "jval \<Rightarrow> string \<Rightarrow> jval \<Rightarrow> store \<Rightarrow> store option" where
  "sput (JRef a) k w h = Some (h[a := obj_put k w (cell h a)])"
| "sput (JObj ps) k w h = Some h"
| "sput (JArr xs) k w h = Some h"
| "sput (JFun f) k w h = Some h"
| "sput v k w h = None"

definition dict_hasOwn :: "props \<Rightarrow> string \<Rightarrow> bool option" where
  "dict_hasOwn ps k = (if has_own ps ''hasOwnProperty'' then None else Some (has_own ps k))"

fun shasOwn :: "store \<Rightarrow> jval \<Rightarrow> string \<Rightarrow> bool option" where
  "shasOwn h JUndef k = None"
| "shasOwn h JNull k = None"
| "shasOwn h (JRef a) k = dict_hasOwn (cell h a) k"
| "shasOwn h (JObj ps) k = dict_hasOwn ps k"
| "shasOwn h (JArr xs) k = Some (k = ''length'' \<or> k \<in> nat_str ` set [0..<length xs])"
| "shasOwn h (JStr s) k = Some (k = ''length'' \<or> k \<in> nat_str ` set [0..<length s])"
| "shasOwn h v k = Some False"

text \<open>An object that enters the program, and the objects in some of its fields, become cells.\<close>

fun alloc :: "jval \<Rightarrow> store \<Rightarrow> jval \<times> store" where
  "alloc (JObj ps) h = (JRef (length h), h @ [ps])"
| "alloc v h = (v, h)"

fun alloc_fields :: "string list \<Rightarrow> jval \<Rightarrow> store \<Rightarrow> jval \<times> store" where
  "alloc_fields (k # ks) (JObj ps) h =
     (case map_of ps k of
        Some v \<Rightarrow> (case alloc v h of (v', h') \<Rightarrow> alloc_fields ks (JObj (upd_own k v' ps)) h')
      | None \<Rightarrow> alloc_fields ks (JObj ps) h)"
| "alloc_fields ks v h = (v, h)"

text \<open>
  What \<open>JSON.stringify\<close> writes: undefined values and functions are left out of objects and become
  \<open>null\<close> in arrays.  The first argument bounds the number of references followed on a path; the objects
  of the store form no cycle, so the size of the store is enough.
\<close>

fun is_omitted :: "jval \<Rightarrow> bool" where
  "is_omitted JUndef = True"
| "is_omitted (JFun f) = True"
| "is_omitted v = False"

fun json_at :: "nat \<Rightarrow> store \<Rightarrow> jval \<Rightarrow> jval" where
  "json_at n h (JArr xs) = JArr (map (\<lambda>x. if is_omitted x then JNull else json_at n h x) xs)"
| "json_at n h (JObj ps) =
     JObj (map (\<lambda>p. (fst p, json_at n h (snd p))) (filter (\<lambda>p. \<not> is_omitted (snd p)) ps))"
| "json_at 0 h (JRef a) = JNull"
| "json_at (Suc n) h (JRef a) =
     JObj (map (\<lambda>p. (fst p, json_at n h (snd p))) (filter (\<lambda>p. \<not> is_omitted (snd p)) (cell h a)))"
| "json_at n h (JFun f) = JUndef"
| "json_at n h v = v"

definition json :: "store \<Rightarrow> jval \<Rightarrow> jval" where
  "json h v = json_at (Suc (Suc (length h))) h v"

section \<open>The state\<close>

record designer =
  heap :: store
  devices :: props
  subscriptions :: props
  operators :: props
  topologies :: props
  services :: props
  serviceintents :: props
  fogfunctions :: props
  disk :: jval
  taskMap :: props
  subscriptions_websocket :: "(string \<times> nat) list"
  emitted :: "(nat \<times> jval) list"
  send_loaded_intents :: bool
  rabbit :: "(jval, jval) mq"
  amqp_answers :: "nat \<Rightarrow> publish_result"
  rng :: "nat \<Rightarrow> nat"

definition db_data :: "designer \<Rightarrow> jval" where
  "db_data s =
     JObj [(''devices'', JObj (devices s)), (''subscriptions'', JObj (subscriptions s)),
       (''operators'', JObj (operators s)), (''topologies'', JObj (topologies s)),
       (''services'', JObj (services s)), (''serviceintents'', JObj (serviceintents s)),
       (''fogfunctions'', JObj (fogfunctions s))]"

text \<open>\<open>db.write()\<close> serialises the data when it is called; the promise it returns is awaited or ignored.\<close>

definition db_write :: "designer \<Rightarrow> designer" where
  "db_write s = s\<lparr>disk := json (heap s) (db_data s)\<rparr>"

text \<open>The sections of the database as they are read from the file when the designer starts.\<close>

fun load_section :: "(jval \<Rightarrow> store \<Rightarrow> jval \<times> store) \<Rightarrow> props \<Rightarrow> store \<Rightarrow> props \<times> store" where
  "load_section f [] h = ([], h)"
| "load_section f ((k, v) # ps) h =
     (case f v h of (v', h') \<Rightarrow> case load_section f ps h' of (ps', h'') \<Rightarrow> ((k, v') # ps', h''))"

definition alloc_service :: "jval \<Rightarrow> store \<Rightarrow> jval \<times> store" where
  "alloc_service v h = alloc_fields [''topology''] v h"

definition alloc_fogfunction :: "jval \<Rightarrow> store \<Rightarrow> jval \<times> store" where
  "alloc_fogfunction v h = (case alloc_fields [''topology'', ''intent''] v h of (v', h') \<Rightarrow> alloc v' h')"

definition section_of :: "jval \<Rightarrow> string \<Rightarrow> props" where
  "section_of d k = (case jget d k of Some (JObj ps) \<Rightarrow> ps | _ \<Rightarrow> [])"

text \<open>The data of a designer that has no file yet, and whether a file has all the sections.\<close>

definition db_sections :: "string list" where
  "db_sections = [''devices'', ''subscriptions'', ''operators'', ''topologies'', ''services'', ''serviceintents'', ''fogfunctions'']"

definition db_default :: jval where
  "db_default = JObj (map (\<lambda>k. (k, JObj [])) db_sections)"

definition db_complete :: "jval \<Rightarrow> bool" where
  "db_complete d = list_all (\<lambda>k. case jget d k of Some (JObj ps) \<Rightarrow> True | _ \<Rightarrow> False) db_sections"

text \<open>The state in which the program starts with data that has all the sections.\<close>

definition db_load :: "jval \<Rightarrow> (nat \<Rightarrow> publish_result) \<Rightarrow> (nat \<Rightarrow> nat) \<Rightarrow> designer" where
  "db_load d answers random =
     (let (ops, h1) = load_section alloc (section_of d ''operators'') [];
          (tops, h2) = load_section alloc (section_of d ''topologies'') h1;
          (svcs, h3) = load_section alloc_service (section_of d ''services'') h2;
          (ints, h4) = load_section alloc (section_of d ''serviceintents'') h3;
          (fogs, h5) = load_section alloc_fogfunction (section_of d ''fogfunctions'') h4
      in \<lparr>heap = h5, devices = section_of d ''devices'', subscriptions = section_of d ''subscriptions'',
          operators = ops, topologies = tops, services = svcs, serviceintents = ints, fogfunctions = fogs,
          disk = d, taskMap = [], subscriptions_websocket = [], emitted = [], send_loaded_intents = False,
          rabbit = init_mq, amqp_answers = answers, rng = random\<rparr>)"

text \<open>
  \<open>await db.read()\<close> followed by \<open>db.data ||= {...}\<close>: \<open>JNull\<close> stands for a missing file, and only data that counts as false is
  replaced by the empty sections. A file that lacks a section, which the program never writes, is not completed: the handlers
  that use the section would throw. That start is not modelled further and is \<open>None\<close>.
\<close>

definition db_read :: "jval \<Rightarrow> (nat \<Rightarrow> publish_result) \<Rightarrow> (nat \<Rightarrow> nat) \<Rightarrow> designer option" where
  "db_read d answers random =
     (if \<not> truthy d then Some ((db_load db_default answers random)\<lparr>disk := d\<rparr>)
      else if db_complete d then Some (db_load d answers random)
      else None)"

section \<open>Publishing to the master\<close>

definition metadata_msg :: "string \<Rightarrow> jval \<Rightarrow> jval" where
  "metadata_msg dType dObject =
     JObj [(''Type'', JStr dType), (''RoutingKey'', JStr ''orchestration.''), (''From'', JStr ''designer''),
       (''PayLoad'', dObject)]"

text \<open>The channel's answer to this publication is the next of \<open>amqp_answers\<close>.\<close>

definition publishMetadata :: "string \<Rightarrow> jval \<Rightarrow> designer \<Rightarrow> designer" where
  "publishMetadata dType dObject s =
     s\<lparr>rabbit := Publish (json (heap s)) (amqp_answers s 0) (metadata_msg dType dObject) (rabbit s),
       amqp_answers := (\<lambda>n. amqp_answers s (Suc n))\<rparr>"

text \<open>\<open>intent.action = a; publishMetadata("ServiceIntent", intent)\<close>, which every user of intents does.\<close>

definition publish_intent :: "jval \<Rightarrow> string \<Rightarrow> designer \<Rightarrow> designer step" where
  "publish_intent intent a s =
     (case sput intent ''action'' (JStr a) (heap s) of
        None \<Rightarrow> (s, False)
      | Some h \<Rightarrow> (publishMetadata ''ServiceIntent'' intent (s\<lparr>heap := h\<rparr>), True))"

text \<open>\<open>forEach\<close> over the keys of an object that the loop body does not change.\<close>

fun for_each :: "('c \<Rightarrow> 's \<Rightarrow> 's step) \<Rightarrow> 'c list \<Rightarrow> 's \<Rightarrow> 's step" where
  "for_each f [] s = (s, True)"
| "for_each f (c # cs) s = (case f c s of (s', ok) \<Rightarrow> if ok then for_each f cs s' else (s', False))"

interpretation loop: stepwise f "for_each f" for f
  by unfold_locales simp_all

definition issue_fogfunction :: "jval \<Rightarrow> designer \<Rightarrow> designer step" where
  "issue_fogfunction fogfunction s =
     (case sget (heap s) fogfunction ''status'' of
        None \<Rightarrow> (s, False)
      | Some st \<Rightarrow>
          (if js_eq st (JStr ''enabled'') then
             (case sget (heap s) fogfunction ''intent'' of
                None \<Rightarrow> (s, False)
              | Some intent \<Rightarrow> publish_intent intent ''ADD'' s)
           else (s, True)))"

definition issueLoadedIntents :: "designer \<Rightarrow> designer step" where
  "issueLoadedIntents s =
     (if send_loaded_intents s then (s, True)
      else (case for_each (\<lambda>(k, intent). publish_intent intent ''ADD'') (serviceintents s) s of
              (s1, False) \<Rightarrow> (s1, False)
            | (s1, True) \<Rightarrow>
                (case for_each (\<lambda>(k, ff). issue_fogfunction ff) (fogfunctions s1) s1 of
                   (s2, False) \<Rightarrow> (s2, False)
                 | (s2, True) \<Rightarrow> (s2\<lparr>send_loaded_intents := True\<rparr>, True))))"

section \<open>Task updates from the workers\<close>

text \<open>\<open>k in v\<close>, which throws on a primitive value.\<close>

fun jin :: "string \<Rightarrow> jval \<Rightarrow> bool option" where
  "jin k (JObj ps) = Some (obj_in ps k)"
| "jin k (JArr xs) = Some (k = ''length'' \<or> k \<in> nat_str ` set [0..<length xs] \<or> k \<in> set array_proto)"
| "jin k (JFun f) = Some (k \<in> set object_proto)"
| "jin k v = None"

text \<open>\<open>taskMap[taskID][f] = w\<close> for a key that is in the map.\<close>

definition set_task_field :: "string \<Rightarrow> string \<Rightarrow> jval \<Rightarrow> props \<Rightarrow> props option" where
  "set_task_field taskID f w m =
     (case obj_get m taskID of
        JObj ps \<Rightarrow> Some (obj_put taskID (JObj (obj_put f w ps)) m)
      | JArr xs \<Rightarrow> Some m
      | JFun g \<Rightarrow> Some m
      | _ \<Rightarrow> None)"

definition copy_field :: "string \<Rightarrow> jval \<Rightarrow> string \<Rightarrow> designer \<Rightarrow> designer step" where
  "copy_field taskID updateMsg f s =
     (case jin f updateMsg of
        None \<Rightarrow> (s, False)
      | Some False \<Rightarrow> (s, True)
      | Some True \<Rightarrow>
          (case do { w \<leftarrow> jget updateMsg f; set_task_field taskID f w (taskMap s) } of
             None \<Rightarrow> (s, False)
           | Some m \<Rightarrow> (s\<lparr>taskMap := m\<rparr>, True)))"

definition updateTaskList :: "jval \<Rightarrow> jval \<Rightarrow> designer \<Rightarrow> designer step" where
  "updateTaskList updateMsg fromWorker s =
     (case jget updateMsg ''TaskID'' of
        None \<Rightarrow> (s, False)
      | Some tid \<Rightarrow>
          (let taskID = js_str tid in
           if obj_in (taskMap s) taskID then
             (case copy_field taskID updateMsg ''Status'' s of
                (s', False) \<Rightarrow> (s', False)
              | (s', True) \<Rightarrow> copy_field taskID updateMsg ''Info'' s')
           else
             (let s1 = s\<lparr>taskMap := obj_put taskID updateMsg (taskMap s)\<rparr> in
              case set_task_field taskID ''Worker'' fromWorker (taskMap s1) of
                None \<Rightarrow> (s1, False)
              | Some m \<Rightarrow> (s1\<lparr>taskMap := m\<rparr>, True))))"

definition removeTask :: "string \<Rightarrow> designer \<Rightarrow> designer" where
  "removeTask taskID s =
     (if obj_in (taskMap s) taskID then s\<lparr>taskMap := obj_del taskID (taskMap s)\<rparr> else s)"

definition onTaskUpdate :: "jval \<Rightarrow> designer \<Rightarrow> designer step" where
  "onTaskUpdate msg s =
     (case do { payload \<leftarrow> jget msg ''PayLoad''; workerID \<leftarrow> jget msg ''From'';
                st \<leftarrow> jget payload ''Status''; tid \<leftarrow> jget payload ''TaskID'';
                Some (payload, workerID, st, tid) } of
        None \<Rightarrow> (s, False)
      | Some (payload, workerID, st, tid) \<Rightarrow>
          (if js_eq st (JStr ''removed'') then (removeTask (js_str tid) s, True)
           else updateTaskList payload workerID s))"

text \<open>The \<open>switch\<close> on the type compares strictly.\<close>

definition handleInternalMessage :: "jval \<Rightarrow> designer \<Rightarrow> designer step" where
  "handleInternalMessage jsonMsg s =
     (case jget jsonMsg ''Type'' of
        None \<Rightarrow> (s, False)
      | Some msgType \<Rightarrow> if msgType = JStr ''TASK_UPDATE'' then onTaskUpdate jsonMsg s else (s, True))"

section \<open>Websocket clients\<close>

definition subscribe_client :: "nat \<Rightarrow> jval \<Rightarrow> designer \<Rightarrow> designer step" where
  "subscribe_client client subList s =
     (case jelems_if subList of
        None \<Rightarrow> (s, False)
      | Some sids \<Rightarrow>
          (s\<lparr>subscriptions_websocket :=
               fold (\<lambda>sid ws. AList.update sid client ws) (filter (\<lambda>k. k \<noteq> ''__proto__'') (map js_str sids))
                 (subscriptions_websocket s)\<rparr>, True))"

definition disconnect_client :: "nat \<Rightarrow> designer \<Rightarrow> designer" where
  "disconnect_client client s =
     s\<lparr>subscriptions_websocket := filter (\<lambda>(sid, c). c \<noteq> client) (subscriptions_websocket s)\<rparr>"

text \<open>
  \<open>handleNotify\<close>, called by the NGSI agent with the request body and the context objects.  A subscription
  id that is only a property of \<open>Object.prototype\<close> passes the test with \<open>in\<close> and has no \<open>emit\<close>.
\<close>

definition handleNotify :: "jval \<Rightarrow> jval list \<Rightarrow> designer \<Rightarrow> designer step" where
  "handleNotify body ctxObjects s =
     (case jget body ''subscriptionId'' of
        None \<Rightarrow> (s, False)
      | Some sid \<Rightarrow>
          (case map_of (subscriptions_websocket s) (js_str sid) of
             None \<Rightarrow> (s, js_str sid \<notin> set object_proto \<or> ctxObjects = [])
           | Some client \<Rightarrow>
               (s\<lparr>emitted := emitted s @
                    map (\<lambda>ob. (client, JObj [(''subscriptionID'', sid), (''entities'', ob)])) ctxObjects\<rparr>, True)))"

section \<open>Identifiers and configuration\<close>

definition hex_digit :: "nat \<Rightarrow> char" where
  "hex_digit d = (if d < 10 then char_of (48 + d) else char_of (87 + d))"

text \<open>One iteration of the loop of \<open>uuid\<close>; \<open>random\<close> is the integer below 16 drawn in it.\<close>

definition uuid_step :: "nat \<Rightarrow> nat \<Rightarrow> string \<Rightarrow> string" where
  "uuid_step i random u =
     (u @ (if i = 8 \<or> i = 12 \<or> i = 16 \<or> i = 20 then ''-'' else [])
        @ [hex_digit (if i = 12 then 4 else if i = 16 then 8 + random mod 4 else random)])"

definition uuid :: "(nat \<Rightarrow> nat) \<Rightarrow> string" where
  "uuid random = fold (\<lambda>i u. uuid_step i (random i mod 16) u) [0..<32] []"

definition skip_random :: "designer \<Rightarrow> designer" where
  "skip_random s = s\<lparr>rng := (\<lambda>n. rng s (n + 32))\<rparr>"

text \<open>
  The configuration that \<open>main.js\<close> derives from \<open>config.json\<close>: a section without \<open>host_ip\<close> gets that of
  the machine; \<open>None\<close> means that a section is missing and the start fails.
\<close>

definition with_host_ip :: "jval \<Rightarrow> string \<Rightarrow> jval option" where
  "with_host_ip global name =
     do { sec \<leftarrow> jget global name;
          present \<leftarrow> jin ''host_ip'' sec;
          ip \<leftarrow> (if present then jget sec ''host_ip'' else jget global ''my_hostip'');
          Some (case sec of JObj ps \<Rightarrow> JObj (obj_put ''host_ip'' ip ps) | _ \<Rightarrow> sec) }"

definition service_url :: "jval \<Rightarrow> string \<Rightarrow> string \<Rightarrow> string option" where
  "service_url global name port =
     do { sec \<leftarrow> with_host_ip global name;
          ip \<leftarrow> jget sec ''host_ip'';
          p \<leftarrow> jget sec port;
          Some (''http://'' @ js_str ip @ '':'' @ js_str p) }"

definition js_or :: "jval \<Rightarrow> jval \<Rightarrow> jval" where
  "js_or v w = (if truthy v then v else w)"

definition rabbitmq_url :: "jval \<Rightarrow> string option" where
  "rabbitmq_url global =
     do { sec \<leftarrow> with_host_ip global ''rabbitmq'';
          ip \<leftarrow> jget sec ''host_ip'';
          port \<leftarrow> jget sec ''port'';
          usr \<leftarrow> jget sec ''username'';
          pwd \<leftarrow> jget sec ''password'';
          Some (''amqp://'' @ js_str (js_or usr (JStr ''admin'')) @ '':'' @ js_str (js_or pwd (JStr ''mypass'')) @ ''@''
                @ js_str ip @ '':'' @ js_str (js_or port (JNum 5672))) }"

definition designer_config :: "jval \<Rightarrow> props option" where
  "designer_config global =
     do { designer \<leftarrow> jget global ''designer'';
          myip \<leftarrow> jget global ''my_hostip'';
          (case designer of
             JObj ps \<Rightarrow>
               (let c1 = obj_put ''notRecreateSubscriptions'' (obj_get ps ''notRecreateSubscriptions'') ps;
                    c2 = obj_put ''agentIP'' (js_or (obj_get c1 ''host_ip'') myip) c1;
                    c3 = obj_put ''agentPort'' (obj_get c2 ''agentPort'') c2;
                    c4 = obj_put ''ldAgentPort'' (obj_get c3 ''ldAgentPort'') c3;
                    c5 = obj_put ''discoveryURL'' (JStr ''./ngsi9'') c4;
                    c6 = obj_put ''brokerURL'' (JStr ''./ngsi10'') c5;
                    c7 = obj_put ''LdbrokerURL'' (JStr ''./ngsi-ld'') c6
                in Some (obj_put ''webSrvPort'' (obj_get c7 ''webSrvPort'') c7))
           | _ \<Rightarrow> None) }"

section \<open>Restoring the broker after a restart\<close>

text \<open>The headers and the body of the request that (re-)creates a stored subscription.\<close>

definition subscription_headers :: "jval \<Rightarrow> jval option" where
  "subscription_headers subscription =
     do { b \<leftarrow> jget subscription ''destination_broker'';
          tenant \<leftarrow> jget subscription ''tenant'';
          Some (JObj (if js_eq b (JStr ''NGSI-LD'') then
                        [(''Content-Type'', JStr ''application/json''), (''Destination'', JStr ''NGSI-LD''),
                         (''NGSILD-Tenant'', tenant)]
                      else if js_eq b (JStr ''NGSIv2'') then
                        [(''Content-Type'', JStr ''application/json''), (''Destination'', JStr ''NGSIv2'')]
                      else [])) }"

definition subscription_request :: "jval \<Rightarrow> jval option" where
  "subscription_request subscription =
     do { t \<leftarrow> jget subscription ''entity_type'';
          u \<leftarrow> jget subscription ''reference_url'';
          Some (JObj [(''entities'', JArr [JObj [(''type'', t), (''isPattern'', JBool True)]]), (''reference'', u)]) }"

text \<open>
  \<open>entityrestore\<close> once the broker answers: the devices are published again one after the other (a malformed
  one throws, and the timer is set again), and each stored subscription that the broker does not list is
  issued again.
\<close>

fun restore_devices :: "axios \<Rightarrow> string \<Rightarrow> jval list \<Rightarrow> bool" where
  "restore_devices axios u [] = True"
| "restore_devices axios u (d # ds) = (updateContext axios u d \<noteq> None \<and> restore_devices axios u ds)"

definition missing_subscriptions :: "jval \<Rightarrow> designer \<Rightarrow> (string \<times> jval) list option" where
  "missing_subscriptions brokerSubscriptions s =
     (if subscriptions s = [] then Some []
      else case shasOwn (heap s) brokerSubscriptions [] of
             None \<Rightarrow> None
           | Some _ \<Rightarrow>
               Some (filter (\<lambda>(key, sub). shasOwn (heap s) brokerSubscriptions key = Some False) (subscriptions s)))"

text \<open>The callback of a subscription that was issued again: it is stored under the id the broker gave it.\<close>

definition restore_subscription :: "axios \<Rightarrow> string \<Rightarrow> string \<Rightarrow> jval \<Rightarrow> designer \<Rightarrow> designer" where
  "restore_subscription axios u key subscription s =
     (case (subscription_request subscription, subscription_headers subscription) of
        (Some rq, Some hdr) \<Rightarrow>
          (case subscribeContextWithHeaders axios u rq hdr of
             Inl e \<Rightarrow> s
           | Inr sid \<Rightarrow>
               db_write (s\<lparr>subscriptions := obj_put (js_str sid) subscription (obj_del key (subscriptions s))\<rparr>))
      | _ \<Rightarrow> s)"

end
