(* ===== verification/Designer_API.thy ===== *)
theory Designer_API
  imports Designer_Store
begin

text \<open>
  The request handlers of the designer, \<open>designer/main.js\<close>.  A handler runs to its first \<open>await\<close> and yields
  the new state and its outcome; \<open>resume\<close> is the rest of a handler that is suspended in the continuation
  \<open>kont\<close>.  \<open>Rejected\<close> is an exception that leaves an asynchronous handler, to which the framework sends no
  response.  \<open>Hanging\<close> is a handler that ends without sending one.
\<close>

datatype kont =
    Reply nat                        \<comment> \<open>\<open>res.sendStatus(n)\<close> after \<open>await db.write()\<close>\<close>
  | ReplyJson jval                   \<comment> \<open>\<open>res.json(v)\<close> after \<open>await db.write()\<close>\<close>
  | AddIntent jval                   \<comment> \<open>the rest of \<open>POST /intent\<close>\<close>
  | OnSubscribed jval jval jval      \<comment> \<open>\<open>POST /subscription\<close>: subscription, request and headers\<close>
  | OnUnsubscribed string
  | OnDeviceCreated string jval
  | OnDeviceDeleted string

datatype outcome =
    Json jval
  | Status nat
  | Awaiting kont
  | Rejected
  | Hanging

type_synonym handler = "designer \<Rightarrow> designer \<times> outcome"

text \<open>The end of a handler after a loop over the posted objects: write the database, then answer 200.\<close>

definition write_then :: "kont \<Rightarrow> designer step \<Rightarrow> designer \<times> outcome" where
  "write_then k r = (if snd r then (db_write (fst r), Awaiting k) else (fst r, Rejected))"

definition over_body :: "(jval \<Rightarrow> designer \<Rightarrow> designer step) \<Rightarrow> jval \<Rightarrow> handler" where
  "over_body f body s =
     (case jelems body of
        None \<Rightarrow> (s, Rejected)
      | Some vs \<Rightarrow> write_then (Reply 200) (for_each f vs s))"

text \<open>\<open>isEmpty\<close>: the loop calls the \<open>hasOwnProperty\<close> of the object itself.\<close>

fun isEmpty :: "jval \<Rightarrow> bool option" where
  "isEmpty (JObj []) = Some True"
| "isEmpty (JObj (p # ps)) = (if has_own (p # ps) ''hasOwnProperty'' then None else Some False)"
| "isEmpty (JArr xs) = Some (xs = [])"
| "isEmpty (JStr s) = Some (s = [])"
| "isEmpty v = Some True"

text \<open>\<open>v[k].push(w)\<close>\<close>

definition spush :: "jval \<Rightarrow> string \<Rightarrow> jval \<Rightarrow> store \<Rightarrow> store option" where
  "spush v k w h = (case sget h v k of Some (JArr xs) \<Rightarrow> sput v k (JArr (xs @ [w])) h | _ \<Rightarrow> None)"

section \<open>Information about the system\<close>

text \<open>\<open>fetch_json u\<close> is the JSON body of a successful \<open>fetch\<close>; \<open>None\<close> when it failed or was no JSON.\<close>

definition info_master :: "(string \<Rightarrow> jval option) \<Rightarrow> string \<Rightarrow> outcome" where
  "info_master fetch_json masterURL =
     Json (case fetch_json (masterURL @ ''/status'') of Some m \<Rightarrow> JArr [m] | None \<Rightarrow> JArr [])"

definition object_values :: "jval \<Rightarrow> jval option" where
  "object_values v = (if is_nullish v then None else Some (JArr (map snd (jprops v))))"

definition info_list :: "(string \<Rightarrow> jval option) \<Rightarrow> string \<Rightarrow> outcome" where
  "info_list fetch_json u =
     Json (case Option.bind (fetch_json u) object_values of Some l \<Rightarrow> l | None \<Rightarrow> JArr [])"

definition info_broker :: "(string \<Rightarrow> jval option) \<Rightarrow> string \<Rightarrow> outcome" where
  "info_broker fetch_json discoveryURL = info_list fetch_json (discoveryURL @ ''/ngsi9/broker'')"

definition info_worker :: "(string \<Rightarrow> jval option) \<Rightarrow> string \<Rightarrow> outcome" where
  "info_worker fetch_json masterURL = info_list fetch_json (masterURL @ ''/workers'')"

definition info_type :: "(string \<Rightarrow> jval option) \<Rightarrow> string \<Rightarrow> outcome" where
  "info_type fetch_json discoveryURL =
     Json (case fetch_json (discoveryURL @ ''/etype'') of Some l \<Rightarrow> l | None \<Rightarrow> JArr [])"

text \<open>The body of the loops over the task map: \<open>task['ID'] = taskID; taskList.push(task)\<close>.\<close>

definition list_task :: "(jval \<Rightarrow> bool) \<Rightarrow> string \<Rightarrow> props \<times> jval list \<Rightarrow> (props \<times> jval list) step" where
  "list_task wanted taskID ml =
     (case ml of (m, l) \<Rightarrow>
        (case jget (obj_get m taskID) ''ServiceIntentID'' of
           None \<Rightarrow> ((m, l), False)
         | Some i \<Rightarrow>
             (if wanted i then
                (case set_task_field taskID ''ID'' (JStr taskID) m of
                   None \<Rightarrow> ((m, l), False)
                 | Some m' \<Rightarrow> ((m', l @ [obj_get m' taskID]), True))
              else ((m, l), True))))"

definition info_tasks :: "(jval \<Rightarrow> bool) \<Rightarrow> handler" where
  "info_tasks wanted s =
     (case for_each (list_task wanted) (map fst (taskMap s)) (taskMap s, []) of
        ((m, l), ok) \<Rightarrow> (s\<lparr>taskMap := m\<rparr>, if ok then Json (json (heap s) (JArr l)) else Rejected))"

definition info_task :: handler where
  "info_task s = info_tasks (\<lambda>i. True) s"

definition info_task_intent :: "string \<Rightarrow> handler" where
  "info_task_intent intentID s = info_tasks (\<lambda>i. js_eq i (JStr intentID)) s"

section \<open>Operators and their docker images\<close>

definition get_operators :: handler where
  "get_operators s = (s, Json (json (heap s) (JObj (operators s))))"

definition get_operator :: "string \<Rightarrow> handler" where
  "get_operator name s = (s, Json (json (heap s) (obj_get (operators s) name)))"

definition add_operator :: "jval \<Rightarrow> designer \<Rightarrow> designer step" where
  "add_operator operator s =
     (case jget operator ''name'' of
        None \<Rightarrow> (s, False)
      | Some name \<Rightarrow>
          (case alloc operator (heap s) of
             (v, h) \<Rightarrow> (s\<lparr>heap := h, operators := obj_put (js_str name) v (operators s)\<rparr>, True)))"

definition post_operator :: "jval \<Rightarrow> handler" where
  "post_operator body s = over_body add_operator body s"

definition has_images :: "store \<Rightarrow> jval \<Rightarrow> bool option" where
  "has_images h value =
     do { own \<leftarrow> shasOwn h value ''dockerimages'';
          (if own then
             do { imgs \<leftarrow> sget h value ''dockerimages'';
                  len \<leftarrow> jget imgs ''length'';
                  Some (0 < loop_bound len) }
           else Some False) }"

text \<open>\<open>dockers.key = value\<close> names the property \<open>key\<close>.\<close>

fun collect_dockers :: "store \<Rightarrow> props \<Rightarrow> props \<Rightarrow> props option" where
  "collect_dockers h [] dockers = Some dockers"
| "collect_dockers h ((key, value) # ps) dockers =
     do { b \<leftarrow> has_images h value;
          collect_dockers h ps (if b then obj_put ''key'' value dockers else dockers) }"

definition get_dockerimages :: handler where
  "get_dockerimages s =
     (s, case collect_dockers (heap s) (operators s) [] of
           None \<Rightarrow> Rejected
         | Some dockers \<Rightarrow> Json (json (heap s) (JObj dockers)))"

definition add_image :: "string \<Rightarrow> jval \<Rightarrow> designer \<Rightarrow> designer step" where
  "add_image operatorName dockerimage s =
     (if obj_in (operators s) operatorName then
        (let operator = obj_get (operators s) operatorName in
         case shasOwn (heap s) operator ''dockerimages'' of
           None \<Rightarrow> (s, False)
         | Some own \<Rightarrow>
             (case (if own then Some (heap s) else sput operator ''dockerimages'' (JArr []) (heap s)) of
                None \<Rightarrow> (s, False)
              | Some h \<Rightarrow>
                  (case spush operator ''dockerimages'' dockerimage h of
                     None \<Rightarrow> (s\<lparr>heap := h\<rparr>, False)
                   | Some h' \<Rightarrow> (s\<lparr>heap := h'\<rparr>, True))))
      else (s, True))"

definition add_named_image :: "jval \<Rightarrow> designer \<Rightarrow> designer step" where
  "add_named_image dockerimage s =
     (case jget dockerimage ''operatorName'' of
        None \<Rightarrow> (s, False)
      | Some operatorName \<Rightarrow> add_image (js_str operatorName) dockerimage s)"

definition post_dockerimages :: "jval \<Rightarrow> handler" where
  "post_dockerimages body s = over_body add_named_image body s"

definition get_dockerimage :: "string \<Rightarrow> handler" where
  "get_dockerimage operatorName s =
     (s, case sget (heap s) (obj_get (operators s) operatorName) ''dockerimages'' of
           None \<Rightarrow> Rejected
         | Some v \<Rightarrow> Json (json (heap s) v))"

definition post_dockerimage :: "string \<Rightarrow> jval \<Rightarrow> handler" where
  "post_dockerimage operatorName dockerimage s = write_then (Reply 200) (add_image operatorName dockerimage s)"

text \<open>The index of the first image with the given name; the search throws at a \<open>null\<close> element.\<close>

fun find_image :: "jval list \<Rightarrow> jval \<Rightarrow> nat option option" where
  "find_image [] img = Some None"
| "find_image (v # vs) img =
     do { n \<leftarrow> jget v ''name'';
          (if js_eq n img then Some (Some 0)
           else do { i \<leftarrow> find_image vs img; Some (map_option Suc i) }) }"

definition delete_dockerimage :: "string \<Rightarrow> jval \<Rightarrow> handler" where
  "delete_dockerimage operatorName img s =
     (if obj_in (operators s) operatorName then
        (let operator = obj_get (operators s) operatorName in
         case do { v \<leftarrow> sget (heap s) operator ''dockerimages'';
                   vs \<leftarrow> jelems v;
                   i \<leftarrow> find_image vs img;
                   Some (v, i) } of
           None \<Rightarrow> (s, Rejected)
         | Some (v, None) \<Rightarrow> (s, Status 200)
         | Some (JArr xs, Some i) \<Rightarrow>
             (case sput operator ''dockerimages'' (JArr (take i xs @ drop (Suc i) xs)) (heap s) of
                None \<Rightarrow> (s, Rejected)
              | Some h \<Rightarrow> (db_write (s\<lparr>heap := h\<rparr>), Awaiting (Reply 200)))
         | Some (_, Some i) \<Rightarrow> (s, Rejected))
      else (s, Status 200))"

text \<open>\<open>`${v}`\<close> throws for an object whose own \<open>toString\<close> is no function.\<close>

fun can_str :: "jval \<Rightarrow> bool" where
  "can_str (JObj ps) = (\<not> has_own ps ''toString'')"
| "can_str (JArr xs) = list_all (\<lambda>x. can_str x) xs"
| "can_str v = True"

definition patch_task :: "jval \<Rightarrow> handler" where
  "patch_task taskPatch s =
     (case jget taskPatch ''taskId'' of
        None \<Rightarrow> (s, Status 500)
      | Some tid \<Rightarrow>
          (if can_str tid \<and> can_str taskPatch then (publishMetadata ''TASK_PATCH'' taskPatch s, Hanging)
           else (s, Status 500)))"

text \<open>\<open>hasOperator\<close>, the loop over the topologies, and the deletion of an operator.\<close>

fun uses_operator :: "jval list \<Rightarrow> string \<Rightarrow> bool option" where
  "uses_operator [] operatorName = Some False"
| "uses_operator (task # ts) operatorName =
     do { op \<leftarrow> jget task ''operator'';
          (if js_eq op (JStr operatorName) then Some True else uses_operator ts operatorName) }"

definition hasOperator :: "store \<Rightarrow> jval \<Rightarrow> string \<Rightarrow> bool option" where
  "hasOperator h topology operatorName =
     do { tasklist \<leftarrow> sget h topology ''tasks'';
          ts \<leftarrow> jelems tasklist;
          uses_operator ts operatorName }"

fun hasRelatedTopology :: "store \<Rightarrow> props \<Rightarrow> string \<Rightarrow> bool option" where
  "hasRelatedTopology h [] name = Some False"
| "hasRelatedTopology h ((key, topology) # ps) name =
     do { b \<leftarrow> hasOperator h topology name;
          (if b then Some True else hasRelatedTopology h ps name) }"

definition delete_operator :: "string \<Rightarrow> handler" where
  "delete_operator name s =
     (if obj_get (operators s) name = JUndef then (s, Status 404)
      else case hasRelatedTopology (heap s) (topologies s) name of
             None \<Rightarrow> (s, Status 404)
           | Some True \<Rightarrow> (s, Status 501)
           | Some False \<Rightarrow> (db_write (s\<lparr>operators := obj_del name (operators s)\<rparr>), Awaiting (Reply 200)))"

section \<open>Topologies and services\<close>

definition get_topologies :: handler where
  "get_topologies s = (s, Json (json (heap s) (JArr (map snd (topologies s)))))"

text \<open>The loop that attaches to the topology the operators of its tasks.\<close>

definition attach_operator :: "jval \<Rightarrow> jval \<Rightarrow> designer \<Rightarrow> designer step" where
  "attach_operator topology task s =
     (case jget task ''operator'' of
        None \<Rightarrow> (s, False)
      | Some op \<Rightarrow>
          (if obj_in (operators s) (js_str op) then
             (case spush topology ''operators'' (obj_get (operators s) (js_str op)) (heap s) of
                None \<Rightarrow> (s, False)
              | Some h \<Rightarrow> (s\<lparr>heap := h\<rparr>, True))
           else (s, True)))"

definition get_topology :: "string \<Rightarrow> handler" where
  "get_topology name s =
     (case dict_hasOwn (topologies s) name of
        None \<Rightarrow> (s, Rejected)
      | Some False \<Rightarrow> (s, Json (JObj []))
      | Some True \<Rightarrow>
          (let topology = obj_get (topologies s) name in
           case sput topology ''operators'' (JArr []) (heap s) of
             None \<Rightarrow> (s, Rejected)
           | Some h \<Rightarrow>
               (let s1 = s\<lparr>heap := h\<rparr> in
                case Option.bind (sget h topology ''tasks'') jelems of
                  None \<Rightarrow> (s1, Rejected)
                | Some ts \<Rightarrow>
                    (case for_each (attach_operator topology) ts s1 of
                       (s2, ok) \<Rightarrow> (s2, if ok then Json (json (heap s2) topology) else Rejected)))))"

definition get_services :: handler where
  "get_services s = (s, Json (json (heap s) (JObj (services s))))"

definition get_service :: "string \<Rightarrow> handler" where
  "get_service name s = (s, Json (json (heap s) (obj_get (services s) name)))"

definition add_service :: "jval \<Rightarrow> designer \<Rightarrow> designer step" where
  "add_service body s =
     (case do { t \<leftarrow> jget body ''topology''; jget t ''name'' } of
        None \<Rightarrow> (s, False)
      | Some n \<Rightarrow>
          (case alloc_service body (heap s) of
             (service, h) \<Rightarrow>
               (let name = js_str n;
                    topology = (case jget service ''topology'' of Some t \<Rightarrow> t | None \<Rightarrow> JUndef)
                in (s\<lparr>heap := h, services := obj_put name service (services s),
                      topologies := obj_put name topology (topologies s)\<rparr>, True))))"

definition post_service :: "jval \<Rightarrow> handler" where
  "post_service body s = over_body add_service body s"

definition delete_service :: "string \<Rightarrow> handler" where
  "delete_service name s =
     (db_write (s\<lparr>services := obj_del name (services s), topologies := obj_del name (topologies s)\<rparr>),
      Awaiting (Reply 200))"

section \<open>Service intents\<close>

definition get_intents :: handler where
  "get_intents s = (s, Json (json (heap s) (JObj (serviceintents s))))"

definition get_intent :: "string \<Rightarrow> handler" where
  "get_intent iid s = (s, Json (json (heap s) (obj_get (serviceintents s) iid)))"

text \<open>The loop counts from 0 to the \<open>length\<close> of the object that maps identifiers to intents.\<close>

fun select_intents :: "store \<Rightarrow> string \<Rightarrow> jval list \<Rightarrow> jval list option" where
  "select_intents h topology [] = Some []"
| "select_intents h topology (intent # vs) =
     do { t \<leftarrow> sget h intent ''topology'';
          rest \<leftarrow> select_intents h topology vs;
          Some (if js_eq t (JStr topology) then intent # rest else rest) }"

definition get_topology_intents :: "string \<Rightarrow> handler" where
  "get_topology_intents topology s =
     (s, case Option.bind (jelems (JObj (serviceintents s))) (select_intents (heap s) topology) of
           None \<Rightarrow> Rejected
         | Some intents \<Rightarrow> Json (json (heap s) (JArr intents)))"

definition post_intent :: "jval \<Rightarrow> handler" where
  "post_intent body s =
     (case isEmpty body of
        None \<Rightarrow> (s, Rejected)
      | Some True \<Rightarrow> (s, Status 200)
      | Some False \<Rightarrow>
          (case (jget body ''id'', alloc body (heap s)) of
             (None, _) \<Rightarrow> (s, Rejected)
           | (Some iid, serviceintent, h) \<Rightarrow>
               (db_write (s\<lparr>heap := h, serviceintents := obj_put (js_str iid) serviceintent (serviceintents s)\<rparr>),
                Awaiting (AddIntent serviceintent))))"

definition delete_intent :: "string \<Rightarrow> handler" where
  "delete_intent iid s =
     (let serviceintent = obj_get (serviceintents s) iid in
      if serviceintent = JUndef then (s, Status 404)
      else case publish_intent serviceintent ''DELETE'' s of
             (s1, False) \<Rightarrow> (s1, Status 404)
           | (s1, True) \<Rightarrow>
               (db_write (s1\<lparr>serviceintents := obj_del iid (serviceintents s1)\<rparr>), Awaiting (Reply 200)))"

section \<open>Fog functions\<close>

definition get_fogfunctions :: handler where
  "get_fogfunctions s = (s, Json (json (heap s) (JObj (fogfunctions s))))"

definition get_fogfunction :: "string \<Rightarrow> handler" where
  "get_fogfunction name s = (s, Json (json (heap s) (obj_get (fogfunctions s) name)))"

text \<open>The two handlers that switch a fog function; they differ in the status and in the action.\<close>

definition switch_fogfunction :: "string \<Rightarrow> string \<Rightarrow> string \<Rightarrow> handler" where
  "switch_fogfunction status action name s =
     (let fogfunction = obj_get (fogfunctions s) name in
      case sput fogfunction ''status'' (JStr status) (heap s) of
        None \<Rightarrow> (s, Rejected)
      | Some h \<Rightarrow>
          (let s1 = s\<lparr>heap := h\<rparr> in
           case sget h fogfunction ''intent'' of
             None \<Rightarrow> (s1, Rejected)
           | Some serviceintent \<Rightarrow>
               write_then (ReplyJson fogfunction) (publish_intent serviceintent action s1)))"

definition enable_fogfunction :: "string \<Rightarrow> handler" where
  "enable_fogfunction name s = switch_fogfunction ''enabled'' ''ADD'' name s"

definition disable_fogfunction :: "string \<Rightarrow> handler" where
  "disable_fogfunction name s = switch_fogfunction ''disabled'' ''DELETE'' name s"

text \<open>The statements of the loop of \<open>POST /fogfunction\<close> up to the test of the intent's identifier, and the rest.\<close>

definition store_fogfunction :: "jval \<Rightarrow> designer \<Rightarrow> designer step" where
  "store_fogfunction fogfunction s =
     (case sput fogfunction ''status'' (JStr ''enabled'') (heap s) of
        None \<Rightarrow> (s, False)
      | Some h \<Rightarrow>
          (case sget h fogfunction ''name'' of
             None \<Rightarrow> (s, False)
           | Some name \<Rightarrow>
               (let s1 = s\<lparr>heap := h, fogfunctions := obj_put (js_str name) fogfunction (fogfunctions s)\<rparr> in
                case do { t \<leftarrow> sget h fogfunction ''topology''; n \<leftarrow> sget h t ''name''; Some (t, n) } of
                  None \<Rightarrow> (s1, False)
                | Some (t, n) \<Rightarrow> (s1\<lparr>topologies := obj_put (js_str n) t (topologies s1)\<rparr>, True))))"

definition start_fogfunction :: "jval \<Rightarrow> designer \<Rightarrow> designer step" where
  "start_fogfunction fogfunction s =
     (case do { i \<leftarrow> sget (heap s) fogfunction ''intent''; own \<leftarrow> shasOwn (heap s) i ''id''; Some (i, own) } of
        None \<Rightarrow> (s, False)
      | Some (i, True) \<Rightarrow> publish_intent i ''ADD'' s
      | Some (i, False) \<Rightarrow>
          (case sput i ''id'' (JStr (''ServiceIntent.'' @ uuid (rng s))) (heap s) of
             None \<Rightarrow> (s, False)
           | Some h \<Rightarrow> publish_intent i ''ADD'' (skip_random (s\<lparr>heap := h\<rparr>))))"

definition add_fogfunction :: "jval \<Rightarrow> designer \<Rightarrow> designer step" where
  "add_fogfunction body s =
     (case alloc_fogfunction body (heap s) of
        (fogfunction, h) \<Rightarrow>
          (case store_fogfunction fogfunction (s\<lparr>heap := h\<rparr>) of
             (s1, False) \<Rightarrow> (s1, False)
           | (s1, True) \<Rightarrow> start_fogfunction fogfunction s1))"

definition post_fogfunction :: "jval \<Rightarrow> handler" where
  "post_fogfunction body s = over_body add_fogfunction body s"

definition delete_fogfunction :: "string \<Rightarrow> handler" where
  "delete_fogfunction name s =
     (let fogfunction = obj_get (fogfunctions s) name in
      if fogfunction = JUndef then (s, Status 404)
      else case sget (heap s) fogfunction ''intent'' of
             None \<Rightarrow> (s, Status 404)
           | Some serviceintent \<Rightarrow>
               (case publish_intent serviceintent ''DELETE'' s of
                  (s1, False) \<Rightarrow> (s1, Status 404)
                | (s1, True) \<Rightarrow>
                    (db_write (s1\<lparr>topologies := obj_del name (topologies s1),
                                  fogfunctions := obj_del name (fogfunctions s1)\<rparr>),
                     Awaiting (Reply 200))))"

section \<open>Subscriptions and devices\<close>

definition get_subscriptions :: handler where
  "get_subscriptions s = (s, Json (json (heap s) (JObj (subscriptions s))))"

definition post_subscription :: "jval \<Rightarrow> handler" where
  "post_subscription subscription s =
     (case isEmpty subscription of
        None \<Rightarrow> (s, Rejected)
      | Some True \<Rightarrow> (s, Status 200)
      | Some False \<Rightarrow>
          (s, case (subscription_headers subscription, subscription_request subscription) of
                (Some hdr, Some rq) \<Rightarrow> Awaiting (OnSubscribed subscription rq hdr)
              | _ \<Rightarrow> Rejected))"

definition delete_subscription :: "string \<Rightarrow> handler" where
  "delete_subscription sid s =
     (s, case dict_hasOwn (subscriptions s) sid of
           None \<Rightarrow> Rejected
         | Some False \<Rightarrow> Status 404
         | Some True \<Rightarrow> Awaiting (OnUnsubscribed sid))"

definition get_devices :: handler where
  "get_devices s = (s, Json (json (heap s) (JObj (devices s))))"

text \<open>The entity identifier is built from the posted \<open>id\<close> even when the device is stored under a generated one.\<close>

definition device_entity :: "jval \<Rightarrow> jval option" where
  "device_entity deviceObj =
     do { i \<leftarrow> jget deviceObj ''id'';
          t \<leftarrow> jget deviceObj ''type'';
          Some (case deviceObj of
                  JObj ps \<Rightarrow> JObj (obj_put ''entityId''
                     (JObj [(''id'', i), (''type'', t), (''isPattern'', JBool False)]) ps)
                | v \<Rightarrow> v) }"

definition device_id :: "jval \<Rightarrow> designer \<Rightarrow> (string \<times> designer) option" where
  "device_id deviceObj s =
     do { own \<leftarrow> shasOwn (heap s) deviceObj ''id'';
          (if own then do { i \<leftarrow> jget deviceObj ''id''; Some (js_str i, s) }
           else do { t \<leftarrow> jget deviceObj ''type''; Some (js_str t @ uuid (rng s), skip_random s) }) }"

definition post_device :: "jval \<Rightarrow> handler" where
  "post_device deviceObj s =
     (case device_id deviceObj s of
        None \<Rightarrow> (s, Rejected)
      | Some (did, s1) \<Rightarrow>
          (case isEmpty deviceObj of
             None \<Rightarrow> (s1, Rejected)
           | Some True \<Rightarrow> (s1, Status 200)
           | Some False \<Rightarrow>
               (case device_entity deviceObj of
                  None \<Rightarrow> (s1, Rejected)
                | Some device \<Rightarrow>
                    (s1, if JSONObject2CtxElement device = None then Rejected
                         else Awaiting (OnDeviceCreated did device)))))"

definition delete_device :: "string \<Rightarrow> handler" where
  "delete_device did s =
     (s, case dict_hasOwn (devices s) did of
           None \<Rightarrow> Rejected
         | Some False \<Rightarrow> Status 404
         | Some True \<Rightarrow> Awaiting (OnDeviceDeleted did))"

section \<open>The rest of a suspended handler\<close>

definition device_key :: "string \<Rightarrow> jval" where
  "device_key did = JObj [(''id'', JStr did), (''isPattern'', JBool False)]"

definition add_intent :: "jval \<Rightarrow> handler" where
  "add_intent serviceintent s =
     (case publish_intent serviceintent ''ADD'' s of (s1, ok) \<Rightarrow> (s1, if ok then Status 200 else Rejected))"

definition on_subscribed :: "axios \<Rightarrow> string \<Rightarrow> jval \<Rightarrow> jval \<Rightarrow> jval \<Rightarrow> handler" where
  "on_subscribed axios u subscription rq hdr s =
     (case subscribeContextWithHeaders axios u rq hdr of
        Inl e \<Rightarrow> (s, Status 500)
      | Inr sid \<Rightarrow> (db_write (s\<lparr>subscriptions := obj_put (js_str sid) subscription (subscriptions s)\<rparr>), Status 200))"

definition on_unsubscribed :: "axios \<Rightarrow> string \<Rightarrow> string \<Rightarrow> handler" where
  "on_unsubscribed axios u sid s =
     (case unsubscribeContext axios u (JStr sid) of
        Inl e \<Rightarrow> (s, Status 500)
      | Inr r \<Rightarrow> (db_write (s\<lparr>subscriptions := obj_del sid (subscriptions s)\<rparr>), Status 200))"

definition on_device_created :: "axios \<Rightarrow> string \<Rightarrow> string \<Rightarrow> jval \<Rightarrow> handler" where
  "on_device_created axios u did device s =
     (case updateContext axios u device of
        Some (Inr d) \<Rightarrow> (db_write (s\<lparr>devices := obj_put did device (devices s)\<rparr>), Status 200)
      | _ \<Rightarrow> (s, Status 500))"

definition on_device_deleted :: "axios \<Rightarrow> string \<Rightarrow> string \<Rightarrow> handler" where
  "on_device_deleted axios u did s =
     (case deleteContext axios u (device_key did) of
        Inl e \<Rightarrow> (s, Status 500)
      | Inr r \<Rightarrow> (db_write (s\<lparr>devices := obj_del did (devices s)\<rparr>), Status 200))"

definition resume :: "axios \<Rightarrow> string \<Rightarrow> kont \<Rightarrow> handler" where
  "resume axios u k s =
     (case k of
        Reply n \<Rightarrow> (s, Status n)
      | ReplyJson v \<Rightarrow> (s, Json (json (heap s) v))
      | AddIntent serviceintent \<Rightarrow> add_intent serviceintent s
      | OnSubscribed subscription rq hdr \<Rightarrow> on_subscribed axios u subscription rq hdr s
      | OnUnsubscribed sid \<Rightarrow> on_unsubscribed axios u sid s
      | OnDeviceCreated did device \<Rightarrow> on_device_created axios u did device s
      | OnDeviceDeleted did \<Rightarrow> on_device_deleted axios u did s)"

text \<open>A handler that is not interrupted by another one between its \<open>await\<close> and its end.\<close>

definition complete :: "axios \<Rightarrow> string \<Rightarrow> designer \<times> outcome \<Rightarrow> designer \<times> outcome" where
  "complete axios u r = (case r of (s, Awaiting k) \<Rightarrow> resume axios u k s | _ \<Rightarrow> r)"

end
