(* ===== verification/Designer_Ops.thy ===== *)
theory Designer_Ops
  imports Designer_API
begin

text \<open>
  Properties of the designer's operators, topologies, docker images, task map and websocket clients: the
  dependency check before an operator is deleted, what the two listing handlers with a defect return, the
  map of running tasks as the workers' reports determine it, and who receives a notification.
\<close>

section \<open>Operators in use\<close>

text \<open>The operator names of the tasks of a topology, when it has the shape the designer's editor produces.\<close>

fun task_operators :: "jval list \<Rightarrow> string list option" where
  "task_operators [] = Some []"
| "task_operators (t # ts) =
     (case (jget t ''operator'', task_operators ts) of (Some (JStr n), Some ns) \<Rightarrow> Some (n # ns) | _ \<Rightarrow> None)"

definition topology_operators :: "store \<Rightarrow> jval \<Rightarrow> string list option" where
  "topology_operators h t = (case sget h t ''tasks'' of Some (JArr ts) \<Rightarrow> task_operators ts | _ \<Rightarrow> None)"

lemma uses_operator_names:
  "task_operators ts = Some ns \<Longrightarrow> uses_operator ts n = Some (n \<in> set ns)"
  by (induction ts arbitrary: ns) (auto split: option.splits jval.splits simp: js_eq_JStr)

lemma hasOperator_names:
  "topology_operators h t = Some ns \<Longrightarrow> hasOperator h t n = Some (n \<in> set ns)"
  by (auto simp: topology_operators_def hasOperator_def uses_operator_names split: option.splits jval.splits)

text \<open>The search succeeds only if no topology it looked at uses the operator.\<close>

lemma hasRelatedTopology_False:
  assumes "hasRelatedTopology h ps n = Some False" and "(k, t) \<in> set ps" and "topology_operators h t = Some ns"
  shows "n \<notin> set ns"
  using assms
proof (induction ps)
  case (Cons p ps)
  obtain k' t' where p: "p = (k', t')" by fastforce
  from Cons.prems(1) have b: "hasOperator h t' n = Some False" and rest: "hasRelatedTopology h ps n = Some False"
    by (auto simp: p Option.bind_eq_Some_conv split: if_splits)
  show ?case
  proof (cases "(k, t) = p")
    case True
    then show ?thesis using b Cons.prems(3) by (auto simp: p hasOperator_names)
  next
    case False
    then show ?thesis using Cons.IH rest Cons.prems by auto
  qed
qed simp

lemma hasRelatedTopology_names:
  assumes "\<forall>(k, t) \<in> set ps. topology_operators h t \<noteq> None"
  shows "hasRelatedTopology h ps n = Some (\<exists>(k, t) \<in> set ps. n \<in> set (the (topology_operators h t)))"
  using assms
proof (induction ps)
  case (Cons p ps)
  obtain k t where p: "p = (k, t)" by fastforce
  with Cons.prems obtain ns where "topology_operators h t = Some ns" by auto
  with Cons show ?case by (auto simp: p hasOperator_names)
qed simp

text \<open>
  No handler changes the list of tasks of a topology in place: a later store has every object of the earlier one, with the same tasks.
\<close>

definition tasks_kept :: "store \<Rightarrow> store \<Rightarrow> bool" where
  "tasks_kept h h' = (length h \<le> length h' \<and> (\<forall>a < length h. obj_get (h' ! a) ''tasks'' = obj_get (h ! a) ''tasks''))"

lemma tasks_kept_refl [simp]: "tasks_kept h h"
  by (simp add: tasks_kept_def)

lemma tasks_kept_trans: "tasks_kept h h' \<Longrightarrow> tasks_kept h' h'' \<Longrightarrow> tasks_kept h h''"
  by (auto simp: tasks_kept_def)

lemma tasks_kept_append [simp]: "tasks_kept h (h @ ps)"
  by (simp add: tasks_kept_def nth_append)

lemma tasks_kept_update: "k \<noteq> ''tasks'' \<Longrightarrow> k \<noteq> ''__proto__'' \<Longrightarrow> tasks_kept h (h[a := obj_put k v (cell h a)])"
  by (auto simp: tasks_kept_def nth_list_update cell_def obj_get_def map_of_obj_put)

lemma tasks_kept_sput: "sput v k w h = Some h' \<Longrightarrow> k \<noteq> ''tasks'' \<Longrightarrow> k \<noteq> ''__proto__'' \<Longrightarrow> tasks_kept h h'"
  by (cases v) (auto simp: tasks_kept_update)

lemma tasks_kept_spush: "spush v k w h = Some h' \<Longrightarrow> k \<noteq> ''tasks'' \<Longrightarrow> k \<noteq> ''__proto__'' \<Longrightarrow> tasks_kept h h'"
  by (auto simp: spush_def dest: tasks_kept_sput split: option.splits jval.splits)

lemma tasks_kept_alloc [simp]: "tasks_kept h (snd (alloc v h))"
  by (cases v) simp_all

lemma topology_operators_kept:
  assumes "tasks_kept h h'" and "topology_operators h t = Some ns"
  shows "topology_operators h' t = Some ns"
proof (cases t)
  case (JRef a)
  with assms(2) have "a < length h" by (cases "a < length h") (simp_all add: topology_operators_def cell_def obj_get_def object_proto_def)
  with assms JRef show ?thesis by (simp add: topology_operators_def cell_def tasks_kept_def)
qed (use assms in \<open>simp_all add: topology_operators_def\<close>)

lemma db_load_default:
  "db_load db_default answers random =
     \<lparr>heap = [], devices = [], subscriptions = [], operators = [], topologies = [], services = [], serviceintents = [], fogfunctions = [],
       disk = db_default, taskMap = [], subscriptions_websocket = [], emitted = [], send_loaded_intents = False,
       rabbit = init_mq, amqp_answers = answers, rng = random\<rparr>"
  by (simp add: db_load_def section_of_def db_default_def db_sections_def js_access)

lemma operators_db_write [simp]:
  "operators (db_write s) = operators s" "topologies (db_write s) = topologies s" "heap (db_write s) = heap s"
  "services (db_write s) = services s" "serviceintents (db_write s) = serviceintents s"
  "fogfunctions (db_write s) = fogfunctions s" "subscriptions (db_write s) = subscriptions s"
  "devices (db_write s) = devices s" "rabbit (db_write s) = rabbit s" "taskMap (db_write s) = taskMap s"
  "amqp_answers (db_write s) = amqp_answers s" "rng (db_write s) = rng s"
  "send_loaded_intents (db_write s) = send_loaded_intents s"
  "subscriptions_websocket (db_write s) = subscriptions_websocket s" "emitted (db_write s) = emitted s"
  by (simp_all add: db_write_def)

lemma used_operator_kept:
  assumes "(k, t) \<in> set (topologies s)" and "topology_operators (heap s) t = Some ns" and "n \<in> set ns"
  shows "map_of (operators (fst (delete_operator m s))) n = map_of (operators s) n"
proof (cases "hasRelatedTopology (heap s) (topologies s) m = Some False")
  case True
  then have "m \<notin> set ns" using assms(1,2) by (rule hasRelatedTopology_False)
  with assms(3) have "n \<noteq> m" by auto
  with True show ?thesis by (simp add: delete_operator_def map_of_obj_del)
qed (auto simp: delete_operator_def split: option.split)

text \<open>
  Whatever operator a request deletes, an operator that a task of some stored topology names is
  left as it was: a running service never loses the operator it uses.
\<close>

theorem operator_in_use_kept:
  assumes "(k, t) \<in> set (topologies s)" and "topology_operators (heap s) t = Some ns" and "n \<in> set ns"
  shows "map_of (operators (fst (delete_operator m s))) n = map_of (operators s) n"
  using assms by (rule used_operator_kept)

definition sample_topology :: props where
  "sample_topology = [(''name'', JStr ''T''), (''tasks'', JArr [JObj [(''name'', JStr ''a''), (''operator'', JStr ''op1'')]])]"

definition sample_designer :: designer where
  "sample_designer =
     (db_load db_default (\<lambda>n. Accepted) (\<lambda>n. n))\<lparr>heap := [sample_topology, [(''name'', JStr ''op1'')]],
       topologies := [(''T'', JRef 0)], operators := [(''op1'', JRef 1)]\<rparr>"

lemmas sample_defs = sample_designer_def sample_topology_def topology_operators_def cell_def

theorem operator_in_use_kept_witness:
  "map_of (operators (fst (delete_operator ''op1'' sample_designer))) ''op1'' = map_of (operators sample_designer) ''op1''"
  by (rule operator_in_use_kept [where k = "''T''" and t = "JRef 0" and ns = "[''op1'']"])
    (simp_all add: sample_defs js_access)

text \<open>
  Claim C19. The outcome of deleting an operator when every stored topology lists its tasks: 404 if there
  is no such operator, 501 with nothing changed if a topology uses it, and otherwise the operator is gone
  from memory and from the file and the answer is 200.
\<close>

theorem delete_operator_outcome:
  assumes "\<forall>(k, t) \<in> set (topologies s). topology_operators (heap s) t \<noteq> None"
  shows "complete axios u (delete_operator n s) =
    (if obj_get (operators s) n = JUndef then (s, Status 404)
     else if \<exists>(k, t) \<in> set (topologies s). n \<in> set (the (topology_operators (heap s) t)) then (s, Status 501)
     else (db_write (s\<lparr>operators := obj_del n (operators s)\<rparr>), Status 200))"
  using hasRelatedTopology_names [OF assms, of n]
  by (auto simp: delete_operator_def complete_def resume_def)

theorem delete_operator_outcome_witness:
  "complete (\<lambda>rq. Inl JNull) ''http://b'' (delete_operator ''op1'' sample_designer) = (sample_designer, Status 501)"
  by (subst delete_operator_outcome) (simp_all add: sample_defs js_access)

section \<open>The two listings\<close>

lemma jelems_no_length:
  "map_of ps ''length'' = None \<Longrightarrow> jelems (JObj ps) = Some []"
  by (simp add: obj_get_absent object_proto_def loop_bound_def)

text \<open>
  The request for the intents of a topology is answered with the empty list, whatever intents
  are stored: the handler counts to the \<open>length\<close> of an object (the only exception is an intent whose
  identifier is \<open>length\<close>).
\<close>

theorem topology_intents_always_empty:
  assumes "map_of (serviceintents s) ''length'' = None"
  shows "get_topology_intents topology s = (s, Json (JArr []))"
  unfolding get_topology_intents_def by (simp only: jelems_no_length [OF assms]) (simp add: json_def)

theorem topology_intents_always_empty_witness:
  "get_topology_intents ''T'' (sample_designer\<lparr>serviceintents := [(''i1'', JObj [(''topology'', JStr ''T'')])]\<rparr>) =
     (sample_designer\<lparr>serviceintents := [(''i1'', JObj [(''topology'', JStr ''T'')])]\<rparr>, Json (JArr []))"
  by (rule topology_intents_always_empty) simp

lemma collect_dockers_key:
  assumes "collect_dockers h ps ds = Some es" and "ds = [] \<or> (\<exists>w. ds = [(''key'', w)])"
  shows "es = ds \<or> (\<exists>w \<in> snd ` set ps. es = [(''key'', w)])"
  using assms
proof (induction ps arbitrary: ds)
  case (Cons p ps)
  obtain k v where p: "p = (k, v)" by fastforce
  with Cons.prems obtain b where
    b: "collect_dockers h ps (if b then obj_put ''key'' v ds else ds) = Some es"
    by (auto simp: Option.bind_eq_Some_conv)
  have put: "obj_put ''key'' v ds = [(''key'', v)]"
    using Cons.prems(2) by (auto simp: js_literal has_own_def)
  show ?case
  proof (cases b)
    case True
    then show ?thesis using Cons.IH [of "[(''key'', v)]"] b by (auto simp: p put)
  next
    case False
    then show ?thesis using Cons.IH [of ds] b Cons.prems(2) by (auto simp: p)
  qed
qed simp

text \<open>
  The listing of all docker images has at most one entry, under the name \<open>key\<close>, and this entry
  is one of the stored operators: the images of all other operators are missing from it.
\<close>

theorem dockerimage_listing:
  "snd (get_dockerimages s) = Rejected \<or> snd (get_dockerimages s) = Json (JObj []) \<or>
   (\<exists>w \<in> snd ` set (operators s). snd (get_dockerimages s) = Json (json (heap s) (JObj [(''key'', w)])))"
proof (cases "collect_dockers (heap s) (operators s) []")
  case (Some es)
  then have "es = [] \<or> (\<exists>w \<in> snd ` set (operators s). es = [(''key'', w)])"
    using collect_dockers_key [of "heap s" "operators s" "[]"] by blast
  moreover have "json (heap s) (JObj []) = JObj []" by (simp add: json_def)
  moreover have "snd (get_dockerimages s) = Json (json (heap s) (JObj es))"
    using Some by (simp add: get_dockerimages_def)
  ultimately show ?thesis by metis
qed (simp add: get_dockerimages_def)

section \<open>The map of running tasks\<close>

text \<open>
  A message of a worker about one of its tasks, as \<open>handleInternalMessage\<close> receives it: its type, the worker and the payload, an object that
  names the task.  \<open>TaskUpdate\<close> and \<open>TaskInfo\<close> are the messages that \<open>worker/worker.go\<close> sends.
\<close>

record task_report =
  tr_type :: string
  tr_worker :: string
  tr_payload :: props

definition report_msg :: "task_report \<Rightarrow> jval" where
  "report_msg r =
     JObj [(''Type'', JStr (tr_type r)), (''RoutingKey'', JStr ''task.''), (''From'', JStr (tr_worker r)), (''PayLoad'', JObj (tr_payload r))]"

definition TaskUpdate :: "string \<Rightarrow> string \<Rightarrow> string \<Rightarrow> string \<Rightarrow> string \<Rightarrow> string \<Rightarrow> task_report" where
  "TaskUpdate w topologyName taskName taskID serviceIntentID state =
     \<lparr>tr_type = ''TASK_UPDATE'', tr_worker = w,
      tr_payload = [(''TaskID'', JStr taskID), (''TopologyName'', JStr topologyName), (''TaskName'', JStr taskName),
        (''ServiceIntentID'', JStr serviceIntentID), (''Status'', JStr state)]\<rparr>"

definition TaskInfo :: "string \<Rightarrow> string \<Rightarrow> string \<Rightarrow> string \<Rightarrow> string \<Rightarrow> task_report" where
  "TaskInfo w topologyName taskName taskID info =
     \<lparr>tr_type = ''TASK_INFO'', tr_worker = w,
      tr_payload = [(''TaskID'', JStr taskID), (''TopologyName'', JStr topologyName), (''TaskName'', JStr taskName),
        (''ServiceIntentID'', JStr []), (''Info'', JStr info)]\<rparr>"

definition tr_id :: "task_report \<Rightarrow> string" where
  "tr_id r = js_str (obj_get (tr_payload r) ''TaskID'')"

definition report_ok :: "task_report \<Rightarrow> bool" where
  "report_ok r = (map_of (tr_payload r) ''TaskID'' \<noteq> None \<and> tr_id r \<notin> set object_proto)"

text \<open>
  What the messages mean.  The history of a task are the updates about it since it was last removed.  Each of its fields has the
  value of the first of them, except for the status and the information, which have the value last reported, and the worker, which is that of
  the first.
\<close>

definition remember :: "string \<Rightarrow> task_report \<Rightarrow> task_report list \<Rightarrow> task_report list" where
  "remember k r h =
     (if tr_type r \<noteq> ''TASK_UPDATE'' \<or> tr_id r \<noteq> k then h
      else if js_eq (obj_get (tr_payload r) ''Status'') (JStr ''removed'') then []
      else h @ [r])"

definition task_history :: "task_report list \<Rightarrow> string \<Rightarrow> task_report list" where
  "task_history rs k = fold (remember k) rs []"

fun latest :: "string \<Rightarrow> task_report list \<Rightarrow> jval option" where
  "latest f [] = None"
| "latest f (r # rs) = (case latest f rs of Some v \<Rightarrow> Some v | None \<Rightarrow> map_of (tr_payload r) f)"

definition task_field :: "task_report list \<Rightarrow> string \<Rightarrow> jval option" where
  "task_field h f =
     (if f = ''Worker'' then Some (JStr (tr_worker (hd h)))
      else if f = ''Status'' \<or> f = ''Info'' then latest f h
      else map_of (tr_payload (hd h)) f)"

definition task_entry :: "task_report list \<Rightarrow> jval option \<Rightarrow> bool" where
  "task_entry h v = (if h = [] then v = None else \<exists>ps. v = Some (JObj ps) \<and> (\<forall>f. map_of ps f = task_field h f))"

definition tasks_listed :: "task_report list \<Rightarrow> designer \<Rightarrow> bool" where
  "tasks_listed rs s = (\<forall>k. k \<notin> set object_proto \<longrightarrow> task_entry (task_history rs k) (map_of (taskMap s) k))"

lemma obj_in_own: "k \<notin> set object_proto \<Longrightarrow> obj_in ps k \<longleftrightarrow> map_of ps k \<noteq> None"
  by (simp add: obj_in_def has_own_map_of)

lemma not_object_proto:
  "''Status'' \<notin> set object_proto" "''Info'' \<notin> set object_proto" "''Worker'' \<notin> set object_proto"
  "''TaskID'' \<notin> set object_proto"
  by (simp_all add: object_proto_def)

lemma task_history_snoc: "task_history (rs @ [r]) k = remember k r (task_history rs k)"
  by (simp add: task_history_def)

lemma latest_snoc: "latest f (h @ [r]) = (case map_of (tr_payload r) f of Some v \<Rightarrow> Some v | None \<Rightarrow> latest f h)"
  by (induction h) (auto split: option.split)

lemmas report_defs = handleInternalMessage_def report_msg_def onTaskUpdate_def js_access Let_def

text \<open>A message of another type is ignored, a removal removes the entry, and an update makes a new entry or changes the old one.\<close>

lemma report_ignored: "tr_type r \<noteq> ''TASK_UPDATE'' \<Longrightarrow> handleInternalMessage (report_msg r) s = (s, True)"
  by (simp add: report_defs)

lemma report_removed:
  assumes "tr_type r = ''TASK_UPDATE''" and "js_eq (obj_get (tr_payload r) ''Status'') (JStr ''removed'')" and "report_ok r"
  shows "handleInternalMessage (report_msg r) s = (s\<lparr>taskMap := obj_del (tr_id r) (taskMap s)\<rparr>, True)"
  using assms by (auto simp: report_defs removeTask_def obj_in_own obj_del_absent report_ok_def tr_id_def [symmetric])

lemma report_first:
  assumes "tr_type r = ''TASK_UPDATE''" and "\<not> js_eq (obj_get (tr_payload r) ''Status'') (JStr ''removed'')" and "report_ok r"
    and "map_of (taskMap s) (tr_id r) = None"
  shows "handleInternalMessage (report_msg r) s =
    (s\<lparr>taskMap := obj_put (tr_id r) (JObj (obj_put ''Worker'' (JStr (tr_worker r)) (tr_payload r))) (taskMap s)\<rparr>, True)"
proof -
  have "tr_id r \<noteq> ''__proto__''" using assms(3) by (auto simp: report_ok_def)
  with assms show ?thesis
    by (simp add: report_defs updateTaskList_def set_task_field_def obj_in_own report_ok_def tr_id_def [symmetric])
qed

definition copied :: "string \<Rightarrow> props \<Rightarrow> props \<Rightarrow> props" where
  "copied f us ps = (case map_of us f of Some v \<Rightarrow> obj_put f v ps | None \<Rightarrow> ps)"

lemma copy_field_copied:
  assumes "map_of (taskMap s) k = Some (JObj ps)" and "k \<noteq> ''__proto__''" and "f \<notin> set object_proto"
  shows "copy_field k (JObj us) f s = (s\<lparr>taskMap := obj_put k (JObj (copied f us ps)) (taskMap s)\<rparr>, True)"
  using assms by (auto simp: copy_field_def set_task_field_def obj_in_own obj_get_own copied_def obj_put_same split: option.split)

lemma report_later:
  assumes "tr_type r = ''TASK_UPDATE''" and "\<not> js_eq (obj_get (tr_payload r) ''Status'') (JStr ''removed'')" and "report_ok r"
    and "map_of (taskMap s) (tr_id r) = Some (JObj ps)"
  shows "handleInternalMessage (report_msg r) s =
    (s\<lparr>taskMap := obj_put (tr_id r) (JObj (copied ''Info'' (tr_payload r) (copied ''Status'' (tr_payload r) ps))) (taskMap s)\<rparr>, True)"
proof -
  have np: "tr_id r \<noteq> ''__proto__''" using assms(3) by (auto simp: report_ok_def)
  let ?s = "s\<lparr>taskMap := obj_put (tr_id r) (JObj (copied ''Status'' (tr_payload r) ps)) (taskMap s)\<rparr>"
  have "map_of (taskMap ?s) (tr_id r) = Some (JObj (copied ''Status'' (tr_payload r) ps))" using np by (simp add: map_of_obj_put)
  from copy_field_copied [OF this np not_object_proto(2), of "tr_payload r"] copy_field_copied [OF assms(4) np not_object_proto(1), of "tr_payload r"]
  show ?thesis using assms(1-4)
    by (simp add: report_defs updateTaskList_def obj_in_own report_ok_def tr_id_def [symmetric])
qed

lemma task_field_later:
  "h \<noteq> [] \<Longrightarrow> \<forall>f. map_of ps f = task_field h f \<Longrightarrow>
     map_of (copied ''Info'' (tr_payload r) (copied ''Status'' (tr_payload r) ps)) f = task_field (h @ [r]) f"
  by (auto simp: copied_def task_field_def latest_snoc map_of_obj_put split: option.split)

lemma task_field_first: "map_of (obj_put ''Worker'' (JStr (tr_worker r)) (tr_payload r)) f = task_field [r] f"
  by (simp add: task_field_def map_of_obj_put split: option.split)

text \<open>One entry changes, the others stay.\<close>

lemma tasks_listed_at:
  assumes "tasks_listed rs s" and "tr_type r = ''TASK_UPDATE''" and "\<And>l. l \<noteq> tr_id r \<Longrightarrow> map_of m l = map_of (taskMap s) l"
    and "task_entry (task_history (rs @ [r]) (tr_id r)) (map_of m (tr_id r))"
  shows "tasks_listed (rs @ [r]) (s\<lparr>taskMap := m\<rparr>)"
  unfolding tasks_listed_def
proof (intro allI impI)
  fix k
  assume k: "k \<notin> set object_proto"
  show "task_entry (task_history (rs @ [r]) k) (map_of (taskMap (s\<lparr>taskMap := m\<rparr>)) k)"
  proof (cases "k = tr_id r")
    case False
    then have "task_history (rs @ [r]) k = task_history rs k" by (simp add: task_history_snoc remember_def)
    with False k assms(1,3) show ?thesis by (simp add: tasks_listed_def)
  qed (use assms(4) in simp)
qed

lemma report_listed:
  assumes "tasks_listed rs s" and "report_ok r"
  shows "\<exists>t. handleInternalMessage (report_msg r) s = (t, True) \<and> tasks_listed (rs @ [r]) t"
proof (cases "tr_type r = ''TASK_UPDATE''")
  case False
  with assms(1) have "tasks_listed (rs @ [r]) s" by (simp add: tasks_listed_def task_history_snoc remember_def)
  with report_ignored [OF False, of s] show ?thesis by blast
next
  case update: True
  have np: "tr_id r \<notin> set object_proto" "tr_id r \<noteq> ''__proto__''" using assms(2) by (auto simp: report_ok_def)
  have known: "task_entry (task_history rs (tr_id r)) (map_of (taskMap s) (tr_id r))" using assms(1) np(1) by (simp add: tasks_listed_def)
  note at = tasks_listed_at [OF assms(1) update]
  show ?thesis
  proof (cases "js_eq (obj_get (tr_payload r) ''Status'') (JStr ''removed'')")
    case True
    have "tasks_listed (rs @ [r]) (s\<lparr>taskMap := obj_del (tr_id r) (taskMap s)\<rparr>)"
      by (rule at) (simp_all add: map_of_obj_del task_history_snoc remember_def update True task_entry_def)
    with report_removed [OF update True assms(2), of s] show ?thesis by blast
  next
    case live: False
    then have h: "task_history (rs @ [r]) (tr_id r) = task_history rs (tr_id r) @ [r]" by (simp add: task_history_snoc remember_def update)
    show ?thesis
    proof (cases "task_history rs (tr_id r) = []")
      case True
      with known have new: "map_of (taskMap s) (tr_id r) = None" by (simp add: task_entry_def)
      have "tasks_listed (rs @ [r]) (s\<lparr>taskMap := obj_put (tr_id r) (JObj (obj_put ''Worker'' (JStr (tr_worker r)) (tr_payload r))) (taskMap s)\<rparr>)"
        by (rule at) (simp_all add: map_of_obj_put np h True task_entry_def task_field_first)
      with report_first [OF update live assms(2) new] show ?thesis by blast
    next
      case False
      with known obtain ps where ps: "map_of (taskMap s) (tr_id r) = Some (JObj ps)" "\<forall>f. map_of ps f = task_field (task_history rs (tr_id r)) f"
        by (auto simp: task_entry_def)
      let ?ps = "copied ''Info'' (tr_payload r) (copied ''Status'' (tr_payload r) ps)"
      have "tasks_listed (rs @ [r]) (s\<lparr>taskMap := obj_put (tr_id r) (JObj ?ps) (taskMap s)\<rparr>)"
        by (rule at) (simp_all add: map_of_obj_put np h task_entry_def task_field_later [OF False ps(2)])
      with report_later [OF update live assms(2) ps(1)] show ?thesis by blast
    qed
  qed
qed

text \<open>
  Claim C38. From the start of the designer on, for every sequence of messages of the workers, whatever fields they have beside the name of their
  task, none of them throws, and the task map shows exactly what they mean: a task is listed from its first update until its
  removal, with the worker and the fields of that update, except that its status and its information are those last
  reported. Messages of another type than \<open>TASK_UPDATE\<close>, like the \<open>TASK_INFO\<close> of the workers, change nothing.
\<close>

theorem task_map_follows_reports:
  assumes "taskMap s = []" and "list_all report_ok rs"
  shows "\<exists>t. for_each handleInternalMessage (map report_msg rs) s = (t, True) \<and> tasks_listed rs t"
  using assms(2)
proof (induction rs rule: rev_induct)
  case Nil
  then show ?case using assms(1) by (simp add: tasks_listed_def task_history_def task_entry_def)
next
  case (snoc r rs)
  then obtain t where t: "for_each handleInternalMessage (map report_msg rs) s = (t, True)" "tasks_listed rs t" by auto
  from report_listed [OF t(2), of r] snoc.prems t(1) show ?case by (auto simp: loop.run_append)
qed

lemma remember_worker:
  "remember k (TaskUpdate w topologyName taskName taskID i st) h =
     (if taskID \<noteq> k then h else if st = ''removed'' then [] else h @ [TaskUpdate w topologyName taskName taskID i st])"
  "remember k (TaskInfo w topologyName taskName taskID x) h = h"
  by (auto simp: remember_def TaskUpdate_def TaskInfo_def tr_id_def obj_get_own js_eq_JStr)

definition sample_reports :: "task_report list" where
  "sample_reports =
     [TaskUpdate ''w1'' ''T'' ''n'' ''t1'' ''i1'' ''scheduled'', TaskUpdate ''w1'' ''T'' ''n'' ''t2'' ''i1'' ''running'',
      TaskInfo ''w1'' ''T'' ''n'' ''t1'' ''x'', TaskUpdate ''w2'' ''U'' ''n'' ''t1'' ''i2'' ''running'', TaskUpdate ''w1'' ''T'' ''n'' ''t2'' ''i1'' ''removed'']"

theorem task_map_follows_reports_witness:
  "\<exists>t ps. for_each handleInternalMessage (map report_msg sample_reports) sample_designer = (t, True) \<and>
     map_of (taskMap t) ''t1'' = Some (JObj ps) \<and> map_of ps ''Status'' = Some (JStr ''running'') \<and> map_of ps ''Worker'' = Some (JStr ''w1'') \<and>
     map_of ps ''TopologyName'' = Some (JStr ''T'') \<and> map_of ps ''Info'' = None \<and> map_of (taskMap t) ''t2'' = None"
proof -
  have "taskMap sample_designer = []" by (simp add: sample_designer_def db_load_default)
  moreover have "list_all report_ok sample_reports"
    by (simp add: sample_reports_def report_ok_def TaskUpdate_def TaskInfo_def tr_id_def obj_get_own object_proto_def)
  ultimately obtain t where t: "for_each handleInternalMessage (map report_msg sample_reports) sample_designer = (t, True)" "tasks_listed sample_reports t"
    using task_map_follows_reports by blast
  have h: "task_history sample_reports ''t1'' = [sample_reports ! 0, sample_reports ! 3]" "task_history sample_reports ''t2'' = []"
    by (simp_all add: task_history_def sample_reports_def remember_worker)
  have np: "''t1'' \<notin> set object_proto" "''t2'' \<notin> set object_proto" by (simp_all add: object_proto_def)
  note entry = t(2) [unfolded tasks_listed_def, rule_format]
  from entry [OF np(1)] entry [OF np(2)] obtain ps where ps: "map_of (taskMap t) ''t1'' = Some (JObj ps)" "\<forall>f. map_of ps f = task_field [sample_reports ! 0, sample_reports ! 3] f"
      "map_of (taskMap t) ''t2'' = None"
    unfolding h by (auto simp: task_entry_def)
  show ?thesis
    by (rule exI [of _ t], rule exI [of _ ps]) (simp add: t(1) ps, simp add: task_field_def sample_reports_def TaskUpdate_def TaskInfo_def)
qed

section \<open>Websocket clients\<close>

lemma map_of_fold_update:
  "map_of (fold (\<lambda>sid ws. AList.update sid c ws) sids ws) k = (if k \<in> set sids then Some c else map_of ws k)"
  by (induction sids arbitrary: ws) (auto simp: update_conv')

lemma map_of_filter_values:
  "distinct (map fst ws) \<Longrightarrow>
     map_of (filter (\<lambda>(k, c). P c) ws) k = (case map_of ws k of Some c \<Rightarrow> if P c then Some c else None | None \<Rightarrow> None)"
  by (induction ws) (auto split: option.split simp: map_of_eq_None_iff rev_image_eqI)

lemma distinct_fold_update:
  "distinct (map fst ws) \<Longrightarrow> distinct (map fst (fold (\<lambda>sid ws. AList.update sid c ws) sids ws))"
  by (induction sids arbitrary: ws) (auto simp: distinct_update)

text \<open>The operations of the subscription table, as a sequence of client actions.\<close>

datatype socket_event = Subscribe nat "string list" | Disconnect nat

fun socket_step :: "socket_event \<Rightarrow> designer \<Rightarrow> designer" where
  "socket_step (Subscribe c sids) s = fst (subscribe_client c (JArr (map JStr sids)) s)"
| "socket_step (Disconnect c) s = disconnect_client c s"

text \<open>Who is to be notified for a subscription: the client that subscribed last and is still connected since.\<close>

fun owner_step :: "string \<Rightarrow> socket_event \<Rightarrow> nat option \<Rightarrow> nat option" where
  "owner_step sid (Subscribe c sids) w = (if sid \<in> set sids then Some c else w)"
| "owner_step sid (Disconnect c) w = (if w = Some c then None else w)"

lemma socket_step_table:
  assumes "distinct (map fst (subscriptions_websocket s))" and "sid \<noteq> ''__proto__''"
  shows "distinct (map fst (subscriptions_websocket (socket_step e s))) \<and>
         map_of (subscriptions_websocket (socket_step e s)) sid = owner_step sid e (map_of (subscriptions_websocket s) sid)"
proof (cases e)
  case (Subscribe c sids)
  with assms show ?thesis
    by (auto simp: subscribe_client_def jelems_if_def comp_def map_of_fold_update distinct_fold_update)
next
  case (Disconnect c)
  with assms show ?thesis
    by (auto simp: disconnect_client_def map_of_filter_values distinct_map_filter split: option.split)
qed

lemma socket_steps_table:
  assumes "distinct (map fst (subscriptions_websocket s))" and "sid \<noteq> ''__proto__''"
  shows "map_of (subscriptions_websocket (fold socket_step es s)) sid =
           fold (owner_step sid) es (map_of (subscriptions_websocket s) sid) \<and>
         emitted (fold socket_step es s) = emitted s"
  using assms
proof (induction es arbitrary: s)
  case Nil
  then show ?case by simp
next
  case (Cons e es)
  have "emitted (socket_step e s) = emitted s"
    by (cases e) (simp_all add: subscribe_client_def disconnect_client_def jelems_if_def)
  with Cons.IH [of "socket_step e s"] socket_step_table [OF Cons.prems, of e] Cons.prems(2) show ?case by simp
qed

text \<open>
  After any sequence of websocket subscriptions and disconnections, a notification is forwarded
  to exactly one client, the one that subscribed last and has not disconnected since, once per entity and
  in order; with no such client nothing is sent.
\<close>

theorem notification_reaches_owner:
  assumes "subscriptions_websocket s = []" and "emitted s = []" and "sid \<notin> set object_proto"
  shows "handleNotify (JObj [(''subscriptionId'', JStr sid)]) obs (fold socket_step es s) =
    (case fold (owner_step sid) es None of
       None \<Rightarrow> (fold socket_step es s, True)
     | Some c \<Rightarrow> ((fold socket_step es s)\<lparr>emitted :=
          map (\<lambda>ob. (c, JObj [(''subscriptionID'', JStr sid), (''entities'', ob)])) obs\<rparr>, True))"
proof -
  have "sid \<noteq> ''__proto__''" using assms(3) by auto
  with socket_steps_table [of s sid es] assms show ?thesis
    by (simp add: handleNotify_def js_access split: option.split)
qed

theorem notification_reaches_owner_witness:
  "emitted (fst (handleNotify (JObj [(''subscriptionId'', JStr ''s1'')]) [JNum 7]
     (fold socket_step [Subscribe 1 [''s1'', ''s2''], Subscribe 2 [''s1''], Disconnect 1] (db_load db_default (\<lambda>n. Accepted) (\<lambda>n. n))))) =
   [(2, JObj [(''subscriptionID'', JStr ''s1''), (''entities'', JNum 7)])]"
  using notification_reaches_owner [of "db_load db_default (\<lambda>n. Accepted) (\<lambda>n. n)" "''s1''" "[JNum 7]"
      "[Subscribe 1 [''s1'', ''s2''], Subscribe 2 [''s1''], Disconnect 1]"]
  by (simp add: db_load_default object_proto_def)

section \<open>Generated identifiers\<close>

definition is_hex :: "char \<Rightarrow> bool" where
  "is_hex c = (is_digit c \<or> 97 \<le> (of_char c :: nat) \<and> (of_char c :: nat) \<le> 102)"

lemma of_char_hex_digit:
  "d < 16 \<Longrightarrow> (of_char (hex_digit d) :: nat) = (if d < 10 then 48 + d else 87 + d)"
  by (simp add: hex_digit_def)

lemma is_hex_digit: "d < 16 \<Longrightarrow> is_hex (hex_digit d)"
  by (simp add: is_hex_def is_digit_def of_char_hex_digit)

definition uuid_positions :: "nat \<Rightarrow> char \<Rightarrow> bool" where
  "uuid_positions i c =
     (if i \<in> {8, 13, 18, 23} then c = CHR ''-''
      else if i = 14 then c = CHR ''4''
      else if i = 19 then c \<in> set ''89ab''
      else is_hex c)"

text \<open>The digits drawn in the iterations \<open>a\<close> to \<open>b - 1\<close>, which need no separator and no fixed bits.\<close>

abbreviation drawn :: "(nat \<Rightarrow> nat) \<Rightarrow> nat \<Rightarrow> nat \<Rightarrow> string" where
  "drawn r a b \<equiv> map (\<lambda>i. hex_digit (r i mod 16)) [a..<b]"

lemma uuid_plain_digits:
  assumes "\<And>i. i \<in> set is \<Longrightarrow> i \<notin> {8, 12, 16, 20}"
  shows "fold (\<lambda>i u. uuid_step i (r i mod 16) u) is u = u @ map (\<lambda>i. hex_digit (r i mod 16)) is"
  using assms by (induction "is" arbitrary: u) (simp_all add: uuid_step_def)

lemma upt_32: "[0..<32] = [0..<8] @ 8 # [9..<12] @ 12 # [13..<16] @ 16 # [17..<20] @ 20 # [21..<32]"
  by (simp add: upt_rec)

lemma uuid_digits:
  "uuid r = drawn r 0 8 @ ''-'' @ [hex_digit (r 8 mod 16)] @ drawn r 9 12 @ ''-'' @ [hex_digit 4] @ drawn r 13 16 @ ''-'' @
     [hex_digit (8 + r 16 mod 16 mod 4)] @ drawn r 17 20 @ ''-'' @ [hex_digit (r 20 mod 16)] @ drawn r 21 32"
  unfolding uuid_def upt_32 fold_append fold_simps comp_apply
  by (subst uuid_plain_digits, force)+ (simp add: uuid_step_def)

lemma variant_digit: "hex_digit (8 + d mod 4) \<in> set ''89ab''"
proof -
  have "d mod 4 = 0 \<or> d mod 4 = 1 \<or> d mod 4 = 2 \<or> d mod 4 = 3" by linarith
  then show ?thesis by (elim disjE) (simp_all add: hex_digit_def char_of_eq_iff)
qed

lemma version_digit: "hex_digit 4 = CHR ''4''"
  by (simp add: hex_digit_def char_of_eq_iff)

lemma list_all_enumerate_append:
  "list_all (\<lambda>(i, c). P i c) (enumerate n (xs @ ys)) \<longleftrightarrow>
     list_all (\<lambda>(i, c). P i c) (enumerate n xs) \<and> list_all (\<lambda>(i, c). P i c) (enumerate (n + length xs) ys)"
  by (simp add: enumerate_append_eq)

lemma drawn_positions:
  assumes "\<And>i. n \<le> i \<Longrightarrow> i < n + (b - a) \<Longrightarrow> i \<notin> {8, 13, 14, 18, 19, 23}"
  shows "list_all (\<lambda>(i, c). uuid_positions i c) (enumerate n (drawn r a b))"
proof -
  have "uuid_positions i c" if "(i, c) \<in> set (enumerate n (drawn r a b))" for i c
    using that assms [of i]
    by (auto simp: in_set_enumerate_eq uuid_positions_def is_hex_digit)
  then show ?thesis by (auto simp: list_all_iff)
qed

text \<open>
  Claim C39. Whatever random numbers are drawn, \<open>uuid\<close> yields a version-4 identifier: 36 characters in
  groups of 8, 4, 4, 4 and 12 lower-case hexadecimal digits, with the version digit 4 and a variant digit
  between 8 and b.
\<close>

theorem uuid_is_version_4:
  "length (uuid r) = 36 \<and> list_all (\<lambda>(i, c). uuid_positions i c) (enumerate 0 (uuid r))"
proof
  show "length (uuid r) = 36" by (simp add: uuid_digits)
  show "list_all (\<lambda>(i, c). uuid_positions i c) (enumerate 0 (uuid r))"
    unfolding uuid_digits list_all_enumerate_append
    using variant_digit [of "r 16 mod 16"]
    by (intro conjI drawn_positions) (auto simp: uuid_positions_def version_digit is_hex_digit)
qed

end
