(* ===== verification/Designer_Intents.thy ===== *)
theory Designer_Intents
  imports Designer_Ops
begin

text \<open>
  The designer and the master: the messages about service intents that the designer publishes, against
  the intents it stores.  The master's view is the map of intents that the master has after a sequence of
  messages: a \<open>DELETE\<close> ends the intent of that identifier, and any other action makes it active.
\<close>

section \<open>Serialisation\<close>

text \<open>Values as \<open>JSON.parse\<close> builds them: no references, no functions and nothing undefined.\<close>

fun tree :: "jval \<Rightarrow> bool" where
  "tree (JArr xs) = list_all (\<lambda>x. tree x) xs"
| "tree (JObj ps) = list_all (\<lambda>p. tree (snd p)) ps"
| "tree (JRef a) = False"
| "tree (JFun f) = False"
| "tree JUndef = False"
| "tree v = True"

lemma map_of_upd_own_other: "k \<noteq> l \<Longrightarrow> map_of (upd_own k v ps) l = map_of ps l"
  by (induction ps) auto

lemma map_of_upd_own_same: "map_of ps k = Some w \<Longrightarrow> map_of (upd_own k v ps) k = Some v"
  by (induction ps) (auto split: if_splits)

lemma tree_not_omitted: "tree v \<Longrightarrow> \<not> is_omitted v"
  by (cases v) auto

lemma json_at_tree: "tree v \<Longrightarrow> json_at n h v = v"
proof (induction n h v rule: json_at.induct)
  case (1 n h xs)
  then show ?case by (auto simp: list_all_iff tree_not_omitted intro: map_idI)
next
  case (2 n h ps)
  then have "filter (\<lambda>p. \<not> is_omitted (snd p)) ps = ps"
    by (auto simp: list_all_iff tree_not_omitted filter_id_conv)
  with 2 show ?case by (auto simp: list_all_iff intro: map_idI)
qed auto

lemma json_at_tree_cell:
  assumes "tree (JObj (cell h a))"
  shows "json_at (Suc n) h (JRef a) = JObj (cell h a)"
  using json_at_tree [OF assms, of n h] by simp

lemma json_tree_cell: "tree (JObj (cell h a)) \<Longrightarrow> json h (JRef a) = JObj (cell h a)"
  by (simp add: json_def json_at_tree_cell del: json_at.simps)

lemma tree_obj_put: "tree (JObj ps) \<Longrightarrow> tree v \<Longrightarrow> tree (JObj (obj_put k v ps))"
proof -
  have "\<And>k. tree (JObj ps) \<Longrightarrow> tree v \<Longrightarrow> tree (JObj (upd_own k v ps))" by (induction ps) auto
  moreover have "\<And>k. tree (JObj ps) \<Longrightarrow> tree v \<Longrightarrow> tree (JObj (canon_ins k v ps))" by (auto simp: list_all_iff)
  ultimately show "tree (JObj ps) \<Longrightarrow> tree v \<Longrightarrow> tree (JObj (obj_put k v ps))" unfolding obj_put_def by simp
qed

lemma json_metadata:
  assumes "tree (JObj (cell h a))"
  shows "json h (metadata_msg d (JRef a)) = metadata_msg d (JObj (cell h a))"
  using json_at_tree_cell [OF assms] by (simp add: json_def metadata_msg_def)

section \<open>What the master knows\<close>

text \<open>
  The service intents that the master keeps, \<open>Process\<close> in \<open>master/master.go\<close> and \<open>handleServiceIntentUpdate\<close> in
  \<open>master/serviceMgr.go\<close>: a message of the type \<open>ServiceIntent\<close> with the action \<open>DELETE\<close> removes the intent, any other action creates
  or replaces it, and a payload that is no object, or whose identifier or action is no string, is dropped. A string that is missing
  is empty. The other fields of the payload are taken to have the types that the master expects, and the answers of the designer about
  the topology to arrive.
\<close>

definition go_string :: "jval \<Rightarrow> string option" where
  "go_string v = (case v of JStr s \<Rightarrow> Some s | JUndef \<Rightarrow> Some [] | JNull \<Rightarrow> Some [] | _ \<Rightarrow> None)"

definition master_step :: "jval \<Rightarrow> (string \<rightharpoonup> jval) \<Rightarrow> (string \<rightharpoonup> jval)" where
  "master_step w m =
     (case w of
        JObj ps \<Rightarrow>
          (case (obj_get ps ''Type'' = JStr ''ServiceIntent'', obj_get ps ''PayLoad'') of
             (True, JObj qs) \<Rightarrow>
               (case (go_string (obj_get qs ''id''), go_string (obj_get qs ''action'')) of
                  (Some k, Some a) \<Rightarrow> (if a = ''DELETE'' then m(k := None) else m(k \<mapsto> JObj qs))
                | _ \<Rightarrow> m)
           | _ \<Rightarrow> m)
      | _ \<Rightarrow> m)"

definition master_view :: "jval list \<Rightarrow> string \<rightharpoonup> jval" where
  "master_view ws = fold master_step ws Map.empty"

definition intents_view :: "designer \<Rightarrow> string \<rightharpoonup> jval" where
  "intents_view s k = map_option (json (heap s)) (map_of (serviceintents s) k)"

lemma master_view_snoc: "master_view (ws @ [w]) = master_step w (master_view ws)"
  by (simp add: master_view_def)

lemma master_step_metadata:
  assumes "obj_get qs ''id'' = JStr k"
  shows "obj_get qs ''action'' = JStr ''ADD'' \<Longrightarrow> master_step (metadata_msg ''ServiceIntent'' (JObj qs)) m = m(k \<mapsto> JObj qs)"
    and "obj_get qs ''action'' = JStr ''DELETE'' \<Longrightarrow> master_step (metadata_msg ''ServiceIntent'' (JObj qs)) m = m(k := None)"
  using assms by (simp_all add: master_step_def metadata_msg_def go_string_def js_access)

section \<open>Requests one after the other\<close>

datatype intent_request = PostIntent props | DeleteIntent string

text \<open>A request that no other one interrupts.\<close>

fun serve :: "axios \<Rightarrow> string \<Rightarrow> intent_request \<Rightarrow> handler" where
  "serve axios u (PostIntent ps) s = complete axios u (post_intent (JObj ps) s)"
| "serve axios u (DeleteIntent k) s = complete axios u (delete_intent k s)"

text \<open>What the requests mean, and which requests are considered.\<close>

fun intent_spec :: "intent_request \<Rightarrow> (string \<rightharpoonup> jval) \<Rightarrow> (string \<rightharpoonup> jval)" where
  "intent_spec (PostIntent ps) m = m(js_str (obj_get ps ''id'') \<mapsto> JObj (obj_put ''action'' (JStr ''ADD'') ps))"
| "intent_spec (DeleteIntent k) m = m(k := None)"

fun request_ok :: "intent_request \<Rightarrow> bool" where
  "request_ok (PostIntent ps) =
     (tree (JObj ps) \<and> \<not> has_own ps ''hasOwnProperty'' \<and>
      (case obj_get ps ''id'' of JStr k \<Rightarrow> k \<notin> set object_proto | _ \<Rightarrow> False))"
| "request_ok (DeleteIntent k) = (k \<notin> set object_proto)"

definition intent_cell :: "store \<Rightarrow> string \<Rightarrow> jval \<Rightarrow> bool" where
  "intent_cell h k v =
     (case v of
        JRef a \<Rightarrow> a < length h \<and> tree (JObj (h ! a)) \<and> obj_get (h ! a) ''id'' = JStr k
      | _ \<Rightarrow> False)"

text \<open>
  The state between two requests: the channel is ready and accepts what is published, and each stored
  intent is a cell of its own that carries the identifier it is stored under.
\<close>

definition intents_inv :: "designer \<Rightarrow> bool" where
  "intents_inv s =
     (can_publish (rabbit s) \<and> (\<forall>n. amqp_answers s n = Accepted) \<and>
      (\<forall>k v. map_of (serviceintents s) k = Some v \<longrightarrow> intent_cell (heap s) k v) \<and>
      (\<forall>k l v. map_of (serviceintents s) k = Some v \<longrightarrow> map_of (serviceintents s) l = Some v \<longrightarrow> k = l))"

lemma intent_cell_iff:
  "intent_cell h k v \<longleftrightarrow> (\<exists>a. v = JRef a \<and> a < length h \<and> tree (JObj (h ! a)) \<and> obj_get (h ! a) ''id'' = JStr k)"
  by (auto simp: intent_cell_def split: jval.splits)

lemma intent_cell_append: "intent_cell h k v \<Longrightarrow> intent_cell (h @ cs) k v \<and> v \<noteq> JRef (length h)"
  by (auto simp: intent_cell_iff nth_append)

lemma intent_cell_new: "tree (JObj qs) \<Longrightarrow> obj_get qs ''id'' = JStr k \<Longrightarrow> intent_cell (h @ [qs]) k (JRef (length h))"
  by (simp add: intent_cell_iff del: tree.simps(2))

lemma publish_ready:
  assumes "can_publish (rabbit s)" and "amqp_answers s 0 = Accepted"
  shows "wire (rabbit (publishMetadata d v s)) = wire (rabbit s) @ [json (heap s) (metadata_msg d v)]"
    and "can_publish (rabbit (publishMetadata d v s))"
  using assms by (auto simp: publishMetadata_def Publish_def can_publish_def Let_def)

lemma publish_frame [simp]:
  "heap (publishMetadata d v s) = heap s" "serviceintents (publishMetadata d v s) = serviceintents s"
  "topologies (publishMetadata d v s) = topologies s" "operators (publishMetadata d v s) = operators s"
  "services (publishMetadata d v s) = services s" "fogfunctions (publishMetadata d v s) = fogfunctions s"
  "amqp_answers (publishMetadata d v s) n = amqp_answers s (Suc n)"
  "send_loaded_intents (publishMetadata d v s) = send_loaded_intents s"
  by (simp_all add: publishMetadata_def)

lemma cell_in: "a < length h \<Longrightarrow> cell h a = h ! a"
  by (simp add: cell_def)

lemma intents_view_cell:
  assumes "intents_inv s" and "map_of (serviceintents s) k = Some v"
  obtains a where "v = JRef a" "a < length (heap s)" "tree (JObj (heap s ! a))" "obj_get (heap s ! a) ''id'' = JStr k"
    "intents_view s k = Some (JObj (heap s ! a))"
proof -
  have "intent_cell (heap s) k v" using assms by (auto simp: intents_inv_def)
  then show ?thesis using that assms(2)
    by (auto simp: intent_cell_def intents_view_def json_tree_cell cell_in split: jval.splits)
qed

lemma post_intent_step:
  assumes "intents_inv s" and "request_ok (PostIntent ps)" and "master_view (wire (rabbit s)) = intents_view s"
  shows "\<exists>t. serve axios u (PostIntent ps) s = (t, Status 200) \<and> intents_inv t \<and>
     intents_view t = intent_spec (PostIntent ps) (intents_view s) \<and> master_view (wire (rabbit t)) = intents_view t"
proof -
  obtain k where k: "obj_get ps ''id'' = JStr k" "k \<notin> set object_proto" and tr: "tree (JObj ps)"
    and own: "\<not> has_own ps ''hasOwnProperty''"
    using assms(2) by (auto split: jval.splits)
  let ?n = "length (heap s)"
  let ?qs = "obj_put ''action'' (JStr ''ADD'') ps"
  let ?s1 = "db_write (s\<lparr>heap := heap s @ [ps], serviceintents := obj_put k (JRef ?n) (serviceintents s)\<rparr>)"
  let ?t = "publishMetadata ''ServiceIntent'' (JRef ?n) (?s1\<lparr>heap := heap s @ [?qs]\<rparr>)"
  have np: "k \<noteq> ''__proto__''" using k(2) by auto
  have "ps \<noteq> []" using k(1) by (auto simp: obj_get_Nil split: if_splits)
  then have "isEmpty (JObj ps) = Some False" using own by (cases ps) auto
  then have t: "serve axios u (PostIntent ps) s = (?t, Status 200)"
    using k(1) by (simp add: post_intent_def complete_def resume_def add_intent_def publish_intent_def cell_def)
  have qs: "tree (JObj ?qs)" "obj_get ?qs ''id'' = JStr k" "obj_get ?qs ''action'' = JStr ''ADD''"
    using tr k(1) by (simp_all add: tree_obj_put js_access del: tree.simps(2))
  have view: "intents_view ?t = intent_spec (PostIntent ps) (intents_view s)"
  proof
    fix l
    show "intents_view ?t l = intent_spec (PostIntent ps) (intents_view s) l"
    proof (cases "l = k")
      case True
      then show ?thesis using qs(1) k(1) np
        by (simp add: intents_view_def map_of_obj_put json_tree_cell cell_def del: tree.simps(2))
    next
      case False
      show ?thesis
      proof (cases "map_of (serviceintents s) l")
        case (Some v)
        then obtain a where "v = JRef a" "a < ?n" "tree (JObj (heap s ! a))" "intents_view s l = Some (JObj (heap s ! a))"
          using assms(1) intents_view_cell by blast
        with Some False np k(1) show ?thesis
          by (simp add: intents_view_def map_of_obj_put json_tree_cell cell_def nth_append del: tree.simps(2))
      qed (use False np k(1) in \<open>simp add: intents_view_def map_of_obj_put\<close>)
    qed
  qed
  have "intents_inv ?t"
    using assms(1) np intent_cell_new [OF qs(1,2), of "heap s"] intent_cell_append [where h = "heap s" and cs = "[?qs]"]
    unfolding intents_inv_def by (auto simp: map_of_obj_put publish_ready split: if_splits simp del: tree.simps(2)) blast+
  moreover have "wire (rabbit ?t) = wire (rabbit s) @ [metadata_msg ''ServiceIntent'' (JObj ?qs)]"
    using assms(1) qs(1) by (simp add: intents_inv_def publish_ready json_metadata cell_def del: tree.simps(2))
  then have "master_view (wire (rabbit ?t)) = intents_view ?t"
    using assms(3) qs view k(1) by (simp add: master_view_snoc master_step_metadata)
  ultimately show ?thesis using t view by blast
qed

lemma delete_intent_step:
  assumes "intents_inv s" and "request_ok (DeleteIntent k)" and "master_view (wire (rabbit s)) = intents_view s"
  shows "\<exists>t. serve axios u (DeleteIntent k) s = (t, Status (if intents_view s k = None then 404 else 200)) \<and>
     intents_inv t \<and> intents_view t = intent_spec (DeleteIntent k) (intents_view s) \<and>
     master_view (wire (rabbit t)) = intents_view t"
proof (cases "map_of (serviceintents s) k")
  case None
  moreover have "obj_get (serviceintents s) k = JUndef" using None assms(2) by (simp add: obj_get_absent)
  ultimately show ?thesis using assms
    by (simp add: delete_intent_def complete_def intents_view_def fun_upd_idem)
next
  case (Some v)
  with assms(1) obtain a where a: "v = JRef a" "a < length (heap s)" "tree (JObj (heap s ! a))"
      "obj_get (heap s ! a) ''id'' = JStr k" "intents_view s k = Some (JObj (heap s ! a))"
    by (rule intents_view_cell)
  let ?qs = "obj_put ''action'' (JStr ''DELETE'') (heap s ! a)"
  let ?p = "publishMetadata ''ServiceIntent'' v (s\<lparr>heap := (heap s)[a := ?qs]\<rparr>)"
  let ?t = "db_write (?p\<lparr>serviceintents := obj_del k (serviceintents ?p)\<rparr>)"
  have t: "serve axios u (DeleteIntent k) s = (?t, Status 200)"
    using Some a by (simp add: delete_intent_def publish_intent_def complete_def resume_def obj_get_own cell_in)
  have qs: "tree (JObj ?qs)" "obj_get ?qs ''id'' = JStr k" "obj_get ?qs ''action'' = JStr ''DELETE''"
    using a by (simp_all add: tree_obj_put js_access del: tree.simps(2))
  have other: "\<exists>b. w = JRef b \<and> b < length (heap s) \<and> b \<noteq> a \<and> tree (JObj (heap s ! b)) \<and>
      obj_get (heap s ! b) ''id'' = JStr l \<and> intents_view s l = Some (JObj (heap s ! b))"
    if l: "map_of (serviceintents s) l = Some w" "l \<noteq> k" for l w
  proof -
    obtain b where "w = JRef b" "b < length (heap s)" "tree (JObj (heap s ! b))" "obj_get (heap s ! b) ''id'' = JStr l"
        "intents_view s l = Some (JObj (heap s ! b))"
      using assms(1) l(1) by (rule intents_view_cell)
    moreover have "b \<noteq> a" using assms(1) l Some a(1) \<open>w = JRef b\<close> by (auto simp: intents_inv_def)
    ultimately show ?thesis by blast
  qed
  have view: "intents_view ?t l = ((intents_view s)(k := None)) l" for l
  proof (cases "l = k")
    case True
    then show ?thesis by (simp add: intents_view_def map_of_obj_del)
  next
    case False
    show ?thesis
    proof (cases "map_of (serviceintents s) l")
      case (Some w)
      then obtain b where "w = JRef b" "b < length (heap s)" "b \<noteq> a" "tree (JObj (heap s ! b))"
          "intents_view s l = Some (JObj (heap s ! b))"
        using other False by blast
      with Some False show ?thesis
        by (simp add: intents_view_def map_of_obj_del json_tree_cell cell_def del: tree.simps(2))
    qed (use False in \<open>simp add: intents_view_def map_of_obj_del\<close>)
  qed
  have "intent_cell (heap ?t) l w" if "map_of (serviceintents s) l = Some w" "l \<noteq> k" for l w
    using other [OF that] by (auto simp: intent_cell_iff simp del: tree.simps(2))
  then have "intents_inv ?t"
    using assms(1) unfolding intents_inv_def
    by (auto simp: map_of_obj_del publish_ready split: if_splits)
  moreover have "wire (rabbit ?t) = wire (rabbit s) @ [metadata_msg ''ServiceIntent'' (JObj ?qs)]"
    using assms(1) qs(1) a(1,2) by (simp add: intents_inv_def publish_ready json_metadata cell_def del: tree.simps(2))
  then have "master_view (wire (rabbit ?t)) = intents_view ?t"
    using assms(3) qs view by (simp add: master_view_snoc master_step_metadata fun_eq_iff)
  ultimately show ?thesis using t view a(5) by (auto simp: fun_eq_iff)
qed

lemma serve_refines:
  assumes "intents_inv s \<and> master_view (wire (rabbit s)) = intents_view s" and "request_ok r"
  shows "\<exists>t c. serve axios u r s = (t, c) \<and> (intents_inv t \<and> master_view (wire (rabbit t)) = intents_view t) \<and>
     intents_view t = intent_spec r (intents_view s)"
proof (cases r)
  case (PostIntent ps)
  then show ?thesis using post_intent_step [of s ps axios u] assms by (auto simp del: request_ok.simps intent_spec.simps)
next
  case (DeleteIntent k)
  then show ?thesis using delete_intent_step [of s k axios u] assms by (auto simp del: request_ok.simps intent_spec.simps)
qed

interpretation intents: stepwise_refinement "\<lambda>r s. (fst (serve axios u r s), True)" "\<lambda>rs s. (fold (\<lambda>r t. fst (serve axios u r t)) rs s, True)"
    "\<lambda>s. intents_inv s \<and> master_view (wire (rabbit s)) = intents_view s" request_ok intents_view intent_spec for axios u
proof
  fix s r
  assume "intents_inv s \<and> master_view (wire (rabbit s)) = intents_view s" and "request_ok r"
  from serve_refines [OF this, of axios u]
  show "\<exists>t. (fst (serve axios u r s), True) = (t, True) \<and> (intents_inv t \<and> master_view (wire (rabbit t)) = intents_view t) \<and>
      intents_view t = intent_spec r (intents_view s)"
    by auto
qed auto

text \<open>
  Claim C1. Requests about intents that are served one after the other, over a ready channel: the stored
  intents are at every point those that the requests ask for, and the master, reading the published
  messages, knows exactly the stored intents, each with the content that was posted.
\<close>

theorem master_follows_intents:
  assumes "intents_inv s" and "master_view (wire (rabbit s)) = intents_view s" and "list_all request_ok rs"
  shows "intents_view (fold (\<lambda>r t. fst (serve axios u r t)) rs s) = fold intent_spec rs (intents_view s) \<and>
         master_view (wire (rabbit (fold (\<lambda>r t. fst (serve axios u r t)) rs s))) =
           intents_view (fold (\<lambda>r t. fst (serve axios u r t)) rs s)"
  using intents.run_refines [OF conjI [OF assms(1,2)] assms(3), of axios u] by simp

definition connected_designer :: designer where
  "connected_designer =
     (db_load db_default (\<lambda>n. Accepted) (\<lambda>n. n))\<lparr>rabbit := init_mq\<lparr>isReady := True, amqpConn := Some 0, amqpChannel := Some 0\<rparr>\<rparr>"

lemma connected_designer_inv:
  "intents_inv connected_designer" "master_view (wire (rabbit connected_designer)) = intents_view connected_designer"
  by (simp_all add: connected_designer_def db_load_default init_mq_def intents_inv_def can_publish_def
      master_view_def intents_view_def fun_eq_iff)

theorem master_follows_intents_witness:
  "master_view (wire (rabbit (fold (\<lambda>r t. fst (serve (\<lambda>rq. Inl JNull) [] r t))
     [PostIntent [(''id'', JStr ''i1''), (''topology'', JStr ''T'')], PostIntent [(''id'', JStr ''i2'')], DeleteIntent ''i2'']
     connected_designer))) ''i1'' =
   Some (JObj [(''id'', JStr ''i1''), (''topology'', JStr ''T''), (''action'', JStr ''ADD'')])"
  using master_follows_intents [OF connected_designer_inv, of
      "[PostIntent [(''id'', JStr ''i1''), (''topology'', JStr ''T'')], PostIntent [(''id'', JStr ''i2'')], DeleteIntent ''i2'']"
      "\<lambda>rq. Inl JNull" "[]"]
  by (simp add: js_access js_literal)

section \<open>Requests that overlap\<close>

text \<open>
  Claim C40. A \<open>DELETE\<close> served while the \<open>POST\<close> of the same intent waits for the database to be written:
  the \<open>ADD\<close> is published after the \<open>DELETE\<close>, so that the intent stays active at the master although the
  designer stores it no more, and both requests are answered with 200.
\<close>

theorem overlapping_delete_leaves_active_intent:
  assumes "can_publish (rabbit s)" and "\<forall>n. amqp_answers s n = Accepted" and "request_ok (PostIntent ps)"
    and "obj_get ps ''id'' = JStr k"
  shows "\<exists>s1 c s2 s3. post_intent (JObj ps) s = (s1, Awaiting c) \<and> serve axios u (DeleteIntent k) s1 = (s2, Status 200) \<and>
     resume axios u c s2 = (s3, Status 200) \<and> map_of (serviceintents s3) k = None \<and>
     master_view (wire (rabbit s3)) k = Some (JObj (obj_put ''action'' (JStr ''ADD'') ps))"
proof -
  let ?n = "length (heap s)"
  let ?d = "obj_put ''action'' (JStr ''DELETE'') ps"
  let ?a = "obj_put ''action'' (JStr ''ADD'') ps"
  let ?s1 = "db_write (s\<lparr>heap := heap s @ [ps], serviceintents := obj_put k (JRef ?n) (serviceintents s)\<rparr>)"
  let ?p = "publishMetadata ''ServiceIntent'' (JRef ?n) (?s1\<lparr>heap := heap s @ [?d]\<rparr>)"
  let ?s2 = "db_write (?p\<lparr>serviceintents := obj_del k (serviceintents ?p)\<rparr>)"
  let ?s3 = "publishMetadata ''ServiceIntent'' (JRef ?n) (?s2\<lparr>heap := heap s @ [?a]\<rparr>)"
  have np: "k \<noteq> ''__proto__''" and tr: "tree (JObj ps)" and own: "\<not> has_own ps ''hasOwnProperty''"
    using assms(3,4) by auto
  have "ps \<noteq> []" using assms(4) by (auto simp: obj_get_Nil split: if_splits)
  then have "isEmpty (JObj ps) = Some False" using own by (cases ps) auto
  then have 1: "post_intent (JObj ps) s = (?s1, Awaiting (AddIntent (JRef ?n)))"
    using assms(4) by (simp add: post_intent_def)
  have 2: "serve axios u (DeleteIntent k) ?s1 = (?s2, Status 200)"
    using np by (simp add: delete_intent_def publish_intent_def complete_def resume_def js_access cell_def Let_def)
  have 3: "resume axios u (AddIntent (JRef ?n)) ?s2 = (?s3, Status 200)"
    by (simp add: resume_def add_intent_def publish_intent_def cell_def js_access)
  have "tree (JObj ?a)" "obj_get ?a ''id'' = JStr k" "obj_get ?a ''action'' = JStr ''ADD''"
    using tr assms(4) by (simp_all add: tree_obj_put js_access del: tree.simps(2))
  then have "master_view (wire (rabbit ?s3)) k = Some (JObj ?a)"
    using assms(1,2) by (simp add: publish_ready json_metadata cell_def master_view_def master_step_metadata del: tree.simps(2))
  moreover have "map_of (serviceintents ?s3) k = None" by (simp add: map_of_obj_del)
  ultimately show ?thesis using 1 2 3 by blast
qed

theorem overlapping_delete_leaves_active_intent_witness:
  "\<exists>s1 c s2 s3. post_intent (JObj [(''id'', JStr ''i1'')]) connected_designer = (s1, Awaiting c) \<and>
     serve (\<lambda>rq. Inl JNull) [] (DeleteIntent ''i1'') s1 = (s2, Status 200) \<and>
     resume (\<lambda>rq. Inl JNull) [] c s2 = (s3, Status 200) \<and> map_of (serviceintents s3) ''i1'' = None \<and>
     master_view (wire (rabbit s3)) ''i1'' = Some (JObj (obj_put ''action'' (JStr ''ADD'') [(''id'', JStr ''i1'')]))"
  by (rule overlapping_delete_leaves_active_intent)
    (simp_all add: connected_designer_def db_load_default init_mq_def can_publish_def js_access js_literal has_own_def)

section \<open>Messages that wait in the queue\<close>

lemma publish_queued:
  assumes "\<not> can_publish (rabbit s)"
  shows "pendingMessages (rabbit (publishMetadata d v s)) = pendingMessages (rabbit s) @ [metadata_msg d v]"
    and "\<not> can_publish (rabbit (publishMetadata d v s))"
  using assms by (auto simp: publishMetadata_def Publish_def can_publish_def connect_def Let_def split: option.split bool.split)

text \<open>Switching a fog function sets its status and the action of its intent, and queues the intent.\<close>

lemma switch_queued:
  assumes "\<not> can_publish (rabbit s)" and "map_of (fogfunctions s) name = Some (JRef f)" and "f < length (heap s)"
    and "obj_get (heap s ! f) ''intent'' = JRef i" and "i < length (heap s)" and "i \<noteq> f"
  shows "heap (fst (switch_fogfunction st act name s)) =
           (heap s)[f := obj_put ''status'' (JStr st) (heap s ! f), i := obj_put ''action'' (JStr act) (heap s ! i)]"
    and "pendingMessages (rabbit (fst (switch_fogfunction st act name s))) =
           pendingMessages (rabbit s) @ [metadata_msg ''ServiceIntent'' (JRef i)]"
    and "\<not> can_publish (rabbit (fst (switch_fogfunction st act name s)))"
    and "fogfunctions (fst (switch_fogfunction st act name s)) = fogfunctions s"
  using assms
  by (simp_all add: switch_fogfunction_def write_then_def publish_intent_def publish_queued obj_get_own cell_def js_access Let_def)

text \<open>
  While the channel is not ready, enabling and then disabling a fog function queues two messages
  that share the intent object; when the queue is flushed, both are serialised with the action \<open>DELETE\<close>, and
  the \<open>ADD\<close> that was requested first is never sent.
\<close>

theorem queued_messages_share_the_intent:
  assumes "\<not> can_publish (rabbit s)" and "map_of (fogfunctions s) name = Some (JRef f)" and "f < length (heap s)"
    and "obj_get (heap s ! f) ''intent'' = JRef i" and "i < length (heap s)" and "i \<noteq> f" and "tree (JObj (heap s ! i))"
  shows "let s2 = fst (disable_fogfunction name (fst (enable_fogfunction name s)));
             m = metadata_msg ''ServiceIntent'' (JObj (obj_put ''action'' (JStr ''DELETE'') (heap s ! i)))
         in map (json (heap s2)) (pendingMessages (rabbit s2)) = map (json (heap s2)) (pendingMessages (rabbit s)) @ [m, m]"
proof -
  let ?s1 = "fst (enable_fogfunction name s)"
  note e = switch_queued [OF assms(1-6), of "''enabled''" "''ADD''", folded enable_fogfunction_def]
  have "\<not> can_publish (rabbit ?s1)" "map_of (fogfunctions ?s1) name = Some (JRef f)" "f < length (heap ?s1)"
      "obj_get (heap ?s1 ! f) ''intent'' = JRef i" "i < length (heap ?s1)"
    using assms e by (simp_all add: js_access)
  note d = switch_queued [OF this assms(6), of "''disabled''" "''DELETE''", folded disable_fogfunction_def]
  let ?s2 = "fst (disable_fogfunction name ?s1)"
  have "cell (heap ?s2) i = obj_put ''action'' (JStr ''DELETE'') (heap s ! i)"
    using assms(3,5,6) d(1) e(1) by (simp add: cell_def js_access)
  moreover have "tree (JObj (obj_put ''action'' (JStr ''DELETE'') (heap s ! i)))"
    using assms(7) by (rule tree_obj_put) simp
  ultimately have "json (heap ?s2) (metadata_msg ''ServiceIntent'' (JRef i)) =
      metadata_msg ''ServiceIntent'' (JObj (obj_put ''action'' (JStr ''DELETE'') (heap s ! i)))"
    by (simp add: json_metadata del: tree.simps(2))
  then show ?thesis using d(2) e(2) by (simp add: Let_def)
qed

definition offline_designer :: designer where
  "offline_designer =
     (db_load db_default (\<lambda>n. Accepted) (\<lambda>n. n))\<lparr>heap := [[(''name'', JStr ''F''), (''intent'', JRef 1)], [(''id'', JStr ''i1'')]],
        fogfunctions := [(''F'', JRef 0)]\<rparr>"

theorem queued_messages_share_the_intent_witness:
  "let s2 = fst (disable_fogfunction ''F'' (fst (enable_fogfunction ''F'' offline_designer)));
       m = metadata_msg ''ServiceIntent'' (JObj (obj_put ''action'' (JStr ''DELETE'') (heap offline_designer ! 1)))
   in map (json (heap s2)) (pendingMessages (rabbit s2)) = map (json (heap s2)) (pendingMessages (rabbit offline_designer)) @ [m, m]"
  by (rule queued_messages_share_the_intent [where f = 0])
    (simp_all add: offline_designer_def db_load_default init_mq_def can_publish_def js_access)

end
