(* ===== verification/Designer_Restart.thy ===== *)
theory Designer_Restart
  imports Designer_Intents
begin

text \<open>
  What survives a restart of the designer, and what the restarted designer tells the master and the broker:
  the database that is read back from the file, the intents and fog functions that are issued again, the
  services, fog functions, subscriptions and devices as the requests store them.
\<close>

section \<open>Loading what was written\<close>

text \<open>\<open>grows h h'\<close>: the store has new cells and its old ones are as before.\<close>

definition grows :: "store \<Rightarrow> store \<Rightarrow> bool" where
  "grows h h' = (\<exists>cs. h' = h @ cs)"

lemma grows_refl [simp]: "grows h h"
  by (simp add: grows_def)

lemma grows_trans: "grows h1 h2 \<Longrightarrow> grows h2 h3 \<Longrightarrow> grows h1 h3"
  by (auto simp: grows_def)

lemma grows_cell: "grows h h' \<Longrightarrow> a < length h \<Longrightarrow> cell h' a = cell h a"
  by (auto simp: grows_def cell_def nth_append)

lemma grows_length: "grows h h' \<Longrightarrow> length h \<le> length h'"
  by (auto simp: grows_def)

text \<open>
  \<open>stands_for k h v w\<close>: in every store that extends \<open>h\<close>, the value \<open>v\<close> is serialised as \<open>w\<close>, and following
  \<open>k\<close> references on a path is enough for that.
\<close>

definition stands_for :: "nat \<Rightarrow> store \<Rightarrow> jval \<Rightarrow> jval \<Rightarrow> bool" where
  "stands_for k h v w = (\<not> is_omitted v \<and> (\<forall>h' n. grows h h' \<longrightarrow> json_at (k + n) h' v = w))"

definition stand_for :: "nat \<Rightarrow> store \<Rightarrow> props \<Rightarrow> props \<Rightarrow> bool" where
  "stand_for k h ps qs = list_all2 (\<lambda>p q. fst p = fst q \<and> stands_for k h (snd p) (snd q)) ps qs"

lemma stands_for_grows: "stands_for k h v w \<Longrightarrow> grows h h' \<Longrightarrow> stands_for k h' v w"
  unfolding stands_for_def using grows_trans by blast

lemma stand_for_grows: "stand_for k h ps qs \<Longrightarrow> grows h h' \<Longrightarrow> stand_for k h' ps qs"
  unfolding stand_for_def by (erule list_all2_mono) (auto intro: stands_for_grows)

lemma stands_for_mono: "stands_for k h v w \<Longrightarrow> k \<le> m \<Longrightarrow> stands_for m h v w"
  unfolding stands_for_def by (metis add.assoc le_Suc_ex)

lemma stand_for_mono: "stand_for k h ps qs \<Longrightarrow> k \<le> m \<Longrightarrow> stand_for m h ps qs"
  unfolding stand_for_def by (erule list_all2_mono) (auto intro: stands_for_mono)

lemma stands_for_tree: "tree v \<Longrightarrow> stands_for k h v v"
  by (simp add: stands_for_def json_at_tree tree_not_omitted)

lemma stand_for_tree: "tree (JObj ps) \<Longrightarrow> stand_for k h ps ps"
  by (simp add: stand_for_def list_all_iff stands_for_tree list_all2_same)

lemma stand_for_read:
  assumes "stand_for k h ps qs" and "grows h h'"
  shows "map (\<lambda>p. (fst p, json_at (k + n) h' (snd p))) (filter (\<lambda>p. \<not> is_omitted (snd p)) ps) = qs"
  using assms unfolding stand_for_def
  by (induction rule: list_all2_induct) (auto simp: stands_for_def)

lemma stands_for_obj: "stand_for k h ps qs \<Longrightarrow> stands_for k h (JObj ps) (JObj qs)"
  using stand_for_read by (simp add: stands_for_def)

text \<open>An object that is moved into the store needs one more reference to be followed.\<close>

lemma stands_for_alloc_obj:
  assumes "stand_for k h ps qs"
  shows "stands_for (Suc k) (h @ [ps]) (JRef (length h)) (JObj qs)"
proof -
  have "json_at (Suc k + n) h' (JRef (length h)) = JObj qs" if "grows (h @ [ps]) h'" for h' n
  proof -
    have "cell h' (length h) = ps" using that by (simp add: grows_cell) (simp add: cell_def)
    moreover have "grows h h'" using that by (auto simp: grows_def)
    ultimately show ?thesis using stand_for_read [OF assms] by simp
  qed
  then show ?thesis by (simp add: stands_for_def)
qed

lemma alloc_tree:
  assumes "tree v" and "alloc v h = (v', h')"
  shows "grows h h' \<and> stands_for 1 h' v' v"
proof (cases v)
  case (JObj ps)
  then show ?thesis
    using assms stands_for_alloc_obj [OF stand_for_tree, of ps 0 h] by (auto simp: grows_def simp del: tree.simps(2))
qed (use assms in \<open>auto simp: stands_for_tree\<close>)

lemma stand_for_upd_own:
  assumes "stand_for k h ps qs" and "map_of qs key = Some w" and "stands_for k h v w"
  shows "stand_for k h (upd_own key v ps) qs"
  using assms unfolding stand_for_def
proof (induction ps arbitrary: qs)
  case (Cons p ps)
  then obtain q qs' where "qs = q # qs'" "fst p = fst q" "stands_for k h (snd p) (snd q)"
      "list_all2 (\<lambda>p q. fst p = fst q \<and> stands_for k h (snd p) (snd q)) ps qs'"
    by (auto simp: list_all2_Cons1)
  with Cons show ?case by (cases p; cases q) (auto split: if_splits)
qed simp

text \<open>Moving fields of an object that still hold their original values into the store.\<close>

lemma alloc_fields_stand_for:
  assumes "stand_for 1 h ps qs" and "tree (JObj qs)" and "\<forall>k \<in> set ks. map_of ps k = map_of qs k" and "distinct ks"
    and "alloc_fields ks (JObj ps) h = (v, h')"
  shows "\<exists>ps'. v = JObj ps' \<and> grows h h' \<and> stand_for 1 h' ps' qs"
  using assms
proof (induction ks arbitrary: ps h)
  case Nil
  then show ?case by auto
next
  case (Cons k ks)
  show ?case
  proof (cases "map_of qs k")
    case None
    with Cons show ?thesis by auto
  next
    case (Some w)
    obtain w' h1 where al: "alloc w h = (w', h1)" by fastforce
    have "tree w" using Some Cons.prems(2) by (force simp: list_all_iff dest: map_of_SomeD)
    then have g: "grows h h1" and st: "stands_for 1 h1 w' w" using alloc_tree al by blast+
    have "stand_for 1 h1 (upd_own k w' ps) qs"
      by (rule stand_for_upd_own [OF stand_for_grows [OF Cons.prems(1) g] Some st])
    moreover have "\<forall>l \<in> set ks. map_of (upd_own k w' ps) l = map_of qs l"
      using Cons.prems(3,4) by (auto simp: map_of_upd_own)
    moreover have "alloc_fields ks (JObj (upd_own k w' ps)) h1 = (v, h')"
      using Cons.prems(3,5) Some al by simp
    ultimately obtain ps' where "v = JObj ps'" "grows h1 h'" "stand_for 1 h' ps' qs"
      using Cons.IH [of h1 "upd_own k w' ps"] Cons.prems(2,4) by auto
    with g show ?thesis using grows_trans by blast
  qed
qed

lemma alloc_fields_tree:
  assumes "tree v" and "distinct ks" and "alloc_fields ks v h = (v', h')"
  shows "grows h h' \<and> stands_for 1 h' v' v \<and> (\<forall>ps. v = JObj ps \<longrightarrow> (\<exists>ps'. v' = JObj ps' \<and> stand_for 1 h' ps' ps))"
proof (cases v)
  case (JObj ps)
  then obtain ps' where "v' = JObj ps'" "grows h h'" "stand_for 1 h' ps' ps"
    using alloc_fields_stand_for [of h ps ps ks v' h'] assms stand_for_tree by auto
  then show ?thesis using JObj stands_for_obj by auto
qed (use assms in \<open>cases ks; auto simp: stands_for_tree\<close>)+

lemma alloc_fogfunction_tree:
  assumes "tree v" and "alloc_fogfunction v h = (v', h')"
  shows "grows h h' \<and> stands_for 2 h' v' v"
proof -
  obtain w h1 where al: "alloc_fields [''topology'', ''intent''] v h = (w, h1)" by fastforce
  note 1 = alloc_fields_tree [OF assms(1) _ al]
  show ?thesis
  proof (cases v)
    case (JObj ps)
    then obtain ps' where ps': "w = JObj ps'" "stand_for 1 h1 ps' ps" "grows h h1" using 1 by auto
    then have "v' = JRef (length h1)" "h' = h1 @ [ps']"
      using assms(2) al by (auto simp: alloc_fogfunction_def)
    then show ?thesis using stands_for_alloc_obj [OF ps'(2)] ps'(3) JObj
      by (auto simp: grows_def numeral_2_eq_2)
  qed (use assms in \<open>auto simp: alloc_fogfunction_def stands_for_tree\<close>)
qed

lemma load_section_stand_for:
  assumes "\<And>v h v' h'. tree v \<Longrightarrow> f v h = (v', h') \<Longrightarrow> grows h h' \<and> stands_for k h' v' v"
    and "tree (JObj ps)" and "load_section f ps h = (ps', h')"
  shows "grows h h' \<and> stand_for k h' ps' ps"
  using assms(2,3)
proof (induction ps arbitrary: h ps' h')
  case Nil
  then show ?case by (simp add: stand_for_def)
next
  case (Cons p ps)
  obtain key v where p: "p = (key, v)" by fastforce
  obtain v' h1 where fv: "f v h = (v', h1)" by fastforce
  obtain qs h2 where ls: "load_section f ps h1 = (qs, h2)" by fastforce
  have g1: "grows h h1" and s1: "stands_for k h1 v' v" using assms(1) [OF _ fv] Cons.prems(1) p by auto
  have g2: "grows h1 h2" and s2: "stand_for k h2 qs ps" using Cons.IH [OF _ ls] Cons.prems(1) p by auto
  have "ps' = (key, v') # qs" "h' = h2" using Cons.prems(2) p fv ls by auto
  with s2 stands_for_grows [OF s1 g2] grows_trans [OF g1 g2] show ?case by (simp add: p stand_for_def)
qed

lemma tree_json_at: "\<not> is_omitted v \<Longrightarrow> tree (json_at n h v)"
  by (induction n h v rule: json_at.induct) (auto simp: list_all_iff)

lemma json_db_data:
  "json (heap s) (db_data s) =
     JObj [(''devices'', json (heap s) (JObj (devices s))), (''subscriptions'', json (heap s) (JObj (subscriptions s))),
       (''operators'', json (heap s) (JObj (operators s))), (''topologies'', json (heap s) (JObj (topologies s))),
       (''services'', json (heap s) (JObj (services s))), (''serviceintents'', json (heap s) (JObj (serviceintents s))),
       (''fogfunctions'', json (heap s) (JObj (fogfunctions s)))]"
  by (simp add: json_def db_data_def)

lemma json_stand_for: "stand_for k h ps qs \<Longrightarrow> grows h h' \<Longrightarrow> k \<le> 2 \<Longrightarrow> json h' (JObj ps) = JObj qs"
  using stands_for_obj [OF stand_for_mono [of k h ps qs 2]] by (simp add: json_def stands_for_def numeral_2_eq_2 del: json_at.simps)

definition db_file :: "props \<Rightarrow> props \<Rightarrow> props \<Rightarrow> props \<Rightarrow> props \<Rightarrow> props \<Rightarrow> props \<Rightarrow> jval" where
  "db_file devs subs ops tops svcs ints fogs =
     JObj [(''devices'', JObj devs), (''subscriptions'', JObj subs), (''operators'', JObj ops), (''topologies'', JObj tops),
       (''services'', JObj svcs), (''serviceintents'', JObj ints), (''fogfunctions'', JObj fogs)]"

text \<open>The sections that are loaded one after the other.\<close>

lemma db_load_file:
  assumes "tree (db_file devs subs ops tops svcs ints fogs)"
  shows "json (heap (db_load (db_file devs subs ops tops svcs ints fogs) answers random))
           (db_data (db_load (db_file devs subs ops tops svcs ints fogs) answers random)) =
         db_file devs subs ops tops svcs ints fogs"
proof -
  let ?d = "db_file devs subs ops tops svcs ints fogs"
  obtain ops' h1 where l1: "load_section alloc ops [] = (ops', h1)" by fastforce
  obtain tops' h2 where l2: "load_section alloc tops h1 = (tops', h2)" by fastforce
  obtain svcs' h3 where l3: "load_section alloc_service svcs h2 = (svcs', h3)" by fastforce
  obtain ints' h4 where l4: "load_section alloc ints h3 = (ints', h4)" by fastforce
  obtain fogs' h5 where l5: "load_section alloc_fogfunction fogs h4 = (fogs', h5)" by fastforce
  have t: "tree (JObj devs)" "tree (JObj subs)" "tree (JObj ops)" "tree (JObj tops)" "tree (JObj svcs)" "tree (JObj ints)"
      "tree (JObj fogs)"
    using assms by (simp_all add: db_file_def)
  have sec: "section_of ?d ''operators'' = ops" "section_of ?d ''topologies'' = tops" "section_of ?d ''services'' = svcs"
      "section_of ?d ''serviceintents'' = ints" "section_of ?d ''fogfunctions'' = fogs" "section_of ?d ''devices'' = devs"
      "section_of ?d ''subscriptions'' = subs"
    by (simp_all add: section_of_def db_file_def js_access)
  have g1: "stand_for 1 h1 ops' ops" using load_section_stand_for [OF alloc_tree t(3) l1] by blast
  have g2: "grows h1 h2" "stand_for 1 h2 tops' tops" using load_section_stand_for [OF alloc_tree t(4) l2] by blast+
  have "\<And>v h v' h'. tree v \<Longrightarrow> alloc_service v h = (v', h') \<Longrightarrow> grows h h' \<and> stands_for 1 h' v' v"
    unfolding alloc_service_def by (metis alloc_fields_tree distinct_singleton)
  then have g3: "grows h2 h3" "stand_for 1 h3 svcs' svcs" using load_section_stand_for [OF _ t(5) l3] by blast+
  have g4: "grows h3 h4" "stand_for 1 h4 ints' ints" using load_section_stand_for [OF alloc_tree t(6) l4] by blast+
  have g5: "grows h4 h5" "stand_for 2 h5 fogs' fogs" using load_section_stand_for [OF alloc_fogfunction_tree t(7) l5] by blast+
  have g: "grows h1 h5" "grows h2 h5" "grows h3 h5" using g2 g3 g4 g5 grows_trans by blast+
  have "json h5 (JObj ops') = JObj ops" "json h5 (JObj tops') = JObj tops" "json h5 (JObj svcs') = JObj svcs"
      "json h5 (JObj ints') = JObj ints" "json h5 (JObj fogs') = JObj fogs" "json h5 (JObj devs) = JObj devs"
      "json h5 (JObj subs) = JObj subs"
    using json_stand_for [OF g1 g(1)] json_stand_for [OF g2(2) g(2)] json_stand_for [OF g3(2) g(3)]
      json_stand_for [OF g4(2) g5(1)] json_stand_for [OF g5(2)] json_at_tree [OF t(1)] json_at_tree [OF t(2)]
    by (simp_all add: json_def del: json_at.simps)
  then show ?thesis
    unfolding json_db_data by (simp add: db_load_def sec l1 l2 l3 l4 l5 Let_def) (simp add: db_file_def)
qed

lemma db_read_written:
  obtains devs subs ops tops svcs ints fogs where
    "json (heap s) (JObj (devices s)) = JObj devs" "json (heap s) (JObj (subscriptions s)) = JObj subs"
    "json (heap s) (JObj (operators s)) = JObj ops" "json (heap s) (JObj (topologies s)) = JObj tops"
    "json (heap s) (JObj (services s)) = JObj svcs" "json (heap s) (JObj (serviceintents s)) = JObj ints"
    "json (heap s) (JObj (fogfunctions s)) = JObj fogs" "json (heap s) (db_data s) = db_file devs subs ops tops svcs ints fogs"
    "tree (db_file devs subs ops tops svcs ints fogs)"
    "db_read (disk (db_write s)) answers random = Some (db_load (db_file devs subs ops tops svcs ints fogs) answers random)"
proof -
  have obj: "\<exists>qs. json (heap s) (JObj ps) = JObj qs" for ps by (simp add: json_def)
  obtain devs subs ops tops svcs ints fogs where
    sec: "json (heap s) (JObj (devices s)) = JObj devs" "json (heap s) (JObj (subscriptions s)) = JObj subs"
    "json (heap s) (JObj (operators s)) = JObj ops" "json (heap s) (JObj (topologies s)) = JObj tops"
    "json (heap s) (JObj (services s)) = JObj svcs" "json (heap s) (JObj (serviceintents s)) = JObj ints"
    "json (heap s) (JObj (fogfunctions s)) = JObj fogs"
    using obj by metis
  then have d: "json (heap s) (db_data s) = db_file devs subs ops tops svcs ints fogs"
    by (simp add: json_db_data db_file_def)
  have "tree (json (heap s) (db_data s))"
    unfolding json_def by (rule tree_json_at) (simp add: db_data_def)
  moreover have "db_read (db_file devs subs ops tops svcs ints fogs) answers random =
      Some (db_load (db_file devs subs ops tops svcs ints fogs) answers random)"
    by (simp add: db_read_def db_complete_def db_sections_def db_file_def js_access)
  ultimately show thesis using sec d that by (simp add: db_write_def)
qed

text \<open>
  A restart loses nothing that was written: the database that a new designer reads from the file
  serialises to exactly what the old one had in memory when it last wrote the file, although objects that
  were shared between two sections are separate after the restart.
\<close>

theorem restart_preserves_database:
  "\<exists>r. db_read (disk (db_write s)) answers random = Some r \<and> json (heap r) (db_data r) = json (heap s) (db_data s)"
  by (rule db_read_written [of s answers random]) (use db_load_file in auto)

section \<open>Issuing the loaded intents\<close>

text \<open>The two stores differ at most in the \<open>action\<close> of some objects.\<close>

definition same_but_action :: "store \<Rightarrow> store \<Rightarrow> bool" where
  "same_but_action h h' =
     (length h' = length h \<and>
      (\<forall>a. \<exists>x. cell h' a = cell h a \<or> cell h' a = obj_put ''action'' x (cell h a)))"

lemma same_but_action_refl [simp]: "same_but_action h h"
  by (auto simp: same_but_action_def)

lemma same_but_action_get:
  assumes "same_but_action h h'" and "k \<noteq> ''action''"
  shows "obj_get (cell h' a) k = obj_get (cell h a) k"
proof -
  obtain x where "cell h' a = cell h a \<or> cell h' a = obj_put ''action'' x (cell h a)"
    using assms(1) by (auto simp: same_but_action_def)
  with assms(2) show ?thesis by (auto simp: js_access)
qed

lemma same_but_action_put:
  assumes "same_but_action h h'"
  shows "obj_put ''action'' v (cell h' a) = obj_put ''action'' v (cell h a)"
proof -
  obtain x where "cell h' a = cell h a \<or> cell h' a = obj_put ''action'' x (cell h a)"
    using assms by (auto simp: same_but_action_def)
  then show ?thesis by (auto simp: js_access)
qed

lemma same_but_action_set:
  assumes "same_but_action h h'" and "a < length h"
  shows "same_but_action h (h'[a := obj_put ''action'' v (cell h' a)])"
proof -
  have "\<exists>x. cell (h'[a := obj_put ''action'' v (cell h' a)]) b = cell h b \<or>
            cell (h'[a := obj_put ''action'' v (cell h' a)]) b = obj_put ''action'' x (cell h b)" for b
  proof (cases "b = a")
    case True
    then show ?thesis using assms same_but_action_put [OF assms(1), of v a]
      by (auto simp: same_but_action_def cell_def)
  next
    case False
    then have "cell (h'[a := obj_put ''action'' v (cell h' a)]) b = cell h' b" by (simp add: cell_def)
    then show ?thesis using assms(1) by (auto simp: same_but_action_def)
  qed
  with assms(1) show ?thesis by (simp add: same_but_action_def)
qed

text \<open>The message that activates the intent in a cell, and what one publication does.\<close>

definition add_msg :: "store \<Rightarrow> nat \<Rightarrow> jval" where
  "add_msg h a = metadata_msg ''ServiceIntent'' (JObj (obj_put ''action'' (JStr ''ADD'') (cell h a)))"

definition issuing :: "store \<Rightarrow> jval list \<Rightarrow> designer \<Rightarrow> designer \<Rightarrow> bool" where
  "issuing h ws s t =
     (can_publish (rabbit t) \<and> (\<forall>n. amqp_answers t n = Accepted) \<and> same_but_action h (heap t) \<and>
      wire (rabbit t) = wire (rabbit s) @ ws \<and> serviceintents t = serviceintents s \<and> fogfunctions t = fogfunctions s \<and>
      send_loaded_intents t = send_loaded_intents s)"

lemma issuing_trans: "issuing h ws s t \<Longrightarrow> issuing h vs t u \<Longrightarrow> issuing h (ws @ vs) s u"
  by (auto simp: issuing_def)

lemma publish_intent_issuing:
  assumes "issuing h ws s t" and "a < length h" and "tree (JObj (cell h a))"
  shows "\<exists>t'. publish_intent (JRef a) ''ADD'' t = (t', True) \<and> issuing h (ws @ [add_msg h a]) s t'"
proof -
  let ?h = "(heap t)[a := obj_put ''action'' (JStr ''ADD'') (cell (heap t) a)]"
  let ?t = "publishMetadata ''ServiceIntent'' (JRef a) (t\<lparr>heap := ?h\<rparr>)"
  have same: "same_but_action h (heap t)" using assms(1) by (simp add: issuing_def)
  have c: "cell ?h a = obj_put ''action'' (JStr ''ADD'') (cell h a)"
  proof -
    have "length (heap t) = length h" using same by (simp add: same_but_action_def)
    then have "cell ?h a = obj_put ''action'' (JStr ''ADD'') (cell (heap t) a)" using assms(2) by (simp add: cell_def)
    then show ?thesis by (simp only: same_but_action_put [OF same])
  qed
  have "tree (JObj (cell ?h a))" unfolding c using assms(3) by (rule tree_obj_put) simp
  then have "json ?h (metadata_msg ''ServiceIntent'' (JRef a)) = add_msg h a"
    by (simp only: json_metadata c add_msg_def)
  moreover have "can_publish (rabbit (t\<lparr>heap := ?h\<rparr>))" "amqp_answers (t\<lparr>heap := ?h\<rparr>) 0 = Accepted"
    using assms(1) by (simp_all add: issuing_def)
  ultimately have "issuing h (ws @ [add_msg h a]) s ?t"
    using assms(1) same_but_action_set [OF same assms(2), of "JStr ''ADD''"] publish_ready [of "t\<lparr>heap := ?h\<rparr>" "''ServiceIntent''" "JRef a"]
    unfolding issuing_def by simp
  then show ?thesis by (simp add: publish_intent_def)
qed

text \<open>The intents of the fog functions that are enabled.\<close>

fun enabled_intents :: "store \<Rightarrow> props \<Rightarrow> nat list" where
  "enabled_intents h [] = []"
| "enabled_intents h ((k, v) # ps) =
     (case v of
        JRef f \<Rightarrow>
          (case (obj_get (cell h f) ''status'', obj_get (cell h f) ''intent'') of
             (JStr st, JRef i) \<Rightarrow> if st = ''enabled'' then i # enabled_intents h ps else enabled_intents h ps
           | _ \<Rightarrow> enabled_intents h ps)
      | _ \<Rightarrow> enabled_intents h ps)"

definition intent_ref :: "store \<Rightarrow> jval \<Rightarrow> bool" where
  "intent_ref h v = (case v of JRef a \<Rightarrow> a < length h \<and> tree (JObj (cell h a)) | _ \<Rightarrow> False)"

definition function_ref :: "store \<Rightarrow> jval \<Rightarrow> bool" where
  "function_ref h v =
     (case v of
        JRef f \<Rightarrow> (case obj_get (cell h f) ''status'' of JStr st \<Rightarrow> True | _ \<Rightarrow> False) \<and> intent_ref h (obj_get (cell h f) ''intent'')
      | _ \<Rightarrow> False)"

lemma intent_ref_iff: "intent_ref h v \<longleftrightarrow> (\<exists>a. v = JRef a \<and> a < length h \<and> tree (JObj (cell h a)))"
  by (cases v) (simp_all add: intent_ref_def)

lemma function_ref_iff:
  "function_ref h v \<longleftrightarrow>
     (\<exists>f st. v = JRef f \<and> obj_get (cell h f) ''status'' = JStr st \<and> intent_ref h (obj_get (cell h f) ''intent''))"
proof (cases v)
  case (JRef f)
  then show ?thesis by (cases "obj_get (cell h f) ''status''") (simp_all add: function_ref_def)
qed (simp_all add: function_ref_def)

fun ref_of :: "jval \<Rightarrow> nat" where
  "ref_of (JRef a) = a"
| "ref_of v = 0"

lemma issue_intents:
  assumes "list_all (\<lambda>(k, v). intent_ref h v) ps" and "issuing h ws s t"
  shows "\<exists>t'. for_each (\<lambda>(k, intent). publish_intent intent ''ADD'') ps t = (t', True) \<and>
     issuing h (ws @ map (\<lambda>(k, v). add_msg h (ref_of v)) ps) s t'"
  using assms
proof (induction ps arbitrary: t ws)
  case Nil
  then show ?case by simp
next
  case (Cons p ps)
  obtain k a where p: "p = (k, JRef a)" "a < length h" "tree (JObj (cell h a))"
    using Cons.prems(1) by (cases p) (auto simp: intent_ref_iff simp del: tree.simps(2))
  obtain t1 where t1: "publish_intent (JRef a) ''ADD'' t = (t1, True)" "issuing h (ws @ [add_msg h a]) s t1"
    using publish_intent_issuing [OF Cons.prems(2) p(2,3)] by blast
  with Cons.IH [OF _ t1(2)] Cons.prems(1) show ?case by (simp add: p(1))
qed

lemma issue_functions:
  assumes "list_all (\<lambda>(k, v). function_ref h v) ps" and "issuing h ws s t"
  shows "\<exists>t'. for_each (\<lambda>(k, ff). issue_fogfunction ff) ps t = (t', True) \<and>
     issuing h (ws @ map (add_msg h) (enabled_intents h ps)) s t'"
  using assms
proof (induction ps arbitrary: t ws)
  case Nil
  then show ?case by simp
next
  case (Cons p ps)
  obtain k f st i where p: "p = (k, JRef f)" "obj_get (cell h f) ''status'' = JStr st" "obj_get (cell h f) ''intent'' = JRef i"
      "i < length h" "tree (JObj (cell h i))"
    using Cons.prems(1) by (cases p) (auto simp: function_ref_iff intent_ref_iff simp del: tree.simps(2))
  have "same_but_action h (heap t)" using Cons.prems(2) by (simp add: issuing_def)
  then have g: "obj_get (cell (heap t) f) ''status'' = JStr st" "obj_get (cell (heap t) f) ''intent'' = JRef i"
    using p(2,3) by (simp_all add: same_but_action_get)
  show ?case
  proof (cases "st = ''enabled''")
    case True
    obtain t1 where t1: "publish_intent (JRef i) ''ADD'' t = (t1, True)" "issuing h (ws @ [add_msg h i]) s t1"
      using publish_intent_issuing [OF Cons.prems(2) p(4,5)] by blast
    with True Cons.IH [OF _ t1(2)] Cons.prems(1) p g show ?thesis
      by (simp add: issue_fogfunction_def js_eq_JStr)
  next
    case False
    with Cons.IH [OF _ Cons.prems(2)] Cons.prems(1) p g show ?thesis
      by (simp add: issue_fogfunction_def js_eq_JStr)
  qed
qed

text \<open>
  Once RabbitMQ is connected, the designer publishes an \<open>ADD\<close> for every stored intent and then for
  the intent of every enabled fog function, in the order of the database, nothing for the disabled ones,
  and calling it again publishes nothing more.
\<close>

theorem loaded_intents_issued_once:
  assumes "can_publish (rabbit s)" and "\<forall>n. amqp_answers s n = Accepted" and "\<not> send_loaded_intents s"
    and "list_all (\<lambda>(k, v). intent_ref (heap s) v) (serviceintents s)"
    and "list_all (\<lambda>(k, v). function_ref (heap s) v) (fogfunctions s)"
  shows "\<exists>t. issueLoadedIntents s = (t, True) \<and>
     wire (rabbit t) = wire (rabbit s) @ map (\<lambda>(k, v). add_msg (heap s) (ref_of v)) (serviceintents s) @
       map (add_msg (heap s)) (enabled_intents (heap s) (fogfunctions s)) \<and>
     issueLoadedIntents t = (t, True)"
proof -
  have "issuing (heap s) [] s s" using assms(1,2) by (simp add: issuing_def)
  then obtain t1 where t1: "for_each (\<lambda>(k, intent). publish_intent intent ''ADD'') (serviceintents s) s = (t1, True)"
      "issuing (heap s) ([] @ map (\<lambda>(k, v). add_msg (heap s) (ref_of v)) (serviceintents s)) s t1"
    using issue_intents [OF assms(4)] by blast
  moreover have "fogfunctions t1 = fogfunctions s" using t1(2) by (simp add: issuing_def)
  moreover obtain t2 where "for_each (\<lambda>(k, ff). issue_fogfunction ff) (fogfunctions s) t1 = (t2, True)"
      "issuing (heap s) (([] @ map (\<lambda>(k, v). add_msg (heap s) (ref_of v)) (serviceintents s)) @
         map (add_msg (heap s)) (enabled_intents (heap s) (fogfunctions s))) s t2"
    using issue_functions [OF assms(5) t1(2)] by blast
  ultimately show ?thesis using assms(3) by (auto simp: issueLoadedIntents_def issuing_def)
qed

definition restarted_designer :: designer where
  "restarted_designer =
     connected_designer\<lparr>heap := [[(''id'', JStr ''i1'')], [(''status'', JStr ''enabled''), (''intent'', JRef 2)], [(''id'', JStr ''i2'')],
         [(''status'', JStr ''disabled''), (''intent'', JRef 4)], [(''id'', JStr ''i3'')]],
       serviceintents := [(''i1'', JRef 0)], fogfunctions := [(''F'', JRef 1), (''G'', JRef 3)]\<rparr>"

theorem loaded_intents_issued_once_witness:
  "\<exists>t. issueLoadedIntents restarted_designer = (t, True) \<and>
     wire (rabbit t) = [add_msg (heap restarted_designer) 0, add_msg (heap restarted_designer) 2] \<and> issueLoadedIntents t = (t, True)"
  using loaded_intents_issued_once [of restarted_designer]
  by (simp add: restarted_designer_def connected_designer_def db_load_default init_mq_def can_publish_def
      intent_ref_def function_ref_def cell_def js_access)

section \<open>A restart of the designer and of the master\<close>

text \<open>The status of a fog function and the content of its intent, in the store and in the file.\<close>

definition function_content :: "store \<Rightarrow> jval \<Rightarrow> (string \<times> props) option" where
  "function_content h v =
     (case v of
        JRef f \<Rightarrow>
          (case (obj_get (cell h f) ''status'', obj_get (cell h f) ''intent'') of
             (JStr st, JRef i) \<Rightarrow> Some (st, cell h i)
           | _ \<Rightarrow> None)
      | _ \<Rightarrow> None)"

definition file_function :: "jval \<Rightarrow> (string \<times> props) option" where
  "file_function w =
     (case w of
        JObj fs \<Rightarrow> (case (obj_get fs ''status'', obj_get fs ''intent'') of (JStr st, JObj qs) \<Rightarrow> Some (st, qs) | _ \<Rightarrow> None)
      | _ \<Rightarrow> None)"

text \<open>The contents of the stored intents, and of the intents of the enabled fog functions.\<close>

definition intent_contents :: "store \<Rightarrow> props \<Rightarrow> props list" where
  "intent_contents h ps = map (\<lambda>p. cell h (ref_of (snd p))) ps"

definition enabled_contents :: "store \<Rightarrow> props \<Rightarrow> props list" where
  "enabled_contents h ps =
     concat (map (\<lambda>p. case function_content h (snd p) of Some (st, qs) \<Rightarrow> if st = ''enabled'' then [qs] else [] | None \<Rightarrow> []) ps)"

definition issued_contents :: "designer \<Rightarrow> props list" where
  "issued_contents s = intent_contents (heap s) (serviceintents s) @ enabled_contents (heap s) (fogfunctions s)"

lemma enabled_intents_contents: "map (cell h) (enabled_intents h ps) = enabled_contents h ps"
  by (induction h ps rule: enabled_intents.induct) (auto simp: enabled_contents_def function_content_def split: jval.split)

lemma map_of_json:
  "map_of ps k = Some v \<Longrightarrow> \<not> is_omitted v \<Longrightarrow>
     map_of (map (\<lambda>p. (fst p, g (snd p))) (filter (\<lambda>p. \<not> is_omitted (snd p)) ps)) k = Some (g v)"
  by (induction ps) (auto split: if_splits)

lemma own_get: "obj_get ps k = JStr x \<Longrightarrow> map_of ps k = Some (JStr x)" "obj_get ps k = JRef a \<Longrightarrow> map_of ps k = Some (JRef a)"
  "obj_get ps k = JObj qs \<Longrightarrow> map_of ps k = Some (JObj qs)"
  by (auto simp: obj_get_def split: option.splits if_splits)

text \<open>What is written, and what is loaded.\<close>

lemma function_written:
  assumes "function_ref h v"
  shows "\<exists>x. function_content h v = Some x \<and> file_function (json_at (Suc (Suc n)) h v) = Some x"
proof -
  obtain f st i where f: "v = JRef f" "obj_get (cell h f) ''status'' = JStr st" "obj_get (cell h f) ''intent'' = JRef i" "tree (JObj (cell h i))"
    using assms by (auto simp: function_ref_iff intent_ref_iff simp del: tree.simps(2))
  let ?fs = "map (\<lambda>p. (fst p, json_at (Suc n) h (snd p))) (filter (\<lambda>p. \<not> is_omitted (snd p)) (cell h f))"
  have "obj_get ?fs ''status'' = json_at (Suc n) h (JStr st)" by (intro obj_get_own map_of_json own_get(1) [OF f(2)]) simp
  moreover have "obj_get ?fs ''intent'' = json_at (Suc n) h (JRef i)" by (intro obj_get_own map_of_json own_get(2) [OF f(3)]) simp
  ultimately have "obj_get ?fs ''status'' = JStr st" "obj_get ?fs ''intent'' = JObj (cell h i)"
    by (simp_all only: json_at_tree_cell [OF f(4)]) simp
  with f show ?thesis by (simp add: function_content_def file_function_def)
qed

lemma function_loaded:
  assumes "file_function w = Some (st, qs)" and "tree w" and "alloc_fogfunction w h = (v, h')"
  shows "grows h h' \<and> function_ref h' v \<and> function_content h' v = Some (st, qs)"
proof -
  obtain fs where fs: "w = JObj fs" "map_of fs ''status'' = Some (JStr st)" "map_of fs ''intent'' = Some (JObj qs)"
    using assms(1) by (auto simp: file_function_def split: jval.splits dest: own_get)
  define g where "g = (case map_of fs ''topology'' of None \<Rightarrow> h | Some t \<Rightarrow> snd (alloc t h))"
  define gs where "gs = (case map_of fs ''topology'' of None \<Rightarrow> fs | Some t \<Rightarrow> upd_own ''topology'' (fst (alloc t h)) fs)"
  have gs: "map_of gs ''status'' = Some (JStr st)" "map_of gs ''intent'' = Some (JObj qs)"
    using fs by (auto simp: gs_def map_of_upd_own_other split: option.split)
  have "grows h (snd (alloc t h))" for t by (cases t) (auto simp: grows_def)
  then have g: "grows h g" by (simp add: g_def split: option.split)
  have "alloc_fields [''topology'', ''intent''] w h = alloc_fields [''intent''] (JObj gs) g"
    by (simp add: fs(1) g_def gs_def case_prod_beta split: option.split)
  with gs(2) assms(3) have v: "v = JRef (Suc (length g))" "h' = g @ [qs, upd_own ''intent'' (JRef (length g)) gs]"
    by (auto simp: alloc_fogfunction_def)
  have "\<forall>p \<in> set fs. tree (snd p)" using assms(2) fs(1) by (simp add: list_all_iff)
  with map_of_SomeD [OF fs(3)] have "tree (JObj qs)" by (auto dest: bspec simp del: tree.simps(2))
  moreover have "grows h h'" using g by (auto simp: v grows_def)
  ultimately show ?thesis
    using gs by (simp add: v function_ref_def intent_ref_def function_content_def cell_def nth_append obj_get_def map_of_upd_own_other
        map_of_upd_own_same del: tree.simps(2))
qed

lemma cell_empty: "obj_get (cell h f) k = JStr st \<Longrightarrow> f < length h"
  by (auto simp: cell_def obj_get_def split: if_splits)

lemma function_grows:
  assumes "function_ref h v" and "grows h h'"
  shows "function_ref h' v \<and> function_content h' v = function_content h v"
proof -
  obtain f st i where f: "v = JRef f" "obj_get (cell h f) ''status'' = JStr st" "obj_get (cell h f) ''intent'' = JRef i" "i < length h" "tree (JObj (cell h i))"
    using assms(1) by (auto simp: function_ref_iff intent_ref_iff simp del: tree.simps(2))
  moreover have "cell h' f = cell h f" "cell h' i = cell h i" using f grows_cell [OF assms(2)] cell_empty [OF f(2)] by simp_all
  ultimately show ?thesis
    using grows_length [OF assms(2)] by (simp add: function_ref_def intent_ref_def function_content_def del: tree.simps(2))
qed

lemma intent_loaded:
  assumes "tree (JObj qs)" and "alloc (JObj qs) h = (v, h')"
  shows "grows h h' \<and> intent_ref h' v \<and> cell h' (ref_of v) = qs"
  using assms by (auto simp: grows_def intent_ref_def cell_def simp del: tree.simps(2))

lemma intent_grows: "intent_ref h v \<Longrightarrow> grows h h' \<Longrightarrow> intent_ref h' v \<and> cell h' (ref_of v) = cell h (ref_of v)"
  using grows_length [of h h'] by (auto simp: intent_ref_iff grows_cell simp del: tree.simps(2))

text \<open>A section that is loaded, for any relation between a loaded value and the value of the file that later loading keeps.\<close>

lemma load_section_rel:
  assumes "\<And>v h v' h'. G v \<Longrightarrow> f v h = (v', h') \<Longrightarrow> grows h h' \<and> R h' v' v" and "\<And>h h' v' v. R h v' v \<Longrightarrow> grows h h' \<Longrightarrow> R h' v' v"
    and "list_all (\<lambda>p. G (snd p)) ps" and "load_section f ps h = (ps', h')"
  shows "grows h h' \<and> list_all2 (\<lambda>p' p. R h' (snd p') (snd p)) ps' ps"
  using assms(3,4)
proof (induction ps arbitrary: h ps' h')
  case (Cons p ps)
  obtain key v where p: "p = (key, v)" by fastforce
  obtain v' h1 where fv: "f v h = (v', h1)" by fastforce
  obtain qs h2 where ls: "load_section f ps h1 = (qs, h2)" by fastforce
  have 1: "grows h h1" "R h1 v' v" using assms(1) [OF _ fv] Cons.prems(1) p by auto
  have 2: "grows h1 h2" "list_all2 (\<lambda>p' p. R h2 (snd p') (snd p)) qs ps" using Cons.IH [OF _ ls] Cons.prems(1) p by auto
  have "ps' = (key, v') # qs" "h' = h2" using Cons.prems(2) p fv ls by auto
  with 1 2 assms(2) [OF 1(2) 2(1)] grows_trans [OF 1(1) 2(1)] show ?case by (simp add: p)
qed simp

lemma intents_loaded:
  assumes "list_all (\<lambda>p. \<exists>qs. snd p = JObj qs \<and> tree (JObj qs)) ps" and "load_section alloc ps h = (ps', h')"
  shows "grows h h' \<and> list_all2 (\<lambda>p' p. intent_ref h' (snd p') \<and> snd p = JObj (cell h' (ref_of (snd p')))) ps' ps"
proof (rule load_section_rel [where G = "\<lambda>v. \<exists>qs. v = JObj qs \<and> tree (JObj qs)" and
      R = "\<lambda>h v' v. intent_ref h v' \<and> v = JObj (cell h (ref_of v'))", OF _ _ assms])
  fix v h v' h'
  assume "\<exists>qs. v = JObj qs \<and> tree (JObj qs)" and "alloc v h = (v', h')"
  then show "grows h h' \<and> intent_ref h' v' \<and> v = JObj (cell h' (ref_of v'))" using intent_loaded by metis
next
  fix h h' v' v
  assume "intent_ref h v' \<and> v = JObj (cell h (ref_of v'))" and "grows h h'"
  then show "intent_ref h' v' \<and> v = JObj (cell h' (ref_of v'))" using intent_grows [of h v' h'] by simp
qed

lemma functions_loaded:
  assumes "list_all (\<lambda>p. file_function (snd p) \<noteq> None \<and> tree (snd p)) ps" and "load_section alloc_fogfunction ps h = (ps', h')"
  shows "grows h h' \<and> list_all2 (\<lambda>p' p. function_ref h' (snd p') \<and> function_content h' (snd p') = file_function (snd p)) ps' ps"
proof (rule load_section_rel [where G = "\<lambda>v. file_function v \<noteq> None \<and> tree v" and
      R = "\<lambda>h v' v. function_ref h v' \<and> function_content h v' = file_function v", OF _ _ assms])
  fix v h v' h'
  assume "file_function v \<noteq> None \<and> tree v" and al: "alloc_fogfunction v h = (v', h')"
  then obtain st qs where "file_function v = Some (st, qs)" "tree v" by auto
  with function_loaded [OF this al] show "grows h h' \<and> function_ref h' v' \<and> function_content h' v' = file_function v" by simp
next
  fix h h' v' v
  assume "function_ref h v' \<and> function_content h v' = file_function v" and "grows h h'"
  then show "function_ref h' v' \<and> function_content h' v' = file_function v" using function_grows [of h v' h'] by simp
qed

text \<open>The sections of the file that are written from the store.\<close>

lemma json_section:
  assumes "list_all (\<lambda>p. \<not> is_omitted (snd p)) ps"
  shows "json h (JObj ps) = JObj (map (\<lambda>p. (fst p, json h (snd p))) ps)"
  using assms by (simp add: json_def list_all_iff filter_id_conv)

lemma intents_written:
  assumes "list_all (\<lambda>(k, v). intent_ref h v) ps" and "json h (JObj ps) = JObj qs"
  shows "qs = map (\<lambda>p. (fst p, JObj (cell h (ref_of (snd p))))) ps \<and> list_all (\<lambda>p. \<exists>qs. snd p = JObj qs \<and> tree (JObj qs)) qs"
proof -
  have v: "json h v = JObj (cell h (ref_of v)) \<and> \<not> is_omitted v \<and> tree (JObj (cell h (ref_of v)))" if "(k, v) \<in> set ps" for k v
    using that assms(1) by (auto simp: list_all_iff intent_ref_iff json_tree_cell simp del: tree.simps(2))
  then have "list_all (\<lambda>p. \<not> is_omitted (snd p)) ps" by (auto simp: list_all_iff)
  then have "qs = map (\<lambda>p. (fst p, json h (snd p))) ps" using json_section assms(2) by auto
  with v show ?thesis by (auto simp: list_all_iff simp del: tree.simps(2))
qed

lemma functions_written:
  assumes "list_all (\<lambda>(k, v). function_ref h v) ps" and "json h (JObj ps) = JObj qs"
  shows "list_all2 (\<lambda>q p. function_content h (snd p) = file_function (snd q)) qs ps \<and> list_all (\<lambda>p. file_function (snd p) \<noteq> None \<and> tree (snd p)) qs"
proof -
  have v: "function_content h v = file_function (json h v) \<and> file_function (json h v) \<noteq> None \<and> \<not> is_omitted v \<and> tree (json h v)"
    if "(k, v) \<in> set ps" for k v
  proof -
    have r: "function_ref h v" using that assms(1) by (auto simp: list_all_iff)
    then have "\<not> is_omitted v" by (auto simp: function_ref_iff)
    with r function_written [OF r, of "length h"] tree_json_at [of v] show ?thesis by (auto simp: json_def)
  qed
  then have "list_all (\<lambda>p. \<not> is_omitted (snd p)) ps" by (auto simp: list_all_iff)
  then have "qs = map (\<lambda>p. (fst p, json h (snd p))) ps" using json_section assms(2) by auto
  with v show ?thesis by (auto simp: list_all_iff list_all2_map1 list_all2_same)
qed

text \<open>The intents of the database are objects of their own, as are the fog functions with their intents, and every intent has an identifier.\<close>

definition stored_ok :: "designer \<Rightarrow> bool" where
  "stored_ok s =
     (list_all (\<lambda>(k, v). intent_ref (heap s) v) (serviceintents s) \<and> list_all (\<lambda>(k, v). function_ref (heap s) v) (fogfunctions s) \<and>
      list_all (\<lambda>qs. \<exists>k. obj_get qs ''id'' = JStr k) (issued_contents s))"

lemma db_file_sections:
  "section_of (db_file devs subs ops tops svcs ints fogs) ''serviceintents'' = ints"
  "section_of (db_file devs subs ops tops svcs ints fogs) ''fogfunctions'' = fogs"
  by (simp_all add: section_of_def db_file_def js_access)

lemma db_load_sections:
  "\<exists>h3 ints h4 fogs. load_section alloc (section_of d ''serviceintents'') h3 = (ints, h4) \<and>
     load_section alloc_fogfunction (section_of d ''fogfunctions'') h4 = (fogs, heap (db_load d answers random)) \<and>
     serviceintents (db_load d answers random) = ints \<and> fogfunctions (db_load d answers random) = fogs \<and>
     \<not> send_loaded_intents (db_load d answers random) \<and> amqp_answers (db_load d answers random) = answers"
  by (auto simp: db_load_def Let_def split: prod.split)

lemma restart_contents:
  assumes "stored_ok s" and "db_read (disk (db_write s)) answers random = Some r"
  shows "stored_ok r \<and> issued_contents r = issued_contents s \<and> \<not> send_loaded_intents r \<and> amqp_answers r = answers"
proof -
  obtain devs subs ops tops svcs ints fogs where
    sec: "json (heap s) (JObj (serviceintents s)) = JObj ints" "json (heap s) (JObj (fogfunctions s)) = JObj fogs"
    and r: "r = db_load (db_file devs subs ops tops svcs ints fogs) answers random"
    by (rule db_read_written [of s answers random]) (use assms(2) in auto)
  obtain h3 ints' h4 fogs' where l: "load_section alloc ints h3 = (ints', h4)" "load_section alloc_fogfunction fogs h4 = (fogs', heap r)"
    and f: "serviceintents r = ints'" "fogfunctions r = fogs'" "\<not> send_loaded_intents r" "amqp_answers r = answers"
    using db_load_sections [of "db_file devs subs ops tops svcs ints fogs" answers random] by (auto simp: r db_file_sections)
  have si: "list_all (\<lambda>(k, v). intent_ref (heap s) v) (serviceintents s)" and sf: "list_all (\<lambda>(k, v). function_ref (heap s) v) (fogfunctions s)"
    using assms(1) by (simp_all add: stored_ok_def)
  note wi = intents_written [OF si sec(1)] and wf = functions_written [OF sf sec(2)]
  note li = intents_loaded [OF conjunct2 [OF wi] l(1)] and lf = functions_loaded [OF conjunct2 [OF wf] l(2)]
  have "list_all2 (\<lambda>p' p. intent_ref (heap r) (snd p') \<and> snd p = JObj (cell (heap r) (ref_of (snd p')))) ints' ints"
    using conjunct2 [OF li] by (rule list_all2_mono) (use intent_grows [OF _ conjunct1 [OF lf]] in auto)
  then have i: "list_all (\<lambda>p. intent_ref (heap r) (snd p)) ints'" "intent_contents (heap r) ints' = intent_contents (heap s) (serviceintents s)"
    using conjunct1 [OF wi] by (auto simp: intent_contents_def list_all_length list_all2_conv_all_nth intro!: nth_equalityI)
  have g: "list_all (\<lambda>p. function_ref (heap r) (snd p)) fogs'" "enabled_contents (heap r) fogs' = enabled_contents (heap s) (fogfunctions s)"
  proof -
    show "list_all (\<lambda>p. function_ref (heap r) (snd p)) fogs'" using lf by (auto simp: list_all_length list_all2_conv_all_nth)
    have "map (\<lambda>p. function_content (heap r) (snd p)) fogs' = map (\<lambda>p. function_content (heap s) (snd p)) (fogfunctions s)"
      using lf wf by (auto simp: list_all2_conv_all_nth intro!: nth_equalityI)
    then show "enabled_contents (heap r) fogs' = enabled_contents (heap s) (fogfunctions s)"
      unfolding enabled_contents_def by (metis (no_types, lifting) map_map comp_def map_cong)
  qed
  have "list_all (\<lambda>(k, v). intent_ref (heap r) v) ints'" "list_all (\<lambda>(k, v). function_ref (heap r) v) fogs'"
    using i(1) g(1) by (auto simp: list_all_iff)
  with i(2) g(2) f assms(1) show ?thesis by (simp add: stored_ok_def issued_contents_def)
qed

text \<open>The intents that are active after an \<open>ADD\<close> of each of the given contents.\<close>

definition active_intents :: "props list \<Rightarrow> string \<rightharpoonup> jval" where
  "active_intents qss =
     fold (\<lambda>qs m. m(js_str (obj_get qs ''id'') \<mapsto> JObj (obj_put ''action'' (JStr ''ADD'') qs))) qss Map.empty"

lemma master_active:
  "list_all (\<lambda>qs. \<exists>k. obj_get qs ''id'' = JStr k) qss \<Longrightarrow>
     master_view (map (\<lambda>qs. metadata_msg ''ServiceIntent'' (JObj (obj_put ''action'' (JStr ''ADD'') qs))) qss) = active_intents qss"
proof -
  have "fold master_step (map (\<lambda>qs. metadata_msg ''ServiceIntent'' (JObj (obj_put ''action'' (JStr ''ADD'') qs))) qss) m =
      fold (\<lambda>qs m. m(js_str (obj_get qs ''id'') \<mapsto> JObj (obj_put ''action'' (JStr ''ADD'') qs))) qss m"
    if "list_all (\<lambda>qs. \<exists>k. obj_get qs ''id'' = JStr k) qss" for m
    using that by (induction qss arbitrary: m) (auto simp: master_step_metadata js_access)
  then show "list_all (\<lambda>qs. \<exists>k. obj_get qs ''id'' = JStr k) qss \<Longrightarrow> ?thesis" by (simp add: master_view_def active_intents_def)
qed

text \<open>
  Claim C18. The designer and the master are restarted: the new designer reads the file that the old one wrote last, its
  connection to RabbitMQ is established, and the callback publishes the loaded intents, over a channel that accepts them. A master that
  knows nothing then knows exactly the intents that the old designer had stored and those of its enabled fog functions, each with
  its stored content and the action \<open>ADD\<close>, and none of a disabled function; when the callback is called again, nothing more is published.
\<close>

theorem restart_reissues_intents:
  assumes "stored_ok s"
  shows "\<exists>r t. db_read (disk (db_write s)) (\<lambda>n. Accepted) random = Some r \<and>
     issueLoadedIntents (r\<lparr>rabbit := established [] [] (Init init_mq)\<rparr>) = (t, True) \<and>
     master_view (wire (rabbit t)) = active_intents (issued_contents s) \<and> issueLoadedIntents t = (t, True)"
proof -
  obtain r where r: "db_read (disk (db_write s)) (\<lambda>n. Accepted) random = Some r" using restart_preserves_database by blast
  let ?r = "r\<lparr>rabbit := established [] [] (Init init_mq)\<rparr>"
  note c = restart_contents [OF assms r]
  have ready: "can_publish (rabbit ?r)" "wire (rabbit ?r) = []" by (simp_all add: established_def mq_op_defs Init_def init_mq_def can_publish_def)
  obtain t where t: "issueLoadedIntents ?r = (t, True)" "issueLoadedIntents t = (t, True)"
      "wire (rabbit t) = map (\<lambda>(k, v). add_msg (heap r) (ref_of v)) (serviceintents r) @ map (add_msg (heap r)) (enabled_intents (heap r) (fogfunctions r))"
    using loaded_intents_issued_once [of ?r] ready c by (auto simp: stored_ok_def)
  have "wire (rabbit t) = map (\<lambda>qs. metadata_msg ''ServiceIntent'' (JObj (obj_put ''action'' (JStr ''ADD'') qs))) (issued_contents r)"
    unfolding t(3) issued_contents_def enabled_intents_contents [symmetric] by (simp add: intent_contents_def add_msg_def case_prod_beta comp_def)
  moreover have "master_view (map (\<lambda>qs. metadata_msg ''ServiceIntent'' (JObj (obj_put ''action'' (JStr ''ADD'') qs))) (issued_contents s)) =
      active_intents (issued_contents s)"
    using assms by (intro master_active) (simp add: stored_ok_def)
  ultimately have "master_view (wire (rabbit t)) = active_intents (issued_contents s)" using c by simp
  with r t show ?thesis by blast
qed

theorem restart_reissues_intents_witness:
  "\<exists>r t. db_read (disk (db_write restarted_designer)) (\<lambda>n. Accepted) (\<lambda>n. n) = Some r \<and>
     issueLoadedIntents (r\<lparr>rabbit := established [] [] (Init init_mq)\<rparr>) = (t, True) \<and>
     master_view (wire (rabbit t)) = [''i1'' \<mapsto> JObj [(''id'', JStr ''i1''), (''action'', JStr ''ADD'')], ''i2'' \<mapsto> JObj [(''id'', JStr ''i2''), (''action'', JStr ''ADD'')]] \<and>
     issueLoadedIntents t = (t, True)"
proof -
  have c: "issued_contents restarted_designer = [[(''id'', JStr ''i1'')], [(''id'', JStr ''i2'')]]"
    by (simp add: restarted_designer_def issued_contents_def intent_contents_def enabled_contents_def function_content_def cell_def js_access)
  then have "stored_ok restarted_designer"
    by (simp add: stored_ok_def) (simp add: restarted_designer_def intent_ref_def function_ref_def cell_def js_access)
  from restart_reissues_intents [OF this, of "\<lambda>n. n"] show ?thesis by (simp add: c active_intents_def js_access js_literal)
qed

section \<open>Services and their topologies\<close>

lemma sget_ref: "sget h (JRef a) k = Some (obj_get (cell h a) k)"
  by simp

text \<open>
  A posted service is stored and returned as it was posted, its topology is found under its name,
  and deleting it removes both.
\<close>

theorem service_roundtrip:
  assumes "tree (JObj ps)" and "map_of ps ''topology'' = Some (JObj ts)" and "obj_get ts ''name'' = JStr n" and "n \<noteq> ''__proto__''"
  shows "\<exists>t. complete axios u (post_service (JArr [JObj ps]) s) = (t, Status 200) \<and>
     get_service n t = (t, Json (JObj ps)) \<and>
     (\<exists>a. map_of (topologies t) n = Some (JRef a) \<and> json (heap t) (JRef a) = JObj ts) \<and>
     (n \<notin> set object_proto \<longrightarrow>
        get_service n (fst (complete axios u (delete_service n t))) = (fst (complete axios u (delete_service n t)), Json JUndef) \<and>
        get_topology n (fst (complete axios u (delete_service n t))) =
          (fst (complete axios u (delete_service n t)),
           if has_own (topologies s) ''hasOwnProperty'' then Rejected else Json (JObj [])))"
proof -
  let ?a = "length (heap s)"
  let ?qs = "upd_own ''topology'' (JRef ?a) ps"
  let ?h = "heap s @ [ts]"
  let ?t = "db_write (s\<lparr>heap := ?h, services := obj_put n (JObj ?qs) (services s), topologies := obj_put n (JRef ?a) (topologies s)\<rparr>)"
  have al: "alloc_service (JObj ps) (heap s) = (JObj ?qs, ?h)" using assms(2) by (simp add: alloc_service_def)
  have own: "map_of ?qs ''topology'' = Some (JRef ?a)" using assms(2) by (force simp: map_of_upd_own dest: map_of_SomeD)
  have t: "complete axios u (post_service (JArr [JObj ps]) s) = (?t, Status 200)"
    using assms(2,3) al own
    by (simp add: post_service_def over_body_def add_service_def write_then_def complete_def resume_def obj_get_own Let_def)
  have "stands_for 1 ?h (JObj ?qs) (JObj ps)"
    using alloc_fields_tree [OF assms(1), of "[''topology'']"] al by (simp add: alloc_service_def)
  then have js: "json ?h (JObj ?qs) = JObj ps"
    unfolding stands_for_def json_def using grows_refl by (metis Suc_eq_plus1_left)
  have "tree (JObj ts)" using assms(1,2) by (force simp: list_all_iff dest: map_of_SomeD)
  then have jt: "json ?h (JRef ?a) = JObj ts" by (simp add: json_tree_cell cell_def del: tree.simps(2))
  have 1: "get_service n ?t = (?t, Json (JObj ps))"
    using js assms(4) by (simp add: get_service_def js_access)
  have 2: "map_of (topologies ?t) n = Some (JRef ?a) \<and> json (heap ?t) (JRef ?a) = JObj ts"
    using jt assms(4) by (simp add: map_of_obj_put)
  have d: "services (fst (complete axios u (delete_service n ?t))) = obj_del n (services ?t)"
      "topologies (fst (complete axios u (delete_service n ?t))) = obj_del n (topologies ?t)"
    by (simp_all add: delete_service_def complete_def resume_def)
  have 3: "get_service n r = (r, Json JUndef)" if "services r = obj_del n (services ?t)" "n \<notin> set object_proto" for r
    using that by (simp add: get_service_def obj_get_absent map_of_obj_del json_def)
  have 4: "get_topology n r = (r, if has_own (topologies s) ''hasOwnProperty'' then Rejected else Json (JObj []))"
    if "topologies r = obj_del n (topologies ?t)" "n \<notin> set object_proto" for r
    using that assms(4) by (auto simp: get_topology_def dict_hasOwn_def has_own_del has_own_put object_proto_def)
  show ?thesis using t 1 2 3 [OF d(1)] 4 [OF d(2)] by blast
qed

theorem service_roundtrip_witness:
  "\<exists>t. complete (\<lambda>rq. Inl JNull) [] (post_service (JArr [JObj [(''topology'', JObj [(''name'', JStr ''T'')])]]) sample_designer) = (t, Status 200) \<and>
     get_service ''T'' t = (t, Json (JObj [(''topology'', JObj [(''name'', JStr ''T'')])]))"
  using service_roundtrip [of "[(''topology'', JObj [(''name'', JStr ''T'')])]" "[(''name'', JStr ''T'')]" "''T''" "\<lambda>rq. Inl JNull" "[]" sample_designer]
  by (auto simp: js_access)

lemma for_each_attach:
  assumes "task_operators ts = Some ns" and "a < length (heap s)" and "obj_get (heap s ! a) ''operators'' = JArr xs"
  shows "for_each (attach_operator (JRef a)) ts s =
    (s\<lparr>heap := (heap s)[a := obj_put ''operators'' (JArr (xs @ map (obj_get (operators s)) (filter (obj_in (operators s)) ns))) (heap s ! a)]\<rparr>, True)"
  using assms
proof (induction ts arbitrary: ns s xs)
  case Nil
  have "obj_put ''operators'' (JArr xs) (heap s ! a) = heap s ! a"
    using Nil.prems(3) by (simp add: obj_get_own_iff obj_put_same)
  then show ?case using Nil by simp
next
  case (Cons t ts)
  obtain n ms where t: "jget t ''operator'' = Some (JStr n)" "task_operators ts = Some ms" "ns = n # ms"
    using Cons.prems(1) by (auto split: option.splits jval.splits)
  show ?case
  proof (cases "obj_in (operators s) n")
    case True
    let ?v = "obj_get (operators s) n"
    let ?s = "s\<lparr>heap := (heap s)[a := obj_put ''operators'' (JArr (xs @ [?v])) (heap s ! a)]\<rparr>"
    have "attach_operator (JRef a) t s = (?s, True)"
      using t True Cons.prems(2,3) by (simp add: attach_operator_def spush_def cell_def)
    then show ?thesis using Cons.IH [OF t(2), of ?s "xs @ [?v]"] Cons.prems t(3) True by (simp add: js_access)
  next
    case False
    then have "attach_operator (JRef a) t s = (s, True)" using t by (simp add: attach_operator_def)
    then show ?thesis using Cons.IH [OF t(2) Cons.prems(2,3)] t(3) False by simp
  qed
qed

text \<open>
  The request for a topology attaches to it the stored operators that its tasks name, in the order of
  the tasks and without those that are not registered; the stored topology (and the service that shares it)
  carries them from then on, nothing else changes and the file is not written.
\<close>

theorem get_topology_attaches_operators:
  assumes "map_of (topologies s) n = Some (JRef a)" and "\<not> has_own (topologies s) ''hasOwnProperty''" and "a < length (heap s)"
    and "topology_operators (heap s) (JRef a) = Some ns"
  shows "let ops = map (obj_get (operators s)) (filter (obj_in (operators s)) ns);
             t = s\<lparr>heap := (heap s)[a := obj_put ''operators'' (JArr ops) (heap s ! a)]\<rparr>
         in get_topology n s = (t, Json (json (heap t) (JRef a)))"
proof -
  obtain ts where ts: "obj_get (heap s ! a) ''tasks'' = JArr ts" "task_operators ts = Some ns"
    using assms(3,4) by (auto simp: topology_operators_def cell_def split: jval.splits)
  let ?s1 = "s\<lparr>heap := (heap s)[a := obj_put ''operators'' (JArr []) (heap s ! a)]\<rparr>"
  have "for_each (attach_operator (JRef a)) ts ?s1 =
      (s\<lparr>heap := (heap s)[a := obj_put ''operators'' (JArr (map (obj_get (operators s)) (filter (obj_in (operators s)) ns))) (heap s ! a)]\<rparr>, True)"
    using for_each_attach [OF ts(2), of a ?s1 "[]"] assms(3) by (simp add: js_access)
  moreover have "dict_hasOwn (topologies s) n = Some True"
    using assms(1,2) by (simp add: dict_hasOwn_def has_own_map_of)
  ultimately show ?thesis
    using assms(1,3) ts(1) by (simp add: get_topology_def obj_get_own cell_def js_access Let_def)
qed

theorem get_topology_attaches_operators_witness:
  "snd (get_topology ''T'' sample_designer) =
     Json (JObj [(''name'', JStr ''T''), (''tasks'', JArr [JObj [(''name'', JStr ''a''), (''operator'', JStr ''op1'')]]),
       (''operators'', JArr [JObj [(''name'', JStr ''op1'')]])])"
  using get_topology_attaches_operators [of sample_designer "''T''" 0 "[''op1'']"]
  by (simp add: sample_defs js_access js_literal has_own_def obj_in_def json_def Let_def)

section \<open>Fog functions\<close>

lemma topology_operators_same:
  "same_but_action h h' \<Longrightarrow> topology_operators h' t = topology_operators h t"
  by (cases t) (simp_all add: topology_operators_def same_but_action_get)

text \<open>
  A fog function whose topology does not have the function's own name leaves its topology behind
  when it is deleted, since the deletion removes the topology stored under the name of the function: from
  then on the operators of that topology cannot be deleted.
\<close>

theorem deleted_fogfunction_leaves_topology:
  assumes "map_of (fogfunctions s) name = Some (JRef f)" and "obj_get (cell (heap s) f) ''intent'' = JRef i" and "i < length (heap s)"
    and "map_of (topologies s) tn = Some t" and "tn \<noteq> name" and "n \<in> set (the (topology_operators (heap s) t))"
    and "\<forall>(k, v) \<in> set (topologies s). topology_operators (heap s) v \<noteq> None"
    and "obj_get (operators s) n \<noteq> JUndef"
  shows "\<exists>s'. complete axios u (delete_fogfunction name s) = (s', Status 200) \<and> map_of (fogfunctions s') name = None \<and>
     map_of (topologies s') tn = Some t \<and> complete axios u (delete_operator n s') = (s', Status 501)"
proof -
  let ?h = "(heap s)[i := obj_put ''action'' (JStr ''DELETE'') (cell (heap s) i)]"
  let ?p = "publishMetadata ''ServiceIntent'' (JRef i) (s\<lparr>heap := ?h\<rparr>)"
  let ?s = "db_write (?p\<lparr>topologies := obj_del name (topologies ?p), fogfunctions := obj_del name (fogfunctions ?p)\<rparr>)"
  have c: "complete axios u (delete_fogfunction name s) = (?s, Status 200)"
    using assms(1,2) by (simp add: delete_fogfunction_def publish_intent_def complete_def resume_def obj_get_own Let_def)
  have same: "same_but_action (heap s) (heap ?s)" using same_but_action_set [OF same_but_action_refl assms(3)] by simp
  have top: "map_of (topologies ?s) tn = Some t" using assms(4,5) by (simp add: map_of_obj_del)
  have sub: "set (topologies ?s) \<subseteq> set (topologies s)" by (auto simp: obj_del_def)
  have all: "\<forall>(k, v) \<in> set (topologies ?s). topology_operators (heap ?s) v \<noteq> None"
    unfolding topology_operators_same [OF same] using assms(7) sub by (meson subsetD)
  have "\<exists>(k, v) \<in> set (topologies ?s). n \<in> set (the (topology_operators (heap ?s) v))"
    by (rule bexI [OF _ map_of_SomeD [OF top]]) (simp only: case_prod_conv topology_operators_same [OF same] assms(6))
  then have "hasRelatedTopology (heap ?s) (topologies ?s) n = Some True" using hasRelatedTopology_names [OF all, of n] by simp
  then have "complete axios u (delete_operator n ?s) = (?s, Status 501)"
    using assms(8) by (simp add: delete_operator_def complete_def)
  moreover have "map_of (fogfunctions ?s) name = None" by (simp add: map_of_obj_del)
  ultimately show ?thesis using c top by blast
qed

definition function_designer :: designer where
  "function_designer =
     sample_designer\<lparr>heap := heap sample_designer @ [[(''name'', JStr ''F''), (''intent'', JRef 3)], [(''id'', JStr ''i1'')]],
       fogfunctions := [(''F'', JRef 2)]\<rparr>"

theorem deleted_fogfunction_leaves_topology_witness:
  "\<exists>s'. complete (\<lambda>rq. Inl JNull) [] (delete_fogfunction ''F'' function_designer) = (s', Status 200) \<and> map_of (fogfunctions s') ''F'' = None \<and>
     map_of (topologies s') ''T'' = Some (JRef 0) \<and> complete (\<lambda>rq. Inl JNull) [] (delete_operator ''op1'' s') = (s', Status 501)"
  by (rule deleted_fogfunction_leaves_topology [where f = 2 and i = 3])
    (simp_all add: function_designer_def sample_defs js_access)

section \<open>Subscriptions and devices\<close>

text \<open>
  A subscription is stored exactly when the request to the broker is not refused, under the
  identifier from the broker's answer; an answer with a status other than 200 that is no refusal is stored
  under the name \<open>null\<close>, and a refusal changes nothing and is answered with 500.
\<close>

theorem subscription_stored_under_broker_id:
  assumes "ps \<noteq> []" and "\<not> has_own ps ''hasOwnProperty''"
  shows "\<exists>rq hdr. subscription_request (JObj ps) = Some rq \<and> subscription_headers (JObj ps) = Some hdr \<and>
     complete axios u (post_subscription (JObj ps) s) =
       (case axios (post_req (u @ ''/subscribeContext'') hdr rq) of
          Inl e \<Rightarrow> (s, Status 500)
        | Inr r \<Rightarrow>
            (if rs_status r = 200 then
               (case subscription_id (rs_data r) of
                  None \<Rightarrow> (s, Status 500)
                | Some sid \<Rightarrow> (db_write (s\<lparr>subscriptions := obj_put (js_str sid) (JObj ps) (subscriptions s)\<rparr>), Status 200))
             else (db_write (s\<lparr>subscriptions := obj_put ''null'' (JObj ps) (subscriptions s)\<rparr>), Status 200)))"
proof -
  have "isEmpty (JObj ps) = Some False" using assms by (cases ps) auto
  moreover obtain rq where rq: "subscription_request (JObj ps) = Some rq" by (simp add: subscription_request_def)
  moreover obtain hdr where hdr: "subscription_headers (JObj ps) = Some hdr" by (simp add: subscription_headers_def)
  ultimately have "complete axios u (post_subscription (JObj ps) s) = on_subscribed axios u (JObj ps) rq hdr s"
    by (simp add: post_subscription_def complete_def resume_def)
  then show ?thesis using rq hdr
    by (simp add: on_subscribed_def subscribeContextWithHeaders_def axios_200_def settle_def split: sum.split option.split)
qed

theorem subscription_stored_under_broker_id_witness:
  "\<exists>rq hdr. subscription_request (JObj [(''entity_type'', JStr ''Car'')]) = Some rq \<and> subscription_headers (JObj [(''entity_type'', JStr ''Car'')]) = Some hdr \<and>
     complete (\<lambda>rq. Inl JNull) [] (post_subscription (JObj [(''entity_type'', JStr ''Car'')]) sample_designer) = (sample_designer, Status 500)"
  using subscription_stored_under_broker_id [of "[(''entity_type'', JStr ''Car'')]" "\<lambda>rq. Inl JNull" "[]" sample_designer]
  by (simp add: has_own_def)

text \<open>
  A device posted without an identifier is stored under its type followed by a generated one, while
  the entity created at the broker has no identifier: a later deletion asks the broker to remove an entity
  with the generated identifier, which was never created there.
\<close>

theorem device_without_id:
  assumes "map_of ps ''id'' = None" and "map_of ps ''type'' = Some (JStr ty)" and "\<not> has_own ps ''hasOwnProperty''"
    and "map_of ps ''attributes'' = None" and "map_of ps ''metadata'' = None"
  shows "\<exists>d did. post_device (JObj ps) s = (skip_random s, Awaiting (OnDeviceCreated did d)) \<and> did = ty @ uuid (rng s) \<and>
     updateContext axios u d =
       Some (axios_200 axios (post_req (u @ ''/updateContext'') JUndef
         (update_req_body (ctx_element (JObj [(''id'', JUndef), (''type'', JStr ty), (''isPattern'', JBool False)]) [] []) ''UPDATE'')) Some) \<and>
     on_device_deleted axios u did s =
       (case axios (post_req (u @ ''/updateContext'') JUndef
               (update_req_body (JObj [(''entityId'', JObj [(''id'', JStr did), (''isPattern'', JBool False)])]) ''DELETE'')) of
          Inl e \<Rightarrow> (s, Status 500)
        | Inr r \<Rightarrow> (db_write (s\<lparr>devices := obj_del did (devices s)\<rparr>), Status 200))"
proof -
  have "ps \<noteq> []" using assms(2) by auto
  then have em: "isEmpty (JObj ps) = Some False" using assms(3) by (cases ps) auto
  let ?e = "JObj [(''id'', JUndef), (''type'', JStr ty), (''isPattern'', JBool False)]"
  let ?d = "JObj (obj_put ''entityId'' ?e ps)"
  have g: "obj_get ps ''id'' = JUndef" "obj_get ps ''type'' = JStr ty" "obj_get ps ''attributes'' = JUndef" "obj_get ps ''metadata'' = JUndef"
    using assms by (simp_all add: obj_get_own obj_get_absent object_proto_def)
  have ce: "JSONObject2CtxElement ?d = Some (ctx_element ?e [] [])"
    using g by (simp add: JSONObject2CtxElement_def js_access ctx_element_def named_elems_def obj_of_plain plain_def is_digit_def)
  have "post_device (JObj ps) s = (skip_random s, Awaiting (OnDeviceCreated (ty @ uuid (rng s)) ?d))"
    using assms(1,3) em g ce
    by (simp add: post_device_def device_id_def device_entity_def dict_hasOwn_def has_own_map_of)
  moreover have "updateContext axios u ?d =
      Some (axios_200 axios (post_req (u @ ''/updateContext'') JUndef (update_req_body (ctx_element ?e [] []) ''UPDATE'')) Some)"
    using ce by (simp add: updateContext_def)
  ultimately show ?thesis
    by (auto simp: on_device_deleted_def deleteContext_def axios_200_Some device_key_def js_literal split: sum.split)
qed

theorem device_without_id_witness:
  "\<exists>d did. post_device (JObj [(''type'', JStr ''Camera'')]) sample_designer = (skip_random sample_designer, Awaiting (OnDeviceCreated did d)) \<and>
     did = ''Camera'' @ uuid (rng sample_designer)"
  using device_without_id [of "[(''type'', JStr ''Camera'')]" "''Camera''" sample_designer "\<lambda>rq. Inl JNull" "[]"]
  by (auto simp: has_own_def)

end
