(* ===== verification/Board.thy ===== *)
theory Board
  imports JS_Prelude
begin

text \<open>
  The design board of the web interface: how a drawing of blocks and edges becomes a service topology
  (\<open>designer/public/js/topology.js\<close>) or a fog function (\<open>designer/public/js/function.js\<close>), and the form with which
  an intent is shown, edited and submitted.  The exported scene is a \<open>jval\<close>; \<open>None\<close> is an exception.  What the
  page reads from its input elements is an argument.
\<close>

section \<open>From a scene to tasks\<close>

text \<open>\<open>x.toUpperCase()\<close>, which only strings have.\<close>

fun upper_case :: "jval \<Rightarrow> string option" where
  "upper_case (JStr s) = Some (to_upper s)"
| "upper_case v = None"

text \<open>The attributes of an input stream: the single entry \<open>all\<close> stands for no restriction.\<close>

definition selected_attributes :: "jval \<Rightarrow> jval option" where
  "selected_attributes values =
     do { sa \<leftarrow> jget values ''selectedattributes'';
          len \<leftarrow> jget sa ''length'';
          (if js_eq len (JNum 1) then
             do { x \<leftarrow> jget sa ''0'';
                  up \<leftarrow> upper_case x;
                  Some (if up = ''ALL'' then JArr [] else sa) }
           else Some sa) }"

text \<open>The inner loop of \<open>findInputType\<close>, over the blocks, and the function itself.\<close>

fun source_type :: "jval \<Rightarrow> jval \<Rightarrow> jval list \<Rightarrow> jval \<Rightarrow> jval option" where
  "source_type b1 index [] inputType = Some inputType"
| "source_type b1 index (block # bs) inputType =
     do { bid \<leftarrow> jget block ''id'';
          (if js_eq bid b1 then
             do { values \<leftarrow> jget block ''values'';
                  outs \<leftarrow> jget values ''outputs'';
                  ty \<leftarrow> jget outs (js_str index);
                  source_type b1 index bs ty }
           else source_type b1 index bs inputType) }"

fun input_type :: "jval list \<Rightarrow> jval \<Rightarrow> jval list \<Rightarrow> jval \<Rightarrow> jval option" where
  "input_type bs blockId [] inputType = Some inputType"
| "input_type bs blockId (edge # es) inputType =
     do { b2 \<leftarrow> jget edge ''block2'';
          (if js_eq b2 blockId then
             do { c \<leftarrow> jget edge ''connector1'';
                  index \<leftarrow> jget c ''2'';
                  b1 \<leftarrow> jget edge ''block1'';
                  ty \<leftarrow> source_type b1 index bs inputType;
                  input_type bs blockId es ty }
           else input_type bs blockId es inputType) }"

definition findInputType :: "jval list \<Rightarrow> jval list \<Rightarrow> jval \<Rightarrow> jval option" where
  "findInputType bs es blockId = input_type bs blockId es (JStr ''unknown'')"

text \<open>
  The input stream that one block contributes: the editor of topologies, and the editor of fog functions,
  which adds how NGSI-LD entities are delivered.
\<close>

definition stream_fields :: "jval \<Rightarrow> jval \<Rightarrow> jval \<Rightarrow> props option" where
  "stream_fields ty scoped values =
     do { sa \<leftarrow> selected_attributes values;
          g \<leftarrow> jget values ''groupby'';
          im \<leftarrow> jget values ''informationmodel'';
          Some [(''selected_type'', ty), (''selected_attributes'', sa), (''groupby'', g), (''scoped'', scoped),
                (''information_model'', im)] }"

definition topology_stream :: "jval list \<Rightarrow> jval list \<Rightarrow> jval \<Rightarrow> jval list option" where
  "topology_stream bs es block =
     do { ty \<leftarrow> jget block ''type'';
          (if js_eq ty (JStr ''Shuffle'') then
             do { bid \<leftarrow> jget block ''id'';
                  t \<leftarrow> findInputType bs es bid;
                  values \<leftarrow> jget block ''values'';
                  ps \<leftarrow> stream_fields t (JBool True) values;
                  Some [JObj ps] }
           else if js_eq ty (JStr ''EntityStream'') then
             do { values \<leftarrow> jget block ''values'';
                  t \<leftarrow> jget values ''selectedtype'';
                  sc \<leftarrow> jget values ''scoped'';
                  ps \<leftarrow> stream_fields t sc values;
                  Some [JObj ps] }
           else Some []) }"

definition delivery_fields :: "jval \<Rightarrow> props \<Rightarrow> props option" where
  "delivery_fields values ps =
     do { im \<leftarrow> jget values ''informationmodel'';
          del \<leftarrow> jget values ''ngsilddelivery'';
          path \<leftarrow> jget values ''notificationpath'';
          Some (if im = JStr ''NGSI-LD'' then
                  (let ps1 = (if del = JStr ''notification'' then ps @ [(''ngsi_ld_delivery'', JStr ''notification'')] else ps);
                       np = trim (if truthy path then js_str path else [])
                   in if np \<noteq> [] then ps1 @ [(''notification_path'', JStr np)] else ps1)
                else ps) }"

definition function_stream :: "jval list \<Rightarrow> jval list \<Rightarrow> jval \<Rightarrow> jval list option" where
  "function_stream bs es block =
     do { ty \<leftarrow> jget block ''type'';
          (if js_eq ty (JStr ''Shuffle'') then
             do { bid \<leftarrow> jget block ''id'';
                  t \<leftarrow> findInputType bs es bid;
                  values \<leftarrow> jget block ''values'';
                  ps \<leftarrow> stream_fields t (JBool True) values;
                  qs \<leftarrow> delivery_fields values ps;
                  Some [JObj qs] }
           else if js_eq ty (JStr ''EntityStream'') then
             do { values \<leftarrow> jget block ''values'';
                  t \<leftarrow> jget values ''selectedtype'';
                  sc \<leftarrow> jget values ''scoped'';
                  ps \<leftarrow> stream_fields t sc values;
                  qs \<leftarrow> delivery_fields values ps;
                  Some [JObj qs] }
           else Some []) }"

text \<open>The two loops of \<open>findInputStream\<close>, over the blocks and over the edges.\<close>

fun source_streams :: "(jval \<Rightarrow> jval list option) \<Rightarrow> jval \<Rightarrow> jval list \<Rightarrow> jval list option" where
  "source_streams stream b1 [] = Some []"
| "source_streams stream b1 (block # bs) =
     do { bid \<leftarrow> jget block ''id'';
          xs \<leftarrow> (if js_eq bid b1 then stream block else Some []);
          ys \<leftarrow> source_streams stream b1 bs;
          Some (xs @ ys) }"

fun input_streams :: "(jval \<Rightarrow> jval list option) \<Rightarrow> jval list \<Rightarrow> jval \<Rightarrow> jval list \<Rightarrow> jval list option" where
  "input_streams stream bs blockid [] = Some []"
| "input_streams stream bs blockid (edge # es) =
     do { b2 \<leftarrow> jget edge ''block2'';
          b1 \<leftarrow> jget edge ''block1'';
          xs \<leftarrow> (if js_eq b2 blockid then source_streams stream b1 bs else Some []);
          ys \<leftarrow> input_streams stream bs blockid es;
          Some (xs @ ys) }"

definition topology_findInputStream :: "jval list \<Rightarrow> jval \<Rightarrow> jval \<Rightarrow> jval list option" where
  "topology_findInputStream bs edges blockid =
     do { es \<leftarrow> jelems edges; input_streams (topology_stream bs es) bs blockid es }"

definition function_findInputStream :: "jval list \<Rightarrow> jval \<Rightarrow> jval \<Rightarrow> jval list option" where
  "function_findInputStream bs edges blockid =
     do { es \<leftarrow> jelems edges; input_streams (function_stream bs es) bs blockid es }"

text \<open>One task per block of type \<open>Task\<close>.\<close>

definition task_of_block :: "(jval \<Rightarrow> jval list option) \<Rightarrow> jval \<Rightarrow> jval list option" where
  "task_of_block find_streams block =
     do { ty \<leftarrow> jget block ''type'';
          (if js_eq ty (JStr ''Task'') then
             do { values \<leftarrow> jget block ''values'';
                  n \<leftarrow> jget values ''name'';
                  op \<leftarrow> jget values ''operator'';
                  bid \<leftarrow> jget block ''id'';
                  ins \<leftarrow> find_streams bid;
                  ol \<leftarrow> jget values ''outputs'';
                  os \<leftarrow> jelems ol;
                  Some [JObj [(''name'', n), (''operator'', op), (''input_streams'', JArr ins),
                          (''output_streams'', JArr (map (\<lambda>t. JObj [(''entity_type'', t)]) os))]] }
           else Some []) }"

fun task_list :: "(jval \<Rightarrow> jval list option) \<Rightarrow> jval list \<Rightarrow> jval list option" where
  "task_list find_streams [] = Some []"
| "task_list find_streams (block # bs) =
     do { xs \<leftarrow> task_of_block find_streams block;
          ys \<leftarrow> task_list find_streams bs;
          Some (xs @ ys) }"

definition scene_parts :: "jval \<Rightarrow> (jval list \<times> jval) option" where
  "scene_parts scene =
     do { bl \<leftarrow> jget scene ''blocks'';
          bs \<leftarrow> jelems bl;
          edges \<leftarrow> jget scene ''edges'';
          Some (bs, edges) }"

definition topology_generateTaskList :: "jval \<Rightarrow> jval list option" where
  "topology_generateTaskList scene =
     do { (bs, edges) \<leftarrow> scene_parts scene; task_list (topology_findInputStream bs edges) bs }"

definition function_generateTaskList :: "jval \<Rightarrow> jval list option" where
  "function_generateTaskList scene =
     do { (bs, edges) \<leftarrow> scene_parts scene; task_list (function_findInputStream bs edges) bs }"

section \<open>The objects that are submitted\<close>

text \<open>\<open>boardScene2Topology\<close>: the body of the request to \<open>/service\<close>.\<close>

definition boardScene2Topology :: "string \<Rightarrow> string \<Rightarrow> string \<Rightarrow> jval \<Rightarrow> jval option" where
  "boardScene2Topology uidTopology topologyName serviceDescription scene =
     do { ts \<leftarrow> topology_generateTaskList scene;
          Some (JArr [JObj
            [(''topology'', JObj ([(''name'', JStr topologyName), (''description'', JStr serviceDescription), (''tasks'', JArr ts)]
                @ (if uidTopology = [] then [] else [(''uid'', JStr uidTopology)]))),
             (''designboard'', scene)]]) }"

text \<open>\<open>boardScene2FogFunction\<close>: it submits the function, or asks for the missing inputs.\<close>

datatype submission = Submitted jval | Alerted

definition incomplete :: "string \<Rightarrow> jval list \<Rightarrow> bool option" where
  "incomplete topologyName ts =
     (if topologyName = [] then Some True
      else case ts of
             [] \<Rightarrow> Some True
           | t # _ \<Rightarrow>
               do { op \<leftarrow> jget t ''operator'';
                    (if js_eq op (JStr ''null'') \<or> js_eq op (JStr []) then Some True
                     else do { ins \<leftarrow> jget t ''input_streams'';
                               len \<leftarrow> jget ins ''length'';
                               Some (js_eq len (JNum 0)) }) })"

definition boardScene2FogFunction :: "string \<Rightarrow> string \<Rightarrow> string \<Rightarrow> jval \<Rightarrow> submission option" where
  "boardScene2FogFunction uid topologyName serviceDescription scene =
     do { ts \<leftarrow> function_generateTaskList scene;
          bad \<leftarrow> incomplete topologyName ts;
          Some (if bad then Alerted
                else Submitted (JArr [JObj
                  [(''name'', JStr topologyName),
                   (''topology'', JObj [(''name'', JStr topologyName), (''description'', JStr serviceDescription), (''tasks'', JArr ts)]),
                   (''intent'', JObj [(''id'', JStr (''ServiceIntent.'' @ uid)), (''topology'', JStr topologyName),
                      (''priority'', JObj [(''exclusive'', JBool False), (''level'', JNum 0)]), (''qos'', JStr ''default''),
                      (''geoscope'', JObj [(''scopeType'', JStr ''global''), (''scopeValue'', JStr ''global'')])]),
                   (''designboard'', scene), (''status'', JStr ''enabled'')]])) }"

section \<open>The configurator of an entity stream\<close>

record stream_config =
  sc_groupby :: string
  sc_parallelization :: bool
  sc_numberofinstances :: string
  sc_criteria :: string

text \<open>\<open>validateEntityStreamEntries\<close>, which runs when a configuration is saved.\<close>

definition validateEntityStreamEntries :: "stream_config \<Rightarrow> stream_config" where
  "validateEntityStreamEntries c =
     (if sc_groupby c \<noteq> ''EntityType'' then
        c\<lparr>sc_parallelization := False, sc_numberofinstances := ''1'', sc_criteria := ''NA''\<rparr>
      else if \<not> sc_parallelization c then c\<lparr>sc_numberofinstances := ''1'', sc_criteria := ''NA''\<rparr>
      else c)"

section \<open>The form of an intent\<close>

record intent_form =
  if_sid :: string
  if_topology :: jval
  if_stype :: string
  if_priority :: string
  if_usage :: string
  if_slo :: jval
  if_scope :: string
  if_geoscope :: jval    \<comment> \<open>the variable \<open>geoscope\<close> of the page\<close>

definition priority_level :: "string \<Rightarrow> int" where
  "priority_level p = (if p = ''low'' then 0 else if p = ''middle'' then 50 else if p = ''high'' then 100 else 0)"

text \<open>\<open>submitIntent\<close>: the body of the request to \<open>/intent\<close>.\<close>

definition submitIntent :: "intent_form \<Rightarrow> jval option" where
  "submitIntent f =
     do { scope \<leftarrow> (if if_scope f = ''custom'' then
                      do { t \<leftarrow> jget (if_geoscope f) ''type'';
                           v \<leftarrow> jget (if_geoscope f) ''value'';
                           Some [(''scopeType'', t), (''scopeValue'', v)] }
                    else Some [(''scopeType'', JStr (if_scope f)), (''scopeValue'', JStr (if_scope f))]);
          Some (JObj [(''topology'', if_topology f), (''stype'', JStr (if_stype f)),
            (''priority'', JObj [(''exclusive'', JBool (if_usage f = ''exclusive'')), (''level'', JNum (priority_level (if_priority f)))]),
            (''qos'', if_slo f), (''geoscope'', JObj scope), (''id'', JStr (if_sid f))]) }"

text \<open>
  \<open>showIntent\<close> on an existing intent, up to the moment at which the user can submit the form.  A selection starts
  with its first option, and giving it a value that is none of its options leaves nothing selected.  The
  options for the topology arrive only after the form was filled in (\<open>listAllServiceTopologies\<close> is asynchronous),
  so that the first of them is selected.
\<close>

definition slo_options :: "string list" where
  "slo_options = [''NONE'', ''MAX_THROUGHPUT'', ''MIN_LATENCY'', ''MIN_COST'']"

definition select_slo :: "jval \<Rightarrow> jval" where
  "select_slo v = (case v of JUndef \<Rightarrow> JStr ''NONE'' | JStr q \<Rightarrow> if q \<in> set slo_options then JStr q else JUndef | _ \<Rightarrow> JUndef)"

definition fresh_form :: "string list \<Rightarrow> string \<Rightarrow> jval \<Rightarrow> intent_form" where
  "fresh_form listed sid scope =
     \<lparr>if_sid = sid, if_topology = (case listed of [] \<Rightarrow> JUndef | n # _ \<Rightarrow> JStr n), if_stype = ''SYN'', if_priority = ''low'',
       if_usage = ''inclusive'', if_slo = JStr ''NONE'', if_scope = ''global'', if_geoscope = scope\<rparr>"

definition showIntent :: "string list \<Rightarrow> jval \<Rightarrow> jval \<Rightarrow> intent_form option" where
  "showIntent listed scope intent =
     do { sid \<leftarrow> jget intent ''id'';
          qos \<leftarrow> jget intent ''qos'';
          pr \<leftarrow> jget intent ''priority'';
          ex \<leftarrow> jget pr ''exclusive'';
          lv \<leftarrow> jget pr ''level'';
          gs \<leftarrow> jget intent ''geoscope'';
          st \<leftarrow> jget gs ''scopeType'';
          (let f1 = (fresh_form listed (js_str sid) scope)\<lparr>if_slo := select_slo qos,
                       if_usage := (if truthy ex then ''exclusive'' else ''inclusive'')\<rparr>;
               f2 = (if js_eq lv (JNum 0) then f1\<lparr>if_priority := ''low''\<rparr>
                     else if js_eq lv (JNum 50) then f1\<lparr>if_priority := ''middle''\<rparr>
                     else if js_eq lv (JNum 100) then f1\<lparr>if_priority := ''high''\<rparr> else f1)
           in Some (if js_eq st (JStr ''global'') then f2\<lparr>if_scope := ''global''\<rparr>
                    else f2\<lparr>if_scope := ''custom'', if_geoscope := gs\<rparr>)) }"

text \<open>The handler of a drawn shape sets the variable \<open>geoscope\<close>.\<close>

fun vertices :: "jval list \<Rightarrow> jval list option" where
  "vertices [] = Some []"
| "vertices (p # ps) =
     do { lon \<leftarrow> jget p ''0''; lat \<leftarrow> jget p ''1''; rest \<leftarrow> vertices ps;
          Some (JObj [(''longitude'', lon), (''latitude'', lat)] # rest) }"

text \<open>The type and the value of the scope for a drawn shape; there is none for a shape of another type.\<close>

definition drawn_shape :: "string \<Rightarrow> jval \<Rightarrow> jval \<Rightarrow> (string \<times> jval) option option" where
  "drawn_shape layerType coordinates radius =
     (if layerType = ''rectangle'' \<or> layerType = ''polygon'' then
        do { points \<leftarrow> jget coordinates ''0'';
             vs \<leftarrow> vertices (map snd (jprops points));
             Some (Some (''polygon'', JObj [(''vertices'', JArr vs)])) }
      else if layerType = ''circle'' then
        do { lat \<leftarrow> jget coordinates ''1'';
             lon \<leftarrow> jget coordinates ''0'';
             Some (Some (''circle'', JObj [(''centerLatitude'', lat), (''centerLongitude'', lon), (''radius'', radius)])) }
      else Some None)"

text \<open>The editor of topologies sets the fields \<open>type\<close> and \<open>value\<close>.\<close>

definition set_scope :: "string \<Rightarrow> string \<Rightarrow> string \<times> jval \<Rightarrow> jval \<Rightarrow> jval" where
  "set_scope type_field value_field shape geoscope =
     (case geoscope of JObj ps \<Rightarrow> JObj (obj_put value_field (snd shape) (obj_put type_field (JStr (fst shape)) ps)) | g \<Rightarrow> g)"

definition draw_created :: "string \<Rightarrow> jval \<Rightarrow> jval \<Rightarrow> jval \<Rightarrow> jval option" where
  "draw_created layerType coordinates radius geoscope =
     map_option (\<lambda>shape. case shape of None \<Rightarrow> geoscope | Some s \<Rightarrow> set_scope ''type'' ''value'' s geoscope)
       (drawn_shape layerType coordinates radius)"

section \<open>The editor of operators\<close>

text \<open>\<open>designer/public/js/operator.js\<close>: an operator and its parameters from a scene, and the form for a docker image.\<close>

fun source_parameters :: "jval \<Rightarrow> jval list \<Rightarrow> jval list option" where
  "source_parameters b1 [] = Some []"
| "source_parameters b1 (block # bs) =
     do { bid \<leftarrow> jget block ''id'';
          xs \<leftarrow> (if js_eq bid b1 then
                   do { values \<leftarrow> jget block ''values'';
                        n \<leftarrow> jget values ''name'';
                        v \<leftarrow> jget values ''value'';
                        Some [JObj [(''name'', n), (''value'', v)]] }
                 else Some []);
          ys \<leftarrow> source_parameters b1 bs;
          Some (xs @ ys) }"

fun input_parameters :: "jval list \<Rightarrow> jval \<Rightarrow> jval list \<Rightarrow> jval list option" where
  "input_parameters bs blockId [] = Some []"
| "input_parameters bs blockId (edge # es) =
     do { b2 \<leftarrow> jget edge ''block2'';
          b1 \<leftarrow> jget edge ''block1'';
          xs \<leftarrow> (if js_eq b2 blockId then source_parameters b1 bs else Some []);
          ys \<leftarrow> input_parameters bs blockId es;
          Some (xs @ ys) }"

definition findInputParameters :: "jval list \<Rightarrow> jval \<Rightarrow> jval \<Rightarrow> jval list option" where
  "findInputParameters bs edges blockId = do { es \<leftarrow> jelems edges; input_parameters bs blockId es }"

fun operator_fields :: "jval list \<Rightarrow> jval \<Rightarrow> jval list \<Rightarrow> props option" where
  "operator_fields bs edges [] = Some []"
| "operator_fields bs edges (block # rest) =
     do { ty \<leftarrow> jget block ''type'';
          (if js_eq ty (JStr ''Operator'') then
             do { values \<leftarrow> jget block ''values'';
                  n \<leftarrow> jget values ''name'';
                  d \<leftarrow> jget values ''description'';
                  bid \<leftarrow> jget block ''id'';
                  params \<leftarrow> findInputParameters bs edges bid;
                  Some [(''name'', n), (''description'', d), (''parameters'', JArr params)] }
           else operator_fields bs edges rest) }"

definition boardScene2Operator :: "jval \<Rightarrow> jval option" where
  "boardScene2Operator scene =
     do { (bs, edges) \<leftarrow> scene_parts scene;
          ps \<leftarrow> operator_fields bs edges bs;
          Some (JObj (ps @ [(''dockerimages'', JArr []), (''designboard'', scene)])) }"

definition generateOperator :: "jval \<Rightarrow> submission option" where
  "generateOperator scene =
     do { operator \<leftarrow> boardScene2Operator scene;
          n \<leftarrow> jget operator ''name'';
          Some (if truthy n \<and> \<not> js_eq n (JStr ''unknown'') then Submitted (JArr [operator]) else Alerted) }"

definition registerDockerImage :: "string \<Rightarrow> string \<Rightarrow> string \<Rightarrow> string \<Rightarrow> string \<Rightarrow> bool \<Rightarrow> submission" where
  "registerDockerImage operatorName img tag0 hwType osType prefetched =
     (let tag = (if tag0 = [] then ''latest'' else tag0) in
      if img = [] \<or> tag = [] \<or> hwType = [] \<or> osType = [] \<or> operatorName = [] then Alerted
      else Submitted (JObj [(''name'', JStr img), (''hwType'', JStr hwType), (''osType'', JStr osType),
             (''operatorName'', JStr operatorName), (''prefetched'', JBool prefetched), (''tag'', JStr tag)]))"

section \<open>Drawings\<close>

text \<open>
  The drawings the editor exports: a block has a number and the values of its kind, an edge leads from an
  output of a block, named by its index, to another block.
\<close>

datatype drawn_block =
    TaskBlock (bnum: int) string string "string list"
  | ShuffleBlock (bnum: int) "string list" jval jval
  | StreamBlock (bnum: int) string "string list" jval jval jval

record drawn_edge =
  de_source :: int
  de_index :: nat
  de_target :: int

fun block_json :: "drawn_block \<Rightarrow> jval" where
  "block_json (TaskBlock i n op outs) =
     JObj [(''id'', JNum i), (''type'', JStr ''Task''),
       (''values'', JObj [(''name'', JStr n), (''operator'', JStr op), (''outputs'', JArr (map JStr outs))])]"
| "block_json (ShuffleBlock i attrs g im) =
     JObj [(''id'', JNum i), (''type'', JStr ''Shuffle''),
       (''values'', JObj [(''selectedattributes'', JArr (map JStr attrs)), (''groupby'', g), (''informationmodel'', im)])]"
| "block_json (StreamBlock i ty attrs g sc im) =
     JObj [(''id'', JNum i), (''type'', JStr ''EntityStream''),
       (''values'', JObj [(''selectedtype'', JStr ty), (''selectedattributes'', JArr (map JStr attrs)), (''groupby'', g),
          (''scoped'', sc), (''informationmodel'', im)])]"

definition edge_json :: "drawn_edge \<Rightarrow> jval" where
  "edge_json e =
     JObj [(''block1'', JNum (de_source e)), (''connector1'', JArr [JStr ''outputs'', JStr ''output'', JNum (int (de_index e))]),
       (''block2'', JNum (de_target e))]"

definition scene_json :: "drawn_block list \<Rightarrow> drawn_edge list \<Rightarrow> jval" where
  "scene_json bs es = JObj [(''edges'', JArr (map edge_json es)), (''blocks'', JArr (map block_json bs))]"

text \<open>What a drawing means, with the blocks looked up by their numbers.\<close>

definition block_at :: "drawn_block list \<Rightarrow> int \<Rightarrow> drawn_block option" where
  "block_at bs i = List.find (\<lambda>b. bnum b = i) bs"

definition incoming :: "drawn_edge list \<Rightarrow> int \<Rightarrow> drawn_edge list" where
  "incoming es i = filter (\<lambda>e. de_target e = i) es"

definition attrs_json :: "string list \<Rightarrow> jval" where
  "attrs_json attrs = (case attrs of [a] \<Rightarrow> if to_upper a = ''ALL'' then JArr [] else JArr [JStr a] | _ \<Rightarrow> JArr (map JStr attrs))"

text \<open>The type of the data on an edge that leaves a task: the declared output of that index.\<close>

definition edge_type :: "drawn_block list \<Rightarrow> drawn_edge \<Rightarrow> jval" where
  "edge_type bs e =
     (case block_at bs (de_source e) of
        Some (TaskBlock i n op outs) \<Rightarrow> if de_index e < length outs then JStr (outs ! de_index e) else JUndef
      | _ \<Rightarrow> JUndef)"

definition shuffle_type :: "drawn_block list \<Rightarrow> drawn_edge list \<Rightarrow> int \<Rightarrow> jval" where
  "shuffle_type bs es i = (if incoming es i = [] then JStr ''unknown'' else edge_type bs (last (incoming es i)))"

definition stream_json :: "drawn_block list \<Rightarrow> drawn_edge list \<Rightarrow> drawn_edge \<Rightarrow> jval list" where
  "stream_json bs es e =
     (case block_at bs (de_source e) of
        Some (ShuffleBlock i attrs g im) \<Rightarrow>
          [JObj [(''selected_type'', shuffle_type bs es i), (''selected_attributes'', attrs_json attrs), (''groupby'', g),
             (''scoped'', JBool True), (''information_model'', im)]]
      | Some (StreamBlock i ty attrs g sc im) \<Rightarrow>
          [JObj [(''selected_type'', JStr ty), (''selected_attributes'', attrs_json attrs), (''groupby'', g), (''scoped'', sc),
             (''information_model'', im)]]
      | _ \<Rightarrow> [])"

definition drawn_task :: "drawn_block list \<Rightarrow> drawn_edge list \<Rightarrow> drawn_block \<Rightarrow> jval list" where
  "drawn_task bs es b =
     (case b of
        TaskBlock i n op outs \<Rightarrow>
          [JObj [(''name'', JStr n), (''operator'', JStr op),
             (''input_streams'', JArr (concat (map (stream_json bs es) (incoming es i)))),
             (''output_streams'', JArr (map (\<lambda>t. JObj [(''entity_type'', JStr t)]) outs))]]
      | _ \<Rightarrow> [])"

text \<open>The drawings considered: numbered differently, and the edges into a shuffle leave tasks of the drawing.\<close>

definition drawing_ok :: "drawn_block list \<Rightarrow> drawn_edge list \<Rightarrow> bool" where
  "drawing_ok bs es =
     (distinct (map bnum bs) \<and>
      list_all (\<lambda>e. case block_at bs (de_target e) of
          Some (ShuffleBlock i attrs g im) \<Rightarrow>
            (case block_at bs (de_source e) of Some (TaskBlock j n op outs) \<Rightarrow> True | _ \<Rightarrow> False)
        | _ \<Rightarrow> True) es)"

lemma jget_block [simp]:
  "jget (block_json b) ''id'' = Some (JNum (bnum b))"
  by (cases b) (simp_all add: js_access)

lemma jget_edge [simp]:
  "jget (edge_json e) ''block1'' = Some (JNum (de_source e))" "jget (edge_json e) ''block2'' = Some (JNum (de_target e))"
  "jget (edge_json e) ''connector1'' = Some (JArr [JStr ''outputs'', JStr ''output'', JNum (int (de_index e))])"
  by (simp_all add: edge_json_def js_access)

lemma block_at_Cons: "block_at (b # bs) i = (if bnum b = i then Some b else block_at bs i)"
  by (simp add: block_at_def)

lemma block_at_absent: "i \<notin> bnum ` set bs \<Longrightarrow> block_at bs i = None"
  by (auto simp: block_at_def find_None_iff)

lemma block_at_num: "block_at bs i = Some b \<Longrightarrow> bnum b = i"
  by (auto simp: block_at_def find_Some_iff)

text \<open>The loops over the blocks act on the one block with the number they look for.\<close>

lemma source_streams_block_at:
  assumes "distinct (map bnum bs)"
  shows "source_streams stream (JNum i) (map block_json bs) =
    (case block_at bs i of None \<Rightarrow> Some [] | Some b \<Rightarrow> stream (block_json b))"
  using assms
proof (induction bs)
  case (Cons b bs)
  show ?case
  proof (cases "bnum b = i")
    case True
    with Cons.prems have "block_at bs i = None" by (auto intro: block_at_absent)
    with True Cons show ?thesis by (simp add: block_at_Cons js_eq_JNum)
  next
    case False
    with Cons show ?thesis by (simp add: block_at_Cons js_eq_JNum)
  qed
qed (simp add: block_at_def)

lemma source_type_absent:
  "i \<notin> bnum ` set bs \<Longrightarrow> source_type (JNum i) index (map block_json bs) ty = Some ty"
  by (induction bs) (auto simp: js_eq_JNum)

lemma nat_str_digit: "nat_str 0 = ''0''" "nat_str 2 = ''2''"
  by (simp_all add: nat_str.simps digit_char_def char_of_eq_iff)

lemma jget_2: "jget (JArr [x, y, z]) ''2'' = Some z"
  using jget_nth [of "[x, y, z]" 2] by (simp add: nat_str_digit del: jget.simps)

lemma jget_0: "jget (JArr (x # xs)) ''0'' = Some x"
  using jget_nth [of "x # xs" 0] by (simp add: nat_str_digit del: jget.simps)

lemma source_type_block_at:
  assumes "distinct (map bnum bs)" and "block_at bs (de_source e) = Some (TaskBlock j n op outs)"
  shows "source_type (JNum (de_source e)) (JNum (int (de_index e))) (map block_json bs) ty = Some (edge_type bs e)"
proof -
  have "source_type (JNum i) (JNum (int k)) (map block_json bs) ty =
      Some (if k < length outs then JStr (outs ! k) else JUndef)"
    if "distinct (map bnum bs)" "block_at bs i = Some (TaskBlock j n op outs)" for i k
    using that
  proof (induction bs arbitrary: ty)
    case (Cons b bs)
    show ?case
    proof (cases "bnum b = i")
      case True
      with Cons.prems have b: "b = TaskBlock j n op outs" "j \<notin> bnum ` set bs" by (auto simp: block_at_Cons)
      with True show ?thesis
        by (simp add: js_eq_JNum js_access int_str_int jget_nth source_type_absent del: jget.simps(4))
    next
      case False
      with Cons show ?thesis by (simp add: block_at_Cons js_eq_JNum)
    qed
  qed (simp add: block_at_def)
  with assms show ?thesis by (simp add: edge_type_def)
qed

lemma find_input_type:
  assumes "distinct (map bnum bs)" and "\<forall>e \<in> set (incoming es i). \<exists>j n op outs. block_at bs (de_source e) = Some (TaskBlock j n op outs)"
  shows "input_type (map block_json bs) (JNum i) (map edge_json es) ty =
    Some (if incoming es i = [] then ty else edge_type bs (last (incoming es i)))"
  using assms(2)
proof (induction es arbitrary: ty)
  case (Cons e es)
  show ?case
  proof (cases "de_target e = i")
    case True
    then obtain j n op outs where "block_at bs (de_source e) = Some (TaskBlock j n op outs)"
      using Cons.prems by (auto simp: incoming_def)
    with True Cons source_type_block_at [OF assms(1)] show ?thesis
      by (simp add: js_eq_JNum incoming_def jget_2 del: jget.simps)
  next
    case False
    with Cons show ?thesis by (simp add: js_eq_JNum incoming_def)
  qed
qed (simp add: incoming_def)

lemma selected_attributes_drawn:
  assumes "jget values ''selectedattributes'' = Some (JArr (map JStr attrs))"
  shows "selected_attributes values = Some (attrs_json attrs)"
proof (cases attrs)
  case Nil
  then show ?thesis using assms by (simp add: selected_attributes_def js_eq_JNum attrs_json_def)
next
  case (Cons a as)
  then have "jget (JArr (map JStr attrs)) ''0'' = Some (JStr a)" by (simp add: jget_0 del: jget.simps)
  then show ?thesis using assms Cons
    by (cases as) (simp_all add: selected_attributes_def js_eq_JNum attrs_json_def del: jget.simps(4) add: jget.simps(4) [of _ "''length''"])
qed

lemma drawing_shuffle:
  assumes "drawing_ok bs es" and "block_at bs i = Some (ShuffleBlock j attrs g im)"
  shows "findInputType (map block_json bs) (map edge_json es) (JNum i) = Some (shuffle_type bs es i)"
proof -
  have "\<forall>e \<in> set (incoming es i). \<exists>j n op outs. block_at bs (de_source e) = Some (TaskBlock j n op outs)"
  proof
    fix e
    assume "e \<in> set (incoming es i)"
    then have e: "e \<in> set es" "de_target e = i" by (auto simp: incoming_def)
    then have "case block_at bs (de_source e) of Some (TaskBlock j n op outs) \<Rightarrow> True | _ \<Rightarrow> False"
      using assms by (auto simp: drawing_ok_def list_all_iff)
    then show "\<exists>j n op outs. block_at bs (de_source e) = Some (TaskBlock j n op outs)"
      by (auto split: option.splits drawn_block.splits)
  qed
  then show ?thesis
    using assms(1) by (simp add: findInputType_def find_input_type drawing_ok_def shuffle_type_def)
qed

lemma topology_stream_drawn:
  assumes "drawing_ok bs es" and "block_at bs (de_source e) = Some b"
  shows "topology_stream (map block_json bs) (map edge_json es) (block_json b) = Some (stream_json bs es e)"
proof (cases b)
  case (TaskBlock i n op outs)
  then show ?thesis using assms(2) by (simp add: topology_stream_def stream_json_def js_access js_eq_JStr)
next
  case (ShuffleBlock i attrs g im)
  then have "i = de_source e" using block_at_num [OF assms(2)] by simp
  then show ?thesis using ShuffleBlock assms(2) drawing_shuffle [OF assms(1)]
    by (simp add: topology_stream_def stream_json_def stream_fields_def selected_attributes_drawn js_access js_eq_JStr)
next
  case (StreamBlock i ty attrs g sc im)
  then show ?thesis using assms(2)
    by (simp add: topology_stream_def stream_json_def stream_fields_def selected_attributes_drawn js_access js_eq_JStr)
qed

lemma stream_json_absent: "block_at bs (de_source e) = None \<Longrightarrow> stream_json bs es e = []"
  by (simp add: stream_json_def)

lemma input_streams_drawn:
  assumes "drawing_ok bs es"
  shows "input_streams (topology_stream (map block_json bs) (map edge_json es)) (map block_json bs) (JNum i) (map edge_json fs) =
    Some (concat (map (stream_json bs es) (incoming fs i)))"
proof (induction fs)
  case (Cons e fs)
  have "source_streams (topology_stream (map block_json bs) (map edge_json es)) (JNum (de_source e)) (map block_json bs) =
      Some (stream_json bs es e)"
    using assms topology_stream_drawn [OF assms, of e] stream_json_absent [of bs e es]
    by (simp add: source_streams_block_at drawing_ok_def split: option.split)
  with Cons show ?case by (simp add: js_eq_JNum incoming_def)
qed (simp add: incoming_def)

lemma generated_tasks:
  assumes "drawing_ok bs es"
  shows "topology_generateTaskList (scene_json bs es) = Some (concat (map (drawn_task bs es) bs))"
proof -
  have block: "task_of_block (topology_findInputStream (map block_json bs) (JArr (map edge_json es))) (block_json b) =
      Some (drawn_task bs es b)" for b
    using input_streams_drawn [OF assms, of _ es]
    by (cases b) (simp_all add: task_of_block_def drawn_task_def topology_findInputStream_def js_access js_eq_JStr comp_def)
  have "task_list (topology_findInputStream (map block_json bs) (JArr (map edge_json es))) (map block_json cs) =
      Some (concat (map (drawn_task bs es) cs))" for cs
    by (induction cs) (simp_all add: block)
  then show ?thesis
    by (simp add: topology_generateTaskList_def scene_parts_def scene_json_def js_access)
qed

text \<open>
  Claim C33. For every drawing whose blocks have different numbers, the tasks of the generated topology are
  the task blocks in their order, each with its name, its operator and its declared outputs; its input
  streams are the streams and shuffles from which an edge leads to it, one per edge and in the order of the
  edges, a shuffle carrying the type of the task output that feeds it; the selection \<open>all\<close>, in any case of
  letters, becomes the empty list of attributes.
\<close>

theorem topology_tasks_of_drawing:
  assumes "drawing_ok bs es"
  shows "topology_generateTaskList (scene_json bs es) = Some (concat (map (drawn_task bs es) bs))"
  using assms by (rule generated_tasks)

definition sample_blocks :: "drawn_block list" where
  "sample_blocks = [TaskBlock 1 ''Counting'' ''counter'' [''Stat''], TaskBlock 2 ''Detector'' ''anomaly'' [''Anomaly''],
     ShuffleBlock 3 [''all''] (JStr ''ALL'') JUndef, StreamBlock 4 ''PowerPanel'' [''usage''] (JStr ''EntityID'') (JBool True) JUndef]"

definition sample_edges :: "drawn_edge list" where
  "sample_edges = [\<lparr>de_source = 3, de_index = 0, de_target = 1\<rparr>, \<lparr>de_source = 2, de_index = 0, de_target = 3\<rparr>,
     \<lparr>de_source = 4, de_index = 0, de_target = 2\<rparr>]"

theorem topology_tasks_of_drawing_witness:
  "topology_generateTaskList (scene_json sample_blocks sample_edges) =
   Some [JObj [(''name'', JStr ''Counting''), (''operator'', JStr ''counter''),
           (''input_streams'', JArr [JObj [(''selected_type'', JStr ''Anomaly''), (''selected_attributes'', JArr []),
              (''groupby'', JStr ''ALL''), (''scoped'', JBool True), (''information_model'', JUndef)]]),
           (''output_streams'', JArr [JObj [(''entity_type'', JStr ''Stat'')]])],
         JObj [(''name'', JStr ''Detector''), (''operator'', JStr ''anomaly''),
           (''input_streams'', JArr [JObj [(''selected_type'', JStr ''PowerPanel''), (''selected_attributes'', JArr [JStr ''usage'']),
              (''groupby'', JStr ''EntityID''), (''scoped'', JBool True), (''information_model'', JUndef)]]),
           (''output_streams'', JArr [JObj [(''entity_type'', JStr ''Anomaly'')]])]]"
  by (subst topology_tasks_of_drawing)
    (simp_all add: drawing_ok_def drawn_task_def incoming_def stream_json_def shuffle_type_def edge_type_def block_at_def
      attrs_json_def to_upper_def upper_char_def char_of_eq_iff sample_blocks_def sample_edges_def)

section \<open>The two editors\<close>

fun information_model :: "drawn_block \<Rightarrow> jval" where
  "information_model (TaskBlock i n op outs) = JUndef"
| "information_model (ShuffleBlock i attrs g im) = im"
| "information_model (StreamBlock i ty attrs g sc im) = im"

lemma delivery_fields_v1:
  "obj_get ps ''informationmodel'' \<noteq> JStr ''NGSI-LD'' \<Longrightarrow> delivery_fields (JObj ps) qs = Some qs"
  by (simp add: delivery_fields_def)

lemma function_stream_v1:
  assumes "information_model b \<noteq> JStr ''NGSI-LD''"
  shows "function_stream bs es (block_json b) = topology_stream bs es (block_json b)"
  using assms
  by (cases b) (simp_all add: function_stream_def topology_stream_def js_access js_eq_JStr delivery_fields_v1 cong: Option.bind_cong)

lemma source_streams_cong:
  "(\<And>b. b \<in> set cs \<Longrightarrow> f (block_json b) = g (block_json b)) \<Longrightarrow>
     source_streams f i (map block_json cs) = source_streams g i (map block_json cs)"
  by (induction cs) simp_all

lemma input_streams_cong:
  assumes "\<And>b. b \<in> set cs \<Longrightarrow> f (block_json b) = g (block_json b)"
  shows "input_streams f (map block_json cs) i es = input_streams g (map block_json cs) i es"
  using source_streams_cong [of cs f g] assms by (induction es) (simp_all cong: if_cong)

text \<open>
  On a drawing without NGSI-LD streams the two editors generate the same tasks; the editor of fog
  functions differs only in what it adds for the delivery of NGSI-LD entities.
\<close>

theorem editors_agree:
  assumes "\<forall>b \<in> set bs. information_model b \<noteq> JStr ''NGSI-LD''"
  shows "function_generateTaskList (scene_json bs es) = topology_generateTaskList (scene_json bs es)"
proof -
  have "function_findInputStream (map block_json bs) edges = topology_findInputStream (map block_json bs) edges" for edges
  proof
    fix i
    have "input_streams (function_stream (map block_json bs) fs) (map block_json bs) i fs =
        input_streams (topology_stream (map block_json bs) fs) (map block_json bs) i fs" for fs
      by (rule input_streams_cong) (use assms in \<open>blast intro: function_stream_v1\<close>)
    then show "function_findInputStream (map block_json bs) edges i = topology_findInputStream (map block_json bs) edges i"
      by (simp add: function_findInputStream_def topology_findInputStream_def)
  qed
  then show ?thesis
    by (simp add: function_generateTaskList_def topology_generateTaskList_def scene_parts_def scene_json_def js_access)
qed

theorem editors_agree_witness:
  "function_generateTaskList (scene_json sample_blocks sample_edges) = topology_generateTaskList (scene_json sample_blocks sample_edges)"
  by (rule editors_agree) (simp add: sample_blocks_def)

text \<open>
  A fog function is submitted only with a name, at least one task, and a first task that has a chosen
  operator and at least one input stream; the submitted function, its topology and its intent carry the same
  name, so that deleting the function also removes its topology.
\<close>

theorem submitted_fogfunction_complete:
  assumes "boardScene2FogFunction uid n d scene = Some (Submitted body)"
  shows "n \<noteq> [] \<and>
    (\<exists>t ts. function_generateTaskList scene = Some (t # ts) \<and>
       (\<exists>op. jget t ''operator'' = Some op \<and> op \<noteq> JStr ''null'' \<and> op \<noteq> JStr []) \<and>
       (\<forall>ins. jget t ''input_streams'' = Some (JArr ins) \<longrightarrow> ins \<noteq> []) \<and>
       (\<exists>f top i. body = JArr [f] \<and> jget f ''name'' = Some (JStr n) \<and> jget f ''topology'' = Some top \<and>
          jget top ''name'' = Some (JStr n) \<and> jget top ''tasks'' = Some (JArr (t # ts)) \<and>
          jget f ''intent'' = Some i \<and> jget i ''topology'' = Some (JStr n) \<and> jget i ''id'' = Some (JStr (''ServiceIntent.'' @ uid))))"
proof -
  obtain ts where ts: "function_generateTaskList scene = Some ts" "incomplete n ts = Some False"
    using assms by (auto simp: boardScene2FogFunction_def Option.bind_eq_Some_conv split: if_splits)
  then obtain t us where us: "n \<noteq> []" "ts = t # us" by (cases ts) (auto simp: incomplete_def split: if_splits)
  with ts(2) obtain op ins len where op: "jget t ''operator'' = Some op" "\<not> js_eq op (JStr ''null'')" "\<not> js_eq op (JStr [])"
      "jget t ''input_streams'' = Some ins" "jget ins ''length'' = Some len" "\<not> js_eq len (JNum 0)"
    by (auto simp: incomplete_def Option.bind_eq_Some_conv split: if_splits)
  have "op \<noteq> JStr ''null''" "op \<noteq> JStr []" using op(2,3) by (auto simp: js_eq_JStr)
  moreover have "\<forall>xs. jget t ''input_streams'' = Some (JArr xs) \<longrightarrow> xs \<noteq> []"
    using op(4,5,6) by (auto simp: js_eq_JNum)
  moreover have "body = JArr [JObj
      [(''name'', JStr n), (''topology'', JObj [(''name'', JStr n), (''description'', JStr d), (''tasks'', JArr ts)]),
       (''intent'', JObj [(''id'', JStr (''ServiceIntent.'' @ uid)), (''topology'', JStr n),
          (''priority'', JObj [(''exclusive'', JBool False), (''level'', JNum 0)]), (''qos'', JStr ''default''),
          (''geoscope'', JObj [(''scopeType'', JStr ''global''), (''scopeValue'', JStr ''global'')])]),
       (''designboard'', scene), (''status'', JStr ''enabled'')]]"
    using assms ts by (simp add: boardScene2FogFunction_def)
  ultimately show ?thesis using ts(1) us op(1) by (simp add: js_access)
qed

definition sample_scene :: jval where
  "sample_scene = scene_json [TaskBlock 1 ''Main'' ''detector'' [], StreamBlock 2 ''Camera'' [''all''] (JStr ''EntityID'') (JBool False) (JStr ''NGSI-LD'')]
     [\<lparr>de_source = 2, de_index = 0, de_target = 1\<rparr>]"

lemma sample_fogfunction_submitted: "\<exists>body. boardScene2FogFunction ''u1'' ''F'' [] sample_scene = Some (Submitted body)"
proof -
  have at: "selected_attributes (JObj [(''selectedtype'', JStr ''Camera''), (''selectedattributes'', JArr [JStr ''all'']),
      (''groupby'', g), (''scoped'', sc), (''informationmodel'', im)]) = Some (JArr [])" for g sc im
    by (subst selected_attributes_drawn [where attrs = "[''all'']"])
      (simp_all add: js_access attrs_json_def to_upper_def upper_char_def char_of_eq_iff)
  show ?thesis
    by (simp add: boardScene2FogFunction_def function_generateTaskList_def scene_parts_def sample_scene_def scene_json_def
        task_of_block_def function_findInputStream_def function_stream_def stream_fields_def delivery_fields_def at
        incomplete_def js_access js_eq_JStr js_eq_JNum Let_def object_proto_def trim_def edge_json_def)
qed

theorem submitted_fogfunction_complete_witness:
  "\<exists>body t ts. boardScene2FogFunction ''u1'' ''F'' [] sample_scene = Some (Submitted body) \<and>
     function_generateTaskList sample_scene = Some (t # ts)"
  using sample_fogfunction_submitted submitted_fogfunction_complete [of "''u1''" "''F''" "[]" sample_scene] by blast

section \<open>Editing an intent\<close>

definition form_ok :: "intent_form \<Rightarrow> bool" where
  "form_ok f =
     (if_priority f \<in> {''low'', ''middle'', ''high''} \<and> if_usage f \<in> {''inclusive'', ''exclusive''} \<and>
      if_slo f \<in> JStr ` set slo_options \<and> if_scope f \<in> {''global'', ''custom''})"

text \<open>
  Opening a submitted intent of global scope in the form and submitting it again keeps its
  identifier, its priority, its resource usage, its objective and its scope; the service type falls back to
  the first option, and the topology to the first one in the list.
\<close>

theorem edit_keeps_global_intent:
  assumes "form_ok f" and "if_scope f = ''global''" and "submitIntent f = Some intent"
  shows "showIntent listed scope intent =
    Some (f\<lparr>if_stype := ''SYN'', if_topology := (case listed of [] \<Rightarrow> JUndef | n # _ \<Rightarrow> JStr n), if_geoscope := scope\<rparr>)"
proof -
  have p: "if_priority f = ''low'' \<or> if_priority f = ''middle'' \<or> if_priority f = ''high''"
    and u: "if_usage f = ''inclusive'' \<or> if_usage f = ''exclusive''"
    using assms(1) by (auto simp: form_ok_def)
  have slo: "select_slo (if_slo f) = if_slo f" using assms(1) by (auto simp: form_ok_def select_slo_def)
  have "intent = JObj [(''topology'', if_topology f), (''stype'', JStr (if_stype f)),
      (''priority'', JObj [(''exclusive'', JBool (if_usage f = ''exclusive'')), (''level'', JNum (priority_level (if_priority f)))]),
      (''qos'', if_slo f), (''geoscope'', JObj [(''scopeType'', JStr ''global''), (''scopeValue'', JStr ''global'')]), (''id'', JStr (if_sid f))]"
    using assms(2,3) by (simp add: submitIntent_def)
  then show ?thesis
    using p u slo assms(2)
    by (elim disjE)
      (simp_all add: showIntent_def fresh_form_def priority_level_def js_access js_eq_JStr js_eq_JNum Let_def intent_form.equality)
qed

definition sample_form :: intent_form where
  "sample_form = \<lparr>if_sid = ''ServiceIntent.1'', if_topology = JStr ''T'', if_stype = ''ASYN'', if_priority = ''middle'',
     if_usage = ''exclusive'', if_slo = JStr ''MIN_COST'', if_scope = ''global'', if_geoscope = JUndef\<rparr>"

theorem edit_keeps_global_intent_witness:
  "\<exists>intent f. submitIntent sample_form = Some intent \<and> showIntent [''A'', ''T''] JUndef intent = Some f \<and>
     if_sid f = ''ServiceIntent.1'' \<and> if_priority f = ''middle'' \<and> if_usage f = ''exclusive'' \<and> if_slo f = JStr ''MIN_COST'' \<and> if_topology f = JStr ''A''"
proof -
  obtain intent where i: "submitIntent sample_form = Some intent" by (simp add: submitIntent_def sample_form_def)
  have "form_ok sample_form" "if_scope sample_form = ''global''" by (simp_all add: form_ok_def sample_form_def slo_options_def)
  from edit_keeps_global_intent [OF this i, of "[''A'', ''T'']" JUndef] i show ?thesis by (simp add: sample_form_def)
qed

text \<open>
  An intent with a drawn scope loses it when it is opened in the form and submitted again without a
  new drawing: the form keeps the stored scope, whose fields are \<open>scopeType\<close> and \<open>scopeValue\<close>, in the variable of
  which the submission reads \<open>type\<close> and \<open>value\<close>.
\<close>

theorem edit_loses_custom_scope:
  assumes "if_scope f = ''custom''" and "if_geoscope f = JObj [(''type'', JStr ty), (''value'', v)]" and "ty \<noteq> ''global''"
    and "submitIntent f = Some intent" and "showIntent listed scope intent = Some f'" and "submitIntent f' = Some intent'"
  shows "jget intent ''geoscope'' = Some (JObj [(''scopeType'', JStr ty), (''scopeValue'', v)]) \<and>
    jget intent' ''geoscope'' = Some (JObj [(''scopeType'', JUndef), (''scopeValue'', JUndef)])"
proof -
  have i: "intent = JObj [(''topology'', if_topology f), (''stype'', JStr (if_stype f)),
      (''priority'', JObj [(''exclusive'', JBool (if_usage f = ''exclusive'')), (''level'', JNum (priority_level (if_priority f)))]),
      (''qos'', if_slo f), (''geoscope'', JObj [(''scopeType'', JStr ty), (''scopeValue'', v)]), (''id'', JStr (if_sid f))]"
    using assms(1,2,4) by (simp add: submitIntent_def js_access)
  have "if_scope f' = ''custom'' \<and> if_geoscope f' = JObj [(''scopeType'', JStr ty), (''scopeValue'', v)]"
    using assms(3,5) unfolding i
    by (auto simp: showIntent_def js_access js_eq_JStr Let_def object_proto_def)
  then have "jget intent' ''geoscope'' = Some (JObj [(''scopeType'', JUndef), (''scopeValue'', JUndef)])"
    using assms(6) by (auto simp: submitIntent_def js_access object_proto_def)
  then show ?thesis unfolding i by (simp add: js_access)
qed

theorem edit_loses_custom_scope_witness:
  "\<exists>intent f' intent'. submitIntent (sample_form\<lparr>if_scope := ''custom'', if_geoscope := JObj [(''type'', JStr ''circle''), (''value'', JNum 5)]\<rparr>) = Some intent \<and>
     showIntent [''T''] JUndef intent = Some f' \<and> submitIntent f' = Some intent' \<and>
     jget intent' ''geoscope'' = Some (JObj [(''scopeType'', JUndef), (''scopeValue'', JUndef)])"
proof -
  let ?f = "sample_form\<lparr>if_scope := ''custom'', if_geoscope := JObj [(''type'', JStr ''circle''), (''value'', JNum 5)]\<rparr>"
  obtain intent where i: "submitIntent ?f = Some intent" by (simp add: submitIntent_def js_access)
  obtain f' where f': "showIntent [''T''] JUndef intent = Some f'"
    using i by (auto simp: submitIntent_def showIntent_def js_access Let_def sample_form_def)
  obtain intent' where i': "submitIntent f' = Some intent'"
    using i f' by (auto simp: submitIntent_def showIntent_def js_access Let_def sample_form_def priority_level_def js_eq_JNum js_eq_JStr)
  from edit_loses_custom_scope [OF _ _ _ i f' i', of "''circle''" "JNum 5"] i f' i' show ?thesis by auto
qed

text \<open>
  The validation of a stream configuration is idempotent, keeps the grouping, and afterwards more
  than one instance or a criterion is possible only for a parallelised stream that is grouped by entity type.
\<close>

theorem stream_validation:
  "validateEntityStreamEntries (validateEntityStreamEntries c) = validateEntityStreamEntries c \<and>
   sc_groupby (validateEntityStreamEntries c) = sc_groupby c \<and>
   (if sc_groupby c = ''EntityType'' \<and> sc_parallelization c then validateEntityStreamEntries c = c
    else sc_numberofinstances (validateEntityStreamEntries c) = ''1'' \<and> sc_criteria (validateEntityStreamEntries c) = ''NA'')"
  by (simp add: validateEntityStreamEntries_def)

end
