(* ===== verification/Geohash.thy ===== *)
theory Geohash
  imports Complex_Main JS_Prelude
begin

text \<open>
  Geohashes, \<open>designer/public/js/geohash.js\<close>: positions are named by the bits of a bisection of the globe, alternately by
  longitude and latitude, written as a string of five bits per character or as an integer.

  Coordinates are rational numbers.  The values the code computes with are of the form \<open>45 * m / 2 ^ k\<close>; as long as \<open>k\<close> is
  below 46, that is for strings of at most 18 characters and integers of at most 52 bits, they are floating point
  numbers and the code computes them exactly.
\<close>

record gbox =
  minLat :: rat
  minLon :: rat
  maxLat :: rat
  maxLon :: rat

definition world :: gbox where
  "world = \<lparr>minLat = -90, minLon = -180, maxLat = 90, maxLon = 180\<rparr>"

section \<open>Encoding\<close>

definition BASE32_CODES :: string where
  "BASE32_CODES = ''0123456789bcdefghjkmnpqrstuvwxyz''"

text \<open>\<open>BASE32_CODES[v]\<close>, which is \<open>undefined\<close> beyond the end of the string and joins as the empty string.\<close>

definition code_at :: "nat \<Rightarrow> string" where
  "code_at v = (if v < length BASE32_CODES then [BASE32_CODES ! v] else [])"

text \<open>
  A coordinate is a number or a text with the number that it denotes.  \<open>None\<close> is \<open>NaN\<close>, which is greater than nothing.
\<close>

datatype coord = Num rat | Text string "rat option"

fun coord_gt :: "coord \<Rightarrow> rat \<Rightarrow> bool" where
  "coord_gt (Num x) m = (x > m)"
| "coord_gt (Text t (Some x)) m = (x > m)"
| "coord_gt (Text t None) m = False"

text \<open>One bisection: \<open>mid = (max + min) / 2\<close>, and one of the bounds is set to \<open>mid\<close>.\<close>

definition midLon :: "gbox \<Rightarrow> rat" where
  "midLon b = (maxLon b + minLon b) / 2"

definition midLat :: "gbox \<Rightarrow> rat" where
  "midLat b = (maxLat b + minLat b) / 2"

definition halve :: "bool \<Rightarrow> bool \<Rightarrow> gbox \<Rightarrow> gbox" where
  "halve isLon one b =
     (if isLon then (if one then b\<lparr>minLon := midLon b\<rparr> else b\<lparr>maxLon := midLon b\<rparr>)
      else (if one then b\<lparr>minLat := midLat b\<rparr> else b\<lparr>maxLat := midLat b\<rparr>))"

record encoding =
  chars :: "string list"
  bits :: nat
  bitsTotal :: nat
  hash_value :: nat
  gbox_of :: gbox

text \<open>The bit of the next bisection.\<close>

definition next_bit :: "coord \<Rightarrow> coord \<Rightarrow> nat \<Rightarrow> gbox \<Rightarrow> bool" where
  "next_bit latitude longitude cnt b =
     (if cnt mod 2 = 0 then coord_gt longitude (midLon b) else coord_gt latitude (midLat b))"

text \<open>The body of the loop of \<open>encode\<close>.\<close>

definition encode_step :: "coord \<Rightarrow> coord \<Rightarrow> encoding \<Rightarrow> encoding" where
  "encode_step latitude longitude s =
     (let one = next_bit latitude longitude (bitsTotal s) (gbox_of s);
          s1 = s\<lparr>hash_value := 2 * hash_value s + (if one then 1 else 0),
                 gbox_of := halve (bitsTotal s mod 2 = 0) one (gbox_of s),
                 bits := bits s + 1, bitsTotal := bitsTotal s + 1\<rparr>
      in if bits s1 = 5 then s1\<lparr>chars := chars s1 @ [code_at (hash_value s1)], bits := 0, hash_value := 0\<rparr> else s1)"

partial_function (option) encode_loop :: "int \<Rightarrow> coord \<Rightarrow> coord \<Rightarrow> encoding \<Rightarrow> encoding option" where
  "encode_loop numberOfChars latitude longitude s =
     (if int (length (chars s)) < numberOfChars then encode_loop numberOfChars latitude longitude (encode_step latitude longitude s)
      else Some s)"

definition start_encoding :: encoding where
  "start_encoding = \<lparr>chars = [], bits = 0, bitsTotal = 0, hash_value = 0, gbox_of = world\<rparr>"

text \<open>The length asked for: a number, the default, or the automatic precision.\<close>

datatype hash_length = Chars int | Default | Auto

definition SIGFIG_HASH_LENGTH :: "nat list" where
  "SIGFIG_HASH_LENGTH = [0, 5, 7, 8, 11, 12, 13, 15, 16, 17, 18]"

text \<open>\<open>t.split('.')[1].length\<close>, which throws when there is no point in the text.\<close>

definition fraction_digits :: "string \<Rightarrow> nat option" where
  "fraction_digits t =
     (case dropWhile (\<lambda>c. c \<noteq> CHR ''.'') t of
        [] \<Rightarrow> None
      | _ # fraction \<Rightarrow> Some (length (takeWhile (\<lambda>c. c \<noteq> CHR ''.'') fraction)))"

text \<open>
  The number of characters; \<open>None\<close> is an exception.  A precision beyond the table reads \<open>undefined\<close>, with which the
  condition of the loop is false from the beginning.
\<close>

fun number_of_chars :: "coord \<Rightarrow> coord \<Rightarrow> hash_length \<Rightarrow> int option" where
  "number_of_chars latitude longitude (Chars n) = Some n"
| "number_of_chars latitude longitude Default = Some 9"
| "number_of_chars (Text s u) (Text t v) Auto =
     do { a \<leftarrow> fraction_digits s;
          b \<leftarrow> fraction_digits t;
          Some (if max a b < length SIGFIG_HASH_LENGTH then int (SIGFIG_HASH_LENGTH ! max a b) else 0) }"
| "number_of_chars latitude longitude Auto = None"

text \<open>\<open>encode\<close>: the outer option is an exception, the inner one a loop that does not end.\<close>

definition encode_chars :: "coord \<Rightarrow> coord \<Rightarrow> int \<Rightarrow> string option" where
  "encode_chars latitude longitude n = map_option (\<lambda>s. concat (chars s)) (encode_loop n latitude longitude start_encoding)"

definition encode :: "coord \<Rightarrow> coord \<Rightarrow> hash_length \<Rightarrow> string option option" where
  "encode latitude longitude numberOfChars =
     map_option (encode_chars latitude longitude) (number_of_chars latitude longitude numberOfChars)"

text \<open>\<open>bitDepth || 52\<close>\<close>

definition bit_depth :: "int option \<Rightarrow> int" where
  "bit_depth d = (case d of None \<Rightarrow> 52 | Some n \<Rightarrow> if n = 0 then 52 else n)"

text \<open>
  The loop of \<open>encode_int\<close> after \<open>bitsTotal\<close> bits. The code accumulates the bits in a floating point number, which is exact up to 53 bits;
  what is stated of the integers is therefore stated for at most 52, the default of the library.
\<close>

function encode_int_loop :: "int \<Rightarrow> coord \<Rightarrow> coord \<Rightarrow> nat \<Rightarrow> gbox \<Rightarrow> nat \<Rightarrow> nat" where
  "encode_int_loop bitDepth latitude longitude cnt b combinedBits =
     (if int cnt < bitDepth then
        (let one = next_bit latitude longitude cnt b
         in encode_int_loop bitDepth latitude longitude (cnt + 1) (halve (cnt mod 2 = 0) one b)
              (2 * combinedBits + (if one then 1 else 0)))
      else combinedBits)"
  by pat_completeness auto
termination by (relation "measure (\<lambda>(d, lat, lon, t, b, c). nat (d - int t))") auto

declare encode_int_loop.simps [simp del]

definition encode_int :: "coord \<Rightarrow> coord \<Rightarrow> int option \<Rightarrow> nat" where
  "encode_int latitude longitude bitDepth = encode_int_loop (bit_depth bitDepth) latitude longitude 0 world 0"

section \<open>Decoding\<close>

text \<open>\<open>BASE32_CODES_DICT\<close> for a character in lower case; no entry is \<open>undefined\<close>, of which every bit is 0.\<close>

definition lower_char :: "char \<Rightarrow> char" where
  "lower_char c = (if 65 \<le> (of_char c :: nat) \<and> (of_char c :: nat) \<le> 90 then char_of ((of_char c :: nat) + 32) else c)"

definition code_value :: "char \<Rightarrow> nat" where
  "code_value c =
     (case List.find (\<lambda>i. BASE32_CODES ! i = c) [0..<length BASE32_CODES] of Some v \<Rightarrow> v | None \<Rightarrow> 0)"

text \<open>The two loops: the bits of a value from the fourth down to the zeroth, for each character.\<close>

fun decode_bits :: "nat \<Rightarrow> nat list \<Rightarrow> bool \<times> gbox \<Rightarrow> bool \<times> gbox" where
  "decode_bits hashValue [] s = s"
| "decode_bits hashValue (i # bs) (isLon, b) =
     decode_bits hashValue bs (\<not> isLon, halve isLon (hashValue div 2 ^ i mod 2 = 1) b)"

fun decode_chars :: "string \<Rightarrow> bool \<times> gbox \<Rightarrow> bool \<times> gbox" where
  "decode_chars [] s = s"
| "decode_chars (c # cs) s = decode_chars cs (decode_bits (code_value (lower_char c)) [4, 3, 2, 1, 0] s)"

definition decode_bbox :: "string \<Rightarrow> gbox" where
  "decode_bbox hash_string = snd (decode_chars hash_string (True, world))"

text \<open>\<open>(bits / Math.pow(2, position)) & 1\<close>: the operand is truncated to an integer of which only the parity matters.\<close>

definition get_bit :: "nat \<Rightarrow> int \<Rightarrow> bool" where
  "get_bit n position =
     (if position \<ge> 0 then n div 2 ^ nat position mod 2 = 1 else n * 2 ^ nat (- position) mod 2 = 1)"

text \<open>The loop of \<open>decode_bbox_int\<close>: \<open>step\<close> is \<open>bitDepth / 2\<close>, and \<open>(step - i) * 2\<close> is \<open>bitDepth - 2 * i\<close>.\<close>

function decode_int_loop :: "nat \<Rightarrow> int \<Rightarrow> nat \<Rightarrow> gbox \<Rightarrow> gbox" where
  "decode_int_loop hashInt bitDepth i b =
     (if 2 * int i < bitDepth then
        (let lonBit = get_bit hashInt (bitDepth - 2 * int i - 1);
             latBit = get_bit hashInt (bitDepth - 2 * int i - 2)
         in decode_int_loop hashInt bitDepth (i + 1) (halve True lonBit (halve False latBit b)))
      else b)"
  by pat_completeness auto
termination by (relation "measure (\<lambda>(h, d, i, b). nat (d - 2 * int i))") auto

declare decode_int_loop.simps [simp del]

definition decode_bbox_int :: "nat \<Rightarrow> int option \<Rightarrow> gbox" where
  "decode_bbox_int hashInt bitDepth = decode_int_loop hashInt (bit_depth bitDepth) 0 world"

record position =
  latitude :: rat
  longitude :: rat
  latErr :: rat
  lonErr :: rat

definition centre :: "gbox \<Rightarrow> position" where
  "centre b =
     (let lat = (minLat b + maxLat b) / 2; lon = (minLon b + maxLon b) / 2
      in \<lparr>latitude = lat, longitude = lon, latErr = maxLat b - lat, lonErr = maxLon b - lon\<rparr>)"

definition decode :: "string \<Rightarrow> position" where
  "decode hashString = centre (decode_bbox hashString)"

definition decode_int :: "nat \<Rightarrow> int option \<Rightarrow> position" where
  "decode_int hash_int bitDepth = centre (decode_bbox_int hash_int bitDepth)"

section \<open>Neighbours and areas\<close>

definition step_from :: "position \<Rightarrow> int \<times> int \<Rightarrow> coord \<times> coord" where
  "step_from p direction =
     (Num (latitude p + of_int (fst direction) * latErr p * 2), Num (longitude p + of_int (snd direction) * lonErr p * 2))"

definition neighbor :: "string \<Rightarrow> int \<times> int \<Rightarrow> string option" where
  "neighbor hashString direction =
     (case step_from (decode hashString) direction of
        (lat, lon) \<Rightarrow> encode_chars lat lon (int (length hashString)))"

definition neighbor_int :: "nat \<Rightarrow> int \<times> int \<Rightarrow> int option \<Rightarrow> nat" where
  "neighbor_int hash_int direction bitDepth =
     (let d = Some (bit_depth bitDepth) in
      case step_from (decode_int hash_int d) direction of (lat, lon) \<Rightarrow> encode_int lat lon d)"

text \<open>The directions of \<open>neighbors\<close>, clockwise from the north.\<close>

definition directions :: "(int \<times> int) list" where
  "directions = [(1, 0), (1, 1), (0, 1), (-1, 1), (-1, 0), (-1, -1), (0, -1), (1, -1)]"

definition neighbors :: "string \<Rightarrow> string option list" where
  "neighbors hash_string =
     (let p = decode hash_string
      in map (\<lambda>(dlat, dlon). encode_chars (Num (latitude p + of_int dlat * (latErr p * 2))) (Num (longitude p + of_int dlon * (lonErr p * 2)))
                (int (length hash_string))) directions)"

definition neighbors_int :: "nat \<Rightarrow> int option \<Rightarrow> nat list" where
  "neighbors_int hash_int bitDepth =
     (let d = Some (bit_depth bitDepth); p = decode_int hash_int d
      in map (\<lambda>(dlat, dlon). encode_int (Num (latitude p + of_int dlat * (latErr p * 2))) (Num (longitude p + of_int dlon * (lonErr p * 2))) d) directions)"

text \<open>\<open>for (var lat = 0; lat <= latStep; lat++) for (var lon = 0; lon <= lonStep; lon++)\<close>; \<open>Math.round\<close> rounds halves up.\<close>

definition js_round :: "rat \<Rightarrow> int" where
  "js_round x = \<lfloor>x + 1 / 2\<rfloor>"

definition grid :: "int \<Rightarrow> int \<Rightarrow> (int \<times> int) list" where
  "grid latStep lonStep = concat (map (\<lambda>lat. map (\<lambda>lon. (lat, lon)) [0..lonStep]) [0..latStep])"

definition steps :: "gbox \<Rightarrow> gbox \<Rightarrow> int \<times> int" where
  "steps sw ne =
     (let p = centre sw
      in (js_round ((minLat ne - minLat sw) / (latErr p * 2)), js_round ((minLon ne - minLon sw) / (lonErr p * 2))))"

text \<open>\<open>numberOfChars || 9\<close>; the calls of \<open>encode\<close> end, as is shown below, and \<open>None\<close> does not occur.\<close>

definition bboxes :: "rat \<Rightarrow> rat \<Rightarrow> rat \<Rightarrow> rat \<Rightarrow> int option \<Rightarrow> string option list option" where
  "bboxes lat0 lon0 lat1 lon1 numberOfChars =
     (let n = (case numberOfChars of None \<Rightarrow> 9 | Some n \<Rightarrow> if n = 0 then 9 else n) in
      do { hashSouthWest \<leftarrow> encode_chars (Num lat0) (Num lon0) n;
           hashNorthEast \<leftarrow> encode_chars (Num lat1) (Num lon1) n;
           Some (case steps (decode_bbox hashSouthWest) (decode_bbox hashNorthEast) of
                   (latStep, lonStep) \<Rightarrow> map (neighbor hashSouthWest) (grid latStep lonStep)) })"

definition bboxes_int :: "rat \<Rightarrow> rat \<Rightarrow> rat \<Rightarrow> rat \<Rightarrow> int option \<Rightarrow> nat list" where
  "bboxes_int lat0 lon0 lat1 lon1 bitDepth =
     (let d = Some (bit_depth bitDepth);
          hashSouthWest = encode_int (Num lat0) (Num lon0) d;
          hashNorthEast = encode_int (Num lat1) (Num lon1) d
      in case steps (decode_bbox_int hashSouthWest d) (decode_bbox_int hashNorthEast d) of
           (latStep, lonStep) \<Rightarrow> map (\<lambda>direction. neighbor_int hashSouthWest direction d) (grid latStep lonStep))"

section \<open>The bisection as a sequence of bits\<close>

text \<open>The bits that a position yields from a box on, the box that a sequence of bits leads to, and its value.\<close>

fun trail :: "coord \<Rightarrow> coord \<Rightarrow> nat \<Rightarrow> gbox \<Rightarrow> nat \<Rightarrow> bool list" where
  "trail la lo t b 0 = []"
| "trail la lo t b (Suc k) = next_bit la lo t b # trail la lo (Suc t) (halve (t mod 2 = 0) (next_bit la lo t b) b) k"

fun narrow :: "nat \<Rightarrow> gbox \<Rightarrow> bool list \<Rightarrow> gbox" where
  "narrow t b [] = b"
| "narrow t b (c # cs) = narrow (Suc t) (halve (t mod 2 = 0) c b) cs"

definition bits_value :: "nat \<Rightarrow> bool list \<Rightarrow> nat" where
  "bits_value v cs = foldl (\<lambda>v c. 2 * v + (if c then 1 else 0)) v cs"

lemma bits_value_simps [simp]:
  "bits_value v [] = v"
  "bits_value v (c # cs) = bits_value (2 * v + (if c then 1 else 0)) cs"
  by (simp_all add: bits_value_def)

lemma bits_value_append: "bits_value v (cs @ ds) = bits_value (bits_value v cs) ds"
  by (simp add: bits_value_def)

lemma length_trail [simp]: "length (trail la lo t b k) = k"
  by (induction k arbitrary: t b) auto

lemma narrow_append: "narrow t b (cs @ ds) = narrow (t + length cs) (narrow t b cs) ds"
  by (induction cs arbitrary: t b) auto

lemma trail_append:
  "trail la lo t b (i + j) = trail la lo t b i @ trail la lo (t + i) (narrow t b (trail la lo t b i)) j"
  by (induction i arbitrary: t b) auto

text \<open>Five bits per character.\<close>

fun spell :: "bool list \<Rightarrow> string" where
  "spell (a # b # c # d # e # cs) = code_at (bits_value 0 [a, b, c, d, e]) @ spell cs"
| "spell cs = []"

definition char_bits :: "char \<Rightarrow> bool list" where
  "char_bits c = map (\<lambda>i. code_value (lower_char c) div 2 ^ i mod 2 = 1) [4, 3, 2, 1, 0]"

definition hash_bits :: "string \<Rightarrow> bool list" where
  "hash_bits h = concat (map char_bits h)"

lemma length_hash_bits [simp]: "length (hash_bits h) = 5 * length h"
  by (induction h) (simp_all add: hash_bits_def char_bits_def)

lemma encode_loop_step:
  "int (length (chars s)) < n \<Longrightarrow> encode_loop n la lo s = encode_loop n la lo (encode_step la lo s)"
  by (subst encode_loop.simps) simp

lemma encode_loop_end: "\<not> int (length (chars s)) < n \<Longrightarrow> encode_loop n la lo s = Some s"
  by (subst encode_loop.simps) simp

lemma encode_character:
  assumes "j + Suc k = 5" and "int (length cs) < n"
  shows "encode_loop n la lo \<lparr>chars = cs, bits = j, bitsTotal = t, hash_value = v, gbox_of = b\<rparr> =
    encode_loop n la lo \<lparr>chars = cs @ [code_at (bits_value v (trail la lo t b (Suc k)))], bits = 0, bitsTotal = t + Suc k, hash_value = 0,
       gbox_of = narrow t b (trail la lo t b (Suc k))\<rparr>"
  using assms(1)
proof (induction k arbitrary: j t v b)
  case 0
  then show ?case using assms(2) by (simp add: encode_loop_step encode_step_def Let_def)
next
  case (Suc k)
  let ?one = "next_bit la lo t b"
  let ?s = "\<lparr>chars = cs, bits = Suc j, bitsTotal = Suc t, hash_value = 2 * v + (if ?one then 1 else 0), gbox_of = halve (t mod 2 = 0) ?one b\<rparr>"
  have "encode_loop n la lo \<lparr>chars = cs, bits = j, bitsTotal = t, hash_value = v, gbox_of = b\<rparr> = encode_loop n la lo ?s"
    using Suc.prems assms(2) by (subst encode_loop_step) (simp_all add: encode_step_def Let_def)
  also have "\<dots> = encode_loop n la lo \<lparr>chars = cs @ [code_at (bits_value v (trail la lo t b (Suc (Suc k))))], bits = 0, bitsTotal = t + Suc (Suc k),
       hash_value = 0, gbox_of = narrow t b (trail la lo t b (Suc (Suc k)))\<rparr>"
    using Suc.IH [of "Suc j"] Suc.prems by simp
  finally show ?case .
qed

lemma trail_5_cases:
  obtains a b c d e where "trail la lo t x 5 = [a, b, c, d, e]"
  using length_trail [of la lo t x 5] by (auto simp: length_Suc_conv numeral_eq_Suc)

lemma encode_characters:
  "\<exists>cs'. encode_loop (int (length cs) + int k) la lo \<lparr>chars = cs, bits = 0, bitsTotal = t, hash_value = 0, gbox_of = b\<rparr> =
     Some \<lparr>chars = cs @ cs', bits = 0, bitsTotal = t + 5 * k, hash_value = 0, gbox_of = narrow t b (trail la lo t b (5 * k))\<rparr> \<and>
   concat cs' = spell (trail la lo t b (5 * k))"
proof (induction k arbitrary: cs t b)
  case 0
  then show ?case by (simp add: encode_loop_end)
next
  case (Suc k)
  let ?five = "trail la lo t b 5"
  let ?c = "code_at (bits_value 0 ?five)"
  obtain cs' where IH: "encode_loop (int (length (cs @ [?c])) + int k) la lo \<lparr>chars = cs @ [?c], bits = 0, bitsTotal = t + 5, hash_value = 0, gbox_of = narrow t b ?five\<rparr> =
     Some \<lparr>chars = (cs @ [?c]) @ cs', bits = 0, bitsTotal = t + 5 + 5 * k, hash_value = 0,
        gbox_of = narrow (t + 5) (narrow t b ?five) (trail la lo (t + 5) (narrow t b ?five) (5 * k))\<rparr>"
     "concat cs' = spell (trail la lo (t + 5) (narrow t b ?five) (5 * k))"
    using Suc.IH by blast
  have split: "trail la lo t b (5 * Suc k) = ?five @ trail la lo (t + 5) (narrow t b ?five) (5 * k)"
    using trail_append [of la lo t b 5 "5 * k"] by simp
  have box: "narrow t b (trail la lo t b (5 * Suc k)) =
      narrow (t + 5) (narrow t b ?five) (trail la lo (t + 5) (narrow t b ?five) (5 * k))"
    by (simp only: split narrow_append length_trail)
  have five: "Suc 4 = 5" by simp
  have len: "int (length (cs @ [?c])) + int k = int (length cs) + int (Suc k)" by simp
  have "spell (trail la lo t b (5 * Suc k)) = concat (?c # cs')"
    unfolding split using IH(2) by (rule_tac la = la and lo = lo and t = t and x = b in trail_5_cases) simp
  moreover have "encode_loop (int (length cs) + int (Suc k)) la lo \<lparr>chars = cs, bits = 0, bitsTotal = t, hash_value = 0, gbox_of = b\<rparr> =
     Some \<lparr>chars = cs @ ?c # cs', bits = 0, bitsTotal = t + 5 * Suc k, hash_value = 0, gbox_of = narrow t b (trail la lo t b (5 * Suc k))\<rparr>"
    unfolding box using IH(1) [unfolded len] encode_character [of 0 4 cs "int (length cs) + int (Suc k)" la lo t 0 b, unfolded five]
    by simp
  ultimately show ?case by (intro exI [of _ "?c # cs'"]) simp
qed

text \<open>The string that \<open>encode\<close> returns spells the bits of the position.\<close>

lemma encode_chars_spell: "encode_chars la lo n = Some (spell (trail la lo 0 world (5 * nat n)))"
proof (cases "n \<ge> 0")
  case True
  then show ?thesis
    using encode_characters [of "[]" "nat n" la lo 0 world] by (auto simp: encode_chars_def start_encoding_def)
qed (simp add: encode_chars_def start_encoding_def encode_loop_end)

section \<open>Characters and their values\<close>

lemma code_value_code: "v < 32 \<Longrightarrow> code_value (lower_char (BASE32_CODES ! v)) = v"
proof -
  have "list_all (\<lambda>v. code_value (lower_char (BASE32_CODES ! v)) = v) [0..<32]" by code_simp
  then show "v < 32 \<Longrightarrow> code_value (lower_char (BASE32_CODES ! v)) = v" by (simp add: list_all_iff)
qed

lemma length_BASE32 [simp]: "length BASE32_CODES = 32"
  by (simp add: BASE32_CODES_def)

lemma bits_value_5 [simp]: "bits_value 0 [a, b, c, d, e] < 32"
  by simp

lemma code_at_5: "code_at (bits_value 0 [a, b, c, d, e]) = [BASE32_CODES ! bits_value 0 [a, b, c, d, e]]"
  by (simp add: code_at_def)

lemma char_bits_code: "char_bits (BASE32_CODES ! bits_value 0 [a, b, c, d, e]) = [a, b, c, d, e]"
  unfolding char_bits_def by (subst code_value_code, simp) (cases a; cases b; cases c; cases d; cases e; simp)

lemma hash_bits_spell: "length cs = 5 * k \<Longrightarrow> hash_bits (spell cs) = cs"
proof (induction k arbitrary: cs)
  case (Suc k)
  then have "length cs = Suc (Suc (Suc (Suc (Suc (5 * k)))))" by simp
  then obtain a b c d e ds where "cs = a # b # c # d # e # ds" "length ds = 5 * k" by (auto simp only: length_Suc_conv)
  then show ?case using Suc.IH [of ds] by (simp add: code_at_5 hash_bits_def char_bits_code del: bits_value_simps)
qed (simp add: hash_bits_def)

lemma set_code_at: "set (code_at v) \<subseteq> set BASE32_CODES"
  by (cases "v < 32") (simp_all add: code_at_def)

lemma spell_alphabet: "set (spell cs) \<subseteq> set BASE32_CODES"
  by (induction cs rule: spell.induct) (simp_all add: set_code_at del: bits_value_simps)

lemma length_spell: "length cs = 5 * k \<Longrightarrow> length (spell cs) = k"
  using hash_bits_spell [of cs k] length_hash_bits [of "spell cs"] by simp

lemma char_in_alphabet:
  assumes "c \<in> set BASE32_CODES"
  shows "spell (char_bits c @ cs) = c # spell cs"
proof -
  obtain v where v: "v < 32" "c = BASE32_CODES ! v" using assms by (auto simp: in_set_conv_nth)
  have "list_all (\<lambda>v. bits_value 0 (map (\<lambda>i. v div 2 ^ i mod 2 = 1) [4, 3, 2, 1, 0]) = v) [0..<32]" by code_simp
  with v have "bits_value 0 (char_bits c) = v" unfolding char_bits_def list_all_iff by (simp only: code_value_code) simp
  moreover have "code_at v = [c]" using v by (simp add: code_at_def)
  ultimately show ?thesis by (simp add: char_bits_def)
qed

lemma spell_hash_bits: "set h \<subseteq> set BASE32_CODES \<Longrightarrow> spell (hash_bits h) = h"
  by (induction h) (auto simp: hash_bits_def char_in_alphabet)

text \<open>Decoding a string follows its bits.\<close>

lemma decode_chars_narrow:
  "decode_chars h (t mod 2 = 0, b) = ((t + 5 * length h) mod 2 = 0, narrow t b (hash_bits h))"
proof (induction h arbitrary: t b)
  case (Cons c h)
  have "decode_bits v [4, 3, 2, 1, 0] (t mod 2 = 0, b) =
      ((t + 5) mod 2 = 0, narrow t b (map (\<lambda>i. v div 2 ^ i mod 2 = 1) [4, 3, 2, 1, 0]))" for v
    by (cases "t mod 2 = 0") (simp_all add: mod_Suc mod2_eq_if split: if_splits del: power_Suc)
  then have "decode_bits (code_value (lower_char c)) [4, 3, 2, 1, 0] (t mod 2 = 0, b) = ((t + 5) mod 2 = 0, narrow t b (char_bits c))"
    by (simp only: char_bits_def)
  then have "decode_chars (c # h) (t mod 2 = 0, b) = ((t + 5 + 5 * length h) mod 2 = 0, narrow (t + 5) (narrow t b (char_bits c)) (hash_bits h))"
    using Cons.IH by (simp only: decode_chars.simps)
  moreover have "length (char_bits c) = 5" by (simp add: char_bits_def)
  ultimately show ?case by (simp add: hash_bits_def narrow_append add.assoc)
qed (simp add: hash_bits_def)

lemma decode_bbox_narrow: "decode_bbox h = narrow 0 world (hash_bits h)"
  using decode_chars_narrow [of h 0 world] by (simp add: decode_bbox_def)

lemma decode_bbox_encoded:
  "encode_chars la lo n = Some h \<Longrightarrow> decode_bbox h = narrow 0 world (trail la lo 0 world (5 * nat n))"
  by (auto simp: encode_chars_spell decode_bbox_narrow hash_bits_spell)

lemma encode_chars_total: "\<exists>h. encode_chars la lo n = Some h \<and> length h = nat n \<and> set h \<subseteq> set BASE32_CODES"
  by (simp add: encode_chars_spell spell_alphabet length_spell)

lemma number_of_chars_fails: "number_of_chars la lo len = None \<Longrightarrow> len = Auto"
  by (cases len) simp_all

text \<open>
  \<open>encode\<close> throws only when it is asked for the automatic precision; otherwise its loop ends, for every
  position, also for \<open>NaN\<close>, and for every length, also a negative one, and the string has exactly the number of
  characters that was asked for, all of them from the alphabet.
\<close>

theorem encode_ends:
  "case encode la lo len of
     None \<Rightarrow> len = Auto
   | Some result \<Rightarrow> \<exists>n h. number_of_chars la lo len = Some n \<and> result = Some h \<and> length h = nat n \<and> set h \<subseteq> set BASE32_CODES"
  using encode_chars_total number_of_chars_fails [of la lo len] by (auto simp: encode_def split: option.splits)

section \<open>Boxes\<close>

text \<open>A position lies in the closed box, or in the box without its lower bounds.\<close>

definition covers :: "rat \<Rightarrow> rat \<Rightarrow> gbox \<Rightarrow> bool" where
  "covers la lo b = (minLat b \<le> la \<and> la \<le> maxLat b \<and> minLon b \<le> lo \<and> lo \<le> maxLon b)"

definition inside :: "rat \<Rightarrow> rat \<Rightarrow> gbox \<Rightarrow> bool" where
  "inside la lo b = (minLat b < la \<and> la \<le> maxLat b \<and> minLon b < lo \<and> lo \<le> maxLon b)"

lemma halve_covers: "covers la lo b \<Longrightarrow> covers la lo (halve (t mod 2 = 0) (next_bit (Num la) (Num lo) t b) b)"
  by (auto simp: covers_def halve_def next_bit_def)

lemma halve_inside: "inside la lo b \<Longrightarrow> inside la lo (halve (t mod 2 = 0) (next_bit (Num la) (Num lo) t b) b)"
  by (auto simp: inside_def halve_def next_bit_def)

lemma trail_covers: "covers la lo b \<Longrightarrow> covers la lo (narrow t b (trail (Num la) (Num lo) t b k))"
  by (induction k arbitrary: t b) (simp_all add: halve_covers)

lemma trail_inside: "inside la lo b \<Longrightarrow> inside la lo (narrow t b (trail (Num la) (Num lo) t b k))"
  by (induction k arbitrary: t b) (simp_all add: halve_inside)

text \<open>The cells of the globe after \<open>k\<close> bisections: their widths, and their lower bounds on a grid.\<close>

definition latWidth :: "nat \<Rightarrow> rat" where
  "latWidth k = 180 / 2 ^ (k div 2)"

definition lonWidth :: "nat \<Rightarrow> rat" where
  "lonWidth k = 360 / 2 ^ ((k + 1) div 2)"

definition grid_cell :: "nat \<Rightarrow> int \<Rightarrow> int \<Rightarrow> gbox" where
  "grid_cell k i j =
     \<lparr>minLat = -90 + of_int i * latWidth k, minLon = -180 + of_int j * lonWidth k,
      maxLat = -90 + of_int (i + 1) * latWidth k, maxLon = -180 + of_int (j + 1) * lonWidth k\<rparr>"

lemma width_pos [simp]: "0 < latWidth k" "0 < lonWidth k"
  by (simp_all add: latWidth_def lonWidth_def)

lemma world_cell: "world = grid_cell 0 0 0"
  by (simp add: world_def grid_cell_def latWidth_def lonWidth_def)

lemma halve_cell:
  "halve (k mod 2 = 0) one (grid_cell k i j) =
     (if k mod 2 = 0 then grid_cell (Suc k) i (2 * j + (if one then 1 else 0)) else grid_cell (Suc k) (2 * i + (if one then 1 else 0)) j)"
proof (cases "k mod 2 = 0")
  case True
  then obtain m where "k = 2 * m" by auto
  then have "lonWidth k = 2 * lonWidth (Suc k)" "latWidth (Suc k) = latWidth k"
    by (simp_all add: latWidth_def lonWidth_def)
  with True show ?thesis by (auto simp: halve_def grid_cell_def midLon_def field_simps)
next
  case False
  then obtain m where "k = 2 * m + 1" by (metis mult.commute odd_two_times_div_two_succ even_iff_mod_2_eq_zero)
  then have "latWidth k = 2 * latWidth (Suc k)" "lonWidth (Suc k) = lonWidth k"
    by (simp_all add: latWidth_def lonWidth_def)
  with False show ?thesis by (auto simp: halve_def grid_cell_def midLat_def field_simps)
qed

lemma narrow_cell: "\<exists>i' j'. narrow k (grid_cell k i j) cs = grid_cell (k + length cs) i' j'"
proof (induction cs arbitrary: k i j)
  case (Cons c cs)
  obtain i1 j1 where "halve (k mod 2 = 0) c (grid_cell k i j) = grid_cell (Suc k) i1 j1" using halve_cell [of k c i j] by metis
  with Cons.IH [of "Suc k" i1 j1] show ?case by simp
qed auto

lemma narrow_world: "\<exists>i j. narrow 0 world cs = grid_cell (length cs) i j"
  using narrow_cell [of 0 0 0 cs] by (simp add: world_cell)

text \<open>A position lies inside only one cell.\<close>

lemma grid_le:
  fixes m n :: int and w x :: rat
  assumes "of_int m * w < x" and "x \<le> of_int (n + 1) * w" and "0 < w"
  shows "m \<le> n"
proof -
  have "of_int m * w < of_int (n + 1) * w" using assms(1,2) by simp
  then have "(of_int m :: rat) < of_int (n + 1)" using assms(3) by (simp add: mult_less_cancel_right)
  then show ?thesis by simp
qed

lemma cell_mono:
  assumes "inside la lo (grid_cell k i j)" and "inside la' lo' (grid_cell k i' j')"
  shows "la \<le> la' \<Longrightarrow> i \<le> i'" and "lo \<le> lo' \<Longrightarrow> j \<le> j'"
  using grid_le [of i "latWidth k" "la' + 90" i'] grid_le [of j "lonWidth k" "lo' + 180" j'] assms
  by (auto simp: inside_def grid_cell_def)

lemma cell_unique: "\<lbrakk>inside la lo (grid_cell k i j); inside la lo (grid_cell k i' j')\<rbrakk> \<Longrightarrow> i = i' \<and> j = j'"
  using cell_mono [of la lo k i j la lo i' j'] cell_mono [of la lo k i' j' la lo i j] by auto

lemma centre_cell:
  "centre (grid_cell k i j) =
     \<lparr>latitude = -90 + (of_int i + 1 / 2) * latWidth k, longitude = -180 + (of_int j + 1 / 2) * lonWidth k,
      latErr = latWidth k / 2, lonErr = lonWidth k / 2\<rparr>"
  by (simp add: centre_def grid_cell_def Let_def field_simps)

lemma inside_centre: "inside (latitude (centre (grid_cell k i j))) (longitude (centre (grid_cell k i j))) (grid_cell k i j)"
  unfolding centre_cell by (simp add: inside_def grid_cell_def algebra_simps)

lemma covers_error:
  "covers la lo (grid_cell k i j) \<Longrightarrow>
     \<bar>la - latitude (centre (grid_cell k i j))\<bar> \<le> latWidth k / 2 \<and> \<bar>lo - longitude (centre (grid_cell k i j))\<bar> \<le> lonWidth k / 2"
  unfolding centre_cell by (simp add: covers_def grid_cell_def abs_le_iff field_simps)

lemma covers_world: "covers la lo world \<longleftrightarrow> \<bar>la\<bar> \<le> 90 \<and> \<bar>lo\<bar> \<le> 180"
  by (auto simp: covers_def world_def)

lemma inside_world: "inside la lo world \<longleftrightarrow> -90 < la \<and> la \<le> 90 \<and> -180 < lo \<and> lo \<le> 180"
  by (auto simp: inside_def world_def)

lemma encoded_error:
  assumes "covers la lo world"
  shows "\<exists>h. encode_chars (Num la) (Num lo) n = Some h \<and>
     \<bar>la - latitude (decode h)\<bar> \<le> latWidth (5 * nat n) / 2 \<and> \<bar>lo - longitude (decode h)\<bar> \<le> lonWidth (5 * nat n) / 2"
proof -
  let ?cs = "trail (Num la) (Num lo) 0 world (5 * nat n)"
  obtain h where h: "encode_chars (Num la) (Num lo) n = Some h" by (simp add: encode_chars_spell)
  obtain i j where grid_cell: "narrow 0 world ?cs = grid_cell (5 * nat n) i j" using narrow_world [of ?cs] by auto
  have "covers la lo (grid_cell (5 * nat n) i j)" using trail_covers [OF assms, of 0 "5 * nat n"] by (simp add: grid_cell)
  then show ?thesis using covers_error h by (simp add: decode_def decode_bbox_encoded [OF h] grid_cell)
qed

text \<open>
  A position on the globe that is encoded with \<open>n\<close> characters and decoded again is off by at most
  \<open>90 / 2 ^ (5 * n div 2)\<close> degrees of latitude and \<open>180 / 2 ^ ((5 * n + 1) div 2)\<close> degrees of longitude.
\<close>

theorem decode_encode_error:
  assumes "\<bar>la\<bar> \<le> 90" and "\<bar>lo\<bar> \<le> 180"
  shows "\<exists>h. encode_chars (Num la) (Num lo) (int n) = Some h \<and>
     \<bar>la - latitude (decode h)\<bar> \<le> 90 / 2 ^ (5 * n div 2) \<and> \<bar>lo - longitude (decode h)\<bar> \<le> 180 / 2 ^ ((5 * n + 1) div 2)"
  using encoded_error [of la lo "int n"] assms by (simp add: covers_world latWidth_def lonWidth_def)

theorem decode_encode_error_witness:
  "\<exists>h. encode_chars (Num 49) (Num 8) (int 2) = Some h \<and>
     \<bar>49 - latitude (decode h)\<bar> \<le> 90 / 2 ^ (5 * 2 div 2) \<and> \<bar>8 - longitude (decode h)\<bar> \<le> 180 / 2 ^ ((5 * 2 + 1) div 2)"
  by (rule decode_encode_error) simp_all

text \<open>The automatic precision.\<close>

lemma trail_text [simp]:
  "next_bit (Text s (Some la)) (Text u (Some lo)) t b = next_bit (Num la) (Num lo) t b"
  "trail (Text s (Some la)) (Text u (Some lo)) t b k = trail (Num la) (Num lo) t b k"
  by (simp add: next_bit_def, induction k arbitrary: t b) (simp_all add: next_bit_def)

lemma sigfig_error:
  assumes "1 \<le> f" and "f \<le> 10"
  shows "f < length SIGFIG_HASH_LENGTH"
    and "latWidth (5 * (SIGFIG_HASH_LENGTH ! f)) / 2 \<le> 1 / (2 * 10 ^ f)"
    and "lonWidth (5 * (SIGFIG_HASH_LENGTH ! f)) / 2 \<le> 1 / (2 * 10 ^ f)"
proof -
  have "f \<in> {1, 2, 3, 4, 5, 6, 7, 8, 9, 10}" using assms by simp arith
  then show "latWidth (5 * (SIGFIG_HASH_LENGTH ! f)) / 2 \<le> 1 / (2 * 10 ^ f)"
    "lonWidth (5 * (SIGFIG_HASH_LENGTH ! f)) / 2 \<le> 1 / (2 * 10 ^ f)"
    by (auto simp: SIGFIG_HASH_LENGTH_def latWidth_def lonWidth_def)
qed (use assms in \<open>simp add: SIGFIG_HASH_LENGTH_def\<close>)

text \<open>
  With the automatic precision, coordinates that are written with at most \<open>f\<close> digits after the point, one of
  them with exactly \<open>f\<close>, \<open>1 \<le> f \<le> 10\<close>, are encoded with an error of at most half a unit of the last digit, which is
  what the table \<open>SIGFIG_HASH_LENGTH\<close> is meant to guarantee.
\<close>

theorem auto_precision_suffices:
  assumes "fraction_digits s = Some a" and "fraction_digits u = Some b" and "1 \<le> max a b" and "max a b \<le> 10"
    and "\<bar>la\<bar> \<le> 90" and "\<bar>lo\<bar> \<le> 180"
  shows "\<exists>h. encode (Text s (Some la)) (Text u (Some lo)) Auto = Some (Some h) \<and>
     \<bar>la - latitude (decode h)\<bar> \<le> 1 / (2 * 10 ^ max a b) \<and> \<bar>lo - longitude (decode h)\<bar> \<le> 1 / (2 * 10 ^ max a b)"
proof -
  let ?n = "int (SIGFIG_HASH_LENGTH ! max a b)"
  have "encode (Text s (Some la)) (Text u (Some lo)) Auto = Some (encode_chars (Num la) (Num lo) ?n)"
    using sigfig_error(1) [OF assms(3,4)] assms(1,2) by (simp add: encode_def encode_chars_spell del: max_less_iff_conj)
  moreover note encoded_error [of la lo ?n] sigfig_error(2,3) [OF assms(3,4)]
  ultimately show ?thesis using assms(5,6) by (fastforce simp: covers_world)
qed

theorem auto_precision_suffices_witness:
  "\<exists>h. encode (Text ''49.25'' (Some (197/4))) (Text ''8.5'' (Some (17/2))) Auto = Some (Some h) \<and>
     \<bar>197/4 - latitude (decode h)\<bar> \<le> 1 / (2 * 10 ^ max 2 1) \<and> \<bar>17/2 - longitude (decode h)\<bar> \<le> 1 / (2 * 10 ^ max 2 1)"
  by (rule auto_precision_suffices) (simp_all add: fraction_digits_def)

section \<open>Strings name their cells\<close>

definition proper :: "gbox \<Rightarrow> bool" where
  "proper b = (minLat b < maxLat b \<and> minLon b < maxLon b)"

lemma proper_halve: "proper b \<Longrightarrow> proper (halve isLon one b)"
  by (auto simp: proper_def halve_def midLon_def midLat_def)

lemma inside_halve: "\<lbrakk>proper b; inside la lo (halve isLon one b)\<rbrakk> \<Longrightarrow> inside la lo b"
  by (auto simp: proper_def halve_def inside_def midLon_def midLat_def split: if_splits)

lemma inside_narrow: "\<lbrakk>proper b; inside la lo (narrow t b cs)\<rbrakk> \<Longrightarrow> inside la lo b"
  by (induction cs arbitrary: t b) (auto intro: inside_halve proper_halve)

lemma next_bit_halve: "inside la lo (halve (t mod 2 = 0) one b) \<Longrightarrow> next_bit (Num la) (Num lo) t b = one"
  by (auto simp: halve_def next_bit_def inside_def split: if_splits)

lemma trail_of_inside:
  "\<lbrakk>proper b; inside la lo (narrow t b cs)\<rbrakk> \<Longrightarrow> trail (Num la) (Num lo) t b (length cs) = cs"
proof (induction cs arbitrary: t b)
  case (Cons c cs)
  then have "inside la lo (halve (t mod 2 = 0) c b)" by (auto intro: inside_narrow proper_halve)
  then have "next_bit (Num la) (Num lo) t b = c" by (rule next_bit_halve)
  with Cons show ?case by (simp add: proper_halve)
qed simp

lemma proper_world: "proper world"
  by (simp add: proper_def world_def)

text \<open>A position inside the cell of a string is encoded as that string.\<close>

lemma encode_inside:
  assumes "set h \<subseteq> set BASE32_CODES" and "inside la lo (decode_bbox h)"
  shows "encode_chars (Num la) (Num lo) (int (length h)) = Some h"
  using assms trail_of_inside [OF proper_world, of la lo 0 "hash_bits h"]
  by (simp add: encode_chars_spell decode_bbox_narrow spell_hash_bits)

lemma decode_bbox_cell: "\<exists>i j. decode_bbox h = grid_cell (5 * length h) i j"
  using narrow_world [of "hash_bits h"] by (simp add: decode_bbox_narrow)

text \<open>
  Claim C16. Decoding a geohash and encoding the position with the same number of characters yields the geohash again.
\<close>

theorem encode_decode:
  assumes "set h \<subseteq> set BASE32_CODES"
  shows "encode_chars (Num (latitude (decode h))) (Num (longitude (decode h))) (int (length h)) = Some h"
proof -
  obtain i j where "decode_bbox h = grid_cell (5 * length h) i j" using decode_bbox_cell by blast
  then have "inside (latitude (decode h)) (longitude (decode h)) (decode_bbox h)"
    using inside_centre by (simp add: decode_def)
  with assms show ?thesis by (rule encode_inside)
qed

theorem encode_decode_witness:
  "encode_chars (Num (latitude (decode ''u0y''))) (Num (longitude (decode ''u0y''))) (int (length ''u0y'')) = Some ''u0y''"
  by (rule encode_decode) (simp add: BASE32_CODES_def)

section \<open>Neighbours\<close>

text \<open>The box moved by a number of its own heights and widths.\<close>

definition moved :: "int \<times> int \<Rightarrow> gbox \<Rightarrow> gbox" where
  "moved d b =
     (let height = maxLat b - minLat b; width = maxLon b - minLon b
      in \<lparr>minLat = minLat b + of_int (fst d) * height, minLon = minLon b + of_int (snd d) * width,
          maxLat = maxLat b + of_int (fst d) * height, maxLon = maxLon b + of_int (snd d) * width\<rparr>)"

definition within_world :: "gbox \<Rightarrow> bool" where
  "within_world b = (-90 \<le> minLat b \<and> maxLat b \<le> 90 \<and> -180 \<le> minLon b \<and> maxLon b \<le> 180)"

lemma moved_cell: "moved (m, n) (grid_cell k i j) = grid_cell k (i + m) (j + n)"
  by (simp add: moved_def grid_cell_def Let_def algebra_simps)

lemma step_from_cell:
  "step_from (centre (grid_cell k i j)) (m, n) =
     (Num (latitude (centre (grid_cell k (i + m) (j + n)))), Num (longitude (centre (grid_cell k (i + m) (j + n)))))"
  by (simp add: step_from_def centre_cell algebra_simps)

lemma inside_within: "\<lbrakk>within_world b; inside la lo b\<rbrakk> \<Longrightarrow> inside la lo world"
  by (auto simp: within_world_def inside_def world_def)

text \<open>A position inside a cell of the globe leads to that cell.\<close>

lemma trail_cell:
  assumes "inside la lo (grid_cell k i j)" and "inside la lo world"
  shows "narrow 0 world (trail (Num la) (Num lo) 0 world k) = grid_cell k i j"
proof -
  obtain i' j' where grid_cell: "narrow 0 world (trail (Num la) (Num lo) 0 world k) = grid_cell k i' j'"
    using narrow_world [of "trail (Num la) (Num lo) 0 world k"] by auto
  have "inside la lo (grid_cell k i' j')" using trail_inside [OF assms(2), of 0 k] by (simp add: grid_cell)
  with grid_cell assms(1) show ?thesis using cell_unique by blast
qed

lemma encode_cell:
  "\<lbrakk>inside la lo (grid_cell (5 * n) i j); inside la lo world\<rbrakk> \<Longrightarrow>
     \<exists>h. encode_chars (Num la) (Num lo) (int n) = Some h \<and> length h = n \<and> set h \<subseteq> set BASE32_CODES \<and> decode_bbox h = grid_cell (5 * n) i j"
  using trail_cell [of la lo "5 * n" i j] encode_chars_total [of "Num la" "Num lo" "int n"]
  by (auto simp: decode_bbox_encoded)

lemma neighbor_cell:
  assumes "decode_bbox h = grid_cell (5 * length h) i j" and "within_world (grid_cell (5 * length h) (i + m) (j + n))"
  shows "\<exists>h'. neighbor h (m, n) = Some h' \<and> length h' = length h \<and> set h' \<subseteq> set BASE32_CODES \<and>
    decode_bbox h' = grid_cell (5 * length h) (i + m) (j + n)"
  using encode_cell [OF inside_centre inside_within [OF assms(2) inside_centre]] assms(1)
  by (simp add: neighbor_def decode_def step_from_cell)

text \<open>
  As long as the globe is not left, \<open>neighbor\<close> returns the geohash of the same length whose box is the box
  of the given one moved by the direction.
\<close>

theorem neighbor_moves:
  assumes "within_world (moved d (decode_bbox h))"
  shows "\<exists>h'. neighbor h d = Some h' \<and> length h' = length h \<and> decode_bbox h' = moved d (decode_bbox h)"
proof -
  obtain i j where h: "decode_bbox h = grid_cell (5 * length h) i j" using decode_bbox_cell by blast
  obtain m n where d: "d = (m, n)" by fastforce
  show ?thesis using neighbor_cell [OF h, of m n] assms by (auto simp: h d moved_cell)
qed

theorem neighbor_moves_witness:
  "\<exists>h'. neighbor ''u'' (-1, 1) = Some h' \<and> length h' = length ''u'' \<and> decode_bbox h' = moved (-1, 1) (decode_bbox ''u'')"
proof (rule neighbor_moves)
  have "code_value (lower_char (CHR ''u'')) = 26" by code_simp
  then show "within_world (moved (-1, 1) (decode_bbox ''u''))"
    by (simp add: decode_bbox_def halve_def world_def midLon_def midLat_def moved_def within_world_def)
qed

text \<open>\<open>neighbors\<close> are the results of \<open>neighbor\<close> for the eight directions.\<close>

lemma neighbors_neighbor: "neighbors h = map (neighbor h) directions"
  by (simp add: neighbors_def neighbor_def step_from_def Let_def case_prod_beta mult.assoc)

lemma neighbors_int_neighbor_int: "neighbors_int h d = map (\<lambda>direction. neighbor_int h direction d) directions"
  by (simp add: neighbors_int_def neighbor_int_def step_from_def Let_def case_prod_beta mult.assoc bit_depth_def split: option.splits)

text \<open>The number of cells between the corners of a rectangle is computed exactly.\<close>

lemma js_round_of_int [simp]: "js_round (of_int z) = z"
  unfolding js_round_def by (rule floor_unique) simp_all

lemma steps_cell: "steps (grid_cell k i j) (grid_cell k i' j') = (i' - i, j' - j)"
proof -
  have "(of_int i' * w - of_int i * w) / w = of_int (i' - i)" if "0 < w" for i i' :: int and w :: rat
    using that by (simp add: field_simps)
  from this [of "latWidth k" i' i] this [of "lonWidth k" j' j] show ?thesis
    using js_round_of_int [of "i' - i"] js_round_of_int [of "j' - j"]
    by (simp add: steps_def centre_cell) (simp add: grid_cell_def)
qed

lemma grid_iff: "(m, n) \<in> set (grid a b) \<longleftrightarrow> 0 \<le> m \<and> m \<le> a \<and> 0 \<le> n \<and> n \<le> b"
  by (auto simp: grid_def intro!: bexI [of _ m])

lemma encode_cell_ex:
  assumes "inside la lo world"
  shows "\<exists>h i j. encode_chars (Num la) (Num lo) (int n) = Some h \<and> length h = n \<and> set h \<subseteq> set BASE32_CODES \<and>
    decode_bbox h = grid_cell (5 * n) i j \<and> inside la lo (grid_cell (5 * n) i j)"
proof -
  let ?cs = "trail (Num la) (Num lo) 0 world (5 * n)"
  obtain i j where "narrow 0 world ?cs = grid_cell (5 * n) i j" using narrow_world [of ?cs] by auto
  then have "inside la lo (grid_cell (5 * n) i j)" using trail_inside [OF assms, of 0 "5 * n"] by simp
  with encode_cell [OF this assms] show ?thesis by blast
qed

lemma narrow_within: "\<lbrakk>proper b; within_world b\<rbrakk> \<Longrightarrow> within_world (narrow t b cs)"
proof (induction cs arbitrary: t b)
  case (Cons c cs)
  have "within_world (halve (t mod 2 = 0) c b)"
    using Cons.prems by (auto simp: within_world_def proper_def halve_def midLon_def midLat_def)
  then show ?case using Cons by (simp add: proper_halve)
qed simp

lemma decode_bbox_within: "within_world (decode_bbox h)"
  unfolding decode_bbox_narrow by (rule narrow_within [OF proper_world]) (simp add: within_world_def world_def)

text \<open>
  Claim C17. \<open>bboxes\<close> leaves no gap: the geohash of every position in a rectangle on the globe is among the geohashes
  that it returns for the rectangle.
\<close>

theorem bboxes_cover:
  assumes "-90 < lat0" "lat0 \<le> la" "la \<le> lat1" "lat1 \<le> 90" and "-180 < lon0" "lon0 \<le> lo" "lo \<le> lon1" "lon1 \<le> 180"
    and "0 < n"
  shows "\<exists>hs. bboxes lat0 lon0 lat1 lon1 (Some (int n)) = Some hs \<and> encode_chars (Num la) (Num lo) (int n) \<in> set hs"
proof -
  obtain h0 i0 j0 where h0: "encode_chars (Num lat0) (Num lon0) (int n) = Some h0" "length h0 = n"
      "decode_bbox h0 = grid_cell (5 * n) i0 j0" "inside lat0 lon0 (grid_cell (5 * n) i0 j0)"
    using encode_cell_ex [of lat0 lon0 n] assms by (auto simp: inside_world)
  obtain h1 i1 j1 where h1: "encode_chars (Num lat1) (Num lon1) (int n) = Some h1"
      "decode_bbox h1 = grid_cell (5 * n) i1 j1" "inside lat1 lon1 (grid_cell (5 * n) i1 j1)"
    using encode_cell_ex [of lat1 lon1 n] assms by (auto simp: inside_world)
  obtain h i j where h: "encode_chars (Num la) (Num lo) (int n) = Some h" "length h = n"
      "decode_bbox h = grid_cell (5 * n) i j" "inside la lo (grid_cell (5 * n) i j)"
    using encode_cell_ex [of la lo n] assms by (auto simp: inside_world)
  have order: "i0 \<le> i" "i \<le> i1" "j0 \<le> j" "j \<le> j1"
    using cell_mono [OF h0(4) h(4)] cell_mono [OF h(4) h1(3)] assms by auto
  have "within_world (grid_cell (5 * n) i j)" using decode_bbox_within [of h] by (simp add: h(3))
  then obtain h' where h': "neighbor h0 (i - i0, j - j0) = Some h'" "length h' = n" "set h' \<subseteq> set BASE32_CODES"
      "decode_bbox h' = grid_cell (5 * n) i j"
    using neighbor_cell [of h0 i0 j0 "i - i0" "j - j0"] h0(2,3) by auto
  have "h' = h" using encode_inside [OF h'(3), of la lo] h h' by simp
  then have "encode_chars (Num la) (Num lo) (int n) = neighbor h0 (i - i0, j - j0)" using h h' by simp
  moreover have "(i - i0, j - j0) \<in> set (grid (i1 - i0) (j1 - j0))" using order by (simp add: grid_iff)
  ultimately show ?thesis
    using assms(9) by (simp add: bboxes_def h0(1,3) h1(1,2) steps_cell)
qed

theorem bboxes_cover_witness:
  "\<exists>hs. bboxes 40 0 50 20 (Some (int 3)) = Some hs \<and> encode_chars (Num 49) (Num 8) (int 3) \<in> set hs"
  by (rule bboxes_cover) simp_all

section \<open>Geohashes as integers\<close>

lemma encode_int_loop_value:
  "encode_int_loop d la lo t b c = bits_value c (trail la lo t b (nat (d - int t)))"
proof (induction d la lo t b c rule: encode_int_loop.induct)
  case (1 d la lo t b c)
  show ?case
  proof (cases "int t < d")
    case True
    then have "nat (d - int t) = Suc (nat (d - int (t + 1)))" by simp
    then show ?thesis using True 1 by (subst encode_int_loop.simps) (simp add: Let_def)
  qed (simp add: encode_int_loop.simps)
qed

lemma encode_int_value: "0 < k \<Longrightarrow> encode_int la lo (Some (int k)) = bits_value 0 (trail la lo 0 world k)"
  by (simp add: encode_int_def bit_depth_def encode_int_loop_value)

lemma bits_value_bit: "p < length cs \<Longrightarrow> bits_value v cs div 2 ^ p mod 2 = 1 \<longleftrightarrow> cs ! (length cs - Suc p)"
proof (induction cs arbitrary: p rule: rev_induct)
  case (snoc c cs)
  show ?case
  proof (cases p)
    case 0
    then show ?thesis by (simp add: bits_value_append nth_append)
  next
    case (Suc q)
    have "bits_value v (cs @ [c]) div 2 ^ Suc q = bits_value v cs div 2 ^ q"
      by (simp add: bits_value_append div_mult2_eq [symmetric] del: div_mult2_eq) (simp add: div_mult2_eq)
    moreover have "length cs - Suc q < length cs" using Suc snoc.prems by simp
    ultimately show ?thesis using Suc snoc by (simp add: nth_append)
  qed
qed simp

lemma get_bit_value: "p < length cs \<Longrightarrow> get_bit (bits_value 0 cs) (int p) = cs ! (length cs - Suc p)"
  using bits_value_bit [of p cs 0] by (simp add: get_bit_def)

lemma get_bit_negative: "get_bit n (-1) = False"
  by (simp add: get_bit_def)

lemma halve_swap: "halve False p (halve True q b) = halve True q (halve False p b)"
  by (simp add: halve_def midLon_def midLat_def)

lemma decode_int_loop_step:
  assumes "2 * i + 2 \<le> length cs"
  shows "decode_int_loop (bits_value 0 cs) (int (length cs)) i b =
    decode_int_loop (bits_value 0 cs) (int (length cs)) (i + 1) (narrow (2 * i) b (take 2 (drop (2 * i) cs)))"
proof -
  have two: "take 2 (drop (2 * i) cs) = [cs ! (2 * i), cs ! (2 * i + 1)]"
    using assms by (intro nth_equalityI) (auto simp: less_2_cases_iff nth_append numeral_2_eq_2 less_Suc_eq)
  have "int (length cs) - 2 * int i - 1 = int (length cs - 2 * i - 1)" "int (length cs) - 2 * int i - 2 = int (length cs - 2 * i - 2)"
    using assms by auto
  then have "get_bit (bits_value 0 cs) (int (length cs) - 2 * int i - 1) = cs ! (2 * i)"
    "get_bit (bits_value 0 cs) (int (length cs) - 2 * int i - 2) = cs ! (2 * i + 1)"
    using assms by (simp_all only: get_bit_value) (simp_all add: get_bit_value)
  then show ?thesis
    using assms by (subst decode_int_loop.simps) (simp add: two halve_swap Let_def)
qed

lemma narrow_two:
  assumes "2 * i + 2 \<le> length cs"
  shows "narrow (2 * i) b (drop (2 * i) cs) = narrow (2 * (i + 1)) (narrow (2 * i) b (take 2 (drop (2 * i) cs))) (drop (2 * (i + 1)) cs)"
proof -
  have "drop (2 * i) cs = take 2 (drop (2 * i) cs) @ drop (2 * (i + 1)) cs"
    using append_take_drop_id [of 2 "drop (2 * i) cs"] by simp
  then show ?thesis
    using assms narrow_append [of "2 * i" b "take 2 (drop (2 * i) cs)" "drop (2 * (i + 1)) cs"] by simp
qed

lemma decode_int_loop_even:
  "length cs = 2 * i + 2 * m \<Longrightarrow>
     decode_int_loop (bits_value 0 cs) (int (length cs)) i b = narrow (2 * i) b (drop (2 * i) cs)"
proof (induction m arbitrary: i b)
  case 0
  then show ?case by (simp add: decode_int_loop.simps)
next
  case (Suc m)
  then have le: "2 * i + 2 \<le> length cs" by simp
  have "decode_int_loop (bits_value 0 cs) (int (length cs)) (i + 1) (narrow (2 * i) b (take 2 (drop (2 * i) cs))) =
      narrow (2 * (i + 1)) (narrow (2 * i) b (take 2 (drop (2 * i) cs))) (drop (2 * (i + 1)) cs)"
    by (rule Suc.IH) (use Suc.prems in simp)
  then show ?case by (simp only: decode_int_loop_step [OF le] narrow_two [OF le])
qed

lemma decode_int_loop_odd:
  "length cs = 2 * i + 2 * m + 1 \<Longrightarrow>
     decode_int_loop (bits_value 0 cs) (int (length cs)) i b = halve False False (narrow (2 * i) b (drop (2 * i) cs))"
proof (induction m arbitrary: i b)
  case 0
  then have "drop (2 * i) cs = [cs ! (2 * i)]" by (simp add: Cons_nth_drop_Suc [symmetric])
  moreover have "get_bit (bits_value 0 cs) 0 = cs ! (2 * i)" using get_bit_value [of 0 cs] 0 by simp
  ultimately show ?case
    using 0 by (simp add: decode_int_loop.simps get_bit_negative halve_swap Let_def)
next
  case (Suc m)
  then have le: "2 * i + 2 \<le> length cs" by simp
  have "decode_int_loop (bits_value 0 cs) (int (length cs)) (i + 1) (narrow (2 * i) b (take 2 (drop (2 * i) cs))) =
      halve False False (narrow (2 * (i + 1)) (narrow (2 * i) b (take 2 (drop (2 * i) cs))) (drop (2 * (i + 1)) cs))"
    by (rule Suc.IH) (use Suc.prems in simp)
  then show ?case by (simp only: decode_int_loop_step [OF le] narrow_two [OF le])
qed

lemma decode_encode_int:
  assumes "0 < k"
  shows "decode_bbox_int (encode_int la lo (Some (int k))) (Some (int k)) =
    (if even k then narrow 0 world (trail la lo 0 world k) else halve False False (narrow 0 world (trail la lo 0 world k)))"
proof -
  let ?cs = "trail la lo 0 world k"
  have box: "decode_bbox_int (encode_int la lo (Some (int k))) (Some (int k)) = decode_int_loop (bits_value 0 ?cs) (int (length ?cs)) 0 world"
    using assms by (simp add: decode_bbox_int_def bit_depth_def encode_int_value)
  show ?thesis
  proof (cases "even k")
    case True
    then obtain m where "k = 2 * m" by (rule evenE)
    with True show ?thesis using decode_int_loop_even [of ?cs 0 m world] unfolding box by simp
  next
    case False
    then obtain m where "k = 2 * m + 1" by (rule oddE)
    with False show ?thesis using decode_int_loop_odd [of ?cs 0 m world] unfolding box by simp
  qed
qed

lemma bits_value_bound: "bits_value v cs < (v + 1) * 2 ^ length cs"
proof (induction cs rule: rev_induct)
  case (snoc c cs)
  then have "2 * bits_value v cs + 1 < 2 * ((v + 1) * 2 ^ length cs)" by linarith
  then show ?case by (simp add: bits_value_append algebra_simps)
qed simp

text \<open>
  Claim C35. The two representations agree, for up to 50 bits: the box of the integer geohash of \<open>10 * n\<close> bits is the box of the string
  geohash of \<open>2 * n\<close> characters, for \<open>n\<close> up to 5; and the integer is below \<open>2 ^ 52\<close>, so that the floating point number in which the code
  accumulates it is exact.
\<close>

theorem int_agrees_with_string:
  assumes "0 < n" and "n \<le> 5" and "encode_chars la lo (int (2 * n)) = Some h"
  shows "decode_bbox_int (encode_int la lo (Some (int (10 * n)))) (Some (int (10 * n))) = decode_bbox h \<and>
    encode_int la lo (Some (int (10 * n))) < 2 ^ 52"
proof -
  have "encode_int la lo (Some (int (10 * n))) < 2 ^ (10 * n)"
    using bits_value_bound [of 0 "trail la lo 0 world (10 * n)"] encode_int_value [of "10 * n" la lo] assms(1) by simp
  also have "(2 :: nat) ^ (10 * n) \<le> 2 ^ 52" using assms(2) by (intro power_increasing) simp_all
  finally show ?thesis
    using assms decode_bbox_encoded [OF assms(3)] decode_encode_int [of "10 * n" la lo] by (simp add: nat_mult_distrib)
qed

theorem int_agrees_with_string_witness:
  "decode_bbox_int (encode_int (Num 49) (Num 8) (Some (int (10 * 1)))) (Some (int (10 * 1))) =
     decode_bbox (spell (trail (Num 49) (Num 8) 0 world (5 * nat (int (2 * 1))))) \<and>
   encode_int (Num 49) (Num 8) (Some (int (10 * 1))) < 2 ^ 52"
  by (rule int_agrees_with_string) (simp, simp, rule encode_chars_spell)

text \<open>
  With an odd number of bits the last latitude bit is read at the position -1, where it is 0: the box is halved once
  more than the position was encoded, and does not contain the positions in its other half.
\<close>

lemma odd_depth_halves_again:
  "odd k \<Longrightarrow> decode_bbox_int (encode_int la lo (Some (int k))) (Some (int k)) =
     halve False False (narrow 0 world (trail la lo 0 world k))"
  using decode_encode_int [of k la lo] odd_pos by auto

lemma odd_depth_misses: "\<not> covers 50 10 (decode_bbox_int (encode_int (Num 50) (Num 10) (Some (int 1))) (Some (int 1)))"
  unfolding decode_encode_int [OF zero_less_one] by (simp add: covers_def halve_def world_def midLon_def midLat_def next_bit_def)

text \<open>At the date line there is no wrap-around: the eastern neighbour of the easternmost box is the box itself.\<close>

lemma no_wrap_around: "neighbor ''z'' (0, 1) = Some ''z''"
proof -
  have "code_value (lower_char (CHR ''z'')) = 31" by code_simp
  then have box: "decode_bbox ''z'' = \<lparr>minLat = 45, minLon = 135, maxLat = 90, maxLon = 180\<rparr>"
    by (simp add: decode_bbox_def world_def halve_def midLon_def midLat_def)
  have "trail (Num (135 / 2)) (Num (405 / 2)) 0 world (Suc (Suc (Suc (Suc (Suc 0))))) = [True, True, True, True, True]"
    by (simp add: next_bit_def world_def halve_def midLon_def midLat_def)
  moreover have "code_at 31 = ''z''" by (simp add: code_at_def) (simp add: BASE32_CODES_def)
  ultimately show ?thesis
    by (simp add: neighbor_def decode_def box centre_def step_from_def Let_def encode_chars_spell eval_nat_numeral del: trail.simps)
qed

end
