(* ===== verification/LD_Counters.thy ===== *)
theory LD_Counters
  imports Window_Operators Fog_Template_LD Buffered_Runtime
begin

text \<open>
  The counters for NGSI-LD, \<open>application/operator/LDcounter/main.js\<close> and \<open>application/operator/Health_Alert_counter/main.js\<close>:
  the program of \<open>Window_Operators\<close> with the client for NGSI-LD and with other entities for the statistics.
\<close>

section \<open>Configuration\<close>

text \<open>The constructor of the client may throw.\<close>

definition ldc_connectBroker :: "jval \<Rightarrow> 'x opapp \<Rightarrow> 'x opapp step" where
  "ldc_connectBroker cmd s =
     (case new_NGSILDclient (cmd_field cmd ''brokerURL'') of None \<Rightarrow> (s, False) | Some u \<Rightarrow> (s\<lparr>ops_client := Some u\<rparr>, True))"

definition ldc_handleCmd :: "jval \<Rightarrow> 'x opapp \<Rightarrow> 'x opapp step" where
  "ldc_handleCmd commandObj s =
     (case jget commandObj ''command'' of
        None \<Rightarrow> (s, False)
      | Some c \<Rightarrow>
          (if c = JStr ''CONNECT_BROKER'' then ldc_connectBroker commandObj s
           else if c = JStr ''SET_OUTPUTS'' then (ops_setOutputs commandObj s, True)
           else (s, True)))"

definition ldc_handleCmds :: "jval list \<Rightarrow> 'x opapp \<Rightarrow> 'x opapp step" where
  "ldc_handleCmds commands s = run_steps ldc_handleCmd commands s"

definition ldc_handleAdmin :: "jval list \<Rightarrow> 'x opapp \<Rightarrow> 'x opapp \<times> reply option" where
  "ldc_handleAdmin commands s =
     (case ldc_handleCmds commands s of
        (s', False) \<Rightarrow> (s', None)
      | (s', True) \<Rightarrow> (s'\<lparr>ops_configured := True\<rparr>, Some (Replied 200 (JObj []))))"

definition ldc_start :: "jval option \<Rightarrow> 'x opapp \<Rightarrow> 'x opapp" where
  "ldc_start adminCfg s =
     (case Option.bind adminCfg jelems of
        None \<Rightarrow> s
      | Some commands \<Rightarrow>
          (case ldc_handleCmds commands s of (s', ok) \<Rightarrow> if ok then s'\<lparr>ops_configured := True\<rparr> else s'))"

section \<open>The statistics\<close>

text \<open>The statistics of a window as the two programs collect them, \<open>stat\<close>, and the entity that carries them.\<close>

definition ld_stat :: "string \<Rightarrow> int \<Rightarrow> jval \<Rightarrow> jval" where
  "ld_stat name time n = JObj (obj_of [(''time'', JNum time), (name, n)])"

definition ld_stat_entity :: "string \<Rightarrow> jval \<Rightarrow> jval \<Rightarrow> jval" where
  "ld_stat_entity name out stat =
     JObj (obj_of [(''id'', JStr (''urn:ngsi-ld:'' @ js_str (cmd_field out ''id''))), (''type'', cmd_field out ''type''),
       (''timmer'', JObj (obj_of [(''type'', JStr ''Property''), (''value'', cmd_field stat ''time'')])),
       (''counter'', JObj (obj_of [(''type'', JStr ''Property''), (''value'', cmd_field stat name)]))])"

text \<open>
  \<open>updateContext(stat)\<close>: \<open>reads\<close> is the name under which the count is read from \<open>stat\<close>.  It throws when no output or no
  client is configured.
\<close>

definition ldc_updateContext :: "string \<Rightarrow> jval \<Rightarrow> 'x opapp \<Rightarrow> 'x opapp step" where
  "ldc_updateContext reads stat s =
     (if \<not> ops_configured s then (s, True)
      else case (ops_outputs s, ops_client s) of
             (out # _, Some u) \<Rightarrow>
               (case LD_JSONObject2CtxElement (ld_stat_entity reads out stat) of
                  None \<Rightarrow> (s, False)
                | Some e \<Rightarrow>
                    (s\<lparr>ops_sent := ops_sent s @ [post_req (url_of u ''/ngsi-ld/v1/entityOperations/upsert'') ld_headers (JArr [e])]\<rparr>, True))
           | _ \<Rightarrow> (s, False))"

text \<open>The counter writes and reads \<open>counter\<close>; the counter of health alerts writes \<open>healthAlert\<close> and reads \<open>healthalert\<close>.\<close>

definition ld_counter_updateContext :: stat_update where
  "ld_counter_updateContext time n s = ldc_updateContext ''counter'' (ld_stat ''counter'' time n) s"

definition health_updateContext :: stat_update where
  "health_updateContext time n s = ldc_updateContext ''healthalert'' (ld_stat ''healthAlert'' time n) s"

section \<open>The programs\<close>

text \<open>A notification is the list of the times at which its entities are handled.\<close>

datatype window_input = WAdmin "jval list" | WNotify "int list" | WTimer int

fun ld_counter_step :: "window_input \<Rightarrow> window opapp \<Rightarrow> window opapp step" where
  "ld_counter_step (WAdmin commands) s = (case ldc_handleAdmin commands s of (s', r) \<Rightarrow> (s', r \<noteq> None))"
| "ld_counter_step (WNotify ts) s = counter_handleNotify ld_counter_updateContext ts s"
| "ld_counter_step (WTimer now) s = onTimer ld_counter_updateContext now s"

fun health_step :: "window_input \<Rightarrow> window opapp \<Rightarrow> window opapp step" where
  "health_step (WAdmin commands) s = (case ldc_handleAdmin commands s of (s', r) \<Rightarrow> (s', r \<noteq> None))"
| "health_step (WNotify ts) s = counter_handleNotify health_updateContext ts s"
| "health_step (WTimer now) s = onTimer health_updateContext now s"

section \<open>Properties\<close>

definition ld_stat_request :: "jval \<Rightarrow> jval \<Rightarrow> jval \<Rightarrow> int \<Rightarrow> http_req" where
  "ld_stat_request u out v time =
     post_req (url_of u ''/ngsi-ld/v1/entityOperations/upsert'') ld_headers
       (JArr [JObj [(''id'', JStr (''urn:ngsi-ld:'' @ js_str (cmd_field out ''id''))), (''type'', cmd_field out ''type''),
          (''timmer'', JObj [(''type'', JStr ''Property''), (''value'', JNum time)]),
          (''counter'', JObj [(''type'', JStr ''Property''), (''value'', v)])]])"

lemma ldc_updateContext_set_up:
  assumes "set_up u out s"
  shows "ldc_updateContext name stat s =
    (s\<lparr>ops_sent := ops_sent s @ [post_req (url_of u ''/ngsi-ld/v1/entityOperations/upsert'') ld_headers
       (JArr [JObj [(''id'', JStr (''urn:ngsi-ld:'' @ js_str (cmd_field out ''id''))), (''type'', cmd_field out ''type''),
          (''timmer'', JObj [(''type'', JStr ''Property''), (''value'', cmd_field stat ''time'')]),
          (''counter'', JObj [(''type'', JStr ''Property''), (''value'', cmd_field stat name)])]])]\<rparr>, True)"
proof -
  have "LD_JSONObject2CtxElement (ld_stat_entity name out stat) =
      Some (JObj [(''id'', JStr (''urn:ngsi-ld:'' @ js_str (cmd_field out ''id''))), (''type'', cmd_field out ''type''),
          (''timmer'', JObj [(''type'', JStr ''Property''), (''value'', cmd_field stat ''time'')]),
          (''counter'', JObj [(''type'', JStr ''Property''), (''value'', cmd_field stat name)])])"
    by (simp add: LD_JSONObject2CtxElement_def ld_stat_entity_def system_keys_def js_access js_literal)
  with assms show ?thesis by (auto simp: set_up_def ldc_updateContext_def)
qed

lemma ld_stat_fields:
  "cmd_field (ld_stat ''counter'' t n) ''time'' = JNum t" "cmd_field (ld_stat ''counter'' t n) ''counter'' = n"
  "cmd_field (ld_stat ''healthAlert'' t n) ''time'' = JNum t" "cmd_field (ld_stat ''healthAlert'' t n) ''healthalert'' = JUndef"
  by (simp_all add: ld_stat_def cmd_field_def js_access js_literal)

interpretation ld_windows: window_publisher ld_counter_updateContext "set_up u out" "\<lambda>t n. ld_stat_request u out (JNum n) t" for u out
  by unfold_locales
    (auto simp: ld_counter_updateContext_def ldc_updateContext_set_up ld_stat_fields ld_stat_request_def set_up_def)

interpretation health_windows: window_publisher health_updateContext "set_up u out" "\<lambda>t n. ld_stat_request u out JUndef t" for u out
  by unfold_locales
    (auto simp: health_updateContext_def ldc_updateContext_set_up ld_stat_fields ld_stat_request_def set_up_def)

text \<open>The counter for NGSI-LD counts as the counter for NGSI v1 does.\<close>

lemma ld_counter_counts_every_entity:
  assumes "set_up u out s" and "ops_sent s = []" and "ops_data s = \<lparr>tBegin = t0, totalNumAnomaly = 0\<rparr>"
  shows "\<exists>t ns. counter_events ld_counter_updateContext es s = (t, True) \<and>
     ops_sent t = windows (\<lambda>t n. ld_stat_request u out (JNum n) t) t0 ns \<and>
     tBegin (ops_data t) = t0 + tInterval * int (length ns) \<and> sum_list ns + totalNumAnomaly (ops_data t) = int (entities es)"
  using assms by (rule ld_windows.counts_every_entity)

text \<open>
  The counter of health alerts counts, but never tells: whatever arrives, it publishes its consecutive
  windows with a counter without a value.
\<close>

theorem health_alert_without_count:
  assumes "set_up u out s" and "ops_sent s = []" and "ops_data s = \<lparr>tBegin = t0, totalNumAnomaly = 0\<rparr>"
  shows "\<exists>t n. counter_events health_updateContext es s = (t, True) \<and>
     ops_sent t = map (\<lambda>i. ld_stat_request u out JUndef (t0 + tInterval * int i)) [0..<n] \<and>
     tBegin (ops_data t) = t0 + tInterval * int n"
  using health_windows.counts_every_entity [OF assms, of es] by (auto simp: windows_def)

theorem health_alert_without_count_witness:
  "\<exists>t n. counter_events health_updateContext [Arrival 100, Arrival 4000, Timer 5000] sample_counter = (t, True) \<and>
     ops_sent t = map (\<lambda>i. ld_stat_request (JStr ''http://b'') (JObj [(''id'', JStr ''Stream.1''), (''type'', JStr ''Stat'')]) JUndef
       (0 + tInterval * int i)) [0..<n] \<and>
     tBegin (ops_data t) = 0 + tInterval * int n"
  by (rule health_alert_without_count) (simp_all add: sample_counter_def set_up_def)

end
