(* ===== verification/LD_Runtime.thy ===== *)
theory LD_Runtime
  imports Fog_Template_LD Buffered_Runtime
begin

text \<open>
  The runtime of the operators for NGSI-LD that publish under the identity of one output,
  \<open>application/operator/LDanamaly/main.js\<close> and \<open>application/operator/NGSI-LD-operator/LDsmartparking\<close>, and their client,
  \<open>LDanamaly/ngsi/ngsiclient.js\<close>.
\<close>

section \<open>The client\<close>

text \<open>This version of the library keeps the attribute \<open>location\<close>.\<close>

definition out_system_keys :: "string list" where
  "out_system_keys = [''id'', ''type'', ''modifiedAt'', ''createdAt'', ''observationSpace'', ''operationSpace'', ''@context'']"

definition out_JSONObject2CtxElement :: "jval \<Rightarrow> jval option" where
  "out_JSONObject2CtxElement ctxObj =
     do { i \<leftarrow> jget ctxObj ''id'';
          t \<leftarrow> jget ctxObj ''type'';
          Some (JObj (obj_of ([(''id'', i), (''type'', t)] @
                              filter (\<lambda>(k, v). k \<notin> set out_system_keys) (jprops ctxObj)))) }"

definition upsert_request :: "jval \<Rightarrow> jval \<Rightarrow> http_req option" where
  "upsert_request u ctxObj =
     map_option (\<lambda>e. post_req (url_of u ''/ngsi-ld/v1/entityOperations/upsert'') ld_headers (JArr [e])) (out_JSONObject2CtxElement ctxObj)"

section \<open>Configuration\<close>

record ldout =
  lo_client :: "jval option"
  lo_brokerURL :: jval
  lo_output :: props
  lo_input :: props
  lo_referenceURL :: jval
  lo_subscriptionId :: jval
  lo_configured :: bool
  lo_sent :: "http_req list"

definition init_ldout :: ldout where
  "init_ldout = \<lparr>lo_client = None, lo_brokerURL = JUndef, lo_output = [], lo_input = [], lo_referenceURL = JUndef,
     lo_subscriptionId = JNull, lo_configured = False, lo_sent = []\<rparr>"

definition lo_connectBroker :: "jval \<Rightarrow> 'a ldout_scheme \<Rightarrow> 'a ldout_scheme step" where
  "lo_connectBroker cmd s =
     (let u = field cmd ''brokerURL''; s1 = s\<lparr>lo_brokerURL := u\<rparr> in
      case new_NGSILDclient u of None \<Rightarrow> (s1, False) | Some c \<Rightarrow> (s1\<lparr>lo_client := Some c\<rparr>, True))"

definition lo_setReferenceURL :: "jval \<Rightarrow> 'a ldout_scheme \<Rightarrow> 'a ldout_scheme" where
  "lo_setReferenceURL cmd s = s\<lparr>lo_referenceURL := field cmd ''url''\<rparr>"

definition lo_setInputs :: "jval \<Rightarrow> 'a ldout_scheme \<Rightarrow> 'a ldout_scheme" where
  "lo_setInputs cmd s =
     s\<lparr>lo_input := obj_put ''type'' (field cmd ''type'') (obj_put ''id'' (field cmd ''id'') (lo_input s))\<rparr>"

definition lo_setOutputs :: "jval \<Rightarrow> 'a ldout_scheme \<Rightarrow> 'a ldout_scheme" where
  "lo_setOutputs cmd s =
     s\<lparr>lo_output := obj_put ''type'' (field cmd ''type'') (obj_put ''id'' (field cmd ''id'') (lo_output s))\<rparr>"

definition lo_handleCmd :: "jval \<Rightarrow> 'a ldout_scheme \<Rightarrow> 'a ldout_scheme step" where
  "lo_handleCmd commandObj s =
     (case jget commandObj ''command'' of
        None \<Rightarrow> (s, False)
      | Some c \<Rightarrow>
          (if js_eq c (JStr ''CONNECT_BROKER'') then lo_connectBroker commandObj s
           else if js_eq c (JStr ''SET_INPUTS'') then (lo_setInputs commandObj s, True)
           else if js_eq c (JStr ''SET_OUTPUTS'') then (lo_setOutputs commandObj s, True)
           else if js_eq c (JStr ''SET_REFERENCE'') then (lo_setReferenceURL commandObj s, True)
           else (s, True)))"

text \<open>\<open>handleAdmin\<close>, given the program's version of \<open>handleCmds\<close>.\<close>

definition lo_handleAdmin ::
    "(jval list \<Rightarrow> 'a ldout_scheme \<Rightarrow> 'a ldout_scheme step) \<Rightarrow> jval list \<Rightarrow> 'a ldout_scheme \<Rightarrow> 'a ldout_scheme \<times> reply option" where
  "lo_handleAdmin cmds commands s =
     (case cmds commands s of
        (s', False) \<Rightarrow> (s', None)
      | (s', True) \<Rightarrow> (s'\<lparr>lo_configured := True\<rparr>, Some (Replied 200 (JObj []))))"

section \<open>Callbacks\<close>

definition lo_query :: "jval \<Rightarrow> 'a ldout_scheme \<Rightarrow> 'a ldout_scheme step" where
  "lo_query queryCtxReq s =
     (case lo_client s of
        None \<Rightarrow> (s, True)
      | Some u \<Rightarrow>
          (s\<lparr>lo_sent := lo_sent s @ [ld_get_req (url_of u (''/ngsi-ld/v1/entities/'' @ js_str queryCtxReq)) ld_plain_headers]\<rparr>, True))"

definition lo_subscribe :: "jval \<Rightarrow> 'a ldout_scheme \<Rightarrow> 'a ldout_scheme step" where
  "lo_subscribe subscribeCtxReq s =
     (case lo_client s of
        None \<Rightarrow> (s, True)
      | Some u \<Rightarrow>
          (case set_endpoint (lo_referenceURL s) subscribeCtxReq of
             None \<Rightarrow> (s, False)
           | Some rq \<Rightarrow> (s\<lparr>lo_sent := lo_sent s @ [post_req (url_of u ''/ngsi-ld/v1/subscriptions/'') ld_headers rq]\<rparr>, True)))"

definition lo_on_subscribed :: "promise \<Rightarrow> 'a ldout_scheme \<Rightarrow> 'a ldout_scheme" where
  "lo_on_subscribed p s = (case p of Inl e \<Rightarrow> s | Inr subscriptionId \<Rightarrow> s\<lparr>lo_subscriptionId := subscriptionId\<rparr>)"

text \<open>The update under the identity of the output, if the output has been set.\<close>

definition ld_identity :: "props \<Rightarrow> props \<Rightarrow> props" where
  "ld_identity out ctxUpdate =
     (if obj_in out ''id'' \<and> obj_in out ''type'' then
        obj_put ''type'' (obj_get out ''type'') (obj_put ''id'' (JStr (''urn:ngsi-ld:'' @ js_str (obj_get out ''id''))) ctxUpdate)
      else ctxUpdate)"

definition lo_publish :: "props \<Rightarrow> 'a ldout_scheme \<Rightarrow> 'a ldout_scheme step" where
  "lo_publish ctxUpdate s =
     (case lo_client s of
        None \<Rightarrow> (s, True)
      | Some u \<Rightarrow>
          (case upsert_request u (JObj (ld_identity (lo_output s) ctxUpdate)) of
             None \<Rightarrow> (s, False)
           | Some rq \<Rightarrow> (s\<lparr>lo_sent := lo_sent s @ [rq]\<rparr>, True)))"

section \<open>One-time execution\<close>

definition lo_fetch_req :: "'a ldout_scheme \<Rightarrow> http_req" where
  "lo_fetch_req s =
     ld_get_req (url_of (lo_brokerURL s) (''/ngsi-ld/v1/entities/'' @ js_str (obj_get (lo_input s) ''id'')))
       (JObj [(''Accept'', JStr ''application/json''), (''Content-Type'', JStr ''application/ld+json'')])"

definition lo_fetchInputByQuery :: "axios \<Rightarrow> 'a ldout_scheme \<Rightarrow> promise" where
  "lo_fetchInputByQuery axios s =
     axios_200 axios (lo_fetch_req s) (\<lambda>ctxElements. Some (JArr [LD_CtxElement2JSONObject ctxElements]))"

text \<open>\<open>query2execution\<close>: an exception, also one of the user's function, ends the loop.\<close>

definition lo_query2execution ::
    "axios \<Rightarrow> (jval \<Rightarrow> 'a ldout_scheme \<Rightarrow> 'a ldout_scheme step) \<Rightarrow> 'a ldout_scheme \<Rightarrow> 'a ldout_scheme step" where
  "lo_query2execution axios handler s =
     (let s' = s\<lparr>lo_sent := lo_sent s @ [lo_fetch_req s]\<rparr> in
      case lo_fetchInputByQuery axios s of
        Inl e \<Rightarrow> (s', False)
      | Inr ctxObjects \<Rightarrow>
          (case jelems ctxObjects of None \<Rightarrow> (s', False) | Some es \<Rightarrow> run_steps handler es s'))"

section \<open>Laws\<close>

lemma lo_handleCmd_sent: "lo_sent (fst (lo_handleCmd c s)) = lo_sent s"
  by (simp add: lo_handleCmd_def lo_connectBroker_def lo_setInputs_def lo_setOutputs_def lo_setReferenceURL_def Let_def split: option.split)

text \<open>Commands leave the variables of the function and of the buffer alone.\<close>

lemma lo_handleCmd_more: "ldout.more (fst (lo_handleCmd c s)) = ldout.more s"
  by (simp add: lo_handleCmd_def lo_connectBroker_def lo_setInputs_def lo_setOutputs_def lo_setReferenceURL_def Let_def split: option.split)

lemma lo_commands_keep:
  "lo_sent (fst (run_steps lo_handleCmd cs s)) = lo_sent s \<and> ldout.more (fst (run_steps lo_handleCmd cs s)) = ldout.more s"
  by (rule steps.run_invariant [where P = "\<lambda>t. lo_sent t = lo_sent s \<and> ldout.more t = ldout.more s"])
    (simp_all add: lo_handleCmd_sent lo_handleCmd_more)

end
