(* ===== verification/LD_Operators.thy ===== *)
theory LD_Operators
  imports LD_Runtime Smart_Parking Anomaly
begin

text \<open>
  Operators for NGSI-LD: the anomaly detector \<open>application/operator/LDanamaly\<close> and the smart parking operators
  \<open>application/operator/NGSI-LD-operator/LDsmartparking\<close> on the runtime of \<open>LD_Runtime\<close>.
\<close>

section \<open>The anomaly detector\<close>

record ld_anomaly = ldout +
  la_threshold :: jval

definition init_ld_anomaly :: ld_anomaly where
  "init_ld_anomaly = ldout.extend init_ldout \<lparr>la_threshold = JNum 30\<rparr>"

definition property :: "jval \<Rightarrow> jval" where
  "property v = JObj [(''type'', JStr ''Property''), (''value'', v)]"

definition ld_anomaly_entity :: "string \<Rightarrow> jval \<Rightarrow> jval \<Rightarrow> jval \<Rightarrow> props" where
  "ld_anomaly_entity now deviceID shopID watts =
     [(''when'', property (JStr now)), (''whichpanel'', property deviceID), (''shop'', property shopID), (''usage'', property watts)]"

definition ld_panel_fields :: "jval \<Rightarrow> (jval \<times> jval \<times> jval) option" where
  "ld_panel_fields contextEntity =
     do { us \<leftarrow> jget contextEntity ''usage''; watts \<leftarrow> jget us ''value'';
          deviceID \<leftarrow> jget contextEntity ''id'';
          sh \<leftarrow> jget contextEntity ''shop''; shopID \<leftarrow> jget sh ''value'';
          Some (watts, deviceID, shopID) }"

definition ld_an_handler :: "string \<Rightarrow> jval \<Rightarrow> ld_anomaly \<Rightarrow> ld_anomaly step" where
  "ld_an_handler now contextEntity s =
     (if is_nullish contextEntity then (s, True)
      else let type = field contextEntity ''type'' in
        if js_eq type (JStr ''PowerPanelNew'') then
          (case ld_panel_fields contextEntity of
             None \<Rightarrow> (s, False)
           | Some (watts, deviceID, shopID) \<Rightarrow>
               (if js_gt watts (la_threshold s) then lo_publish (ld_anomaly_entity now deviceID shopID watts) s else (s, True)))
        else if js_eq type (JStr ''Rule'') then
          (case do { t \<leftarrow> jget contextEntity ''threshold''; jget t ''value'' } of
             None \<Rightarrow> (s, False)
           | Some v \<Rightarrow> (s\<lparr>la_threshold := v\<rparr>, True))
        else (s, True))"

text \<open>What reaches the program; the entities of a notification come with the times at which they are handled.\<close>

datatype timed_input = TAdmin "jval list" | TNotified "(string \<times> jval) list"

fun ld_anomaly_step :: "timed_input \<Rightarrow> ld_anomaly \<Rightarrow> ld_anomaly step" where
  "ld_anomaly_step (TAdmin commands) s = (case lo_handleAdmin (run_steps lo_handleCmd) commands s of (s', r) \<Rightarrow> (s', r \<noteq> None))"
| "ld_anomaly_step (TNotified es) s = run_steps (caught (\<lambda>(now, e). ld_an_handler now e)) es s"

text \<open>The entities of the events, without the place of the panel, and the request that reports a reading.\<close>

fun ld_event_object :: "city_event \<Rightarrow> jval" where
  "ld_event_object (Reading r) =
     JObj [(''id'', JStr (r_panel r)), (''type'', JStr ''PowerPanelNew''), (''usage'', property (JNum (r_watts r))), (''shop'', property (JStr (r_shop r)))]"
| "ld_event_object (NewRule t) = JObj [(''id'', JStr ''rule''), (''type'', JStr ''Rule''), (''threshold'', property (JNum t))]"

definition ld_anomaly_request :: "jval \<Rightarrow> jval \<Rightarrow> jval \<Rightarrow> string \<times> reading \<Rightarrow> http_req" where
  "ld_anomaly_request u i t d =
     post_req (url_of u ''/ngsi-ld/v1/entityOperations/upsert'') ld_headers (JArr [JObj
       [(''id'', JStr (''urn:ngsi-ld:'' @ js_str i)), (''type'', t), (''when'', property (JStr (fst d))),
        (''whichpanel'', property (JStr (r_panel (snd d)))), (''shop'', property (JStr (r_shop (snd d)))),
        (''usage'', property (JNum (r_watts (snd d))))]])"

lemma ld_publish_anomaly:
  assumes "lo_client s = Some u" and "lo_output s = [(''id'', i), (''type'', t)]"
  shows "lo_publish (ld_anomaly_entity now (JStr (r_panel r)) (JStr (r_shop r)) (JNum (r_watts r))) s =
     (s\<lparr>lo_sent := lo_sent s @ [ld_anomaly_request u i t (now, r)]\<rparr>, True)"
  using assms
  by (simp add: lo_publish_def upsert_request_def out_JSONObject2CtxElement_def out_system_keys_def ld_identity_def ld_anomaly_entity_def
      ld_anomaly_request_def obj_in_def has_own_def js_access js_literal)

lemma ld_an_handler_event:
  assumes "lo_client s = Some u" and "lo_output s = [(''id'', i), (''type'', t)]" and "la_threshold s = JNum thr"
  shows "ld_an_handler now (ld_event_object e) s =
     (s\<lparr>lo_sent := lo_sent s @ map (ld_anomaly_request u i t) (detected thr [(now, e)]),
        la_threshold := JNum (rule_in_force thr [(now, e)])\<rparr>, True)"
  using assms
  by (cases e)
    (simp_all add: ld_an_handler_def Let_def ld_panel_fields_def property_def field_def js_access js_eq_JStr ld_publish_anomaly)

interpretation ld_rules: rule_detector ld_an_handler "run_steps (\<lambda>(now, e). ld_an_handler now e)" ld_event_object
    "\<lambda>thr s. lo_client s = Some u \<and> lo_output s = [(''id'', i), (''type'', t)] \<and> la_threshold s = JNum thr"
    "\<lambda>ds thr s. s\<lparr>lo_sent := lo_sent s @ map (ld_anomaly_request u i t) ds, la_threshold := JNum thr\<rparr>" for u i t
  by unfold_locales (simp_all add: ld_an_handler_event)

text \<open>
  A connected detector for NGSI-LD reports exactly the readings above the threshold in force, as the one for NGSI v1 does.
\<close>

lemma ld_anomalies_follow_rules:
  assumes "lo_client s = Some u" and "lo_output s = [(''id'', i), (''type'', t)]" and "la_threshold s = JNum thr"
  shows "ld_anomaly_step (TNotified (map (\<lambda>(now, e). (now, ld_event_object e)) es)) s =
     (s\<lparr>lo_sent := lo_sent s @ map (ld_anomaly_request u i t) (detected thr es), la_threshold := JNum (rule_in_force thr es)\<rparr>, True)"
  using assms unfolding ld_anomaly_step.simps by (intro run_steps_caught ld_rules.run_events) simp

section \<open>Smart parking\<close>

text \<open>
  The four programs share their \<open>main.js\<close>: updates go through a buffer.  The variable of the function, \<open>parkingRequest\<close> of
  the car and \<open>previousReq\<close> of the recommender, is \<open>lp_request\<close>.
\<close>

record ld_parking = ldout +
  lp_buffer :: "jval list"
  lp_request :: jval

definition init_ld_parking :: ld_parking where
  "init_ld_parking = ldout.extend init_ldout \<lparr>lp_buffer = [], lp_request = JNull\<rparr>"

text \<open>The buffer is sent: an update with a positive \<open>outputIdx\<close> gets the identity of the output.  Without a client the call throws.\<close>

definition lp_name :: "props \<Rightarrow> jval \<Rightarrow> jval option" where
  "lp_name out tmp =
     do { idx \<leftarrow> jget tmp ''outputIdx'';
          Some (case tmp of
                  JObj ps \<Rightarrow>
                    if js_positive idx then
                      JObj (obj_put ''type'' (obj_get out ''type'') (obj_put ''id'' (JStr (''urn:ngsi-ld:'' @ js_str (obj_get out ''id''))) ps))
                    else tmp
                | _ \<Rightarrow> tmp) }"

fun lp_flush :: "nat \<Rightarrow> jval list \<Rightarrow> ld_parking \<Rightarrow> ld_parking step" where
  "lp_flush i [] s = (s, True)"
| "lp_flush i (tmp # rest) s =
     (case lp_name (lo_output s) tmp of
        None \<Rightarrow> (s, False)
      | Some v \<Rightarrow>
          (let s1 = s\<lparr>lp_buffer := (lp_buffer s)[i := v]\<rparr> in
           case Option.bind (lo_client s1) (\<lambda>u. upsert_request u v) of
             None \<Rightarrow> (s1, False)
           | Some rq \<Rightarrow> lp_flush (Suc i) rest (s1\<lparr>lo_sent := lo_sent s1 @ [rq]\<rparr>)))"

definition lp_sendUpdateWithinBuffer :: "ld_parking \<Rightarrow> ld_parking step" where
  "lp_sendUpdateWithinBuffer s = (case lp_flush 0 (lp_buffer s) s of (s', ok) \<Rightarrow> (if ok then s'\<lparr>lp_buffer := []\<rparr> else s', ok))"

definition lp_handleCmds :: "jval list \<Rightarrow> ld_parking \<Rightarrow> ld_parking step" where
  "lp_handleCmds commands s = handle_cmds_with lo_handleCmd lp_sendUpdateWithinBuffer commands s"

fun lp_send :: "jval list \<Rightarrow> ld_parking \<Rightarrow> ld_parking step" where
  "lp_send [] s = (s, True)"
| "lp_send (update # rest) s =
     (case Option.bind (lo_client s) (\<lambda>u. upsert_request u update) of
        None \<Rightarrow> (s, False)
      | Some rq \<Rightarrow> lp_send rest (s\<lparr>lo_sent := lo_sent s @ [rq]\<rparr>))"

text \<open>\<open>publish\<close>: the update gets its identity, and then the buffer is sent, into which nothing has put the update.\<close>

definition lp_publish :: "props \<Rightarrow> ld_parking \<Rightarrow> ld_parking step" where
  "lp_publish ctxUpdate s =
     (if lo_client s = None then (s, True)
      else let ctxUpdate' = ld_identity (lo_output s) ctxUpdate in
        case lp_send (lp_buffer s) s of (s', ok) \<Rightarrow> (if ok then s'\<lparr>lp_buffer := []\<rparr> else s', ok))"

text \<open>
  The functions.  The private site runs the function of the car.  The public site compares the attribute \<open>Updater\<close>, not
  its value, with its identifier.
\<close>

definition ld_car_handler :: "jval \<Rightarrow> jval \<Rightarrow> jval \<Rightarrow> ld_parking \<Rightarrow> ld_parking step" where
  "ld_car_handler twentyMinutesLater destination contextEntity s =
     (if is_nullish contextEntity then (s, True)
      else if is_nullish (field contextEntity ''id'') then (s, True)
      else if is_nullish (field contextEntity ''type'') then (s, True)
      else if \<not> is_nullish (field contextEntity ''ParkingRequest'') then (s, True)
      else if \<not> is_nullish (field contextEntity ''RecommendedParkingSite'') then (s, True)
      else let request = parking_request twentyMinutesLater destination
        in lp_publish [(''id'', field contextEntity ''id''), (''type'', field contextEntity ''type''), (''ParkingRequest'', property request)]
             (s\<lparr>lp_request := request\<rparr>))"

definition ld_recommender_handler :: "jval \<Rightarrow> ld_parking \<Rightarrow> ld_parking step" where
  "ld_recommender_handler contextEntity s =
     (if is_nullish contextEntity then (s, True)
      else if is_nullish (field contextEntity ''id'') then (s, True)
      else if is_nullish (field contextEntity ''type'') then (s, True)
      else if \<not> is_nullish (field contextEntity ''RecommendedParkingSite'') then (s, True)
      else if is_nullish (field contextEntity ''ParkingRequest'') then (s, True)
      else let parkingReq = field (field contextEntity ''ParkingRequest'') ''value'' in
        case (if is_nullish (lp_request s) then Some False else same_request (lp_request s) parkingReq) of
          None \<Rightarrow> (s, False)
        | Some True \<Rightarrow> (s, True)
        | Some False \<Rightarrow>
            (case lp_publish [(''id'', field contextEntity ''id''), (''type'', field contextEntity ''type''),
                  (''RecommendedParkingSite'', property (JStr ''Twin.ParkingSite.002''))] s of
               (s', False) \<Rightarrow> (s', False)
             | (s', True) \<Rightarrow> (s'\<lparr>lp_request := parkingReq\<rparr>, True)))"

definition ld_public_site_handler :: "string \<Rightarrow> jval \<Rightarrow> ld_parking \<Rightarrow> ld_parking step" where
  "ld_public_site_handler myID contextEntity s =
     (if is_nullish contextEntity then (s, True)
      else if is_nullish (field contextEntity ''id'') then (s, True)
      else if is_nullish (field contextEntity ''type'') then (s, True)
      else if \<not> is_nullish (field contextEntity ''Updater'') \<and> js_eq (field contextEntity ''Updater'') (JStr myID) then (s, True)
      else if is_nullish (field contextEntity ''datasource'') then (s, True)
      else lp_publish [(''id'', field contextEntity ''id''), (''type'', field contextEntity ''type''),
             (''FreeParkingSpots'', property (JNum 10)), (''Updater'', property (JStr myID))] s)"

text \<open>The programs: requests of the engine, and notifications, each with its time.\<close>

definition lp_handleAdmin :: "jval list \<Rightarrow> ld_parking \<Rightarrow> ld_parking \<times> reply option" where
  "lp_handleAdmin commands s = lo_handleAdmin lp_handleCmds commands s"

fun ld_car_step :: "jval \<Rightarrow> jval \<Rightarrow> input \<Rightarrow> ld_parking \<Rightarrow> ld_parking step" where
  "ld_car_step now destination (Admin commands) s = (case lp_handleAdmin commands s of (s', r) \<Rightarrow> (s', r \<noteq> None))"
| "ld_car_step now destination (Notified ctxObjects) s = run_steps (caught (ld_car_handler now destination)) ctxObjects s"

fun ld_private_site_step :: "jval \<Rightarrow> jval \<Rightarrow> input \<Rightarrow> ld_parking \<Rightarrow> ld_parking step" where
  "ld_private_site_step now destination (Admin commands) s = (case lp_handleAdmin commands s of (s', r) \<Rightarrow> (s', r \<noteq> None))"
| "ld_private_site_step now destination (Notified ctxObjects) s = run_steps (caught (ld_car_handler now destination)) ctxObjects s"

fun ld_public_site_step :: "string \<Rightarrow> input \<Rightarrow> ld_parking \<Rightarrow> ld_parking step" where
  "ld_public_site_step myID (Admin commands) s = (case lp_handleAdmin commands s of (s', r) \<Rightarrow> (s', r \<noteq> None))"
| "ld_public_site_step myID (Notified ctxObjects) s = run_steps (caught (ld_public_site_handler myID)) ctxObjects s"

fun ld_recommender_step :: "input \<Rightarrow> ld_parking \<Rightarrow> ld_parking step" where
  "ld_recommender_step (Admin commands) s = (case lp_handleAdmin commands s of (s', r) \<Rightarrow> (s', r \<noteq> None))"
| "ld_recommender_step (Notified ctxObjects) s = run_steps (caught ld_recommender_handler) ctxObjects s"

text \<open>The buffer stays empty, and nothing is sent.\<close>

definition silent :: "ld_parking \<Rightarrow> bool" where
  "silent s = (lp_buffer s = [] \<and> lo_sent s = [])"

lemma lp_publish_silent: "silent s \<Longrightarrow> silent (fst (lp_publish x s))"
  by (simp add: silent_def lp_publish_def Let_def)

lemma silent_request: "silent (s\<lparr>lp_request := r\<rparr>) = silent s"
  by (simp add: silent_def)

lemma ld_car_handler_silent: "silent s \<Longrightarrow> silent (fst (ld_car_handler now destination e s))"
  by (simp add: ld_car_handler_def Let_def lp_publish_silent silent_request)

lemma ld_public_site_handler_silent: "silent s \<Longrightarrow> silent (fst (ld_public_site_handler myID e s))"
  by (simp add: ld_public_site_handler_def lp_publish_silent)

lemma ld_recommender_handler_silent:
  assumes "silent s"
  shows "silent (fst (ld_recommender_handler e s))"
proof -
  have "silent (fst (case lp_publish x s of (s', False) \<Rightarrow> (s', False) | (s', True) \<Rightarrow> (s'\<lparr>lp_request := r\<rparr>, True)))" for x r
    using lp_publish_silent [OF assms, of x] by (auto simp: silent_request split: prod.split bool.split)
  with assms show ?thesis by (auto simp: ld_recommender_handler_def Let_def split: option.split bool.split)
qed

lemma lp_handleAdmin_silent:
  assumes "silent s"
  shows "silent (fst (lp_handleAdmin commands s))"
proof -
  obtain t ok where t: "run_steps lo_handleCmd commands s = (t, ok)" by fastforce
  have "lo_sent t = lo_sent s" "ldout.more t = ldout.more s" using lo_commands_keep [of commands s] by (simp_all add: t)
  with assms have "silent t" by (cases s, cases t) (simp add: silent_def)
  then have "silent (fst (lp_handleCmds commands s))"
    by (cases ok) (simp_all add: lp_handleCmds_def handle_cmds_with_def t lp_sendUpdateWithinBuffer_def silent_def)
  then show ?thesis by (auto simp: lp_handleAdmin_def lo_handleAdmin_def silent_def split: prod.split bool.split)
qed

lemma lp_notified_silent:
  "\<lbrakk>silent s; \<And>e s. silent s \<Longrightarrow> silent (fst (f e s))\<rbrakk> \<Longrightarrow> silent (fst (run_steps (caught f) es s))"
  by (rule steps.run_invariant) (simp_all add: caught_def)

lemma ld_parking_step_silent:
  assumes "silent s"
  shows "silent (fst (ld_car_step now d i s))" "silent (fst (ld_private_site_step now d i s))"
    "silent (fst (ld_public_site_step myID i s))" "silent (fst (ld_recommender_step i s))"
  using assms
  by (cases i; simp add: case_prod_beta lp_handleAdmin_silent lp_notified_silent ld_car_handler_silent ld_public_site_handler_silent
      ld_recommender_handler_silent)+

lemma silent_run: "(\<And>i s. silent s \<Longrightarrow> silent (fst (step i s))) \<Longrightarrow> lo_sent (over_events step is init_ld_parking) = []"
  using over_events_invariant [of silent init_ld_parking step "is"]
  by (simp add: silent_def init_ld_parking_def init_ldout_def ldout.extend_def)

text \<open>
  The smart parking operators for NGSI-LD never publish anything: over every sequence of configurations and
  notifications, whatever they contain and whenever they come, none of the four programs sends a single request.
\<close>

theorem ld_parking_never_publishes:
  "lo_sent (over_events (\<lambda>(now, i). ld_car_step now destination i) xs init_ld_parking) = [] \<and>
   lo_sent (over_events (\<lambda>(now, i). ld_private_site_step now destination i) xs init_ld_parking) = [] \<and>
   lo_sent (over_events (ld_public_site_step myID) is init_ld_parking) = [] \<and>
   lo_sent (over_events ld_recommender_step is init_ld_parking) = []"
  by (intro conjI silent_run) (auto simp: ld_parking_step_silent)

text \<open>The public site does not recognise its own updates, in which \<open>Updater\<close> is a property with the identifier as its value.\<close>

lemma ld_public_site_ignores_updater:
  assumes "jget e ''Updater'' = Some (property (JStr myID))" and "myID \<noteq> ''[object Object]''"
  shows "\<not> js_eq (field e ''Updater'') (JStr myID)"
  using assms by (simp add: field_def property_def js_eq_def is_prim_def)

end
