(* ===== verification/LD_Alerts.thy ===== *)
theory LD_Alerts
  imports Fog_Template_LD Buffered_Runtime Anomaly
begin

text \<open>
  Two operators on copies of the template for NGSI-LD: the water pump, \<open>application/operator/NGSI-LD-operator/WaterPumpFog\<close>, which
  switches a pump off after it was reported to be on, and the speed alert,
  \<open>application/operator/NGSI-LD-operator/alertForSpeedInNGSILD\<close>, which classifies the speed of a vehicle.
\<close>

section \<open>The water pump\<close>

text \<open>
  The variables of \<open>function.js\<close>; the texts \<open>"true"\<close> and \<open>"false"\<close> are truth values.  \<open>pump_value\<close> is the undeclared variable
  \<open>value\<close>, which is assigned before it is read.
\<close>

record pump =
  current_observation :: jval
  previous_observation :: jval
  onHasCreated :: bool
  publishStatus :: bool
  pump_value :: jval

definition init_pump :: pump where
  "init_pump = \<lparr>current_observation = JStr [], previous_observation = JStr [], onHasCreated = False, publishStatus = False, pump_value = JUndef\<rparr>"

text \<open>The client under \<open>WaterPumpFog/ngsi\<close> has its own headers.\<close>

definition pump_headers :: jval where
  "pump_headers =
     JObj (obj_of [(''content-type'', JStr ''application/json''), (''Accept'', JStr ''application/ld+json''),
       (''fiware-service'', JStr ''openiot''), (''fiware-servicepath'', JStr ''/''),
       (''Link'', JStr ''<https://fiware.github.io/data-models/context.jsonld>; rel=\"https://uri.etsi.org/ngsi-ld/v1/ngsi-ld-core-context.jsonld\"; type=\"application/ld+json\"'')])"

definition pump_publish :: "jval \<Rightarrow> pump ldapp \<Rightarrow> pump ldapp step" where
  "pump_publish ctxUpdate s =
     (case ld_client s of
        None \<Rightarrow> (s, True)
      | Some u \<Rightarrow>
          (case LD_JSONObject2CtxElement ctxUpdate of
             None \<Rightarrow> (s, False)
           | Some e \<Rightarrow>
               (s\<lparr>ld_sent := ld_sent s @ [post_req (url_of u ''/ngsi-ld/v1/entityOperations/upsert'') pump_headers (JArr [e])]\<rparr>, True)))"

text \<open>\<open>con_observation\<close>; \<open>None\<close> is an exception: \<open>in\<close> on a value that is no object, or an \<open>on_status\<close> that is \<open>null\<close>.\<close>

definition observation :: "jval \<Rightarrow> jval option" where
  "observation contextEntity =
     (case contextEntity of
        JObj ps \<Rightarrow> if obj_in ps ''on_status'' then jget (obj_get ps ''on_status'') ''observedAt'' else Some (JStr [])
      | JArr xs \<Rightarrow> Some (JStr [])
      | JFun f \<Rightarrow> Some (JStr [])
      | _ \<Rightarrow> None)"

text \<open>The timer is created; the method \<open>split\<close> exists for texts only.\<close>

definition create_timer :: "jval \<Rightarrow> pump \<Rightarrow> pump step" where
  "create_timer con p =
     (let p1 = p\<lparr>pump_value := JStr ''off'', onHasCreated := True\<rparr> in
      case con of JStr t \<Rightarrow> (p1\<lparr>publishStatus := True\<rparr>, True) | _ \<Rightarrow> (p1, False))"

text \<open>The waiting of sixty seconds before the publication is not modelled: nothing else runs meanwhile.\<close>

definition switch_off :: "jval \<Rightarrow> pump ldapp \<Rightarrow> pump ldapp step" where
  "switch_off contextEntity s =
     (if publishStatus (ld_user s) then
        (case pump_publish (JObj (obj_put ''command'' (JObj (obj_of [(''type'', JStr ''Property''), (''value'', pump_value (ld_user s))]))
                 (obj_of (jprops contextEntity)))) s of
           (s', False) \<Rightarrow> (s', False)
         | (s', True) \<Rightarrow> (s'\<lparr>ld_user := (ld_user s')\<lparr>publishStatus := False, onHasCreated := False\<rparr>\<rparr>, True))
      else (s, True))"

definition pump_handler :: "jval \<Rightarrow> pump ldapp \<Rightarrow> pump ldapp step" where
  "pump_handler contextEntity s =
     (if is_nullish contextEntity then (s, True)
      else case observation contextEntity of
             None \<Rightarrow> (s, False)
           | Some con \<Rightarrow>
               (let p = (ld_user s)\<lparr>current_observation := con\<rparr> in
                if js_eq con (previous_observation p) then (s\<lparr>ld_user := p\<rparr>, True)
                else let p' = p\<lparr>previous_observation := con\<rparr> in
                  case (if \<not> js_eq con (JStr []) \<and> \<not> onHasCreated p' then create_timer con p' else (p', True)) of
                    (q, False) \<Rightarrow> (s\<lparr>ld_user := q\<rparr>, False)
                  | (q, True) \<Rightarrow> switch_off contextEntity (s\<lparr>ld_user := q\<rparr>)))"

fun pump_step :: "input \<Rightarrow> pump ldapp \<Rightarrow> pump ldapp step" where
  "pump_step (Admin commands) s = (case LD_handleAdmin JUndef commands s of (s', r) \<Rightarrow> (s', r \<noteq> None))"
| "pump_step (Notified ctxObjects) s = run_steps (caught pump_handler) ctxObjects s"

section \<open>Switching the pump off\<close>

text \<open>
  The observations, identifier and time, at which the pump has to be switched off: those with a time that differs from
  the one before.
\<close>

fun switched :: "string \<Rightarrow> (string \<times> string) list \<Rightarrow> (string \<times> string) list" where
  "switched prev [] = []"
| "switched prev ((i, t) # os) = (if t \<noteq> prev \<and> t \<noteq> [] then [(i, t)] else []) @ switched t os"

definition pump_entity :: "string \<times> string \<Rightarrow> props" where
  "pump_entity o' =
     [(''id'', JStr (fst o')), (''type'', JStr ''Device''),
      (''on_status'', JObj [(''type'', JStr ''Property''), (''value'', JStr ''on''), (''observedAt'', JStr (snd o'))])]"

definition off_request :: "jval \<Rightarrow> string \<times> string \<Rightarrow> http_req" where
  "off_request u o' =
     post_req (url_of u ''/ngsi-ld/v1/entityOperations/upsert'') pump_headers
       (JArr [JObj (pump_entity o' @ [(''command'', JObj [(''type'', JStr ''Property''), (''value'', JStr ''off'')])])])"

definition idle :: "string \<Rightarrow> pump \<Rightarrow> bool" where
  "idle prev p = (previous_observation p = JStr prev \<and> \<not> onHasCreated p \<and> \<not> publishStatus p)"

lemma observation_pump: "observation (JObj (pump_entity (i, t))) = Some (JStr t)"
  by (simp add: observation_def pump_entity_def obj_in_def has_own_def js_access)

lemma pump_publish_off:
  assumes "ld_client s = Some u"
  shows "pump_publish (JObj (obj_put ''command'' (JObj (obj_of [(''type'', JStr ''Property''), (''value'', JStr ''off'')])) (obj_of (pump_entity o')))) s =
    (s\<lparr>ld_sent := ld_sent s @ [off_request u o']\<rparr>, True)"
  using assms
  by (simp add: pump_publish_def LD_JSONObject2CtxElement_def pump_entity_def off_request_def system_keys_def js_access js_literal)

lemma pump_handler_observation:
  assumes "ld_client s = Some u" and "idle prev (ld_user s)"
  shows "\<exists>s'. pump_handler (JObj (pump_entity o')) s = (s', True) \<and> ld_client s' = Some u \<and> idle (snd o') (ld_user s') \<and>
    ld_sent s' = ld_sent s @ map (off_request u) (switched prev [o'])"
proof -
  obtain i t where o': "o' = (i, t)" by (cases o')
  show ?thesis
  proof (cases "t = prev")
    case True
    with assms show ?thesis by (simp add: o' pump_handler_def observation_pump idle_def js_eq_JStr Let_def)
  next
    case False
    with assms show ?thesis
      by (simp add: o' pump_handler_def observation_pump idle_def js_eq_JStr Let_def create_timer_def switch_off_def pump_publish_off)
  qed
qed

lemma pump_run:
  "\<lbrakk>ld_client s = Some u; idle prev (ld_user s)\<rbrakk> \<Longrightarrow>
     \<exists>s'. run_steps pump_handler (map (JObj \<circ> pump_entity) os) s = (s', True) \<and> ld_sent s' = ld_sent s @ map (off_request u) (switched prev os)"
proof (induction os arbitrary: s prev)
  case (Cons o' os)
  obtain s1 where s1: "pump_handler (JObj (pump_entity o')) s = (s1, True)" "ld_client s1 = Some u" "idle (snd o') (ld_user s1)"
      "ld_sent s1 = ld_sent s @ map (off_request u) (switched prev [o'])"
    using pump_handler_observation [OF Cons.prems] by blast
  have "switched prev (o' # os) = switched prev [o'] @ switched (snd o') os" by (cases o') simp
  with Cons.IH [OF s1(2,3)] s1(1,4) show ?case by auto
qed simp

text \<open>
  A connected pump operator that is idle switches the pump off exactly once for every observation with a time
  that differs from the one before, in the order of the observations.
\<close>

theorem pump_switched_off_once:
  assumes "ld_client s = Some u" and "idle prev (ld_user s)"
  shows "\<exists>s'. pump_step (Notified (map (JObj \<circ> pump_entity) os)) s = (s', True) \<and>
     ld_sent s' = ld_sent s @ map (off_request u) (switched prev os)"
  using pump_run [OF assms, of os] run_steps_caught by fastforce

theorem pump_switched_off_once_witness:
  "\<exists>s'. pump_step (Notified (map (JObj \<circ> pump_entity) [(''p'', ''10:00''), (''p'', ''10:00''), (''p'', ''11:00'')]))
       ((init_ldapp init_pump)\<lparr>ld_client := Some (JStr ''http://b'')\<rparr>) = (s', True) \<and>
     ld_sent s' = ld_sent ((init_ldapp init_pump)\<lparr>ld_client := Some (JStr ''http://b'')\<rparr>) @
       map (off_request (JStr ''http://b'')) [(''p'', ''10:00''), (''p'', ''11:00'')]"
  using pump_switched_off_once [of "(init_ldapp init_pump)\<lparr>ld_client := Some (JStr ''http://b'')\<rparr>" "JStr ''http://b''" "[]"
      "[(''p'', ''10:00''), (''p'', ''10:00''), (''p'', ''11:00'')]"]
  by (simp add: init_ldapp_def init_pump_def idle_def)

section \<open>An observation without a time\<close>

text \<open>A timer that was created without being published is never removed.\<close>

definition stuck :: "http_req list \<Rightarrow> pump ldapp \<Rightarrow> bool" where
  "stuck rs s = (ld_sent s = rs \<and> onHasCreated (ld_user s) \<and> \<not> publishStatus (ld_user s))"

lemma LD_handleCmd_keeps: "ld_sent (fst (LD_handleCmd c s)) = ld_sent s \<and> ld_user (fst (LD_handleCmd c s)) = ld_user s"
  by (simp add: LD_handleCmd_def LD_connectBroker_def LD_setInputs_def LD_setOutputs_def LD_setReferenceURL_def Let_def split: option.split)

lemma LD_handleCmds_keeps: "ld_sent (fst (LD_handleCmds cs s)) = ld_sent s \<and> ld_user (fst (LD_handleCmds cs s)) = ld_user s"
  by (rule ld_cmds.run_invariant [where P = "\<lambda>t. ld_sent t = ld_sent s \<and> ld_user t = ld_user s"]) (simp_all add: LD_handleCmd_keeps)

lemma LD_handleAdmin_keeps: "ld_sent (fst (LD_handleAdmin b cs s)) = ld_sent s \<and> ld_user (fst (LD_handleAdmin b cs s)) = ld_user s"
  using LD_handleCmds_keeps [of cs s] by (auto simp: LD_handleAdmin_def split: prod.split bool.split)

lemma pump_handler_stuck: "stuck rs s \<Longrightarrow> stuck rs (fst (pump_handler e s))"
  by (auto simp: stuck_def pump_handler_def switch_off_def Let_def split: option.split)

lemma pump_step_stuck: "stuck rs s \<Longrightarrow> stuck rs (fst (pump_step i s))"
proof (cases i)
  case (Admin cs)
  assume "stuck rs s"
  with LD_handleAdmin_keeps [of JUndef cs s] show ?thesis by (simp add: Admin case_prod_beta stuck_def)
next
  case (Notified es)
  assume "stuck rs s"
  then have "stuck rs (fst (run_steps (caught pump_handler) es s))"
    by (rule steps.run_invariant [rotated]) (simp add: caught_def pump_handler_stuck)
  then show ?thesis by (simp add: Notified)
qed

text \<open>
  An entity whose \<open>on_status\<close> has no \<open>observedAt\<close> disables the pump operator: the exception in the middle of the
  function leaves the timer created but not published, and from then on no observation and no configuration makes the
  operator send anything.
\<close>

theorem untimed_observation_disables_pump:
  assumes "idle prev (ld_user s)" and "observation e = Some JUndef"
  shows "ld_sent (over_events pump_step (Notified [e] # is) s) = ld_sent s"
proof -
  have "\<not> is_nullish e" using assms(2) by (cases e) (auto simp: observation_def)
  with assms have "stuck (ld_sent s) (fst (pump_step (Notified [e]) s))"
    by (simp add: pump_handler_def caught_def stuck_def idle_def create_timer_def Let_def js_eq_def is_prim_def)
  then have "stuck (ld_sent s) (over_events pump_step is (fst (pump_step (Notified [e]) s)))"
    by (rule over_events_invariant) (rule pump_step_stuck)
  then show ?thesis by (simp add: over_events_def stuck_def del: pump_step.simps)
qed

theorem untimed_observation_disables_pump_witness:
  "ld_sent (over_events pump_step [Notified [JObj [(''id'', JStr ''p''), (''on_status'', JObj [(''value'', JStr ''on'')])]],
      Notified [JObj (pump_entity (''p'', ''10:00''))]] ((init_ldapp init_pump)\<lparr>ld_client := Some (JStr ''http://b'')\<rparr>)) = []"
  using untimed_observation_disables_pump [of "[]" "(init_ldapp init_pump)\<lparr>ld_client := Some (JStr ''http://b'')\<rparr>"
      "JObj [(''id'', JStr ''p''), (''on_status'', JObj [(''value'', JStr ''on'')])]" "[Notified [JObj (pump_entity (''p'', ''10:00''))]]"]
  by (simp add: idle_def init_ldapp_def init_pump_def observation_def obj_in_def has_own_def object_proto_def js_access)

section \<open>The speed alert\<close>

text \<open>The comparisons with a number; a value that is no number is less than nothing.\<close>

definition at_most :: "jval \<Rightarrow> int \<Rightarrow> bool" where
  "at_most v n = (case prim_number (to_prim v) of Some m \<Rightarrow> m \<le> n | None \<Rightarrow> False)"

definition classify_speed :: "jval \<Rightarrow> string" where
  "classify_speed speed =
     (if at_most speed 30 then ''speed is slow''
      else if js_gt speed (JNum 30) \<and> at_most speed 50 then ''Speed is normal''
      else ''speed is under risk'')"

definition speed_handler :: "jval \<Rightarrow> 'u ldapp \<Rightarrow> 'u ldapp step" where
  "speed_handler contextEntity s =
     (if is_nullish contextEntity then (s, True)
      else case do { sp \<leftarrow> jget contextEntity ''speed''; speed \<leftarrow> jget sp ''value'';
                     br \<leftarrow> jget contextEntity ''brandName''; brand \<leftarrow> jget br ''value'';
                     Some speed } of
             None \<Rightarrow> (s, False)
           | Some speed \<Rightarrow>
               LD_publish (JObj (obj_of [(''id'', JStr (js_str (field contextEntity ''id'') @ ''daresult'')), (''type'', JStr ''daresult''),
                  (''speed'', JObj (obj_of [(''type'', JStr ''Property''), (''value'', JStr (classify_speed speed))]))])) s)"

fun speed_step :: "input \<Rightarrow> 'u ldapp \<Rightarrow> 'u ldapp step" where
  "speed_step (Admin commands) s = (case LD_handleAdmin JUndef commands s of (s', r) \<Rightarrow> (s', r \<noteq> None))"
| "speed_step (Notified ctxObjects) s = run_steps (caught speed_handler) ctxObjects s"

definition vehicle :: "string \<times> jval \<Rightarrow> jval" where
  "vehicle v = JObj [(''id'', JStr (fst v)), (''type'', JStr ''Vehicle''), (''speed'', JObj [(''type'', JStr ''Property''), (''value'', snd v)]),
     (''brandName'', JObj [(''type'', JStr ''Property''), (''value'', JStr ''brand'')])]"

definition speed_request :: "jval \<Rightarrow> string \<times> string \<Rightarrow> http_req" where
  "speed_request u r =
     post_req (url_of u ''/ngsi-ld/v1/entityOperations/upsert'') ld_headers (JArr [JObj [(''id'', JStr (fst r @ ''daresult'')),
       (''type'', JStr ''daresult''), (''speed'', JObj [(''type'', JStr ''Property''), (''value'', JStr (snd r))])]])"

lemma classify_speed_number:
  "classify_speed (JNum n) = (if n \<le> 30 then ''speed is slow'' else if n \<le> 50 then ''Speed is normal'' else ''speed is under risk'')"
  by (simp add: classify_speed_def at_most_def to_prim_def is_prim_def)

text \<open>A vehicle without a speed is at risk.\<close>

lemma classify_no_speed: "classify_speed JUndef = ''speed is under risk''"
  by (simp add: classify_speed_def at_most_def to_prim_def is_prim_def)

text \<open>The operator publishes a result for every vehicle, also for those that are not at risk.\<close>

lemma speed_results:
  "ld_client s = Some u \<Longrightarrow>
     speed_step (Notified (map vehicle vs)) s =
       (s\<lparr>ld_sent := ld_sent s @ map (\<lambda>v. speed_request u (fst v, classify_speed (snd v))) vs\<rparr>, True)"
proof (induction vs arbitrary: s)
  case (Cons v vs)
  have "speed_handler (vehicle v) s = (s\<lparr>ld_sent := ld_sent s @ [speed_request u (fst v, classify_speed (snd v))]\<rparr>, True)"
    using Cons.prems
    by (simp add: speed_handler_def vehicle_def LD_publish_def LD_JSONObject2CtxElement_def system_keys_def speed_request_def
        field_def js_access js_literal)
  with Cons.IH [of "s\<lparr>ld_sent := ld_sent s @ [speed_request u (fst v, classify_speed (snd v))]\<rparr>"] Cons.prems show ?case
    by (simp add: caught_def)
qed simp

end
