(* ===== verification/Dummy_Operator.thy ===== *)
theory Dummy_Operator
  imports Fog_Template Buffered_Runtime
begin

text \<open>
  The operator \<open>application/operator/dummy\<close>, which republishes the attributes of what it receives under another identity.  Its
  \<open>main.js\<close> is the runtime of \<open>Fog_Template\<close> with a one-time execution that reaches the function.
\<close>

section \<open>The program\<close>

text \<open>The state is the variable \<open>entityID\<close>.  An entity without identity throws, also \<open>null\<close>.\<close>

definition dummy_function :: "jval fog_fn" where
  "dummy_function contextEntity entityID =
     (case do { e \<leftarrow> jget contextEntity ''entityId''; jget e ''id'' } of
        None \<Rightarrow> ([], entityID, False)
      | Some i \<Rightarrow>
          ([CallPublish (JObj (obj_of
              [(''entityId'', JObj (obj_of [(''id'', JStr (''Result'' @ js_str i)), (''type'', JStr ''Result''), (''isPattern'', JBool False)])),
               (''attributes'', field contextEntity ''attributes'')]))],
           i, True))"

definition dummy_query2execution :: "axios \<Rightarrow> 'u fog_fn \<Rightarrow> 'u fogapp \<Rightarrow> 'u fogapp step" where
  "dummy_query2execution axios h s =
     (let s' = s\<lparr>sent := sent s @ [fetch_input_req s]\<rparr> in
      case fetchInputByQuery axios s of
        Inl e \<Rightarrow> (s', False)
      | Inr ctxObjects \<Rightarrow>
          (case jelems ctxObjects of None \<Rightarrow> (s', False) | Some es \<Rightarrow> run_steps (run_handler h) es s'))"

text \<open>An \<open>adminCfg\<close> that is absent cannot be parsed either; the error is only logged.\<close>

definition dummy_configure :: "env_json \<Rightarrow> 'u fogapp \<Rightarrow> 'u fogapp" where
  "dummy_configure cfg s = (case cfg of Parsed v \<Rightarrow> configure v s | _ \<Rightarrow> s)"

definition dummy_runInOperationMode ::
  "axios \<Rightarrow> 'u fog_fn \<Rightarrow> env_json \<Rightarrow> jval \<Rightarrow> 'u fogapp \<Rightarrow> 'u fogapp \<times> 'u fogapp agent" where
  "dummy_runInOperationMode axios h adminCfg syncMode s =
     (let s' = dummy_configure adminCfg s in
      if js_eq syncMode (JStr ''yes'') then (fst (dummy_query2execution axios h s'), init_agent)
      else (s', notify2execution h))"

definition dummy_runInTestMode :: "axios \<Rightarrow> 'u fog_fn \<Rightarrow> env_json \<Rightarrow> 'u fogapp \<Rightarrow> 'u fogapp" where
  "dummy_runInTestMode axios h config_json s = fst (dummy_query2execution axios h (dummy_configure config_json s))"

section \<open>The modes agree\<close>

lemma handleNotifyObjects_completes: "run_steps (run_handler h) es s = (t, True) \<Longrightarrow> handleNotifyObjects h es s = t"
proof (induction es arbitrary: s)
  case (Cons e es)
  obtain s' ok where f: "run_handler h e s = (s', ok)" by fastforce
  with Cons.prems have ok by (cases ok) auto
  with Cons f show ?case by simp
qed simp

type_synonym attribute_list = "(string \<times> jval \<times> jval) list"

definition result_request :: "jval \<Rightarrow> jval \<Rightarrow> string \<times> attribute_list \<Rightarrow> http_req" where
  "result_request u hs e =
     post_req (url_of u ''/updateContext'') hs (update_req_body
       (ctx_element (JObj [(''id'', JStr (''Result'' @ fst e)), (''type'', JStr ''Result''), (''isPattern'', JBool False)]) (snd e) []) ''UPDATE'')"

definition received :: "string \<times> attribute_list \<Rightarrow> jval" where
  "received e = ctx_object (JObj [(''id'', JStr (fst e))]) (snd e) []"

lemma run_dummy:
  assumes "ngsi10client s = Some u"
  shows "run_handler dummy_function (received e) s =
    (s\<lparr>sent := sent s @ [result_request u (myheaders s) e], user := JStr (fst e)\<rparr>, True)"
  using assms
  by (simp add: run_handler_def dummy_function_def received_def ctx_object_def publish_def JSONObject2CtxElement_def named_list_props
      result_request_def ctx_element_def myheaders_def field_def js_access js_literal)
    (simp add: named_elems_def)

lemma run_dummies:
  "ngsi10client s = Some u \<Longrightarrow>
     \<exists>t. run_steps (run_handler dummy_function) (map received es) s = (t, True) \<and> sent t = sent s @ map (result_request u (myheaders s)) es"
proof (induction es arbitrary: s)
  case (Cons e es)
  let ?s = "s\<lparr>sent := sent s @ [result_request u (myheaders s) e], user := JStr (fst e)\<rparr>"
  obtain t where "run_steps (run_handler dummy_function) (map received es) ?s = (t, True)"
      "sent t = sent ?s @ map (result_request u (myheaders ?s)) es"
    using Cons.IH [of ?s] Cons.prems by auto
  with Cons.prems show ?case by (simp add: run_dummy myheaders_def)
qed simp

text \<open>
  A one-time execution, which asks the broker for its input, and a continuous execution, which is notified of the same
  entities, publish the same results.
\<close>

theorem dummy_modes_agree:
  assumes "ngsi10client s = Some u" and "list_all (\<lambda>e. canonical (named_props (snd e))) es"
    and "axios (fetch_input_req s) = Inr \<lparr>rs_status = 200, rs_data = JObj [(''contextResponses'',
          JArr (map (\<lambda>e. JObj [(''contextElement'', ctx_element (JObj [(''id'', JStr (fst e))]) (snd e) [])]) es))]\<rparr>"
  shows "sent (handleNotifyObjects dummy_function (map received es) s) = sent s @ map (result_request u (myheaders s)) es \<and>
     (\<exists>t. dummy_query2execution axios dummy_function s = (t, True) \<and>
       sent t = sent s @ fetch_input_req s # map (result_request u (myheaders s)) es)"
proof -
  obtain t where t: "run_steps (run_handler dummy_function) (map received es) s = (t, True)"
      "sent t = sent s @ map (result_request u (myheaders s)) es"
    using run_dummies [OF assms(1)] by blast
  let ?s = "s\<lparr>sent := sent s @ [fetch_input_req s]\<rparr>"
  obtain q where q: "run_steps (run_handler dummy_function) (map received es) ?s = (q, True)"
      "sent q = sent ?s @ map (result_request u (myheaders ?s)) es"
    using run_dummies [of ?s u es] assms(1) by auto
  have "convert_responses (map (\<lambda>(eid, as, ms). JObj [(''contextElement'', ctx_element eid as ms)])
      (map (\<lambda>e. (JObj [(''id'', JStr (fst e))], snd e, [])) es)) =
    Some (map (\<lambda>(eid, as, ms). ctx_object eid as ms) (map (\<lambda>e. (JObj [(''id'', JStr (fst e))], snd e, [])) es))"
    using assms(2) by (intro convert_ctx_elements) (auto simp: list_all_iff named_props_def)
  then have "convert_responses (map (\<lambda>e. JObj [(''contextElement'', ctx_element (JObj [(''id'', JStr (fst e))]) (snd e) [])]) es) =
      Some (map received es)"
    by (simp add: received_def comp_def)
  then have "fetchInputByQuery axios s = Inr (JArr (map received es))"
    using assms(3) by (simp add: fetchInputByQuery_def axios_200_def query_result_def jelems_if_def settle_def js_access)
  with t q show ?thesis by (simp add: handleNotifyObjects_completes [OF t(1)] dummy_query2execution_def Let_def myheaders_def)
qed

end
