(* ===== verification/Designer_Page.thy ===== *)
theory Designer_Page
  imports Designer_Intents Board
begin

text \<open>
  A page of the designer: the websocket proxy through which a page is notified, \<open>designer/public/lib/ngsi/ngsiproxy.js\<close>, and the
  page of the anomaly detection, \<open>designer/public/js/anomaly.js\<close>, which starts and stops the service, edits the rule and shows
  the results.
\<close>

section \<open>The websocket proxy\<close>

text \<open>\<open>px_socket\<close> is the connection as the designer knows it; each connection of the library is a new one.\<close>

record proxy =
  px_subscriptions :: "string list"
  px_socket :: "nat option"

definition init_proxy :: proxy where
  "init_proxy = \<lparr>px_subscriptions = [], px_socket = None\<rparr>"

datatype link_event = Connected nat | Lost | Report string

text \<open>On a connection the remembered subscriptions are sent; only those that are reported without a connection are remembered.\<close>

definition reportSubID :: "string \<Rightarrow> proxy \<Rightarrow> proxy \<times> socket_event list" where
  "reportSubID sid p =
     (case px_socket p of
        Some c \<Rightarrow> (p, [Subscribe c [sid]])
      | None \<Rightarrow> (p\<lparr>px_subscriptions := px_subscriptions p @ [sid]\<rparr>, []))"

fun proxy_step :: "link_event \<Rightarrow> proxy \<Rightarrow> proxy \<times> socket_event list" where
  "proxy_step (Connected c) p = (p\<lparr>px_socket := Some c\<rparr>, [Subscribe c (px_subscriptions p)])"
| "proxy_step Lost p = (case px_socket p of Some c \<Rightarrow> (p\<lparr>px_socket := None\<rparr>, [Disconnect c]) | None \<Rightarrow> (p, []))"
| "proxy_step (Report sid) p = reportSubID sid p"

fun proxy_run :: "link_event list \<Rightarrow> proxy \<Rightarrow> socket_event list" where
  "proxy_run [] p = []"
| "proxy_run (e # es) p = (case proxy_step e p of (p', ws) \<Rightarrow> ws @ proxy_run es p')"

text \<open>\<open>this.socket.on('notify', ...)\<close>: the handler of the page is given the entity.\<close>

definition on_notify :: "(jval \<Rightarrow> 's \<Rightarrow> 's step) \<Rightarrow> jval \<Rightarrow> 's \<Rightarrow> 's step" where
  "on_notify notifyHandler data s = (case jget data ''entities'' of None \<Rightarrow> (s, False) | Some e \<Rightarrow> notifyHandler e s)"

text \<open>
  What this means for one subscription: whether it was reported without a connection, and whether the designer knows it
  for the present connection.
\<close>

type_synonym interest = "nat option \<times> bool \<times> bool"

fun interest_step :: "string \<Rightarrow> link_event \<Rightarrow> interest \<Rightarrow> interest" where
  "interest_step sid (Connected c) (w, early, live) = (Some c, early, early)"
| "interest_step sid Lost (w, early, live) = (None, early, False)"
| "interest_step sid (Report t) (w, early, live) =
     (if t = sid then (if w = None then (w, True, live) else (w, early, True)) else (w, early, live))"

text \<open>The library reconnects only after a connection was lost.\<close>

fun orderly :: "link_event list \<Rightarrow> bool \<Rightarrow> bool" where
  "orderly [] up = True"
| "orderly (Connected c # es) up = (\<not> up \<and> orderly es True)"
| "orderly (Lost # es) up = orderly es False"
| "orderly (Report sid # es) up = orderly es up"

definition interest_of :: "interest \<Rightarrow> nat option" where
  "interest_of i = (case i of (w, early, live) \<Rightarrow> if live then w else None)"

definition agrees :: "string \<Rightarrow> proxy \<Rightarrow> interest \<Rightarrow> bool" where
  "agrees sid p i = (case i of (w, early, live) \<Rightarrow> w = px_socket p \<and> early = (sid \<in> set (px_subscriptions p)) \<and> (live \<longrightarrow> w \<noteq> None))"

lemma proxy_step_interest:
  assumes "agrees sid p i" and "orderly (e # es) (px_socket p \<noteq> None)" and "proxy_step e p = (p', ws)"
  shows "agrees sid p' (interest_step sid e i) \<and> orderly es (px_socket p' \<noteq> None) \<and>
    fold (owner_step sid) ws (interest_of i) = interest_of (interest_step sid e i)"
  using assms
  by (cases e; cases i; cases "px_socket p")
    (auto simp: agrees_def interest_of_def reportSubID_def)

lemma proxy_run_interest:
  "\<lbrakk>agrees sid p i; orderly es (px_socket p \<noteq> None)\<rbrakk> \<Longrightarrow>
     fold (owner_step sid) (proxy_run es p) (interest_of i) = interest_of (fold (interest_step sid) es i)"
proof (induction es arbitrary: p i)
  case (Cons e es)
  obtain p' ws where p': "proxy_step e p = (p', ws)" by fastforce
  from proxy_step_interest [OF Cons.prems p'] Cons.IH [of p' "interest_step sid e i"] show ?case by (simp add: p')
qed simp

text \<open>
  Claim C22. Which notifications reach a page, whatever connections are made and lost: those of a subscription that was
  reported before the page was connected, as long as it is connected, and those of a subscription that was reported
  over the present connection; a subscription that was reported over an earlier connection is forgotten.
\<close>

theorem proxy_notified:
  assumes "orderly es False" and "sid \<notin> set object_proto" and "subscriptions_websocket s = []" and "emitted s = []"
  shows "emitted (fst (handleNotify (JObj [(''subscriptionId'', JStr sid)]) obs (fold socket_step (proxy_run es init_proxy) s))) =
    (case fold (interest_step sid) es (None, False, False) of
       (Some c, early, True) \<Rightarrow> map (\<lambda>ob. (c, JObj [(''subscriptionID'', JStr sid), (''entities'', ob)])) obs
     | _ \<Rightarrow> [])"
proof -
  have "sid \<noteq> ''__proto__''" using assms(2) by auto
  moreover have "agrees sid init_proxy (None, False, False)" by (simp add: agrees_def init_proxy_def)
  from proxy_run_interest [OF this, of es]
  have "fold (owner_step sid) (proxy_run es init_proxy) None = interest_of (fold (interest_step sid) es (None, False, False))"
    using assms(1) by (simp add: interest_of_def init_proxy_def)
  ultimately show ?thesis
    using socket_steps_table [of s sid "proxy_run es init_proxy"] assms(2-4)
    by (auto simp: handleNotify_def js_access interest_of_def split: prod.split option.split bool.split)
qed

theorem proxy_notified_witness:
  "emitted (fst (handleNotify (JObj [(''subscriptionId'', JStr ''s'')]) [JNum 7]
      (fold socket_step (proxy_run [Connected 1, Report ''s'', Lost, Connected 2] init_proxy) (db_load db_default (\<lambda>n. Accepted) (\<lambda>n. n))))) = []"
  using proxy_notified [of "[Connected 1, Report ''s'', Lost, Connected 2]" "''s''" "db_load db_default (\<lambda>n. Accepted) (\<lambda>n. n)" "[JNum 7]"]
  by (simp add: db_load_default object_proto_def)

section \<open>The page of the anomaly detection\<close>

text \<open>
  The variables of the page.  \<open>rule\<close> is \<open>RuleSet.threshold\<close>, with \<open>None\<close> for \<open>NaN\<close>; \<open>points\<close> are the values of the chart;
  \<open>buttons\<close> says whether Start and Stop are enabled, while they are shown; \<open>in_flight\<close> are the requests to the designer that
  are not answered, and \<open>pg_sent\<close> those to the broker.
\<close>

datatype page_request = Issuing jval | Cancelling

record page =
  curTopology :: jval
  curIntent :: jval
  geoscope :: jval
  rule :: "int option"
  curResult :: "jval list"
  points :: "(jval \<times> jval) list"
  buttons :: "(bool \<times> bool) option"
  in_flight :: "page_request list"
  pg_client :: jval
  pg_sent :: "http_req list"

definition init_page :: "jval \<Rightarrow> page" where
  "init_page brokerURL =
     \<lparr>curTopology = JNull, curIntent = JNull, geoscope = JObj [(''scopeType'', JStr ''local''), (''scopeValue'', JStr ''local'')],
      rule = Some 30, curResult = [], points = [], buttons = None, in_flight = [], pg_client = brokerURL, pg_sent = []\<rparr>"

text \<open>\<open>Object.keys(v).length > 0\<close>; the answers are objects or arrays.\<close>

definition nonempty :: "jval \<Rightarrow> bool" where
  "nonempty v = (jprops v \<noteq> [])"

definition checkTopology :: "jval \<Rightarrow> page \<Rightarrow> page" where
  "checkTopology topology s = (if nonempty topology then s\<lparr>curTopology := topology, buttons := None\<rparr> else s\<lparr>buttons := None\<rparr>)"

text \<open>The answer to \<open>checkIntent\<close> is a list of intents, which becomes the current intent as it is.\<close>

definition checkIntent :: "jval \<Rightarrow> page \<Rightarrow> page" where
  "checkIntent intent s =
     (if nonempty intent then
        (let s1 = s\<lparr>curIntent := intent\<rparr> in
         case do { i \<leftarrow> jget intent ''0''; jget i ''geoscope'' } of None \<Rightarrow> s1 | Some g \<Rightarrow> s1\<lparr>geoscope := g\<rparr>)
      else s)"

definition showMgt :: "page \<Rightarrow> page" where
  "showMgt s = s\<lparr>buttons := Some (if is_nullish (curIntent s) then (True, False) else (False, True))\<rparr>"

definition page_intent :: "string \<Rightarrow> jval \<Rightarrow> (nat \<Rightarrow> nat) \<Rightarrow> props" where
  "page_intent topology scope random =
     obj_of [(''topology'', JStr topology), (''stype'', JStr ''Asynchronous''),
       (''priority'', JObj (obj_of [(''exclusive'', JBool False), (''level'', JNum 0)])), (''qos'', JStr ''Min-cost''),
       (''geoscope'', scope), (''id'', JStr (''ServiceIntent.'' @ uuid random))]"

definition sendIntent :: "(nat \<Rightarrow> nat) \<Rightarrow> page \<Rightarrow> page \<times> intent_request list" where
  "sendIntent random s =
     (let intent = page_intent ''anomaly-detection'' (geoscope s) random
      in (s\<lparr>in_flight := in_flight s @ [Issuing (JObj intent)]\<rparr>, [PostIntent intent]))"

text \<open>Without a current intent the access to its identifier throws, and nothing is requested.\<close>

definition cancelIntent :: "page \<Rightarrow> page \<times> intent_request list" where
  "cancelIntent s =
     (case jget (curIntent s) ''id'' of
        None \<Rightarrow> (s, [])
      | Some i \<Rightarrow> (s\<lparr>in_flight := in_flight s @ [Cancelling]\<rparr>, [DeleteIntent (js_str i)]))"

text \<open>An answer of the designer, whatever its status, sets the buttons if they are shown; \<open>cancelIntent\<close> keeps the current intent.\<close>

fun answered :: "page_request \<Rightarrow> page \<Rightarrow> page" where
  "answered (Issuing intent) s = s\<lparr>curIntent := intent, buttons := map_option (\<lambda>_. (False, True)) (buttons s)\<rparr>"
| "answered Cancelling s = s\<lparr>buttons := map_option (\<lambda>_. (True, False)) (buttons s)\<rparr>"

text \<open>The handler of a drawn shape; here the fields of the scope are \<open>scopeType\<close> and \<open>scopeValue\<close>.\<close>

definition page_draw_created :: "string \<Rightarrow> jval \<Rightarrow> jval \<Rightarrow> jval \<Rightarrow> jval option" where
  "page_draw_created layerType coordinates radius scope =
     map_option (\<lambda>shape. case shape of None \<Rightarrow> scope | Some s \<Rightarrow> set_scope ''scopeType'' ''scopeValue'' s scope)
       (drawn_shape layerType coordinates radius)"

text \<open>A result that is notified.\<close>

definition page_handleNotify :: "jval \<Rightarrow> page \<Rightarrow> page step" where
  "page_handleNotify contextObj s =
     (let s1 = s\<lparr>curResult := curResult s @ [contextObj]\<rparr> in
      case jget contextObj ''attributes'' of
        Some (JObj as) \<Rightarrow>
          (if has_own as ''time'' \<and> has_own as ''counter'' then
             (case do { t \<leftarrow> jget (obj_get as ''time'') ''value''; n \<leftarrow> jget (obj_get as ''counter'') ''value''; Some (t, n) } of
                None \<Rightarrow> (s1, False)
              | Some point \<Rightarrow> (s1\<lparr>points := points s1 @ [point]\<rparr>, True))
           else (s1, True))
      | _ \<Rightarrow> (s1, False))"

text \<open>\<open>parseInt\<close> on the text of the form: the digits at its beginning, \<open>None\<close> is \<open>NaN\<close>.\<close>

definition parseInt :: "string \<Rightarrow> int option" where
  "parseInt text =
     (let digits = (\<lambda>t. let ds = takeWhile is_digit t in if ds = [] then None else Some (int (parse_nat ds))) in
      case dropWhile is_space text of
        [] \<Rightarrow> None
      | c # cs \<Rightarrow>
          if c = CHR ''-'' then map_option uminus (digits cs)
          else if c = CHR ''+'' then digits cs
          else digits (c # cs))"

text \<open>\<open>NaN\<close> is \<open>null\<close> in the body of the request.\<close>

definition rule_entity :: "int option \<Rightarrow> jval" where
  "rule_entity n =
     JObj [(''entityId'', JObj [(''id'', JStr ''Stream.Rule.01''), (''type'', JStr ''Rule''), (''isPattern'', JBool False)]),
           (''attributes'', JObj [(''threshold'', JObj [(''type'', JStr ''integer''), (''value'', case n of Some i \<Rightarrow> JNum i | None \<Rightarrow> JNull)])])]"

definition publishThreshold :: "page \<Rightarrow> page" where
  "publishThreshold s =
     (case JSONObject2CtxElement (rule_entity (rule s)) of
        None \<Rightarrow> s
      | Some e \<Rightarrow> s\<lparr>pg_sent := pg_sent s @ [post_req (js_str (pg_client s) @ ''/updateContext'') JUndef (update_req_body e ''UPDATE'')]\<rparr>)"

definition updateRule :: "string \<Rightarrow> page \<Rightarrow> page" where
  "updateRule newThreshold s = publishThreshold (s\<lparr>rule := parseInt newThreshold\<rparr>)"

definition subscribeResult :: "jval \<Rightarrow> jval \<Rightarrow> page \<Rightarrow> page" where
  "subscribeResult agentIP agentPort s =
     s\<lparr>pg_sent := pg_sent s @ [post_req (js_str (pg_client s) @ ''/subscribeContext'') JUndef
        (JObj [(''entities'', JArr [JObj [(''type'', JStr ''Stat''), (''isPattern'', JBool True)]]),
               (''reference'', JStr (''http://'' @ js_str agentIP @ '':'' @ js_str agentPort))])]\<rparr>"

text \<open>
  The events of the page.  A button that is disabled or not shown cannot be clicked; a request in flight
  is answered or fails, in any order.
\<close>

datatype page_event =
    ShowMgt | ShowOther | Start "nat \<Rightarrow> nat" | Stop | Answer nat | Failed nat
  | Topology jval | Intents jval | Draw string jval jval | Result jval | NewThreshold string

fun page_step :: "page_event \<Rightarrow> page \<Rightarrow> page \<times> intent_request list" where
  "page_step ShowMgt s = (showMgt s, [])"
| "page_step ShowOther s = (s\<lparr>buttons := None\<rparr>, [])"
| "page_step (Start random) s = (case buttons s of Some (True, _) \<Rightarrow> sendIntent random s | _ \<Rightarrow> (s, []))"
| "page_step Stop s = (case buttons s of Some (_, True) \<Rightarrow> cancelIntent s | _ \<Rightarrow> (s, []))"
| "page_step (Answer i) s =
     (if i < length (in_flight s)
      then (answered (in_flight s ! i) (s\<lparr>in_flight := take i (in_flight s) @ drop (Suc i) (in_flight s)\<rparr>), []) else (s, []))"
| "page_step (Failed i) s = (s\<lparr>in_flight := take i (in_flight s) @ drop (Suc i) (in_flight s)\<rparr>, [])"
| "page_step (Topology t) s = (checkTopology t s, [])"
| "page_step (Intents v) s = (checkIntent v s, [])"
| "page_step (Draw layerType coordinates radius) s =
     (case page_draw_created layerType coordinates radius (geoscope s) of Some g \<Rightarrow> (s\<lparr>geoscope := g\<rparr>, []) | None \<Rightarrow> (s, []))"
| "page_step (Result ob) s = (fst (page_handleNotify ob s), [])"
| "page_step (NewThreshold t) s = (updateRule t s, [])"

fun page_run :: "page_event list \<Rightarrow> page \<Rightarrow> page \<times> intent_request list" where
  "page_run [] s = (s, [])"
| "page_run (e # es) s = (case page_step e s of (s1, rs) \<Rightarrow> case page_run es s1 of (t, qs) \<Rightarrow> (t, rs @ qs))"

section \<open>Starting and stopping the service\<close>

abbreviation intent_id :: "(nat \<Rightarrow> nat) \<Rightarrow> string" where
  "intent_id random \<equiv> ''ServiceIntent.'' @ uuid random"

lemma page_intent_plain:
  "page_intent topology scope random =
     [(''topology'', JStr topology), (''stype'', JStr ''Asynchronous''), (''priority'', JObj [(''exclusive'', JBool False), (''level'', JNum 0)]),
      (''qos'', JStr ''Min-cost''), (''geoscope'', scope), (''id'', JStr (intent_id random))]"
  by (simp add: page_intent_def js_literal)

lemma page_intent_ok: "tree scope \<Longrightarrow> request_ok (PostIntent (page_intent topology scope random)) \<and> request_ok (DeleteIntent (intent_id random))"
  by (simp add: page_intent_plain object_proto_def has_own_def js_access)

lemma page_intent_spec:
  "intent_spec (PostIntent (page_intent topology scope random)) m =
     m(intent_id random \<mapsto> JObj (page_intent topology scope random @ [(''action'', JStr ''ADD'')]))"
  by (simp add: page_intent_plain js_access js_literal)

lemma start_stop_requests:
  assumes "is_nullish (curIntent s)" and "in_flight s = []"
  shows "\<exists>t. page_run [ShowMgt, Start random, Answer 0, Stop, Answer 0] s =
      (t, [PostIntent (page_intent ''anomaly-detection'' (geoscope s) random), DeleteIntent (intent_id random)]) \<and>
     buttons t = Some (True, False) \<and> curIntent t = JObj (page_intent ''anomaly-detection'' (geoscope s) random)"
  using assms by (simp add: showMgt_def sendIntent_def cancelIntent_def Let_def page_intent_plain js_access)

text \<open>
  Claim C21. The page, the designer and the master together: the Start button makes the designer store the intent of the
  page and the master know it, and the Stop button removes exactly it from both; but the page keeps the intent, so that
  the service cannot be started again once the management tab was left, although nothing runs.
\<close>

theorem page_starts_and_stops_service:
  assumes "is_nullish (curIntent s)" and "in_flight s = []" and "tree (geoscope s)"
    and "intents_inv d" and "master_view (wire (rabbit d)) = intents_view d"
  shows "\<exists>t r1 r2. page_run [ShowMgt, Start random, Answer 0, Stop, Answer 0] s = (t, [r1, r2]) \<and>
     (let d1 = fst (serve axios u r1 d); d2 = fst (serve axios u r2 d1) in
      intents_view d1 = (intents_view d)(intent_id random \<mapsto>
         JObj (page_intent ''anomaly-detection'' (geoscope s) random @ [(''action'', JStr ''ADD'')])) \<and>
      master_view (wire (rabbit d1)) = intents_view d1 \<and>
      intents_view d2 = (intents_view d)(intent_id random := None) \<and>
      master_view (wire (rabbit d2)) = intents_view d2) \<and>
     buttons t = Some (True, False) \<and> buttons (fst (page_run [ShowOther, ShowMgt] t)) = Some (False, True)"
proof -
  let ?i = "page_intent ''anomaly-detection'' (geoscope s) random"
  obtain t where t: "page_run [ShowMgt, Start random, Answer 0, Stop, Answer 0] s = (t, [PostIntent ?i, DeleteIntent (intent_id random)])"
      "buttons t = Some (True, False)" "curIntent t = JObj ?i"
    using start_stop_requests [OF assms(1,2)] by blast
  note ok = page_intent_ok [OF assms(3), of "''anomaly-detection''" random]
  obtain d1 c where d1: "serve axios u (PostIntent ?i) d = (d1, c)" "intents_inv d1" "master_view (wire (rabbit d1)) = intents_view d1"
      "intents_view d1 = intent_spec (PostIntent ?i) (intents_view d)"
    using serve_refines [OF conjI [OF assms(4,5)] conjunct1 [OF ok], of axios u] by blast
  obtain d2 c' where d2: "serve axios u (DeleteIntent (intent_id random)) d1 = (d2, c')" "master_view (wire (rabbit d2)) = intents_view d2"
      "intents_view d2 = intent_spec (DeleteIntent (intent_id random)) (intents_view d1)"
    using serve_refines [OF conjI [OF d1(2,3)] conjunct2 [OF ok], of axios u] by blast
  have "buttons (fst (page_run [ShowOther, ShowMgt] t)) = Some (False, True)" by (simp add: showMgt_def t(3))
  with t d1 d2 show ?thesis
    by (intro exI [of _ t] exI [of _ "PostIntent ?i"] exI [of _ "DeleteIntent (intent_id random)"])
      (simp add: Let_def page_intent_spec del: serve.simps page_run.simps intent_spec.simps(1))
qed

theorem page_starts_and_stops_service_witness:
  "\<exists>t r1 r2. page_run [ShowMgt, Start (\<lambda>n. 0), Answer 0, Stop, Answer 0] (init_page (JStr ''http://b'')) = (t, [r1, r2]) \<and>
     (let d1 = fst (serve (\<lambda>rq. Inl JNull) [] r1 connected_designer); d2 = fst (serve (\<lambda>rq. Inl JNull) [] r2 d1) in
      intents_view d1 = (intents_view connected_designer)(intent_id (\<lambda>n. 0) \<mapsto>
         JObj (page_intent ''anomaly-detection'' (geoscope (init_page (JStr ''http://b''))) (\<lambda>n. 0) @ [(''action'', JStr ''ADD'')])) \<and>
      master_view (wire (rabbit d1)) = intents_view d1 \<and>
      intents_view d2 = (intents_view connected_designer)(intent_id (\<lambda>n. 0) := None) \<and>
      master_view (wire (rabbit d2)) = intents_view d2) \<and>
     buttons t = Some (True, False) \<and> buttons (fst (page_run [ShowOther, ShowMgt] t)) = Some (False, True)"
  by (rule page_starts_and_stops_service) (simp_all add: init_page_def connected_designer_inv)

text \<open>
  Clicking Start twice before the first answer issues two intents, of which the page only knows one: after Stop the page
  shows the service as stopped, and the first intent is still stored and known to the master.
\<close>

theorem double_start_leaks_intent:
  assumes "is_nullish (curIntent s)" and "in_flight s = []" and "tree (geoscope s)" and "uuid r \<noteq> uuid r'"
    and "intents_inv d" and "master_view (wire (rabbit d)) = intents_view d"
  shows "\<exists>t rs. page_run [ShowMgt, Start r, Start r', Answer 0, Answer 0, Stop, Answer 0] s = (t, rs) \<and> buttons t = Some (True, False) \<and>
     master_view (wire (rabbit (fold (\<lambda>q d. fst (serve axios u q d)) rs d))) (intent_id r) =
       Some (JObj (page_intent ''anomaly-detection'' (geoscope s) r @ [(''action'', JStr ''ADD'')]))"
proof -
  let ?i = "page_intent ''anomaly-detection'' (geoscope s)"
  let ?rs = "[PostIntent (?i r), PostIntent (?i r'), DeleteIntent (intent_id r')]"
  have "\<exists>t. page_run [ShowMgt, Start r, Start r', Answer 0, Answer 0, Stop, Answer 0] s = (t, ?rs) \<and> buttons t = Some (True, False)"
    using assms(1,2) by (simp add: showMgt_def sendIntent_def cancelIntent_def Let_def page_intent_plain js_access)
  moreover have "list_all request_ok ?rs" using page_intent_ok [OF assms(3)] by simp
  then have "master_view (wire (rabbit (fold (\<lambda>q d. fst (serve axios u q d)) ?rs d))) = fold intent_spec ?rs (intents_view d)"
    using intents.run_refines [OF conjI [OF assms(5,6)], of ?rs axios u] by auto
  moreover have "fold intent_spec ?rs (intents_view d) (intent_id r) = Some (JObj (?i r @ [(''action'', JStr ''ADD'')]))"
    using assms(4) by (simp add: page_intent_spec del: intent_spec.simps(1))
  ultimately show ?thesis by metis
qed

end
