(* ===== verification/Page_Links.thy ===== *)
theory Page_Links
  imports Operator_Link Anomaly Window_Operators Designer_Page
begin

text \<open>
  The page of the anomaly detection and the operators of the service behind the broker: how a rule that is edited in the
  page reaches the detector, and how the windows of the counter become the chart of the page.
\<close>

section \<open>From the form to the detector\<close>

definition rule_element :: "int option \<Rightarrow> element" where
  "rule_element n =
     \<lparr>Entity = \<lparr>eid_type = ''Rule'', eid_isPattern = False, eid_id = ''Stream.Rule.01''\<rparr>,
      Attributes = [(''threshold'', ''integer'', case n of Some i \<Rightarrow> JNum i | None \<Rightarrow> JNull)], Metadata = []\<rparr>"

lemma publishThreshold_sent:
  "\<exists>rq. publishThreshold s = s\<lparr>pg_sent := pg_sent s @ [rq]\<rparr> \<and> posted_updates rq = [rule_element (rule s)]"
proof -
  let ?v = "case rule s of Some i \<Rightarrow> JNum i | None \<Rightarrow> JNull"
  let ?ps = "[(''id'', JStr ''Stream.Rule.01''), (''type'', JStr ''Rule''), (''isPattern'', JBool False)]"
  let ?rq = "post_req (js_str (pg_client s) @ ''/updateContext'') JUndef
    (update_req_body (ctx_element (JObj ?ps) (json_named [(''threshold'', ''integer'', ?v)]) (json_named [])) ''UPDATE'')"
  have "JSONObject2CtxElement (rule_entity (rule s)) = Some (ctx_element (JObj ?ps) (json_named [(''threshold'', ''integer'', ?v)]) (json_named []))"
    by (simp add: JSONObject2CtxElement_def rule_entity_def ctx_element_def named_elems_def json_named_def json_string_def js_access js_literal)
  then have "publishThreshold s = s\<lparr>pg_sent := pg_sent s @ [?rq]\<rparr>" by (simp add: publishThreshold_def)
  moreover have "posted_updates ?rq = [rule_element (rule s)]"
    by (subst posted_updates_element [of ?ps "Entity (rule_element (rule s))"]) (simp_all add: rule_element_def js_access)
  ultimately show ?thesis by blast
qed

text \<open>What is stored of the rule: an entity of its type, if there is one.\<close>

definition rule_stored :: "(string \<Rightarrow> element option) \<Rightarrow> bool" where
  "rule_stored es =
     (case es ''Stream.Rule.01'' of
        None \<Rightarrow> True
      | Some e \<Rightarrow> readable_element e \<and> eid_type (Entity e) = ''Rule'')"

lemma rule_updated:
  assumes "rule_stored es"
  shows "\<exists>es' n. UpdateContext2LocalSite [[]] (rule_element r) es = (es', [n]) \<and> readable_element n \<and> eid_type (Entity n) = ''Rule'' \<and>
    map_of (Attributes n) ''threshold'' = Some (''integer'', case r of Some i \<Rightarrow> JNum i | None \<Rightarrow> JNull)"
  using updated_readable [of "rule_element r" es] assms
  by (cases "es ''Stream.Rule.01''") (auto simp: rule_element_def readable_element_def rule_stored_def)

lemma detector_ruled:
  assumes "readable_element n" and "eid_type (Entity n) = ''Rule''" and "map_of (Attributes n) ''threshold'' = Some (t, v)"
  shows "an_handleNotify (map (Pair now) (notified sid n)) a = a\<lparr>an_threshold := v\<rparr>"
proof -
  have "obj_get (obj_of (named_props (json_named (Attributes n)))) ''threshold'' = json_attribute (Some (t, v))"
    using assms(1,3) by (subst obj_get_json_named) (simp_all add: readable_element_def object_proto_def)
  then have "do { as \<leftarrow> jget (notified_object n) ''attributes''; th \<leftarrow> jget as ''threshold''; jget th ''value'' } = Some v"
    by (simp add: notified_object_def json_attribute_def js_access)
  moreover have "Option.bind (jget (notified_object n) ''entityId'') (\<lambda>e. jget e ''type'') = Some (JStr ''Rule'')"
    using assms(2) by (simp add: notified_object_def json_entity_def js_access)
  moreover have "\<not> is_nullish (field (notified_object n) ''attributes'')" by (simp add: field_def notified_object_def js_access)
  ultimately show ?thesis by (simp add: notified_eq an_handler_def js_eq_JStr)
qed

lemma js_gt_null: "js_gt (JNum w) JNull = (w > 0)"
  by (simp add: js_gt_def to_prim_def is_prim_def)

text \<open>
  Claim C13. From the form of the page over the broker to the detector: after a new threshold was entered, the detector
  takes exactly the readings above the entered number for anomalies; a text that is no number makes it take every
  positive reading for one.
\<close>

theorem rule_reaches_detector:
  assumes "rule_stored es"
  shows "\<exists>rq upd es' n. pg_sent (updateRule text s) = pg_sent s @ [rq] \<and> posted_updates rq = [upd] \<and>
     UpdateContext2LocalSite [[]] upd es = (es', [n]) \<and>
     (let a' = an_handleNotify (map (Pair now) (notified sid n)) a in
      a' = a\<lparr>an_threshold := an_threshold a'\<rparr> \<and>
      (\<forall>w. js_gt (JNum w) (an_threshold a') = (w > (case parseInt text of Some i \<Rightarrow> i | None \<Rightarrow> 0))))"
proof -
  obtain rq where rq: "pg_sent (updateRule text s) = pg_sent s @ [rq]" "posted_updates rq = [rule_element (parseInt text)]"
    using publishThreshold_sent [of "s\<lparr>rule := parseInt text\<rparr>"] by (auto simp: updateRule_def)
  obtain es' n where n: "UpdateContext2LocalSite [[]] (rule_element (parseInt text)) es = (es', [n])" "readable_element n"
      "eid_type (Entity n) = ''Rule''"
      "map_of (Attributes n) ''threshold'' = Some (''integer'', case parseInt text of Some i \<Rightarrow> JNum i | None \<Rightarrow> JNull)"
    using rule_updated [OF assms] by blast
  note a = detector_ruled [OF n(2-4), of now sid a]
  show ?thesis
    using rq n(1)
    by (intro exI [of _ rq] exI [of _ "rule_element (parseInt text)"] exI [of _ es'] exI [of _ n])
      (simp add: a Let_def js_gt_null split: option.split)
qed

theorem rule_reaches_detector_witness:
  "\<exists>rq upd es' n. pg_sent (updateRule ''50'' (init_page (JStr ''http://b''))) = pg_sent (init_page (JStr ''http://b'')) @ [rq] \<and> posted_updates rq = [upd] \<and>
     UpdateContext2LocalSite [[]] upd Map.empty = (es', [n]) \<and>
     (let a' = an_handleNotify (map (Pair ''t'') (notified [] n)) sample_detector in
      a' = sample_detector\<lparr>an_threshold := an_threshold a'\<rparr> \<and> (\<forall>w. js_gt (JNum w) (an_threshold a') = (w > 50)))"
proof -
  have "parseInt ''50'' = Some 50" by (simp add: parseInt_def is_space_def is_digit_def parse_nat_def)
  with rule_reaches_detector [of Map.empty "''50''" "init_page (JStr ''http://b'')" "''t''" "[]" sample_detector]
  show ?thesis by (simp add: rule_stored_def)
qed

section \<open>From the counter to the chart\<close>

text \<open>
  What the page is sent for a notification of the broker, over the designer, and the chart after a series of updates at
  the broker.
\<close>

definition pushed :: "string \<Rightarrow> designer \<Rightarrow> element \<Rightarrow> jval list" where
  "pushed sid d n =
     map snd (drop (length (emitted d)) (emitted (fst (Designer_Store.handleNotify (notification_body sid [n]) (notified sid n) d))))"

fun chart :: "string \<Rightarrow> designer \<Rightarrow> element list \<Rightarrow> entities \<Rightarrow> page \<Rightarrow> page" where
  "chart sid d [] es p = p"
| "chart sid d (u # us) es p =
     (case UpdateContext2LocalSite [[]] u es of
        (es', ns) \<Rightarrow> chart sid d us es' (fold (\<lambda>m p. fst (on_notify page_handleNotify m p)) (concat (map (pushed sid d) ns)) p))"

definition stat_element :: "string \<Rightarrow> string \<Rightarrow> int \<Rightarrow> int \<Rightarrow> element" where
  "stat_element i t time n =
     \<lparr>Entity = \<lparr>eid_type = t, eid_isPattern = False, eid_id = i\<rparr>,
      Attributes = [(''time'', ''integer'', JNum time), (''counter'', ''integer'', JNum n)], Metadata = []\<rparr>"

lemma counter_request_posted:
  assumes "cmd_field out ''id'' = JStr i" and "cmd_field out ''type'' = JStr t"
  shows "posted_updates (counter_request u out time n) = [stat_element i t time n]"
proof -
  let ?ps = "[(''id'', JStr i), (''type'', JStr t), (''isPattern'', JBool False)]"
  have "counter_request u out time n =
      post_req (js_str u @ ''/updateContext'') JUndef
        (update_req_body (ctx_element (JObj ?ps) (json_named (Attributes (stat_element i t time n))) (json_named [])) ''UPDATE'')"
    using assms by (simp add: counter_request_def stat_request_def stat_element_def json_named_def json_string_def)
  moreover have "parse_entity (JObj ?ps) = Some (Entity (stat_element i t time n))" by (simp add: stat_element_def js_access)
  ultimately show ?thesis by (simp only: posted_updates_element) (simp add: stat_element_def)
qed

lemma pushed_to_client:
  assumes "map_of (subscriptions_websocket d) sid = Some c"
  shows "pushed sid d n = [JObj [(''subscriptionID'', JStr sid), (''entities'', notified_object n)]]"
  using assms by (simp add: pushed_def Designer_Store.handleNotify_def notification_body_def notified_eq js_access)

lemma in_names: "map_of ps k = Some v \<Longrightarrow> k \<in> fst ` set ps"
  by (force dest: map_of_SomeD)

lemma stat_shown:
  assumes "readable_element n" and "map_of (Attributes n) ''time'' = Some (t, time)" and "map_of (Attributes n) ''counter'' = Some (t', v)"
  shows "\<exists>p'. on_notify page_handleNotify (JObj [(''subscriptionID'', JStr sid), (''entities'', notified_object n)]) p = (p', True) \<and>
    points p' = points p @ [(time, v)]"
proof -
  let ?as = "obj_of (named_props (json_named (Attributes n)))"
  have as: "obj_get ?as ''time'' = json_attribute (Some (t, time))" "obj_get ?as ''counter'' = json_attribute (Some (t', v))"
    using assms by (simp_all add: obj_get_json_named readable_element_def object_proto_def)
  then have "has_own ?as ''time''" "has_own ?as ''counter''"
    by (auto simp: has_own_def obj_get_def json_attribute_def object_proto_def split: option.splits intro: in_names)
  with as show ?thesis
    by (simp add: on_notify_def page_handleNotify_def notified_object_def json_attribute_def js_access Let_def)
qed

lemma chart_appends:
  assumes "map_of (subscriptions_websocket d) sid = Some c" and "i \<noteq> []"
  shows "(\<And>e. es i = Some e \<Longrightarrow> readable_element e) \<Longrightarrow>
    points (chart sid d (map (\<lambda>(time, n). stat_element i t time n) ws) es p) = points p @ map (\<lambda>(time, n). (JNum time, JNum n)) ws"
proof (induction ws arbitrary: es p)
  case (Cons w ws)
  obtain time n where w: "w = (time, n)" by fastforce
  let ?u = "stat_element i t time n"
  have "readable_element ?u" "eid_id (Entity ?u) = i" using assms(2) by (simp_all add: stat_element_def readable_element_def)
  with updated_readable [of ?u es] Cons.prems
  obtain m where m: "UpdateContext2LocalSite [[]] ?u es = (es(i \<mapsto> m), [m])" "readable_element m"
      "\<And>k a. map_of (Attributes ?u) k = Some a \<Longrightarrow> map_of (Attributes m) k = Some a" by auto
  obtain p' where p': "on_notify page_handleNotify (JObj [(''subscriptionID'', JStr sid), (''entities'', notified_object m)]) p = (p', True)"
      "points p' = points p @ [(JNum time, JNum n)]"
    using stat_shown [OF m(2) m(3) [of "''time''" "(''integer'', JNum time)"] m(3) [of "''counter''" "(''integer'', JNum n)"], of sid p]
    by (auto simp: stat_element_def)
  have "points (chart sid d (map (\<lambda>(time, n). stat_element i t time n) ws) (es(i \<mapsto> m)) p') =
      points p' @ map (\<lambda>(time, n). (JNum time, JNum n)) ws"
    by (rule Cons.IH) (simp add: m(2))
  with p' m(1) show ?case by (simp add: w pushed_to_client [OF assms(1)] del: fun_upd_apply)
qed simp

lemma posted_windows:
  assumes "cmd_field out ''id'' = JStr i" and "cmd_field out ''type'' = JStr t"
  shows "concat (map posted_updates (windows (counter_request u out) t0 ns)) =
    map (\<lambda>(time, n). stat_element i t time n) (map (\<lambda>k. (t0 + tInterval * int k, ns ! k)) [0..<length ns])"
  by (simp add: windows_def counter_request_posted [OF assms] comp_def)

text \<open>
  Claim C11. From the counter over the broker and the designer to the page: for every sequence of entities and timer events
  the chart of a page that has subscribed shows, in order, one point for each window of five seconds that was closed,
  and the values of these points and the open window add up to the number of entities.
\<close>

theorem chart_shows_windows:
  assumes "set_up u out s" and "ops_sent s = []" and "ops_data s = \<lparr>tBegin = t0, totalNumAnomaly = 0\<rparr>"
    and "cmd_field out ''id'' = JStr i" and "cmd_field out ''type'' = JStr t" and "i \<noteq> []"
    and "map_of (subscriptions_websocket d) sid = Some c" and "\<And>e. stored i = Some e \<Longrightarrow> readable_element e"
  shows "\<exists>s' ns. counter_events counter_updateContext es s = (s', True) \<and>
     points (chart sid d (concat (map posted_updates (ops_sent s'))) stored p) =
       points p @ map (\<lambda>k. (JNum (t0 + tInterval * int k), JNum (ns ! k))) [0..<length ns] \<and>
     sum_list ns + totalNumAnomaly (ops_data s') = int (Window_Operators.entities es)"
proof -
  obtain s' ns where s': "counter_events counter_updateContext es s = (s', True)" "ops_sent s' = windows (counter_request u out) t0 ns"
      "sum_list ns + totalNumAnomaly (ops_data s') = int (Window_Operators.entities es)"
    using ctr_windows.counts_every_entity [OF assms(1-3), of es] by blast
  let ?ws = "map (\<lambda>k. (t0 + tInterval * int k, ns ! k)) [0..<length ns]"
  have "points (chart sid d (map (\<lambda>(time, n). stat_element i t time n) ?ws) stored p) = points p @ map (\<lambda>(time, n). (JNum time, JNum n)) ?ws"
    using chart_appends [OF assms(7,6), of stored t ?ws p] assms(8) by blast
  with s' show ?thesis
    by (intro exI [of _ s'] exI [of _ ns]) (simp add: posted_windows [OF assms(4,5)] comp_def)
qed

definition sample_client :: designer where
  "sample_client = socket_step (Subscribe 1 [''s'']) connected_designer"

lemma sample_client_subscribed: "map_of (subscriptions_websocket sample_client) ''s'' = Some 1"
  by (simp add: sample_client_def subscribe_client_def connected_designer_def db_load_default js_access jelems_if_def)

theorem chart_shows_windows_witness:
  "\<exists>s' ns. counter_events counter_updateContext [Arrival 100, Timer 5000, Arrival 6000] sample_counter = (s', True) \<and>
     points (chart ''s'' sample_client (concat (map posted_updates (ops_sent s'))) Map.empty (init_page JNull)) =
       map (\<lambda>k. (JNum (tInterval * int k), JNum (ns ! k))) [0..<length ns] \<and>
     sum_list ns + totalNumAnomaly (ops_data s') = 2"
  using chart_shows_windows [OF _ _ _ _ _ _ sample_client_subscribed, of "JStr ''http://b''" "JObj [(''id'', JStr ''Stream.1''), (''type'', JStr ''Stat'')]"
      sample_counter 0 "''Stream.1''" "''Stat''" Map.empty "[Arrival 100, Timer 5000, Arrival 6000]" "init_page JNull"]
  by (simp add: sample_counter_def set_up_def cmd_field_def js_access init_page_def del: counter_events.simps)

end
