(* ===== verification/Parking_Page.thy ===== *)
theory Parking_Page
  imports Page_Links Smart_Parking
begin

text \<open>
  The page of the smart parking, \<open>designer/public/js/smartparking.js\<close>: a simulated car that reports its position once a
  second while it drives, the recommendation that is shown at the car, and the page together with the operators of
  \<open>Smart_Parking\<close>.  Of \<open>designer/public/js/MovingMarker.js\<close> the states of the marker are modelled; its positions, whose
  coordinates are no integers, are arguments.
\<close>

section \<open>The page\<close>

datatype marker_state = NotStarted | Ended | Paused | Running

text \<open>\<open>start\<close> runs a marker from every state, \<open>pause\<close> stops a running one only.\<close>

fun marker_start :: "marker_state \<Rightarrow> marker_state" where
  "marker_start m = Running"

fun marker_pause :: "marker_state \<Rightarrow> marker_state" where
  "marker_pause m = (if m = Running then Paused else m)"

text \<open>
  The variables of the page; \<open>pk_timers\<close> are the intervals that are active, \<open>pk_shown\<close> says whether the map is displayed,
  and \<open>pk_popup\<close> is the text at the marker.
\<close>

record parking_page =
  pk_hash :: string
  pk_shown :: bool
  pk_marker :: "marker_state option"
  pk_popup :: string
  pk_timerID :: "nat option"
  pk_timers :: "nat list"
  pk_next :: nat
  recommendedParkingSite :: jval
  pk_client :: jval
  pk_sent :: "http_req list"

definition pk_update :: "jval \<Rightarrow> parking_page \<Rightarrow> parking_page" where
  "pk_update ob s =
     (case update_request (pk_client s) ob of None \<Rightarrow> s | Some rq \<Rightarrow> s\<lparr>pk_sent := pk_sent s @ [rq]\<rparr>)"

definition point :: "jval \<Rightarrow> jval" where
  "point location = JObj [(''type'', JStr ''point''), (''value'', location)]"

definition text_attribute :: "string \<Rightarrow> jval" where
  "text_attribute v = JObj [(''type'', JStr ''string''), (''value'', JStr v)]"

record parking_site =
  site_id :: string
  site_location :: jval
  site_iconURL :: string
  site_datasource :: string

definition murcia_site :: "(string \<Rightarrow> jval) \<Rightarrow> string \<Rightarrow> parking_site" where
  "murcia_site location i =
     \<lparr>site_id = i, site_location = location i, site_iconURL = ''/img/parkingsite.png'',
      site_datasource = ''http://fiware-dev.inf.um.es:1026/v2/''\<rparr>"

definition privateParkingSites :: "(string \<Rightarrow> jval) \<Rightarrow> parking_site list" where
  "privateParkingSites location = map (murcia_site location) [''001'', ''002'', ''003'']"

definition publicParkingSites :: "(string \<Rightarrow> jval) \<Rightarrow> parking_site list" where
  "publicParkingSites location = map (murcia_site location) [''006'', ''007'']"

definition site_entity :: "string \<Rightarrow> parking_site \<Rightarrow> jval" where
  "site_entity siteType site =
     JObj [(''entityId'', JObj [(''id'', JStr (''Twin.ParkingSite.'' @ site_id site)), (''type'', JStr siteType), (''isPattern'', JBool False)]),
           (''attributes'', JObj [(''iconURL'', text_attribute (site_iconURL site)), (''datasource'', text_attribute (site_datasource site))]),
           (''metadata'', JObj [(''location'', point (site_location site))])]"

definition createParkingSiteEntity :: "string \<Rightarrow> parking_site \<Rightarrow> parking_page \<Rightarrow> parking_page" where
  "createParkingSiteEntity siteType site s = pk_update (site_entity siteType site) s"

definition initParkingSite :: "(string \<Rightarrow> jval) \<Rightarrow> parking_page \<Rightarrow> parking_page" where
  "initParkingSite location s =
     fold (createParkingSiteEntity ''PublicSite'') (publicParkingSites location)
       (fold (createParkingSiteEntity ''PrivateSite'') (privateParkingSites location) s)"

definition parking_subscription :: "jval \<Rightarrow> jval \<Rightarrow> jval" where
  "parking_subscription agentIP agentPort =
     JObj [(''entities'', JArr [JObj [(''id'', JStr ''Twin.ConnectedCar.01''), (''type'', JStr ''ConnectedCar''), (''isPattern'', JBool False)]]),
           (''attributes'', JArr [JStr ''RecommendedParkingSite'']),
           (''reference'', JStr (''http://'' @ js_str agentIP @ '':'' @ js_str agentPort))]"

definition pk_subscribeResult :: "jval \<Rightarrow> jval \<Rightarrow> parking_page \<Rightarrow> parking_page" where
  "pk_subscribeResult agentIP agentPort s =
     s\<lparr>pk_sent := pk_sent s @ [post_req (js_str (pk_client s) @ ''/subscribeContext'') JUndef (parking_subscription agentIP agentPort)]\<rparr>"

text \<open>The statements at the start; the page may be opened, or loaded again, with any hash in its address.\<close>

definition open_parking_page :: "jval \<Rightarrow> jval \<Rightarrow> jval \<Rightarrow> (string \<Rightarrow> jval) \<Rightarrow> string \<Rightarrow> parking_page" where
  "open_parking_page url agentIP agentPort location hash =
     initParkingSite location (pk_subscribeResult agentIP agentPort
       \<lparr>pk_hash = hash, pk_shown = False, pk_marker = None, pk_popup = [], pk_timerID = None, pk_timers = [], pk_next = 1,
        recommendedParkingSite = JNull, pk_client = url, pk_sent = []\<rparr>)"

definition moving_car :: "jval \<Rightarrow> jval" where
  "moving_car location =
     JObj [(''entityId'', JObj [(''id'', JStr ''Twin.ConnectedCar.01''), (''type'', JStr ''ConnectedCar''), (''isPattern'', JBool False)]),
           (''attributes'', JObj [(''iconURL'', text_attribute ''/img/taxi.png''), (''location'', point location)]),
           (''metadata'', JObj [(''location'', point location)])]"

definition updateMobileObject :: "jval \<Rightarrow> parking_page \<Rightarrow> parking_page" where
  "updateMobileObject location s = pk_update (moving_car location) s"

definition clearInterval :: "nat option \<Rightarrow> parking_page \<Rightarrow> parking_page" where
  "clearInterval t s = (case t of None \<Rightarrow> s | Some i \<Rightarrow> s\<lparr>pk_timers := removeAll i (pk_timers s)\<rparr>)"

definition drawConnectedCar :: "parking_page \<Rightarrow> parking_page" where
  "drawConnectedCar s = s\<lparr>pk_marker := Some NotStarted, pk_popup := ''<b>Click me to start !</b>''\<rparr>"

definition car_clicked :: "parking_page \<Rightarrow> parking_page" where
  "car_clicked s =
     (case pk_marker s of
        None \<Rightarrow> s
      | Some m \<Rightarrow>
          if m = Running
          then (clearInterval (pk_timerID s) s)\<lparr>pk_marker := Some (marker_pause m), pk_popup := ''<b>Click me to start !</b>''\<rparr>
          else s\<lparr>pk_marker := Some (marker_start m), pk_popup := ''<b>Click me to pause !</b>'',
                 pk_timerID := Some (pk_next s), pk_timers := pk_timers s @ [pk_next s], pk_next := Suc (pk_next s)\<rparr>)"

definition showParking :: "parking_page \<Rightarrow> parking_page" where
  "showParking s = drawConnectedCar (s\<lparr>pk_shown := True\<rparr>)"

text \<open>The handler of the menu item; a name that is no menu item throws, and what is displayed stays.\<close>

definition selectMenuItem :: "string \<Rightarrow> parking_page \<Rightarrow> parking_page" where
  "selectMenuItem name s =
     (if name = ''SmartParking'' then showParking s
      else if name \<in> {''ProcessingFlow'', ''DigitalTwin'', ''RunningTask''} then s\<lparr>pk_shown := False\<rparr>
      else s)"

definition hashchange :: "string \<Rightarrow> parking_page \<Rightarrow> parking_page" where
  "hashchange hash s =
     (let s1 = s\<lparr>pk_hash := hash\<rparr>;
          s2 = (if hash \<noteq> ''#SmartParking'' \<and> pk_timerID s1 \<noteq> None then clearInterval (pk_timerID s1) s1 else s1)
      in selectMenuItem (drop 1 hash) s2)"

text \<open>Without a marker \<open>updateRecommendationResult\<close> throws.\<close>

definition updateRecommendationResult :: "parking_page \<Rightarrow> parking_page step" where
  "updateRecommendationResult s =
     (if pk_marker s = None then (s, False)
      else (s\<lparr>pk_popup := ''<b>you can park at <font color=\"red\">'' @ js_str (recommendedParkingSite s) @ ''</font></b>''\<rparr>, True))"

definition pk_handleNotify :: "jval \<Rightarrow> parking_page \<Rightarrow> parking_page step" where
  "pk_handleNotify contextObj s =
     (case do { as \<leftarrow> jget contextObj ''attributes''; jget as ''RecommendedParkingSite'' } of
        None \<Rightarrow> (s, False)
      | Some r \<Rightarrow>
          if is_nullish r then (s, True)
          else let s1 = s\<lparr>recommendedParkingSite := k_field r ''value''\<rparr> in
            if pk_hash s1 = ''#SmartParking'' then updateRecommendationResult s1 else (s1, True))"

text \<open>
  What happens to the page: another menu item, a click at the car while the map is displayed, the interval of a timer, and
  a message of the designer.
\<close>

datatype parking_event = Hash string | ClickCar | Tick nat jval | Pushed jval

fun pk_step :: "parking_event \<Rightarrow> parking_page \<Rightarrow> parking_page" where
  "pk_step (Hash h) s = (if h = pk_hash s then s else hashchange h s)"
| "pk_step ClickCar s = (if pk_shown s then car_clicked s else s)"
| "pk_step (Tick t location) s = (if t \<in> set (pk_timers s) then updateMobileObject location s else s)"
| "pk_step (Pushed m) s = fst (on_notify pk_handleNotify m s)"

section \<open>The timer\<close>

definition menu_event :: "parking_event \<Rightarrow> bool" where
  "menu_event e = (case e of Hash h \<Rightarrow> h \<in> {''#ProcessingFlow'', ''#DigitalTwin'', ''#RunningTask'', ''#SmartParking''} | _ \<Rightarrow> True)"

definition timer_inv :: "parking_page \<Rightarrow> bool" where
  "timer_inv s =
     ((if pk_shown s \<and> pk_marker s = Some Running then \<exists>t. pk_timerID s = Some t \<and> pk_timers s = [t] else pk_timers s = []) \<and>
      (pk_shown s \<longrightarrow> pk_hash s = ''#SmartParking''))"

lemma pk_update_frame [simp]:
  "pk_hash (pk_update ob s) = pk_hash s" "pk_shown (pk_update ob s) = pk_shown s" "pk_marker (pk_update ob s) = pk_marker s"
  "pk_timerID (pk_update ob s) = pk_timerID s" "pk_timers (pk_update ob s) = pk_timers s" "pk_client (pk_update ob s) = pk_client s"
  by (simp_all add: pk_update_def split: option.split)

lemma pk_handleNotify_frame:
  assumes "pk_handleNotify m s = (s', ok)"
  shows "pk_hash s' = pk_hash s" "pk_shown s' = pk_shown s" "pk_marker s' = pk_marker s" "pk_timerID s' = pk_timerID s" "pk_timers s' = pk_timers s"
  using assms by (auto simp: pk_handleNotify_def updateRecommendationResult_def Let_def split: option.splits if_splits)

lemma timer_inv_frame:
  "\<lbrakk>pk_hash s' = pk_hash s; pk_shown s' = pk_shown s; pk_marker s' = pk_marker s; pk_timerID s' = pk_timerID s; pk_timers s' = pk_timers s;
    timer_inv s\<rbrakk> \<Longrightarrow> timer_inv s'"
  by (simp add: timer_inv_def)

lemma hashchange_menu:
  "menu_event (Hash h) \<Longrightarrow>
     hashchange h s =
       (if h = ''#SmartParking'' then showParking (s\<lparr>pk_hash := h\<rparr>)
        else (clearInterval (pk_timerID s) (s\<lparr>pk_hash := h\<rparr>))\<lparr>pk_shown := False\<rparr>)"
  unfolding menu_event_def parking_event.case insert_iff empty_iff
  by (elim disjE) (simp_all add: hashchange_def selectMenuItem_def clearInterval_def split: option.split)

lemma timer_inv_hash:
  assumes "timer_inv s" and "menu_event (Hash h)" and "h \<noteq> pk_hash s"
  shows "timer_inv (hashchange h s)"
proof (cases "h = ''#SmartParking''")
  case True
  with assms have "\<not> pk_shown s" "pk_timers s = []" by (auto simp: timer_inv_def split: if_splits)
  with True show ?thesis unfolding hashchange_menu [OF assms(2)] by (simp add: timer_inv_def showParking_def drawConnectedCar_def)
next
  case False
  have "pk_timers (clearInterval (pk_timerID s) (s\<lparr>pk_hash := h\<rparr>)) = []"
    using assms(1) by (auto simp: timer_inv_def clearInterval_def split: if_splits option.split)
  with False show ?thesis unfolding hashchange_menu [OF assms(2)] by (simp add: timer_inv_def)
qed

lemma timer_inv_click: "timer_inv s \<Longrightarrow> pk_shown s \<Longrightarrow> timer_inv (car_clicked s)"
  by (auto simp: timer_inv_def car_clicked_def clearInterval_def split: option.splits if_splits)

lemma timer_inv_step: "timer_inv s \<Longrightarrow> menu_event e \<Longrightarrow> timer_inv (pk_step e s)"
proof (cases e)
  case (Pushed m)
  obtain s' ok where "on_notify pk_handleNotify m s = (s', ok)" by fastforce
  moreover assume "timer_inv s"
  ultimately show ?thesis
    unfolding Pushed by (auto simp: on_notify_def split: option.splits intro: timer_inv_frame [OF pk_handleNotify_frame])
qed (auto simp: timer_inv_hash timer_inv_click updateMobileObject_def intro: timer_inv_frame)

lemma opened_page_idle:
  "pk_shown (open_parking_page url ip port loc h) = False" "pk_timers (open_parking_page url ip port loc h) = []"
  "pk_hash (open_parking_page url ip port loc h) = h" "pk_marker (open_parking_page url ip port loc h) = None"
  by (simp_all add: open_parking_page_def initParkingSite_def pk_subscribeResult_def createParkingSiteEntity_def
      publicParkingSites_def privateParkingSites_def)

lemma timer_inv_steps: "timer_inv s \<Longrightarrow> list_all menu_event es \<Longrightarrow> timer_inv (fold pk_step es s)"
  by (induction es arbitrary: s) (simp_all add: timer_inv_step)

text \<open>
  Claim C27. However the user changes between the menu items, clicks at the car, and is notified: the page has at most one
  timer, and it has one exactly while the map is displayed and the car drives on it; the position of the car is
  then reported once per interval, and at no other time.
\<close>

theorem one_timer_while_driving:
  assumes "list_all menu_event es" and "s = fold pk_step es (open_parking_page url ip port loc h)"
  shows "length (pk_timers s) = (if pk_shown s \<and> pk_marker s = Some Running then 1 else 0) \<and>
    (\<forall>t l. pk_sent (pk_step (Tick t l) s) \<noteq> pk_sent s \<longrightarrow> pk_shown s \<and> pk_hash s = ''#SmartParking'' \<and> pk_timerID s = Some t)"
proof -
  have "timer_inv s"
    unfolding assms(2) by (rule timer_inv_steps [OF _ assms(1)]) (simp add: timer_inv_def opened_page_idle)
  then show ?thesis by (auto simp: timer_inv_def split: if_splits)
qed

theorem one_timer_while_driving_witness:
  "length (pk_timers (fold pk_step [Hash ''#SmartParking'', ClickCar, Hash ''#DigitalTwin'', Hash ''#SmartParking'', ClickCar]
     (open_parking_page (JStr ''http://b'') (JStr ''a'') (JNum 80) (\<lambda>i. JNull) []))) = 1"
  using one_timer_while_driving [of "[Hash ''#SmartParking'', ClickCar, Hash ''#DigitalTwin'', Hash ''#SmartParking'', ClickCar]" _
      "JStr ''http://b''" "JStr ''a''" "JNum 80" "\<lambda>i. JNull" "[]"]
  by (simp add: menu_event_def opened_page_idle hashchange_def selectMenuItem_def showParking_def drawConnectedCar_def car_clicked_def
      clearInterval_def Let_def)

text \<open>
  A hash that is no menu item breaks this: the map stays displayed, the car is started again while the hash is another, and
  when the menu item is selected anew its timer is not stopped.
\<close>

lemma unknown_hash_leaks_timer:
  "length (pk_timers (fold pk_step [Hash ''#SmartParking'', ClickCar, Hash ''#Map'', ClickCar, ClickCar, Hash ''#SmartParking'', ClickCar]
     (open_parking_page url ip port loc []))) = 2"
  by (simp add: opened_page_idle hashchange_def selectMenuItem_def showParking_def drawConnectedCar_def car_clicked_def
      clearInterval_def Let_def)

section \<open>From the car to the recommendation\<close>

definition car_element :: "jval \<Rightarrow> element" where
  "car_element location =
     \<lparr>Entity = \<lparr>eid_type = ''ConnectedCar'', eid_isPattern = False, eid_id = ''Twin.ConnectedCar.01''\<rparr>,
      Attributes = [(''iconURL'', ''string'', JStr ''/img/taxi.png''), (''location'', ''point'', location)],
      Metadata = [(''location'', ''point'', location)]\<rparr>"

lemma moving_car_posted: "\<exists>rq. update_request u (moving_car l) = Some rq \<and> posted_updates rq = [car_element l]"
proof -
  let ?ps = "[(''id'', JStr ''Twin.ConnectedCar.01''), (''type'', JStr ''ConnectedCar''), (''isPattern'', JBool False)]"
  let ?e = "ctx_element (JObj ?ps) (json_named (Attributes (car_element l))) (json_named (Metadata (car_element l)))"
  have "JSONObject2CtxElement (moving_car l) = Some ?e"
    by (simp add: JSONObject2CtxElement_def moving_car_def text_attribute_def point_def car_element_def ctx_element_def named_elems_def
        json_named_def json_string_def js_access js_literal)
  moreover have "parse_entity (JObj ?ps) = Some (Entity (car_element l))" by (simp add: car_element_def js_access)
  ultimately show ?thesis
    by (simp add: update_request_def posted_updates_element car_element_def del: parse_entity.simps)
qed

lemma car_element_plain: "plain_car (car_element l)" "readable_element (car_element l)"
  by (simp_all add: plain_car_def readable_element_def car_element_def)

text \<open>What the page makes of a notification of the car, which has the selected attribute only.\<close>

abbreviation recommendation_of :: "element \<Rightarrow> element" where
  "recommendation_of \<equiv> CloneWithSelectedAttributes [''RecommendedParkingSite'']"

definition park_at :: "jval \<Rightarrow> string" where
  "park_at site = ''<b>you can park at <font color=\"red\">'' @ js_str site @ ''</font></b>''"

lemma json_attribute_value: "k_field (json_attribute (Some (t, v))) ''value'' = v"
  by (simp add: k_field_def json_attribute_def js_access)

lemma pk_notified:
  assumes "readable_element e" and "map_of (subscriptions_websocket d) sid = Some c"
  shows "fold pk_step (map Pushed (pushed sid d (recommendation_of e))) s =
    (case map_of (Attributes e) ''RecommendedParkingSite'' of
       None \<Rightarrow> s
     | Some (t, v) \<Rightarrow>
         (let s1 = s\<lparr>recommendedParkingSite := v\<rparr> in
          if pk_hash s = ''#SmartParking'' \<and> pk_marker s \<noteq> None then s1\<lparr>pk_popup := park_at v\<rparr> else s1))"
proof -
  let ?n = "recommendation_of e"
  note n = selected_readable [where e = e and k = "''RecommendedParkingSite''"]
  have "jget (k_field (notified_object ?n) ''attributes'') ''RecommendedParkingSite'' =
      Some (json_attribute (map_of (Attributes e) ''RecommendedParkingSite''))"
    using n(1) [OF assms(1)] by (simp add: readable_element_def notified_object_def k_field_def js_access obj_get_json_named n(2) object_proto_def)
  moreover have "jget (notified_object ?n) ''attributes'' = Some (k_field (notified_object ?n) ''attributes'')"
    by (simp add: notified_object_def k_field_def js_access)
  ultimately have "pk_handleNotify (notified_object ?n) s =
    (case map_of (Attributes e) ''RecommendedParkingSite'' of
       None \<Rightarrow> (s, True)
     | Some (t, v) \<Rightarrow>
         (let s1 = s\<lparr>recommendedParkingSite := v\<rparr> in
          if pk_hash s = ''#SmartParking'' then updateRecommendationResult s1 else (s1, True)))"
    by (auto simp: pk_handleNotify_def json_attribute_value split: option.split)
  then show ?thesis
    by (auto simp: pushed_to_client [OF assms(2)] on_notify_def js_access updateRecommendationResult_def park_at_def Let_def split: option.split)
qed

definition recommended :: "element \<Rightarrow> bool" where
  "recommended e =
     (readable_element e \<and> map_of (Attributes e) ''RecommendedParkingSite'' = Some (''string'', JStr ''Twin.ParkingSite.002''))"

lemma parking_recommended:
  assumes "parking_start (car_element l) p" and "(parking_step destination ^^ n) p q" and "\<And>r. \<not> parking_step destination q r"
  shows "\<exists>e. stored q ''Twin.ConnectedCar.01'' = Some e \<and> recommended e"
proof -
  obtain t v where e: "stored q ''Twin.ConnectedCar.01'' = Some (extended (car_element l) [(''ParkingRequest'', t, v), site_attribute])"
    using parking_at_rest [OF assms(1) car_element_plain(1) assms(2,3)] by (auto simp: car_element_def)
  have "readable_element (extended (car_element l) [(''ParkingRequest'', t, v), site_attribute])"
    by (rule extended_elements(7) [OF car_element_plain(1)]) simp
  with e show ?thesis by (simp add: recommended_def car_element_def site_attribute_def extended_def)
qed

text \<open>Later positions of the car change nothing about the recommendation.\<close>

lemma position_keeps_recommendation:
  assumes "es ''Twin.ConnectedCar.01'' = Some e" and "recommended e"
  shows "\<exists>e'. UpdateContext2LocalSite [[], [], [''RecommendedParkingSite'']] (car_element l) es =
      (es(''Twin.ConnectedCar.01'' \<mapsto> e'), [e', e', recommendation_of e']) \<and> recommended e'"
proof -
  have id: "eid_id (Entity (car_element l)) = ''Twin.ConnectedCar.01''" by (simp add: car_element_def)
  have stored: "readable_element e'" if "es ''Twin.ConnectedCar.01'' = Some e'" for e' using that assms by (simp add: recommended_def)
  obtain e' where e': "updateContextElement (car_element l) es = es(''Twin.ConnectedCar.01'' \<mapsto> e')" "readable_element e'"
      "\<And>k. map_of (Attributes e') k = (case map_of (Attributes (car_element l)) k of Some a \<Rightarrow> Some a
        | None \<Rightarrow> Option.bind (es ''Twin.ConnectedCar.01'') (\<lambda>e. map_of (Attributes e) k))"
    using element_updated [of "car_element l" es, unfolded id, OF car_element_plain(2) stored] by blast
  have "recommended e'"
    using assms e'(2) e'(3) [of "''RecommendedParkingSite''"] by (simp add: recommended_def car_element_def)
  then show ?thesis by (intro exI [of _ e']) (simp add: UpdateContext2LocalSite_def e'(1) id Let_def)
qed

text \<open>
  Claim C10. From the page over the broker and the operators back to the page: the first position that the driving car
  reports makes the car's operator and the recommender act, in whatever order their messages are delivered, and once they
  have come to rest the page shows the recommended site at the car; every later position leaves the recommendation,
  which the page shows again, and is ignored by both operators.
\<close>

theorem recommendation_reaches_page:
  assumes "t \<in> set (pk_timers s)" and "pk_hash s = ''#SmartParking''" and "pk_marker s \<noteq> None"
    and "parking_start (car_element l) p" and "(parking_step destination ^^ n) p q" and "\<And>r. \<not> parking_step destination q r"
    and "map_of (subscriptions_websocket d) sid = Some c"
  shows "\<exists>rq e. pk_sent (pk_step (Tick t l) s) = pk_sent s @ [rq] \<and> posted_updates rq = [car_element l] \<and>
    stored q ''Twin.ConnectedCar.01'' = Some e \<and>
    pk_popup (fold pk_step (map Pushed (pushed sid d (recommendation_of e))) (pk_step (Tick t l) s)) = park_at (JStr ''Twin.ParkingSite.002'') \<and>
    (\<forall>l'. \<exists>es' e'. UpdateContext2LocalSite [[], [], [''RecommendedParkingSite'']] (car_element l') (stored q) = (es', [e', e', recommendation_of e']) \<and>
       car_step now destination (Notified (notified sid' e')) (the_car q) = (the_car q, True) \<and>
       recommender_step (Notified (notified sid' e')) (the_recommender q) = (the_recommender q, True) \<and>
       pk_popup (fold pk_step (map Pushed (pushed sid d (recommendation_of e'))) s) = park_at (JStr ''Twin.ParkingSite.002''))"
proof -
  obtain rq where rq: "update_request (pk_client s) (moving_car l) = Some rq" "posted_updates rq = [car_element l]"
    using moving_car_posted by blast
  obtain e where e: "stored q ''Twin.ConnectedCar.01'' = Some e" "recommended e" using parking_recommended [OF assms(4-6)] by blast
  have shown: "pk_popup (fold pk_step (map Pushed (pushed sid d (recommendation_of e'))) s') = park_at (JStr ''Twin.ParkingSite.002'')"
    if "recommended e'" "pk_hash s' = ''#SmartParking''" "pk_marker s' \<noteq> None" for e' s'
    using that pk_notified [OF _ assms(7), of e' s'] by (simp add: recommended_def Let_def)
  have later: "\<exists>es' e'. UpdateContext2LocalSite [[], [], [''RecommendedParkingSite'']] (car_element l') (stored q) = (es', [e', e', recommendation_of e']) \<and>
       car_step now destination (Notified (notified sid' e')) (the_car q) = (the_car q, True) \<and>
       recommender_step (Notified (notified sid' e')) (the_recommender q) = (the_recommender q, True) \<and>
       pk_popup (fold pk_step (map Pushed (pushed sid d (recommendation_of e'))) s) = park_at (JStr ''Twin.ParkingSite.002'')" for l'
  proof -
    obtain e' where e': "UpdateContext2LocalSite [[], [], [''RecommendedParkingSite'']] (car_element l') (stored q) =
        ((stored q)(''Twin.ConnectedCar.01'' \<mapsto> e'), [e', e', recommendation_of e'])" "recommended e'"
      using position_keeps_recommendation [of "stored q", OF e] by blast
    then have "readable_element e'" "has ''RecommendedParkingSite'' e'" by (simp_all add: recommended_def)
    with e' shown [OF e'(2) assms(2,3)] show ?thesis
      by (intro exI [of _ "(stored q)(''Twin.ConnectedCar.01'' \<mapsto> e')"] exI [of _ e'])
        (simp add: car_ignores recommender_ignores del: car_step.simps recommender_step.simps)
  qed
  have "pk_step (Tick t l) s = s\<lparr>pk_sent := pk_sent s @ [rq]\<rparr>"
    using assms(1) rq(1) by (simp add: updateMobileObject_def pk_update_def)
  with rq(2) e shown [OF e(2), of "pk_step (Tick t l) s"] assms(2,3) later show ?thesis
    by (intro exI [of _ rq] exI [of _ e]) (simp del: fold_map pk_step.simps)
qed

definition sample_driving :: parking_page where
  "sample_driving =
     \<lparr>pk_hash = ''#SmartParking'', pk_shown = True, pk_marker = Some Running, pk_popup = [], pk_timerID = Some 1, pk_timers = [1], pk_next = 2,
      recommendedParkingSite = JNull, pk_client = JStr ''http://b'', pk_sent = []\<rparr>"

theorem recommendation_reaches_page_witness:
  "\<exists>n q e. (parking_step JUndef ^^ n) (sample_parking\<lparr>updates := [car_element JNull]\<rparr>) q \<and> stored q ''Twin.ConnectedCar.01'' = Some e \<and>
     pk_popup (fold pk_step (map Pushed (pushed ''s'' sample_client (recommendation_of e))) (pk_step (Tick 1 JNull) sample_driving)) =
       park_at (JStr ''Twin.ParkingSite.002'')"
proof -
  let ?p = "sample_parking\<lparr>updates := [car_element JNull]\<rparr>"
  have start: "parking_start (car_element JNull) ?p" by (simp add: parking_start_def sample_parking_def ready_def)
  from parking_completes [OF this car_element_plain(1)] obtain n q where
    run: "(parking_step JUndef ^^ n) ?p q" "\<And>r. \<not> parking_step JUndef q r" by blast
  have page: "1 \<in> set (pk_timers sample_driving)" "pk_hash sample_driving = ''#SmartParking''" "pk_marker sample_driving \<noteq> None"
    by (simp_all add: sample_driving_def)
  show ?thesis using recommendation_reaches_page [OF page start run sample_client_subscribed] run(1) by blast
qed

text \<open>A page that is loaded again at the menu item has no car: the notification is recorded, and the handler throws.\<close>

lemma reloaded_page_throws:
  assumes "jget m ''entities'' = Some ob" and "jget ob ''attributes'' = Some as" and "jget as ''RecommendedParkingSite'' = Some r" and "\<not> is_nullish r"
  shows "on_notify pk_handleNotify m (open_parking_page url ip port loc ''#SmartParking'') =
    ((open_parking_page url ip port loc ''#SmartParking'')\<lparr>recommendedParkingSite := k_field r ''value''\<rparr>, False)"
  using assms by (simp add: on_notify_def pk_handleNotify_def updateRecommendationResult_def opened_page_idle Let_def)

section \<open>The digital twins\<close>

text \<open>\<open>removeDigitalTwin\<close> deletes the entity by its identifier.\<close>

definition twin_id :: "jval \<Rightarrow> jval option" where
  "twin_id twin =
     do { e \<leftarrow> jget twin ''entityId''; i \<leftarrow> jget e ''id''; Some (JObj [(''id'', i), (''isPattern'', JBool False)]) }"

definition removeDigitalTwin :: "jval \<Rightarrow> parking_page \<Rightarrow> parking_page" where
  "removeDigitalTwin twin s =
     (case twin_id twin of
        None \<Rightarrow> s
      | Some entityId \<Rightarrow>
          s\<lparr>pk_sent := pk_sent s @ [post_req (js_str (pk_client s) @ ''/updateContext'') JUndef
              (update_req_body (JObj (obj_of [(''entityId'', entityId)])) ''DELETE'')]\<rparr>)"

lemma removed_twin_posted:
  assumes "readable_element e"
  shows "\<exists>rq. pk_sent (removeDigitalTwin (notified_object e) s) = pk_sent s @ [rq] \<and> posted_deletes rq = [eid_id (Entity e)]"
proof -
  have "twin_id (notified_object e) = Some (JObj [(''id'', JStr (eid_id (Entity e))), (''isPattern'', JBool False)])"
    using assms by (simp add: twin_id_def notified_object_def json_entity_def readable_element_def js_access)
  then show ?thesis
    by (simp add: removeDigitalTwin_def posted_deletes_def post_req_def update_req_body_def js_literal js_access)
qed

text \<open>
  The car cannot be removed in the page: its operator takes the notification of the deletion for a new car, and its
  request makes the broker store the entity again.
\<close>

theorem removed_car_reappears:
  assumes "es c = Some e" and "readable_element e" and "eid_id (Entity e) = c" and "ready car"
  shows "\<exists>rq es' n car' u. pk_sent (removeDigitalTwin (notified_object e) s) = pk_sent s @ [rq] \<and> posted_deletes rq = [c] \<and>
    deleteEntity [[]] c es = (es', [n]) \<and> es' c = None \<and>
    car_step now destination (Notified (notified sid n)) car = (car', True) \<and> new_updates car car' = [u] \<and> updateContextElement u es' c \<noteq> None"
proof -
  obtain rq where rq: "pk_sent (removeDigitalTwin (notified_object e) s) = pk_sent s @ [rq]" "posted_deletes rq = [c]"
    using removed_twin_posted [OF assms(2)] assms(3) by blast
  have "c \<noteq> []" using assms(2,3) by (auto simp: readable_element_def)
  from deleted_car_reappears [OF this assms(4), of es "es(c := None)" "emptyElement c" now destination sid]
  obtain car' u where "car_step now destination (Notified (notified sid (emptyElement c))) car = (car', True)" "new_updates car car' = [u]"
      "updateContextElement u (es(c := None)) c \<noteq> None"
    by (auto simp: deleteEntity_def)
  with rq show ?thesis by (auto simp: deleteEntity_def)
qed

end
