(* ===== verification/Customer_Journey.thy ===== *)
theory Customer_Journey
  imports Complex_Main NGSI_Client
begin

text \<open>
  The page of the customer journey, \<open>designer/public/js/customerjourney.js\<close>: the query for the wished stores, the tables of
  the suggested stores, and the simulation of transactions with its loop over visits, which need not end.

  Numbers are exact rationals, with \<open>None\<close> for \<open>NaN\<close>; the rounding of floating point numbers is not modelled.  What
  \<open>parseFloat\<close> reads from the form and what \<open>Math.random\<close> draws are arguments.
\<close>

section \<open>Stores\<close>

type_synonym num = "rat option"

fun js_less :: "num \<Rightarrow> num \<Rightarrow> bool" where
  "js_less (Some a) (Some b) = (a < b)"
| "js_less a b = False"

definition js_add :: "num \<Rightarrow> num \<Rightarrow> num" where
  "js_add a b = (case (a, b) of (Some x, Some y) \<Rightarrow> Some (x + y) | _ \<Rightarrow> None)"

definition js_mult :: "num \<Rightarrow> num \<Rightarrow> num" where
  "js_mult a b = (case (a, b) of (Some x, Some y) \<Rightarrow> Some (x * y) | _ \<Rightarrow> None)"

text \<open>A store as the query returns it; an attribute that is missing has no value to read.\<close>

record wished_store =
  store_id :: string
  store_type :: string
  store_value :: "string \<Rightarrow> rat option"

definition maxCapability :: rat where
  "maxCapability = 443"

definition getWaitingTime :: "num \<Rightarrow> num \<Rightarrow> num" where
  "getWaitingTime customers baselineTime = js_mult (map_option (\<lambda>c. c / maxCapability) customers) baselineTime"

text \<open>
  The stores within the limit, as the loop of the simulation selects them.  A negative limit is none, and then the
  attribute is not read; reading a missing attribute throws.
\<close>

fun selected :: "string \<Rightarrow> rat \<Rightarrow> wished_store list \<Rightarrow> wished_store list option" where
  "selected attr maxOccupancy [] = Some []"
| "selected attr maxOccupancy (e # es) =
     (if maxOccupancy < 0 then map_option ((#) e) (selected attr maxOccupancy es)
      else case store_value e attr of
             None \<Rightarrow> None
           | Some v \<Rightarrow> if v < maxOccupancy then map_option ((#) e) (selected attr maxOccupancy es) else selected attr maxOccupancy es)"

definition occupancies :: "wished_store list \<Rightarrow> rat list option" where
  "occupancies es = those (map (\<lambda>e. store_value e ''building_occupancy'') es)"

section \<open>The tables\<close>

text \<open>The rows of the table, the number of stores and their average occupancy, which is \<open>NaN\<close> for none.\<close>

record suggestion =
  table_rows :: "(string \<times> string \<times> rat list) list"
  shopsCount :: nat
  averageOccupancy :: num

definition table_row :: "string list \<Rightarrow> wished_store \<Rightarrow> (string \<times> string \<times> rat list) option" where
  "table_row properties e =
     map_option (\<lambda>vs. (store_id e, store_type e, vs)) (those (map (store_value e) properties))"

text \<open>The loop over the stores, with the rows, the count and the sum of the occupancies so far.\<close>

fun table_loop :: "string \<Rightarrow> rat \<Rightarrow> string list \<Rightarrow> wished_store list \<Rightarrow> (string \<times> string \<times> rat list) list \<times> nat \<times> rat \<Rightarrow>
    ((string \<times> string \<times> rat list) list \<times> nat \<times> rat) option" where
  "table_loop attr maxOccupancy properties [] acc = Some acc"
| "table_loop attr maxOccupancy properties (e # es) (html, count, accum) =
     do { take \<leftarrow> (if maxOccupancy < 0 then Some True else map_option (\<lambda>v. v < maxOccupancy) (store_value e attr));
          (if take then
             do { row \<leftarrow> table_row properties e;
                  v \<leftarrow> store_value e ''building_occupancy'';
                  table_loop attr maxOccupancy properties es (html @ [row], count + 1, accum + v) }
           else table_loop attr maxOccupancy properties es (html, count, accum)) }"

definition createWishedStoreTable :: "wished_store list \<Rightarrow> string \<Rightarrow> rat \<Rightarrow> string list \<Rightarrow> suggestion option" where
  "createWishedStoreTable wishedStoreList attr maxOccupancy properties =
     do { (html, count, accum) \<leftarrow> table_loop attr maxOccupancy properties wishedStoreList ([], 0, 0);
          Some \<lparr>table_rows = html, shopsCount = count, averageOccupancy = (if count = 0 then None else Some (accum / of_nat count))\<rparr> }"

text \<open>The limit for a percentage, as the simulations and as the tables compute it.\<close>

definition occupancy_limit :: "rat \<Rightarrow> rat" where
  "occupancy_limit percentage = percentage * maxCapability / 100"

definition table_limit :: "rat \<Rightarrow> rat" where
  "table_limit occupancyPercentage = maxCapability * (occupancyPercentage / 100)"

definition createWishedStoreTable_noContext :: "wished_store list \<Rightarrow> suggestion option" where
  "createWishedStoreTable_noContext wishedStoreList = createWishedStoreTable wishedStoreList ''building_occupancy'' (- 1) []"

definition createWishedStoreTable_peopleCount :: "rat \<Rightarrow> wished_store list \<Rightarrow> suggestion option" where
  "createWishedStoreTable_peopleCount percentage wishedStoreList =
     createWishedStoreTable wishedStoreList ''building_occupancy'' (table_limit percentage) [''building_occupancy'']"

definition createWishedStoreTable_predictedLinReg :: "rat \<Rightarrow> wished_store list \<Rightarrow> suggestion option" where
  "createWishedStoreTable_predictedLinReg percentage wishedStoreList =
     createWishedStoreTable wishedStoreList ''predicted_building_occupancy_linreg'' (table_limit percentage)
       [''predicted_building_occupancy_linreg'', ''CO2'', ''building_occupancy'']"

section \<open>The simulation\<close>

text \<open>
  \<open>random\<close> is the sequence of the numbers that \<open>Math.random\<close> returns, and \<open>k\<close> the number of those drawn so far.  Without
  stores the drawn occupancy is \<open>undefined\<close>, and the time of the visit \<open>NaN\<close>.
\<close>

definition drawn_crowd :: "(nat \<Rightarrow> rat) \<Rightarrow> rat list \<Rightarrow> nat \<Rightarrow> num" where
  "drawn_crowd random crowdValues k =
     (let i = nat \<lfloor>random k * of_nat (length crowdValues)\<rfloor> in if i < length crowdValues then Some (crowdValues ! i) else None)"

definition shop_time :: "num \<Rightarrow> num \<Rightarrow> num" where
  "shop_time crowd baseline_time_per_shop = js_add (getWaitingTime crowd baseline_time_per_shop) baseline_time_per_shop"

text \<open>The visits of one customer; a loop that does not end has no value.\<close>

partial_function (option) visits :: "(nat \<Rightarrow> rat) \<Rightarrow> rat list \<Rightarrow> num \<Rightarrow> num \<Rightarrow> num \<Rightarrow> nat \<Rightarrow> nat \<Rightarrow> (nat \<times> nat) option" where
  "visits random crowdValues baseline time_budget timer k successful_transactions =
     (if js_less timer time_budget
      then let timer' = js_add timer (shop_time (drawn_crowd random crowdValues k) baseline)
           in visits random crowdValues baseline time_budget timer' (Suc k)
                (if js_less timer' time_budget then Suc successful_transactions else successful_transactions)
      else Some (k, successful_transactions))"

fun customers :: "nat \<Rightarrow> (nat \<Rightarrow> rat) \<Rightarrow> rat list \<Rightarrow> num \<Rightarrow> num \<Rightarrow> nat \<Rightarrow> nat \<Rightarrow> (nat \<times> nat) option" where
  "customers 0 random crowdValues baseline time_budget k successful_transactions = Some (k, successful_transactions)"
| "customers (Suc n) random crowdValues baseline time_budget k successful_transactions =
     (case visits random crowdValues baseline time_budget (Some 0) k successful_transactions of
        None \<Rightarrow> None
      | Some (k', t) \<Rightarrow> customers n random crowdValues baseline time_budget k' t)"

text \<open>The number of iterations of \<open>for (let i = 0; i < number; i++)\<close>.\<close>

definition iterations :: "num \<Rightarrow> nat" where
  "iterations number = (case number of None \<Rightarrow> 0 | Some x \<Rightarrow> nat \<lceil>x\<rceil>)"

datatype 'a sim_outcome = Throws | Hangs | Returns 'a

record simulation =
  successful :: nat
  selected_shops :: nat

definition simulateTransactions ::
    "(nat \<Rightarrow> rat) \<Rightarrow> wished_store list \<Rightarrow> num \<Rightarrow> num \<Rightarrow> num \<Rightarrow> rat \<Rightarrow> string \<Rightarrow> nat \<Rightarrow> (nat \<times> simulation) sim_outcome" where
  "simulateTransactions random wishedStoreList number time_budget baseline maxOccupancy attr k =
     (case Option.bind (selected attr maxOccupancy wishedStoreList) occupancies of
        None \<Rightarrow> Throws
      | Some crowdValues \<Rightarrow>
          (case customers (iterations number) random crowdValues baseline time_budget k 0 of
             None \<Rightarrow> Hangs
           | Some (k', t) \<Rightarrow> Returns (k', \<lparr>successful = t, selected_shops = length crowdValues\<rparr>)))"

text \<open>Three simulations per percentage from 5 to 100; the results are the points of the charts.\<close>

record charts =
  noContext :: "(nat \<times> simulation) list"
  peopleCount :: "(nat \<times> simulation) list"
  predictionLinReg :: "(nat \<times> simulation) list"

definition simulate_percentage ::
    "(nat \<Rightarrow> rat) \<Rightarrow> wished_store list \<Rightarrow> num \<Rightarrow> num \<Rightarrow> num \<Rightarrow> nat \<Rightarrow> nat \<Rightarrow> charts \<Rightarrow> (nat \<times> charts) sim_outcome" where
  "simulate_percentage random stores number budget baseline percentage k c =
     (case simulateTransactions random stores number budget baseline (- 1) ''building_occupancy'' k of
        Throws \<Rightarrow> Throws | Hangs \<Rightarrow> Hangs
      | Returns (k1, r1) \<Rightarrow>
          (case simulateTransactions random stores number budget baseline (occupancy_limit (of_nat percentage)) ''building_occupancy'' k1 of
             Throws \<Rightarrow> Throws | Hangs \<Rightarrow> Hangs
           | Returns (k2, r2) \<Rightarrow>
               (case simulateTransactions random stores number budget baseline (occupancy_limit (of_nat percentage))
                    ''predicted_building_occupancy_linreg'' k2 of
                  Throws \<Rightarrow> Throws | Hangs \<Rightarrow> Hangs
                | Returns (k3, r3) \<Rightarrow>
                    Returns (k3, \<lparr>noContext = noContext c @ [(percentage, r1)], peopleCount = peopleCount c @ [(percentage, r2)],
                      predictionLinReg = predictionLinReg c @ [(percentage, r3)]\<rparr>))))"

fun simulate_all ::
    "(nat \<Rightarrow> rat) \<Rightarrow> wished_store list \<Rightarrow> num \<Rightarrow> num \<Rightarrow> num \<Rightarrow> nat list \<Rightarrow> nat \<Rightarrow> charts \<Rightarrow> (nat \<times> charts) sim_outcome" where
  "simulate_all random stores number budget baseline [] k c = Returns (k, c)"
| "simulate_all random stores number budget baseline (p # ps) k c =
     (case simulate_percentage random stores number budget baseline p k c of
        Throws \<Rightarrow> Throws | Hangs \<Rightarrow> Hangs
      | Returns (k', c') \<Rightarrow> simulate_all random stores number budget baseline ps k' c')"

definition percentages :: "nat list" where
  "percentages = [5..<101]"

text \<open>Before the first query the list of stores is \<open>null\<close>, over which no loop can run.\<close>

definition runSimulations :: "(nat \<Rightarrow> rat) \<Rightarrow> wished_store list option \<Rightarrow> num \<Rightarrow> num \<Rightarrow> num \<Rightarrow> (nat \<times> charts) sim_outcome" where
  "runSimulations random wishedStoreList number budget baseline =
     (case wishedStoreList of
        None \<Rightarrow> Throws
      | Some stores \<Rightarrow>
          simulate_all random stores number budget baseline percentages 0 \<lparr>noContext = [], peopleCount = [], predictionLinReg = []\<rparr>)"

section \<open>The query\<close>

definition wished_query :: "jval \<Rightarrow> string list \<Rightarrow> jval" where
  "wished_query scope storeTypes =
     JObj [(''entities'', JArr (map (\<lambda>t. JObj [(''type'', JStr t), (''isPattern'', JBool True)]) storeTypes)),
           (''restriction'', JObj [(''scopes'', JArr [scope])])]"

definition updateWishedStoreList :: "axios \<Rightarrow> string \<Rightarrow> jval \<Rightarrow> string list \<Rightarrow> promise" where
  "updateWishedStoreList axios url scope storeTypes = queryContext axios url (wished_query scope storeTypes)"

section \<open>How many transactions are simulated\<close>

lemma drawn_store:
  assumes "0 \<le> random k" and "random k < 1" and "crowdValues \<noteq> []"
  shows "\<exists>v \<in> set crowdValues. drawn_crowd random crowdValues k = Some v"
proof -
  let ?i = "nat \<lfloor>random k * of_nat (length crowdValues)\<rfloor>"
  have "random k * of_nat (length crowdValues) < of_nat (length crowdValues)" using assms(2,3) by simp
  then have "?i < length crowdValues" using assms(1) by (simp add: nat_less_iff floor_less_iff)
  then show ?thesis by (auto simp: drawn_crowd_def Let_def)
qed

definition visit_time :: "rat \<Rightarrow> rat \<Rightarrow> rat" where
  "visit_time baseline crowd = baseline * (1 + crowd / maxCapability)"

lemma shop_time_drawn: "shop_time (Some c) (Some b) = Some (visit_time b c)"
  by (simp add: shop_time_def getWaitingTime_def js_mult_def js_add_def visit_time_def algebra_simps)

lemma visit_time_mono: "\<lbrakk>0 \<le> b; c \<le> c'\<rbrakk> \<Longrightarrow> visit_time b c \<le> visit_time b c'"
  by (auto simp: visit_time_def maxCapability_def intro: mult_left_mono)

text \<open>The number of visits of a duration that end before the budget is used up.\<close>

definition fits :: "rat \<Rightarrow> rat \<Rightarrow> nat" where
  "fits budget duration = nat (\<lceil>budget / duration\<rceil> - 1)"

lemma fits_upper: "\<lbrakk>0 < d; of_nat n * d < b\<rbrakk> \<Longrightarrow> n \<le> fits b d"
proof -
  assume "0 < d" and "of_nat n * d < b"
  then have "of_int (int n) < b / d" by (simp add: pos_less_divide_eq)
  then have "int n < \<lceil>b / d\<rceil>" by (simp only: less_ceiling_iff)
  then show "n \<le> fits b d" by (simp add: fits_def)
qed

lemma fits_lower: "\<lbrakk>0 < d; b \<le> of_nat (Suc n) * d\<rbrakk> \<Longrightarrow> fits b d \<le> n"
proof -
  assume "0 < d" and "b \<le> of_nat (Suc n) * d"
  then have "b / d \<le> of_int (int n + 1)" by (simp add: pos_divide_le_eq algebra_simps)
  then have "\<lceil>b / d\<rceil> \<le> int n + 1" by (simp only: ceiling_le_iff)
  then show "fits b d \<le> n" by (simp add: fits_def)
qed

lemma visits_between:
  assumes "0 < lo" and "\<And>k. \<exists>v. shop_time (drawn_crowd random cv k) baseline = Some v \<and> lo \<le> v \<and> v \<le> hi"
  shows "t < b \<Longrightarrow> \<exists>k' n. visits random cv baseline (Some b) (Some t) k s = Some (k', s + n) \<and> t + of_nat n * lo < b \<and> b \<le> t + of_nat (Suc n) * hi"
proof (induction "nat \<lceil>(b - t) / lo\<rceil>" arbitrary: t k s rule: less_induct)
  case less
  obtain v where v: "shop_time (drawn_crowd random cv k) baseline = Some v" "lo \<le> v" "v \<le> hi" using assms(2) by blast
  let ?t = "t + v"
  have step: "visits random cv baseline (Some b) (Some t) k s =
      visits random cv baseline (Some b) (Some ?t) (Suc k) (if ?t < b then Suc s else s)"
    using less.prems by (subst visits.simps) (simp add: v(1) js_add_def Let_def)
  show ?case
  proof (cases "?t < b")
    case True
    have "(b - ?t) / lo \<le> (b - t) / lo - 1"
      using assms(1) v(2) by (simp add: field_simps)
    then have "\<lceil>(b - ?t) / lo\<rceil> < \<lceil>(b - t) / lo\<rceil>" by linarith
    moreover have "0 < \<lceil>(b - ?t) / lo\<rceil>" using True assms(1) by simp
    ultimately have "nat \<lceil>(b - ?t) / lo\<rceil> < nat \<lceil>(b - t) / lo\<rceil>" by linarith
    from less.hyps [OF this True, of "Suc k" "Suc s"] obtain k' n where
      n: "visits random cv baseline (Some b) (Some ?t) (Suc k) (Suc s) = Some (k', Suc s + n)"
        "?t + of_nat n * lo < b" "b \<le> ?t + of_nat (Suc n) * hi" by blast
    have "t + of_nat (Suc n) * lo < b" using n(2) v(2) by (simp add: algebra_simps)
    moreover have "b \<le> t + of_nat (Suc (Suc n)) * hi" using n(3) v(3) by (simp add: algebra_simps)
    ultimately show ?thesis using True n(1) step by (intro exI [of _ k'] exI [of _ "Suc n"]) simp
  next
    case False
    then have "visits random cv baseline (Some b) (Some ?t) (Suc k) s = Some (Suc k, s)" by (subst visits.simps) simp
    with False step less.prems v(3) show ?thesis by (intro exI [of _ "Suc k"] exI [of _ 0]) simp
  qed
qed

lemma customers_between:
  assumes "0 < lo" and "lo \<le> hi" and "\<And>k. \<exists>v. shop_time (drawn_crowd random cv k) baseline = Some v \<and> lo \<le> v \<and> v \<le> hi"
  shows "\<exists>k' t. customers m random cv baseline (Some b) k s = Some (k', s + t) \<and> m * fits b hi \<le> t \<and> t \<le> m * fits b lo"
proof (induction m arbitrary: k s)
  case (Suc m)
  have "\<exists>k' n. visits random cv baseline (Some b) (Some 0) k s = Some (k', s + n) \<and> fits b hi \<le> n \<and> n \<le> fits b lo"
  proof (cases "0 < b")
    case True
    from visits_between [of lo random cv baseline hi, OF assms(1,3) this, of k s]
    show ?thesis using assms(1,2) by (fastforce intro: fits_upper fits_lower)
  next
    case False
    then have "visits random cv baseline (Some b) (Some 0) k s = Some (k, s + 0)" by (subst visits.simps) simp
    moreover have "fits b hi \<le> 0" using False assms(1,2) by (intro fits_lower) simp_all
    ultimately show ?thesis by blast
  qed
  then obtain k' n where n: "visits random cv baseline (Some b) (Some 0) k s = Some (k', s + n)" "fits b hi \<le> n" "n \<le> fits b lo" by blast
  obtain k'' t where "customers m random cv baseline (Some b) k' (s + n) = Some (k'', s + n + t)" "m * fits b hi \<le> t" "t \<le> m * fits b lo"
    using Suc.IH by blast
  with n show ?case by (intro exI [of _ k''] exI [of _ "n + t"]) simp
qed simp

lemma visit_times:
  assumes "\<forall>k. 0 \<le> random k \<and> random k < 1" and "cv \<noteq> []" and "\<forall>v \<in> set cv. cmin \<le> v \<and> v \<le> cmax" and "0 \<le> b"
  shows "\<exists>v. shop_time (drawn_crowd random cv k) (Some b) = Some v \<and> visit_time b cmin \<le> v \<and> v \<le> visit_time b cmax"
proof -
  obtain v where "v \<in> set cv" "drawn_crowd random cv k = Some v" using drawn_store assms(1,2) by blast
  with assms(3,4) show ?thesis by (auto simp: shop_time_drawn visit_time_mono)
qed

lemma simulation_between:
  assumes "Option.bind (selected attr limit stores) occupancies = Some cv" and "cv \<noteq> []"
    and "\<forall>v \<in> set cv. cmin \<le> v \<and> v \<le> cmax" and "0 \<le> cmin" and "0 < baseline" and "\<forall>k. 0 \<le> random k \<and> random k < 1"
  shows "\<exists>k' r. simulateTransactions random stores (Some number) (Some budget) (Some baseline) limit attr k = Returns (k', r) \<and>
     selected_shops r = length cv \<and>
     nat \<lceil>number\<rceil> * fits budget (visit_time baseline cmax) \<le> successful r \<and>
     successful r \<le> nat \<lceil>number\<rceil> * fits budget (visit_time baseline cmin)"
proof -
  have lo: "0 < visit_time baseline cmin" using assms(4,5) by (simp add: visit_time_def maxCapability_def add_pos_nonneg)
  obtain v where "v \<in> set cv" using assms(2) by (cases cv) auto
  with assms(3) have "cmin \<le> cmax" by force
  then have "visit_time baseline cmin \<le> visit_time baseline cmax" using assms(5) by (simp add: visit_time_mono)
  moreover have "\<exists>v. shop_time (drawn_crowd random cv k) (Some baseline) = Some v \<and> visit_time baseline cmin \<le> v \<and> v \<le> visit_time baseline cmax" for k
    using visit_times [OF assms(6,2,3)] assms(5) by simp
  ultimately obtain k' t where "customers (nat \<lceil>number\<rceil>) random cv (Some baseline) (Some budget) k 0 = Some (k', 0 + t)"
      "nat \<lceil>number\<rceil> * fits budget (visit_time baseline cmax) \<le> t" "t \<le> nat \<lceil>number\<rceil> * fits budget (visit_time baseline cmin)"
    using customers_between [OF lo] by blast
  with assms(1) show ?thesis by (simp add: simulateTransactions_def iterations_def)
qed

text \<open>
  Claim C25. With a positive time per shop the simulation ends, whatever numbers are drawn, and the number of transactions lies
  between what every customer manages if all visits last as long as in the fullest of the selected stores and what
  every customer manages if they last as long as in the emptiest.
\<close>

theorem simulation_bounds:
  assumes "Option.bind (selected attr limit stores) occupancies = Some cv" and "cv \<noteq> []"
    and "\<forall>v \<in> set cv. cmin \<le> v \<and> v \<le> cmax" and "0 \<le> cmin" and "0 < baseline" and "\<forall>k. 0 \<le> random k \<and> random k < 1"
  shows "\<exists>k' r. simulateTransactions random stores (Some number) (Some budget) (Some baseline) limit attr k = Returns (k', r) \<and>
     selected_shops r = length cv \<and>
     nat \<lceil>number\<rceil> * fits budget (visit_time baseline cmax) \<le> successful r \<and>
     successful r \<le> nat \<lceil>number\<rceil> * fits budget (visit_time baseline cmin)"
  using simulation_between [OF assms] .

definition sample_store :: "string \<Rightarrow> rat \<Rightarrow> wished_store" where
  "sample_store i v = \<lparr>store_id = i, store_type = ''bookshop'', 
     store_value = [''building_occupancy'' \<mapsto> v, ''predicted_building_occupancy_linreg'' \<mapsto> v]\<rparr>"

theorem simulation_bounds_witness:
  "\<exists>k' r. simulateTransactions (\<lambda>k. 1 / 2) [sample_store ''a'' 0, sample_store ''b'' 443] (Some 10) (Some 60) (Some 15) (- 1) ''building_occupancy'' 0 =
      Returns (k', r) \<and> selected_shops r = 2 \<and> 10 \<le> successful r \<and> successful r \<le> 30"
proof -
  have "Option.bind (selected ''building_occupancy'' (- 1) [sample_store ''a'' 0, sample_store ''b'' 443]) occupancies = Some [0, 443]"
    by (simp add: occupancies_def sample_store_def)
  from simulation_bounds [OF this, of 0 443 15 "\<lambda>k. 1 / 2" 10 60 0] show ?thesis
    by (simp add: fits_def visit_time_def maxCapability_def numeral_2_eq_2)
qed

section \<open>When the page hangs\<close>

lemma customers_without_store: "\<exists>k'. customers m random [] baseline budget k s = Some (k', s)"
proof (induction m arbitrary: k)
  case (Suc m)
  have *: "visits random [] baseline budget None k s = Some (k, s)" for k by (subst visits.simps) simp
  have "\<exists>k'. visits random [] baseline budget (Some 0) k s = Some (k', s)"
    by (subst visits.simps) (simp add: * drawn_crowd_def shop_time_def getWaitingTime_def js_mult_def js_add_def Let_def)
  with Suc.IH show ?case by fastforce
qed simp

lemma visits_hang:
  "visits random cv baseline budget timer k s = Some r \<Longrightarrow> baseline = Some a \<Longrightarrow> a \<le> 0 \<Longrightarrow> budget = Some b \<Longrightarrow> timer = Some t \<Longrightarrow> t < b \<Longrightarrow>
   cv \<noteq> [] \<Longrightarrow> \<forall>v \<in> set cv. 0 \<le> v \<Longrightarrow> \<forall>k. 0 \<le> random k \<and> random k < 1 \<Longrightarrow> False"
proof (induction arbitrary: t rule: visits.raw_induct [rotated, consumes 1, case_names step])
  case (step visits random cv baseline budget timer k s r)
  obtain v where v: "v \<in> set cv" "drawn_crowd random cv k = Some v" using drawn_store step.prems(6,8) by blast
  have "visit_time a v \<le> 0"
    using v(1) step.prems(2,7) by (auto simp: visit_time_def maxCapability_def mult_nonpos_nonneg)
  then have less: "t + visit_time a v < b" using step.prems(5) by linarith
  have "visits random cv baseline budget (Some (t + visit_time a v)) (Suc k) (Suc s) = Some r"
    using step.hyps step.prems(1,3,4,5) less by (simp add: v(2) shop_time_drawn js_add_def Let_def)
  from step.IH [OF this step.prems(1,2,3) refl less step.prems(6,7,8)] show ?case .
qed

text \<open>
  If the time per shop that was entered is not positive, the loop over the visits of the first customer never ends
  and the page hangs, as soon as there is a customer, a time budget and a selected store; without a selected
  store every simulation ends, without a transaction.
\<close>

theorem simulation_hangs:
  assumes "Option.bind (selected attr limit stores) occupancies = Some cv" and "0 < number" and "0 < budget"
    and "\<forall>k. 0 \<le> random k \<and> random k < 1" and "\<forall>v \<in> set cv. 0 \<le> v"
  shows "(cv \<noteq> [] \<and> baseline \<le> 0 \<longrightarrow>
      simulateTransactions random stores (Some number) (Some budget) (Some baseline) limit attr k = Hangs) \<and>
    (cv = [] \<longrightarrow> (\<exists>k'. simulateTransactions random stores (Some number) (Some budget) (Some baseline) limit attr k =
       Returns (k', \<lparr>successful = 0, selected_shops = 0\<rparr>)))"
proof -
  have "simulateTransactions random stores (Some number) (Some budget) (Some baseline) limit attr k = Hangs" if "cv \<noteq> []" "baseline \<le> 0"
  proof -
    have "visits random cv (Some baseline) (Some budget) (Some 0) k 0 = None"
      using visits_hang [of random cv "Some baseline" "Some budget" "Some 0" k 0 _ baseline budget 0] assms(3,4,5) that
      by (cases "visits random cv (Some baseline) (Some budget) (Some 0) k 0") auto
    moreover have "0 < nat \<lceil>number\<rceil>" using assms(2) by simp
    then obtain m where "nat \<lceil>number\<rceil> = Suc m" using gr0_implies_Suc by blast
    ultimately show ?thesis using assms(1) by (simp add: simulateTransactions_def iterations_def)
  qed
  then show ?thesis using assms(1) customers_without_store [of "nat \<lceil>number\<rceil>" random "Some baseline" "Some budget" k 0]
    by (auto simp: simulateTransactions_def iterations_def)
qed

theorem simulation_hangs_witness:
  "simulateTransactions (\<lambda>k. 1 / 2) [sample_store ''a'' 10] (Some 1) (Some 60) (Some 0) (- 1) ''building_occupancy'' 0 = Hangs"
proof -
  have "Option.bind (selected ''building_occupancy'' (- 1) [sample_store ''a'' 10]) occupancies = Some [10]"
    by (simp add: occupancies_def sample_store_def)
  from simulation_hangs [OF this, of 1 60 "\<lambda>k. 1 / 2" 0 0] show ?thesis by simp
qed

section \<open>What the percentage selects\<close>

lemma selected_filter:
  "selected attr limit es = (if 0 \<le> limit \<and> (\<exists>e \<in> set es. store_value e attr = None) then None
     else Some (filter (\<lambda>e. limit < 0 \<or> (\<exists>v. store_value e attr = Some v \<and> v < limit)) es))"
  by (induction es) (auto split: option.split)

lemma filter_implied_length:
  assumes "\<And>x. x \<in> set xs \<Longrightarrow> P x \<Longrightarrow> Q x"
  shows "length (filter P xs) \<le> length (filter Q xs)"
  using assms by (induction xs) auto

lemma those_lengthD: "those xs = Some ys \<Longrightarrow> length ys = length xs"
  by (induction xs arbitrary: ys) (auto split: option.splits)

lemma those_map_total: "(\<And>x. x \<in> set xs \<Longrightarrow> f x \<noteq> None) \<Longrightarrow> those (map f xs) = Some (map (the \<circ> f) xs)"
  by (induction xs) (fastforce split: option.split)+

lemma occupancies_total:
  "(\<And>e. e \<in> set es \<Longrightarrow> store_value e ''building_occupancy'' \<noteq> None) \<Longrightarrow>
   occupancies es = Some (map (\<lambda>e. the (store_value e ''building_occupancy'')) es)"
  by (simp add: occupancies_def those_map_total comp_def)

text \<open>The loop of the table takes the stores that the loop of the simulation takes.\<close>

lemma table_loop_selected:
  "table_loop attr limit properties es (rs, n, a) =
     do { fs \<leftarrow> selected attr limit es;
          rows \<leftarrow> those (map (table_row properties) fs);
          vs \<leftarrow> occupancies fs;
          Some (rs @ rows, n + length fs, a + sum_list vs) }"
proof (induction es arbitrary: rs n a)
  case (Cons e es)
  show ?case
    by (cases "selected attr limit es")
      (auto simp: Cons.IH occupancies_def ac_simps map_option_case split: option.split if_splits)
qed (simp add: occupancies_def)

lemma createWishedStoreTable_eq:
  "createWishedStoreTable stores attr limit properties =
     do { es \<leftarrow> selected attr limit stores;
          rows \<leftarrow> those (map (table_row properties) es);
          vs \<leftarrow> occupancies es;
          Some \<lparr>table_rows = rows, shopsCount = length es,
                averageOccupancy = (if es = [] then None else Some (sum_list vs / of_nat (length es)))\<rparr> }"
  by (cases "selected attr limit stores")
    (simp_all add: createWishedStoreTable_def table_loop_selected split: Option.bind_split)

lemma table_limit_eq: "table_limit percentage = occupancy_limit percentage"
  by (simp add: table_limit_def occupancy_limit_def)

text \<open>The simulation counts the stores that the table for the same limit lists.\<close>

lemma table_counts_simulated_stores:
  assumes "createWishedStoreTable stores attr limit properties = Some t"
    and "simulateTransactions random stores number budget baseline limit attr k = Returns (k', r)"
  shows "selected_shops r = shopsCount t \<and> length (table_rows t) = shopsCount t"
  using assms
  by (auto simp: createWishedStoreTable_eq simulateTransactions_def occupancies_def bind_eq_Some_conv
    dest!: those_lengthD split: option.splits prod.splits)

text \<open>
  The table of a percentage lists stores below it only, so that a visit to any of them waits for less than that share of the
  time per shop; the average is below the limit too.
\<close>

lemma suggested_stores_wait_less:
  assumes "0 \<le> percentage" and "0 < baseline" and "e \<in> set es" and "store_value e attr = Some v"
    and "selected attr (occupancy_limit percentage) stores = Some es"
  shows "\<exists>w. getWaitingTime (Some v) (Some baseline) = Some w \<and> w < percentage / 100 * baseline"
proof -
  have "0 \<le> occupancy_limit percentage" using assms(1) by (simp add: occupancy_limit_def maxCapability_def)
  then have "v < occupancy_limit percentage" using assms(3,4,5) by (auto simp: selected_filter split: if_splits)
  then have "v / maxCapability < percentage / 100" by (simp add: occupancy_limit_def maxCapability_def field_simps)
  then have "v / maxCapability * baseline < percentage / 100 * baseline" using assms(2) by (rule mult_strict_right_mono)
  then show ?thesis by (simp add: getWaitingTime_def js_mult_def)
qed

lemma sum_below:
  fixes vs :: "rat list"
  assumes "\<forall>v \<in> set vs. v < b" and "vs \<noteq> []"
  shows "sum_list vs / of_nat (length vs) < b"
proof -
  from assms have "sum_list vs < of_nat (length vs) * b"
  proof (induction vs)
    case (Cons v vs)
    then show ?case by (cases "vs = []") (auto simp: algebra_simps)
  qed simp
  then show ?thesis using assms(2) by (simp add: pos_divide_less_eq mult.commute)
qed

lemma average_below_limit:
  assumes "0 \<le> limit" and "createWishedStoreTable stores ''building_occupancy'' limit properties = Some t" and "averageOccupancy t = Some a"
  shows "a < limit"
proof -
  obtain es vs where es: "selected ''building_occupancy'' limit stores = Some es" and vs: "occupancies es = Some vs"
      and a: "es \<noteq> []" "a = sum_list vs / of_nat (length es)"
    using assms(2,3) by (auto simp: createWishedStoreTable_eq bind_eq_Some_conv split: if_splits)
  have "e \<in> set es \<Longrightarrow> \<exists>v. store_value e ''building_occupancy'' = Some v \<and> v < limit" for e
    using es assms(1) by (auto simp: selected_filter split: if_splits)
  then have below: "\<And>e. e \<in> set es \<Longrightarrow> store_value e ''building_occupancy'' \<noteq> None \<and> the (store_value e ''building_occupancy'') < limit" by fastforce
  then have "vs = map (\<lambda>e. the (store_value e ''building_occupancy'')) es" using vs by (simp add: occupancies_total)
  then show ?thesis using sum_below [of vs limit] below a by auto
qed

section \<open>The charts\<close>

abbreviation complete_stores :: "wished_store list \<Rightarrow> bool" where
  "complete_stores stores \<equiv> \<forall>e \<in> set stores. store_value e ''building_occupancy'' \<noteq> None \<and> store_value e ''predicted_building_occupancy_linreg'' \<noteq> None"

definition below :: "string \<Rightarrow> rat \<Rightarrow> wished_store \<Rightarrow> bool" where
  "below attr limit e = (limit < 0 \<or> (\<exists>v. store_value e attr = Some v \<and> v < limit))"

lemma selected_complete:
  assumes "complete_stores stores" and "attr \<in> {''building_occupancy'', ''predicted_building_occupancy_linreg''}"
  shows "Option.bind (selected attr limit stores) occupancies =
     Some (map (\<lambda>e. the (store_value e ''building_occupancy'')) (filter (below attr limit) stores))"
proof -
  have "selected attr limit stores = Some (filter (below attr limit) stores)"
    using assms by (auto simp: selected_filter below_def intro!: filter_cong)
  moreover have "occupancies (filter (below attr limit) stores) =
      Some (map (\<lambda>e. the (store_value e ''building_occupancy'')) (filter (below attr limit) stores))"
    using assms(1) by (intro occupancies_total) simp
  ultimately show ?thesis by simp
qed

lemma simulation_selects:
  assumes "complete_stores stores" and "\<forall>e \<in> set stores. 0 \<le> the (store_value e ''building_occupancy'')" and "0 < baseline"
    and "\<forall>k. 0 \<le> random k \<and> random k < 1" and "attr \<in> {''building_occupancy'', ''predicted_building_occupancy_linreg''}"
  shows "\<exists>k' r. simulateTransactions random stores (Some number) (Some budget) (Some baseline) limit attr k = Returns (k', r) \<and>
     selected_shops r = length (filter (below attr limit) stores)"
proof -
  define cv where "cv = map (\<lambda>e. the (store_value e ''building_occupancy'')) (filter (below attr limit) stores)"
  have sel: "Option.bind (selected attr limit stores) occupancies = Some cv" using selected_complete assms(1,5) by (simp add: cv_def)
  show ?thesis
  proof (cases "cv = []")
    case True
    then show ?thesis using sel customers_without_store [of "nat \<lceil>number\<rceil>" random "Some baseline" "Some budget" k 0]
      by (auto simp: simulateTransactions_def iterations_def cv_def)
  next
    case False
    have "\<forall>v \<in> set cv. 0 \<le> v \<and> v \<le> Max (set cv)" using assms(2) by (auto simp: cv_def)
    from simulation_between [OF sel False this order_refl assms(3,4)] show ?thesis by (fastforce simp: cv_def)
  qed
qed

lemma below_mono: "\<lbrakk>0 \<le> l; l \<le> l'; below attr l e\<rbrakk> \<Longrightarrow> below attr l' e"
  by (auto simp: below_def)

definition at_percentage :: "wished_store list \<Rightarrow> string \<Rightarrow> nat \<Rightarrow> nat" where
  "at_percentage stores attr p = length (filter (below attr (occupancy_limit (of_nat p))) stores)"

lemma at_percentage_mono: "p \<le> q \<Longrightarrow> at_percentage stores attr p \<le> at_percentage stores attr q"
  unfolding at_percentage_def
proof (rule filter_implied_length)
  fix e assume "p \<le> q" and "below attr (occupancy_limit (of_nat p)) e"
  moreover have "0 \<le> occupancy_limit (of_nat p)" by (simp add: occupancy_limit_def maxCapability_def)
  moreover have "occupancy_limit (of_nat p) \<le> occupancy_limit (of_nat q)" using \<open>p \<le> q\<close>
    by (simp add: occupancy_limit_def maxCapability_def)
  ultimately show "below attr (occupancy_limit (of_nat q)) e" by (metis below_mono)
qed

definition shop_points :: "(nat \<times> simulation) list \<Rightarrow> (nat \<times> nat) list" where
  "shop_points = map (map_prod id selected_shops)"

lemma simulate_all_selects:
  assumes "complete_stores stores" and "\<forall>e \<in> set stores. 0 \<le> the (store_value e ''building_occupancy'')" and "0 < baseline"
    and "\<forall>k. 0 \<le> random k \<and> random k < 1"
  shows "\<exists>k' c'. simulate_all random stores (Some number) (Some budget) (Some baseline) ps k c = Returns (k', c') \<and>
    shop_points (noContext c') = shop_points (noContext c) @ map (\<lambda>p. (p, length stores)) ps \<and>
    shop_points (peopleCount c') = shop_points (peopleCount c) @ map (\<lambda>p. (p, at_percentage stores ''building_occupancy'' p)) ps \<and>
    shop_points (predictionLinReg c') =
      shop_points (predictionLinReg c) @ map (\<lambda>p. (p, at_percentage stores ''predicted_building_occupancy_linreg'' p)) ps"
proof (induction ps arbitrary: k c)
  case (Cons p ps)
  note sim = simulation_selects [OF assms, where number = number and budget = budget]
  let ?l = "occupancy_limit (of_nat p)"
  obtain k1 r1 where 1: "simulateTransactions random stores (Some number) (Some budget) (Some baseline) (- 1) ''building_occupancy'' k = Returns (k1, r1)"
      "selected_shops r1 = length stores"
    using sim [where attr = "''building_occupancy''" and limit = "- 1" and k = k] by (auto simp: below_def)
  obtain k2 r2 where 2: "simulateTransactions random stores (Some number) (Some budget) (Some baseline) ?l ''building_occupancy'' k1 = Returns (k2, r2)"
      "selected_shops r2 = at_percentage stores ''building_occupancy'' p"
    using sim [where attr = "''building_occupancy''" and limit = ?l and k = k1] by (auto simp: at_percentage_def)
  obtain k3 r3 where 3: "simulateTransactions random stores (Some number) (Some budget) (Some baseline) ?l ''predicted_building_occupancy_linreg'' k2 = Returns (k3, r3)"
      "selected_shops r3 = at_percentage stores ''predicted_building_occupancy_linreg'' p"
    using sim [where attr = "''predicted_building_occupancy_linreg''" and limit = ?l and k = k2] by (auto simp: at_percentage_def)
  let ?c = "\<lparr>noContext = noContext c @ [(p, r1)], peopleCount = peopleCount c @ [(p, r2)], predictionLinReg = predictionLinReg c @ [(p, r3)]\<rparr>"
  have "simulate_percentage random stores (Some number) (Some budget) (Some baseline) p k c = Returns (k3, ?c)"
    by (simp add: simulate_percentage_def 1 2 3)
  with Cons.IH [of k3 ?c] 1 2 3 show ?case by (simp add: shop_points_def)
qed (simp add: shop_points_def)

text \<open>The tables for a percentage count the stores that the simulations for it select.\<close>

lemma table_of_percentage:
  assumes "complete_stores stores" and "attr \<in> {''building_occupancy'', ''predicted_building_occupancy_linreg''}"
    and "\<forall>e \<in> set stores. \<forall>p \<in> set properties. store_value e p \<noteq> None"
  shows "\<exists>t. createWishedStoreTable stores attr (table_limit (of_nat p)) properties = Some t \<and>
    shopsCount t = at_percentage stores attr p \<and> length (table_rows t) = at_percentage stores attr p"
proof -
  let ?es = "filter (below attr (occupancy_limit (of_nat p))) stores"
  have "selected attr (occupancy_limit (of_nat p)) stores = Some ?es"
    using assms(1,2) by (auto simp: selected_filter below_def intro!: filter_cong)
  moreover have "those (map (store_value e) properties) \<noteq> None" if "e \<in> set stores" for e
    using those_map_total [of properties "store_value e"] assms(3) that by simp
  then have "those (map (table_row properties) ?es) = Some (map (the \<circ> table_row properties) ?es)"
    by (intro those_map_total) (auto simp: table_row_def)
  moreover have "occupancies ?es = Some (map (\<lambda>e. the (store_value e ''building_occupancy'')) ?es)"
    using assms(1) by (intro occupancies_total) simp
  ultimately show ?thesis by (simp add: createWishedStoreTable_eq table_limit_eq at_percentage_def)
qed

text \<open>
  Claim C26. With stores that carry both occupancies and a positive time per shop, in exact arithmetic, pressing the button draws both charts: every line
  has one point for each percentage from 5 to 100; without context every store is selected at every
  percentage, and with it the number of selected stores is what the table of the page counts for the percentage and the number of its rows (for the
  prediction, of stores that also have the third attribute of its table), never decreases with the
  percentage, and never exceeds that without context.
\<close>

theorem charts_complete:
  assumes "complete_stores stores" and "\<forall>e \<in> set stores. 0 \<le> the (store_value e ''building_occupancy'')" and "0 < baseline"
    and "\<forall>k. 0 \<le> random k \<and> random k < 1"
  shows "\<exists>k c. runSimulations random (Some stores) (Some number) (Some budget) (Some baseline) = Returns (k, c) \<and>
    shop_points (noContext c) = map (\<lambda>p. (p, length stores)) percentages \<and>
    (\<forall>s \<in> {peopleCount c, predictionLinReg c}.
       map fst (shop_points s) = percentages \<and> sorted (map snd (shop_points s)) \<and> (\<forall>(p, n) \<in> set (shop_points s). n \<le> length stores)) \<and>
    (\<forall>(p, n) \<in> set (shop_points (peopleCount c)).
       \<exists>t. createWishedStoreTable_peopleCount (of_nat p) stores = Some t \<and> shopsCount t = n \<and> length (table_rows t) = n) \<and>
    ((\<forall>e \<in> set stores. store_value e ''CO2'' \<noteq> None) \<longrightarrow>
       (\<forall>(p, n) \<in> set (shop_points (predictionLinReg c)).
          \<exists>t. createWishedStoreTable_predictedLinReg (of_nat p) stores = Some t \<and> shopsCount t = n \<and> length (table_rows t) = n))"
proof -
  obtain k c where *: "simulate_all random stores (Some number) (Some budget) (Some baseline) percentages 0
        \<lparr>noContext = [], peopleCount = [], predictionLinReg = []\<rparr> = Returns (k, c)"
      "shop_points (noContext c) = map (\<lambda>p. (p, length stores)) percentages"
      "shop_points (peopleCount c) = map (\<lambda>p. (p, at_percentage stores ''building_occupancy'' p)) percentages"
      "shop_points (predictionLinReg c) = map (\<lambda>p. (p, at_percentage stores ''predicted_building_occupancy_linreg'' p)) percentages"
    using simulate_all_selects [OF assms, where number = number and budget = budget and ps = percentages and k = 0 and c = "\<lparr>noContext = [], peopleCount = [], predictionLinReg = []\<rparr>"]
    by (auto simp: shop_points_def)
  have mono: "sorted (map (at_percentage stores attr) percentages)" for attr
    by (auto simp: percentages_def sorted_iff_nth_mono intro: at_percentage_mono simp del: upt_rec_numeral)
  have le: "at_percentage stores attr p \<le> length stores" for attr p by (simp add: at_percentage_def)
  have people: "\<exists>t. createWishedStoreTable_peopleCount (of_nat p) stores = Some t \<and> shopsCount t = at_percentage stores ''building_occupancy'' p \<and>
      length (table_rows t) = at_percentage stores ''building_occupancy'' p" for p
    unfolding createWishedStoreTable_peopleCount_def by (rule table_of_percentage [OF assms(1)]) (use assms(1) in auto)
  have linreg: "\<exists>t. createWishedStoreTable_predictedLinReg (of_nat p) stores = Some t \<and>
      shopsCount t = at_percentage stores ''predicted_building_occupancy_linreg'' p \<and>
      length (table_rows t) = at_percentage stores ''predicted_building_occupancy_linreg'' p"
    if "\<forall>e \<in> set stores. store_value e ''CO2'' \<noteq> None" for p
    unfolding createWishedStoreTable_predictedLinReg_def by (rule table_of_percentage [OF assms(1)]) (use assms(1) that in auto)
  show ?thesis
    using mono le people linreg by (intro exI [of _ k] exI [of _ c]) (simp add: runSimulations_def * comp_def)
qed

theorem charts_complete_witness:
  "\<exists>k c. runSimulations (\<lambda>k. 1 / 2) (Some [sample_store ''a'' 0, sample_store ''b'' 443]) (Some 10) (Some 60) (Some 15) = Returns (k, c) \<and>
    shop_points (noContext c) = map (\<lambda>p. (p, 2)) percentages \<and> map fst (shop_points (peopleCount c)) = percentages \<and>
    (\<forall>(p, n) \<in> set (shop_points (peopleCount c)).
       \<exists>t. createWishedStoreTable_peopleCount (of_nat p) [sample_store ''a'' 0, sample_store ''b'' 443] = Some t \<and> shopsCount t = n)"
  using charts_complete [of "[sample_store ''a'' 0, sample_store ''b'' 443]" 15 "\<lambda>k. 1 / 2" 10 60]
  by (fastforce simp: sample_store_def numeral_2_eq_2)

end
