(* ===== verification/Portal.thy ===== *)
theory Portal
  imports Designer_Restart Operator_Link
begin

text \<open>
  The main page of the designer, \<open>designer/public/js/index.js\<close>: the registration of devices and subscriptions, their removal,
  the patch of a task and the queries for entities, together with the handlers of the designer that answer them.

  The texts of the form are arguments, and so is what \<open>JSON.parse\<close> makes of the mapping rules, with \<open>None\<close> for a text
  that is no JSON.  The positions of the map are values of their own.
\<close>

section \<open>The registration of a device\<close>

text \<open>The variables of the page; a file name that was never chosen is \<open>null\<close>.\<close>

record portal =
  locationOfNewDevice :: "(jval \<times> jval) option"
  iconImage :: "string option"
  iconImageFileName :: jval
  contentImage :: "string option"
  contentImageFileName :: jval

definition init_portal :: portal where
  "init_portal = \<lparr>locationOfNewDevice = None, iconImage = None, iconImageFileName = JNull, contentImage = None, contentImageFileName = JNull\<rparr>"

definition readIconImage :: "string \<Rightarrow> string \<Rightarrow> portal \<Rightarrow> portal" where
  "readIconImage name data p = p\<lparr>iconImage := Some data, iconImageFileName := JStr name\<rparr>"

definition readContentImage :: "string \<Rightarrow> string \<Rightarrow> portal \<Rightarrow> portal" where
  "readContentImage name data p = p\<lparr>contentImage := Some data, contentImageFileName := JStr name\<rparr>"

definition marker_created :: "jval \<Rightarrow> jval \<Rightarrow> portal \<Rightarrow> portal" where
  "marker_created lat lng p = p\<lparr>locationOfNewDevice := Some (lat, lng)\<rparr>"

record device_form =
  deviceID :: string
  deviceProtocol :: string
  deviceType :: string
  mqttbrokerURL :: string
  topic :: string
  mappingRules :: string

datatype portal_effect = Alert string | Upload string jval string | PostDevice jval

definition typed_value :: "string \<Rightarrow> jval \<Rightarrow> jval" where
  "typed_value t v = JObj [(''type'', JStr t), (''value'', v)]"

definition default_icon :: "string \<Rightarrow> string" where
  "default_icon type =
     (if type = ''PowerPanel'' then ''shop.png'' else if type = ''Camera'' then ''camera.png'' else ''defaultIcon.png'')"

definition choose_icon :: "device_form \<Rightarrow> portal \<Rightarrow> portal" where
  "choose_icon f p = (if iconImage p \<noteq> None then p else p\<lparr>iconImageFileName := JStr (default_icon (deviceType f))\<rparr>)"

text \<open>The attributes and the metadata of the device, in the order in which they are assigned.\<close>

definition device_attributes :: "(string \<Rightarrow> jval option) \<Rightarrow> string \<Rightarrow> device_form \<Rightarrow> portal \<Rightarrow> named list" where
  "device_attributes JSON_parse server f p =
     [(''protocol'', ''string'', JStr (deviceProtocol f))] @
     (if mqttbrokerURL f \<noteq> [] then [(''mqttbroker'', ''string'', JStr (mqttbrokerURL f))] else []) @
     (if deviceProtocol f = ''MQTT'' \<and> deviceType f = ''HOPU'' then [(''topic'', ''string'', JStr (topic f))] else []) @
     (case JSON_parse (mappingRules f) of Some v \<Rightarrow> if mappingRules f \<noteq> [] then [(''mappings'', ''object'', v)] else [] | None \<Rightarrow> []) @
     [(''url'', ''string'', JStr (''http://'' @ server @ ''/photo/'' @ js_str (contentImageFileName p))),
      (''iconURL'', ''string'', JStr (''/photo/'' @ js_str (iconImageFileName p)))] @
     (if deviceType f = ''PowerPanel'' then [(''usage'', ''integer'', JNum 20), (''shop'', ''string'', JStr (deviceID f))] else [])"

definition device_metadata :: "jval \<Rightarrow> jval \<Rightarrow> device_form \<Rightarrow> named list" where
  "device_metadata lat lng f =
     [(''location'', ''point'', JObj [(''latitude'', lat), (''longitude'', lng)])] @
     (if deviceType f = ''PowerPanel'' then [(''shop'', ''string'', JStr (deviceID f))]
      else if deviceType f = ''Camera'' then [(''cameraID'', ''string'', JStr (deviceID f))]
      else [])"

definition typed_fields :: "named list \<Rightarrow> jval" where
  "typed_fields as = JObj (map (\<lambda>(n, t, v). (n, typed_value t v)) as)"

definition newDeviceObject :: "(string \<Rightarrow> jval option) \<Rightarrow> string \<Rightarrow> device_form \<Rightarrow> jval \<Rightarrow> jval \<Rightarrow> portal \<Rightarrow> jval" where
  "newDeviceObject JSON_parse server f lat lng p =
     JObj [(''id'', JStr (deviceID f)), (''type'', JStr (deviceType f)),
           (''attributes'', typed_fields (device_attributes JSON_parse server f p)),
           (''metadata'', typed_fields (device_metadata lat lng f))]"

definition registerNewDevice :: "(string \<Rightarrow> jval option) \<Rightarrow> string \<Rightarrow> device_form \<Rightarrow> portal \<Rightarrow> portal \<times> portal_effect list" where
  "registerNewDevice JSON_parse server f p =
     (case locationOfNewDevice p of
        None \<Rightarrow> (p, [Alert ''please provide the required inputs''])
      | Some (lat, lng) \<Rightarrow>
          if deviceID f = [] \<or> deviceType f = [] then (p, [Alert ''please provide the required inputs''])
          else if mappingRules f \<noteq> [] \<and> JSON_parse (mappingRules f) = None
          then (p, [Alert ''please provide the required inputs for the mapping rules''])
          else
            (let p1 = choose_icon f p in
             (p1,
              (case iconImage p of Some d \<Rightarrow> [Upload ''/photo'' (iconImageFileName p) d] | None \<Rightarrow> []) @
              (case contentImage p of Some d \<Rightarrow> [Upload ''/photo'' (contentImageFileName p) d] | None \<Rightarrow> []) @
              [PostDevice (newDeviceObject JSON_parse server f lat lng p1)])))"

section \<open>The other requests of the page\<close>

text \<open>The uploaded files and those that are served: the route of the uploads, and the static files under \<open>public\<close>.\<close>

definition post_photo :: "string \<Rightarrow> string \<Rightarrow> string \<Rightarrow> (string \<Rightarrow> string option) \<Rightarrow> (string \<Rightarrow> string option) \<times> nat" where
  "post_photo path fieldname data files =
     (if path = ''/data/photo'' then (files(''./public/data/photo/'' @ fieldname \<mapsto> data), 200) else (files, 404))"

definition get_static :: "string \<Rightarrow> (string \<Rightarrow> string option) \<Rightarrow> string option" where
  "get_static path files = files (''./public'' @ path)"

record subscription_form =
  entityType :: string
  destinationBroker :: string
  referenceURL :: string
  tenant :: string

definition new_subscription :: "subscription_form \<Rightarrow> props" where
  "new_subscription f =
     [(''entity_type'', JStr (entityType f)), (''destination_broker'', JStr (destinationBroker f)),
      (''reference_url'', JStr (referenceURL f)), (''tenant'', JStr (tenant f))]"

definition refetch_patch :: "jval \<Rightarrow> jval \<Rightarrow> jval" where
  "refetch_patch taskID worker =
     JObj [(''taskId'', taskID), (''workerId'', worker), (''patchType'', JStr ''REFETCH''), (''patch'', JStr [])]"

definition showRunningTasks_query :: "string \<Rightarrow> jval" where
  "showRunningTasks_query nodeID =
     JObj [(''entities'', JArr [JObj [(''type'', JStr ''Task''), (''isPattern'', JBool True)]]),
           (''restriction'', JObj [(''scopes'', JArr [JObj [(''scopeType'', JStr ''stringQuery''), (''scopeValue'', JStr (''worker='' @ nodeID))]])])]"

definition all_entities :: jval where
  "all_entities = JObj [(''entities'', JArr [JObj [(''id'', JStr ''.*''), (''isPattern'', JBool True)]])]"

text \<open>The entities of the selected scope: those of every broker, or the elements that one broker stores.\<close>

definition scope_entities :: "axios \<Rightarrow> string \<Rightarrow> (string \<Rightarrow> jval list option) \<Rightarrow> string \<Rightarrow> jval list option" where
  "scope_entities axios brokerURL fetch_list selectedScope =
     (if selectedScope = ''ALL''
      then (case queryContext axios brokerURL all_entities of Inr (JArr es) \<Rightarrow> Some es | _ \<Rightarrow> None)
      else Option.bind (fetch_list (selectedScope @ ''/entity'')) (\<lambda>es. those (map CtxElement2JSONObject es)))"

section \<open>What is registered\<close>

definition device_element :: "(string \<Rightarrow> jval option) \<Rightarrow> string \<Rightarrow> device_form \<Rightarrow> jval \<Rightarrow> jval \<Rightarrow> portal \<Rightarrow> element" where
  "device_element JSON_parse server f lat lng p =
     \<lparr>Entity = \<lparr>eid_type = deviceType f, eid_isPattern = False, eid_id = deviceID f\<rparr>,
      Attributes = device_attributes JSON_parse server f p, Metadata = device_metadata lat lng f\<rparr>"

lemma typed_fields_json:
  "list_all (\<lambda>(n, t, v). t \<noteq> []) as \<Longrightarrow> typed_fields as = JObj (named_props (json_named as))"
  by (induction as) (auto simp: typed_fields_def named_props_def json_named_def json_string_def typed_value_def)

lemma device_fields_typed:
  "list_all (\<lambda>(n, t, v). t \<noteq> []) (device_attributes JSON_parse server f p)" "list_all (\<lambda>(n, t, v). t \<noteq> []) (device_metadata lat lng f)"
  by (simp_all add: device_attributes_def device_metadata_def split: option.split)

definition device_key_of :: "device_form \<Rightarrow> props" where
  "device_key_of f = [(''id'', JStr (deviceID f)), (''type'', JStr (deviceType f)), (''isPattern'', JBool False)]"

text \<open>The device as the designer stores it, with the identifier of its entity.\<close>

definition stored_device :: "(string \<Rightarrow> jval option) \<Rightarrow> string \<Rightarrow> device_form \<Rightarrow> jval \<Rightarrow> jval \<Rightarrow> portal \<Rightarrow> jval" where
  "stored_device JSON_parse server f lat lng p =
     (case newDeviceObject JSON_parse server f lat lng p of JObj ps \<Rightarrow> JObj (ps @ [(''entityId'', JObj (device_key_of f))]) | v \<Rightarrow> v)"

lemma stored_device_element:
  "JSONObject2CtxElement (stored_device JSON_parse server f lat lng p) =
     Some (ctx_element (JObj (device_key_of f)) (json_named (device_attributes JSON_parse server f p)) (json_named (device_metadata lat lng f)))"
  by (simp add: JSONObject2CtxElement_def stored_device_def newDeviceObject_def typed_fields_json device_fields_typed named_list_props
      ctx_element_def js_access js_literal)

lemma stored_device_posted:
  "\<exists>rq. posted_updates rq = [device_element JSON_parse server f lat lng p] \<and>
     (\<forall>axios. updateContext axios u (stored_device JSON_parse server f lat lng p) = Some (axios_200 axios rq Some))"
proof -
  let ?rq = "post_req (u @ ''/updateContext'') JUndef (update_req_body (ctx_element (JObj (device_key_of f))
    (json_named (device_attributes JSON_parse server f p)) (json_named (device_metadata lat lng f))) ''UPDATE'')"
  have "parse_entity (JObj (device_key_of f)) = Some \<lparr>eid_type = deviceType f, eid_isPattern = False, eid_id = deviceID f\<rparr>"
    by (simp add: device_key_of_def js_access)
  then have "posted_updates ?rq = [device_element JSON_parse server f lat lng p]"
    by (simp add: posted_updates_element device_element_def del: parse_entity.simps)
  then show ?thesis by (intro exI [of _ ?rq]) (simp add: updateContext_def stored_device_element)
qed

lemma post_new_device:
  "post_device (newDeviceObject JSON_parse server f lat lng p) s =
     (s, Awaiting (OnDeviceCreated (deviceID f) (stored_device JSON_parse server f lat lng p)))"
proof -
  let ?d = "newDeviceObject JSON_parse server f lat lng p"
  have "device_entity ?d = Some (stored_device JSON_parse server f lat lng p)"
    by (simp add: device_entity_def newDeviceObject_def stored_device_def device_key_of_def js_access js_literal)
  moreover have "device_id ?d s = Some (deviceID f, s)"
    by (simp add: device_id_def newDeviceObject_def dict_hasOwn_def js_access)
  moreover have "isEmpty ?d = Some False"
    by (simp add: newDeviceObject_def has_own_def)
  ultimately show ?thesis by (simp add: post_device_def stored_device_element)
qed

lemma device_created:
  "\<exists>rq. posted_updates rq = [device_element JSON_parse server f lat lng p] \<and>
     (\<forall>axios s. complete axios u (post_device (newDeviceObject JSON_parse server f lat lng p) s) =
        (case axios rq of
           Inl e \<Rightarrow> (s, Status 500)
         | Inr r \<Rightarrow> (db_write (s\<lparr>devices := obj_put (deviceID f) (stored_device JSON_parse server f lat lng p) (devices s)\<rparr>), Status 200)))"
proof -
  obtain rq where "posted_updates rq = [device_element JSON_parse server f lat lng p]"
      "\<And>axios. updateContext axios u (stored_device JSON_parse server f lat lng p) = Some (axios_200 axios rq Some)"
    using stored_device_posted by metis
  then show ?thesis
    by (intro exI [of _ rq])
      (auto simp: post_new_device complete_def resume_def on_device_created_def axios_200_Some split: sum.split)
qed

lemma device_deleted:
  "\<exists>rq. posted_deletes rq = [did] \<and>
     (\<forall>axios s. dict_hasOwn (devices s) did = Some True \<longrightarrow>
        complete axios u (delete_device did s) =
          (case axios rq of
             Inl e \<Rightarrow> (s, Status 500)
           | Inr r \<Rightarrow> (db_write (s\<lparr>devices := obj_del did (devices s)\<rparr>), Status 200)))"
proof -
  let ?rq = "post_req (u @ ''/updateContext'') JUndef (update_req_body (JObj (obj_of [(''entityId'', device_key did)])) ''DELETE'')"
  have "posted_deletes ?rq = [did]"
    by (simp add: posted_deletes_def post_req_def update_req_body_def device_key_def js_literal js_access)
  then show ?thesis
    by (intro exI [of _ ?rq])
      (auto simp: delete_device_def complete_def resume_def on_device_deleted_def deleteContext_def axios_200_Some split: sum.split)
qed

definition complete_form :: "(string \<Rightarrow> jval option) \<Rightarrow> device_form \<Rightarrow> bool" where
  "complete_form JSON_parse f =
     (deviceID f \<noteq> [] \<and> deviceType f \<noteq> [] \<and> (mappingRules f = [] \<or> JSON_parse (mappingRules f) \<noteq> None))"

lemma registerNewDevice_cases:
  "registerNewDevice JSON_parse server f p =
     (case locationOfNewDevice p of
        Some (lat, lng) \<Rightarrow>
          if complete_form JSON_parse f
          then (choose_icon f p,
            (case iconImage p of Some d \<Rightarrow> [Upload ''/photo'' (iconImageFileName p) d] | None \<Rightarrow> []) @
            (case contentImage p of Some d \<Rightarrow> [Upload ''/photo'' (contentImageFileName p) d] | None \<Rightarrow> []) @
            [PostDevice (newDeviceObject JSON_parse server f lat lng (choose_icon f p))])
          else (p, [Alert (if deviceID f = [] \<or> deviceType f = [] then ''please provide the required inputs''
                      else ''please provide the required inputs for the mapping rules'')])
      | None \<Rightarrow> (p, [Alert ''please provide the required inputs'']))"
  by (auto simp: registerNewDevice_def complete_form_def Let_def split: option.split)

text \<open>
  Claim C14. A device whose form is complete is posted once, after the uploads of its images; the designer lists it, under the
  identifier that was entered, exactly if the broker did not refuse its entity, which has the attributes and the
  metadata of the form; removing it in the page later removes it from the list and its entity from the broker.
\<close>

theorem device_lifecycle:
  assumes "complete_form JSON_parse f" and "locationOfNewDevice p = Some (lat, lng)"
    and "deviceID f \<noteq> ''__proto__''" and "deviceID f \<noteq> ''hasOwnProperty''" and "\<not> has_own (devices s) ''hasOwnProperty''"
  shows "\<exists>ups d rq del e. registerNewDevice JSON_parse server f p = (choose_icon f p, ups @ [PostDevice d]) \<and>
    (\<forall>x. PostDevice x \<notin> set ups) \<and> posted_updates rq = [e] \<and> posted_deletes del = [deviceID f] \<and>
    e = device_element JSON_parse server f lat lng (choose_icon f p) \<and>
    (\<forall>axios x. axios rq = Inl x \<longrightarrow> complete axios u (post_device d s) = (s, Status 500)) \<and>
    (\<forall>axios r r'. axios rq = Inr r \<and> axios del = Inr r' \<longrightarrow>
       (\<exists>s1 s2. complete axios u (post_device d s) = (s1, Status 200) \<and> map_of (devices s1) (deviceID f) \<noteq> None \<and>
          complete axios u (delete_device (deviceID f) s1) = (s2, Status 200) \<and>
          map_of (devices s2) = (map_of (devices s))(deviceID f := None))) \<and>
    (\<forall>es subs. updateContextElement e es (deviceID f) \<noteq> None \<and>
       fst (deleteEntity subs (deviceID f) (updateContextElement e es)) = es(deviceID f := None))"
proof -
  let ?p = "choose_icon f p"
  let ?dev = "stored_device JSON_parse server f lat lng ?p"
  let ?e = "device_element JSON_parse server f lat lng ?p"
  obtain rq where rq: "posted_updates rq = [?e]"
    "\<And>axios s. complete axios u (post_device (newDeviceObject JSON_parse server f lat lng ?p) s) =
       (case axios rq of Inl e \<Rightarrow> (s, Status 500)
        | Inr r \<Rightarrow> (db_write (s\<lparr>devices := obj_put (deviceID f) ?dev (devices s)\<rparr>), Status 200))"
    using device_created by metis
  obtain del where del: "posted_deletes del = [deviceID f]"
    "\<And>axios s. dict_hasOwn (devices s) (deviceID f) = Some True \<Longrightarrow> complete axios u (delete_device (deviceID f) s) =
       (case axios del of Inl e \<Rightarrow> (s, Status 500) | Inr r \<Rightarrow> (db_write (s\<lparr>devices := obj_del (deviceID f) (devices s)\<rparr>), Status 200))"
    using device_deleted by metis
  let ?s1 = "db_write (s\<lparr>devices := obj_put (deviceID f) ?dev (devices s)\<rparr>)"
  let ?s2 = "db_write (?s1\<lparr>devices := obj_del (deviceID f) (devices ?s1)\<rparr>)"
  have "dict_hasOwn (devices ?s1) (deviceID f) = Some True"
    using assms(3,4,5) by (simp add: dict_hasOwn_def has_own_put)
  then have "axios del = Inr r' \<Longrightarrow> complete axios u (delete_device (deviceID f) ?s1) = (?s2, Status 200)" for axios r'
    by (simp add: del(2))
  moreover have "map_of (devices ?s1) (deviceID f) \<noteq> None" "map_of (devices ?s2) = (map_of (devices s))(deviceID f := None)"
    using assms(3) by (auto simp: map_of_obj_put map_of_obj_del)
  moreover have "updateContextElement ?e es (deviceID f) \<noteq> None \<and>
      fst (deleteEntity subs (deviceID f) (updateContextElement ?e es)) = es(deviceID f := None)" for es subs
    by (auto simp: updateContextElement_def deleteEntity_def device_element_def split: option.split)
  ultimately show ?thesis
    using assms(1,2) rq del(1) by (intro exI conjI) (auto simp: registerNewDevice_cases split: option.splits)
qed

definition sample_device_form :: device_form where
  "sample_device_form = \<lparr>deviceID = ''Camera.01'', deviceProtocol = ''NGSI-v1'', deviceType = ''Camera'', mqttbrokerURL = [], topic = [], mappingRules = []\<rparr>"

theorem device_lifecycle_witness:
  "\<exists>ups d rq. registerNewDevice (\<lambda>t. None) ''host:80'' sample_device_form (marker_created (JNum 35) (JNum 138) init_portal) =
      (choose_icon sample_device_form (marker_created (JNum 35) (JNum 138) init_portal), ups @ [PostDevice d]) \<and>
    map (eid_id \<circ> Entity) (posted_updates rq) = [''Camera.01''] \<and>
    complete (\<lambda>rq. Inl JNull) [] (post_device d sample_designer) = (sample_designer, Status 500)"
proof -
  have "\<not> has_own (devices sample_designer) ''hasOwnProperty''"
    by (simp add: sample_designer_def db_load_default has_own_def split: prod.split)
  from device_lifecycle [OF _ _ _ _ this, of "\<lambda>t. None" sample_device_form "marker_created (JNum 35) (JNum 138) init_portal" "JNum 35" "JNum 138" "''host:80''" "[]"]
  obtain ups d rq e where "registerNewDevice (\<lambda>t. None) ''host:80'' sample_device_form (marker_created (JNum 35) (JNum 138) init_portal) =
      (choose_icon sample_device_form (marker_created (JNum 35) (JNum 138) init_portal), ups @ [PostDevice d])" "posted_updates rq = [e]"
      "e = device_element (\<lambda>t. None) ''host:80'' sample_device_form (JNum 35) (JNum 138) (choose_icon sample_device_form (marker_created (JNum 35) (JNum 138) init_portal))"
      "complete (\<lambda>rq. Inl JNull) [] (post_device d sample_designer) = (sample_designer, Status 500)"
    by (auto simp: complete_form_def sample_device_form_def marker_created_def)
  then show ?thesis by (intro exI [of _ ups] exI [of _ d] exI [of _ rq]) (simp add: device_element_def sample_device_form_def)
qed

section \<open>What stays from one registration to the next\<close>

text \<open>
  The page never forgets a position or an image: once a device was registered, the next one can be submitted without a
  position and is registered at that of the first, and with its icon.
\<close>

theorem next_device_inherits:
  assumes "complete_form JSON_parse f" and "complete_form JSON_parse g" and "locationOfNewDevice p = Some (lat, lng)"
    and "iconImage p = Some d" and "iconImageFileName p = JStr name"
  shows "\<exists>p' ups ups'. registerNewDevice JSON_parse server f p = (p', ups) \<and>
    registerNewDevice JSON_parse server g p' = (p', ups' @ [PostDevice (newDeviceObject JSON_parse server g lat lng p')]) \<and>
    (''iconURL'', ''string'', JStr (''/photo/'' @ name)) \<in> set (device_attributes JSON_parse server g p') \<and>
    (''location'', ''point'', JObj [(''latitude'', lat), (''longitude'', lng)]) \<in> set (device_metadata lat lng g)"
proof -
  have "choose_icon h p = p" for h using assms(4) by (simp add: choose_icon_def)
  with assms show ?thesis by (simp add: registerNewDevice_cases device_attributes_def device_metadata_def)
qed

text \<open>
  An image that is chosen in the form is never stored: the route of the uploads is another one, and the address in the
  device is below a directory that holds no uploaded file.
\<close>

lemma uploaded_image_lost:
  assumes "Upload path name d \<in> set (snd (registerNewDevice JSON_parse server f p))"
  shows "post_photo path (js_str name) d files = (files, 404)"
  using assms by (auto simp: registerNewDevice_cases post_photo_def split: option.splits if_splits)

lemma stored_image_not_served:
  "get_static (''/photo/'' @ name) (fst (post_photo path fieldname d files)) = get_static (''/photo/'' @ name) files"
  by (simp add: get_static_def post_photo_def)

text \<open>A device without an image of its own has the address of a file named \<open>null\<close>.\<close>

lemma device_url_without_image:
  "contentImageFileName p = JNull \<Longrightarrow>
     (''url'', ''string'', JStr (''http://'' @ server @ ''/photo/null'')) \<in> set (device_attributes JSON_parse server f (choose_icon f p))"
  by (simp add: device_attributes_def choose_icon_def)

section \<open>Subscriptions, tasks and entities\<close>

lemma new_subscription_ok: "new_subscription f \<noteq> []" "\<not> has_own (new_subscription f) ''hasOwnProperty''"
  by (simp_all add: new_subscription_def has_own_def)

text \<open>
  A subscription that is entered in the page is stored under the identifier of the broker and can be removed under it; the
  page does not check the fields that it marks as required.
\<close>

lemma subscription_lifecycle:
  assumes "axios (post_req (u @ ''/subscribeContext'') hdr rq) = Inr r" and "rs_status r = 200" and "subscription_id (rs_data r) = Some (JStr sid)"
    and "subscription_headers (JObj (new_subscription f)) = Some hdr" and "subscription_request (JObj (new_subscription f)) = Some rq"
    and "sid \<noteq> ''__proto__''" and "sid \<noteq> ''hasOwnProperty''" and "\<not> has_own (subscriptions s) ''hasOwnProperty''"
    and "unsubscribeContext axios u (JStr sid) = Inr x"
  shows "\<exists>s1 s2. complete axios u (post_subscription (JObj (new_subscription f)) s) = (s1, Status 200) \<and>
    map_of (subscriptions s1) sid = Some (JObj (new_subscription f)) \<and>
    complete axios u (delete_subscription sid s1) = (s2, Status 200) \<and> map_of (subscriptions s2) = (map_of (subscriptions s))(sid := None)"
proof -
  have "isEmpty (JObj (new_subscription f)) = Some False" by (simp add: new_subscription_def has_own_def)
  then have "complete axios u (post_subscription (JObj (new_subscription f)) s) =
      (db_write (s\<lparr>subscriptions := obj_put sid (JObj (new_subscription f)) (subscriptions s)\<rparr>), Status 200)"
    using assms(1-5)
    by (simp add: post_subscription_def complete_def resume_def on_subscribed_def subscribeContextWithHeaders_def axios_200_def settle_def)
  with assms(6-9) show ?thesis
    by (auto simp: delete_subscription_def complete_def resume_def on_unsubscribed_def dict_hasOwn_def has_own_put map_of_obj_put map_of_obj_del)
qed

lemma refetch_published:
  "patch_task (refetch_patch (JStr t) (JStr w)) s =
     (publishMetadata ''TASK_PATCH'' (JObj [(''taskId'', JStr t), (''workerId'', JStr w), (''patchType'', JStr ''REFETCH''), (''patch'', JStr [])]) s, Hanging)"
  by (simp add: patch_task_def refetch_patch_def js_access has_own_def)

text \<open>The list of one broker has what the broker stores, in the form in which an operator is notified of it.\<close>

lemma broker_scope_lists_elements:
  assumes "scope \<noteq> ''ALL''" and "fetch_list (scope @ ''/entity'') = Some (map json_element es)"
  shows "scope_entities axios url fetch_list scope = Some (map notified_object es)"
proof -
  have "those (map (\<lambda>e. CtxElement2JSONObject (json_element e)) es) = Some (map notified_object es)"
    by (induction es) (simp_all add: json_element_def CtxElement2JSONObject_ctx_element notified_object_def)
  with assms show ?thesis by (simp add: scope_entities_def comp_def)
qed

end
