(* ===== verification/City_Console.thy ===== *)
theory City_Console
  imports Home_Gateway
begin

text \<open>
  The console of the city in the page of the smart home, \<open>designer/public/js/smarthome.js\<close>, and the same form in the page of
  the smart industry: a message that is broadcast to the speakers of all homes.
\<close>

definition annoucement :: "string \<Rightarrow> jval" where
  "annoucement selectedType = JObj [(''type'', JStr selectedType), (''audiofile'', JStr ''test.wav'')]"

definition annoucementUpdate :: "string \<Rightarrow> jval" where
  "annoucementUpdate selectedType =
     JObj [(''entityId'', JObj [(''id'', JStr ''Stream.CityConcole.Tokyo''), (''type'', JStr ''Announcement''), (''isPattern'', JBool False)]),
           (''attributes'', JObj [(''annoucement'', JObj [(''type'', JStr ''object''), (''value'', annoucement selectedType)])])]"

definition broadcast :: "jval \<Rightarrow> string \<Rightarrow> http_req option" where
  "broadcast brokerURL selectedType = update_request brokerURL (annoucementUpdate selectedType)"

definition announcement_element :: "string \<Rightarrow> element" where
  "announcement_element selectedType =
     \<lparr>Entity = \<lparr>eid_type = ''Announcement'', eid_isPattern = False, eid_id = ''Stream.CityConcole.Tokyo''\<rparr>,
      Attributes = [(''annoucement'', ''object'', annoucement selectedType)], Metadata = []\<rparr>"

lemma broadcast_posted: "\<exists>rq. broadcast u m = Some rq \<and> posted_updates rq = [announcement_element m]"
proof -
  let ?ps = "[(''id'', JStr ''Stream.CityConcole.Tokyo''), (''type'', JStr ''Announcement''), (''isPattern'', JBool False)]"
  have "JSONObject2CtxElement (annoucementUpdate m) =
      Some (ctx_element (JObj ?ps) (json_named (Attributes (announcement_element m))) (json_named []))"
    by (simp add: JSONObject2CtxElement_def annoucementUpdate_def announcement_element_def ctx_element_def named_elems_def
        json_named_def json_string_def js_access js_literal)
  moreover have "parse_entity (JObj ?ps) = Some (Entity (announcement_element m))" by (simp add: announcement_element_def js_access)
  ultimately have "\<exists>rq. update_request u (annoucementUpdate m) = Some rq \<and>
      posted_updates rq = [\<lparr>Entity = Entity (announcement_element m), Attributes = Attributes (announcement_element m), Metadata = []\<rparr>]"
    by (rule update_request_posted)
  then show ?thesis by (simp add: broadcast_def announcement_element_def)
qed

text \<open>What a subscriber to the attribute is notified of.\<close>

definition announcement_stored :: "entities \<Rightarrow> bool" where
  "announcement_stored es =
     (case es ''Stream.CityConcole.Tokyo'' of
        None \<Rightarrow> True
      | Some e \<Rightarrow> readable_element e \<and> eid_type (Entity e) = ''Announcement'')"

lemma announcement_updated:
  assumes "announcement_stored es"
  shows "\<exists>es' n. UpdateContext2LocalSite [[''annoucement'']] (announcement_element m) es = (es', [n]) \<and> announcement_stored es' \<and>
    readable_element n \<and> eid_type (Entity n) = ''Announcement'' \<and> map_of (Attributes n) ''annoucement'' = Some (''object'', annoucement m) \<and>
    map_of (Attributes n) ''speaker'' = None"
proof -
  obtain n where n: "updateContextElement (announcement_element m) es = es(''Stream.CityConcole.Tokyo'' \<mapsto> n)" "readable_element n"
      "eid_type (Entity n) = ''Announcement''" "map_of (Attributes n) ''annoucement'' = Some (''object'', annoucement m)"
    using element_updated [of "announcement_element m" es] assms
    by (fastforce simp: announcement_element_def readable_element_def [of "announcement_element m", unfolded announcement_element_def]
        announcement_stored_def split: option.splits)
  have "map_of (filter (\<lambda>a. fst a = ''annoucement'') as) ''speaker'' = None" for as :: "named list" by (induction as) auto
  then have "map_of (Attributes (CloneWithSelectedAttributes [''annoucement''] n)) ''speaker'' = None"
    by (simp add: CloneWithSelectedAttributes_def)
  with n selected_readable [where e = n and k = "''annoucement''"] show ?thesis
    by (simp add: UpdateContext2LocalSite_def announcement_stored_def announcement_element_def CloneWithSelectedAttributes_def)
qed

definition broadcast_alert :: "string \<Rightarrow> jval" where
  "broadcast_alert m = JObj [(''type'', JStr ''BROADCAST''), (''value'', annoucement m)]"

lemma speaker_announced:
  assumes "readable_element n" and "eid_type (Entity n) = ''Announcement''" and "map_of (Attributes n) ''annoucement'' = Some (t, annoucement m)"
    and "map_of (Attributes n) ''speaker'' = None" and "k_client r = Some u" and "k_buffer r = []" and "speakerID r = JStr sp"
  shows "speaker_step (Notified (notified sid n)) r = (r\<lparr>k_sent := k_sent r @ [command_request u sp (broadcast_alert m)]\<rparr>, True)"
proof -
  have at: "k_field (k_field (notified_object n) ''attributes'') ''annoucement'' = JObj [(''type'', json_string t), (''value'', annoucement m)]"
      "k_field (k_field (notified_object n) ''attributes'') ''speaker'' = JUndef"
    using assms(3,4) by (simp_all add: notified_attribute [OF assms(1)] object_proto_def json_attribute_def)
  have ty: "Option.bind (jget (notified_object n) ''entityId'') (\<lambda>e. jget e ''type'') = Some (JStr ''Announcement'')"
    using assms(2) by (simp add: notified_object_def json_entity_def js_access js_literal)
  have "speaker_handler (notified_object n) r = (r\<lparr>k_sent := k_sent r @ [command_request u sp (broadcast_alert m)]\<rparr>, True)"
    using assms(5-7)
    by (simp add: speaker_handler_def ty js_eq_JStr handle_announcement_def Let_def attached_speaker_def at js_access
        publish_command broadcast_alert_def)
  then show ?thesis by (simp only: speaker_step.simps notified_eq caught_single fst_conv)
qed

text \<open>
  Claim C24. A message that is broadcast in the console of the city reaches the speaker of every home, whatever home it belongs
  to: each operator that has registered its speaker sends it exactly one command, with the message, and the broker
  then stores this command for the speaker.
\<close>

theorem broadcast_reaches_every_home:
  assumes "announcement_stored es"
    and "\<forall>r \<in> set speakers. \<exists>u sp. k_client r = Some u \<and> k_buffer r = [] \<and> speakerID r = JStr sp"
  shows "\<exists>rq upd es' n. broadcast url m = Some rq \<and> posted_updates rq = [upd] \<and>
    UpdateContext2LocalSite [[''annoucement'']] upd es = (es', [n]) \<and> announcement_stored es' \<and>
    (\<forall>r \<in> set speakers. \<exists>r' c. speaker_step (Notified (notified sid n)) r = (r', True) \<and> new_updates r r' = [c] \<and>
       JStr (eid_id (Entity c)) = speakerID r \<and> Attributes c = [(''command'', ''object'', broadcast_alert m)])"
proof -
  obtain rq where rq: "broadcast url m = Some rq" "posted_updates rq = [announcement_element m]" using broadcast_posted by blast
  obtain es' n where n: "UpdateContext2LocalSite [[''annoucement'']] (announcement_element m) es = (es', [n])" "announcement_stored es'"
      "readable_element n" "eid_type (Entity n) = ''Announcement''" "map_of (Attributes n) ''annoucement'' = Some (''object'', annoucement m)"
      "map_of (Attributes n) ''speaker'' = None"
    using announcement_updated [OF assms(1)] by metis
  have "\<exists>r' c. speaker_step (Notified (notified sid n)) r = (r', True) \<and> new_updates r r' = [c] \<and>
       JStr (eid_id (Entity c)) = speakerID r \<and> Attributes c = [(''command'', ''object'', broadcast_alert m)]"
    if "r \<in> set speakers" for r
  proof -
    from bspec [OF assms(2) that] obtain u sp where r: "k_client r = Some u" "k_buffer r = []" "speakerID r = JStr sp" by (elim exE conjE)
    have "posted_updates (command_request u sp (broadcast_alert m)) =
        [\<lparr>Entity = \<lparr>eid_type = [], eid_isPattern = False, eid_id = sp\<rparr>, Attributes = [(''command'', ''object'', broadcast_alert m)], Metadata = []\<rparr>]"
      unfolding command_request_def
      using posted_updates_element [of "[(''id'', JStr sp), (''isPattern'', JBool False)]" "\<lparr>eid_type = [], eid_isPattern = False, eid_id = sp\<rparr>"
          "js_str u @ ''/updateContext''" JUndef "[(''command'', ''object'', broadcast_alert m)]" "[]"]
      by (simp add: json_named_def json_string_def js_access object_proto_def)
    then show ?thesis
      using speaker_announced [OF n(3-6) r] r by (simp add: new_updates_def)
  qed
  with rq n(1,2) show ?thesis by blast
qed

theorem broadcast_reaches_every_home_witness:
  "\<exists>rq upd es' n r' c. broadcast (JStr ''http://b'') ''Help'' = Some rq \<and> posted_updates rq = [upd] \<and>
    UpdateContext2LocalSite [[''annoucement'']] upd Map.empty = (es', [n]) \<and>
    speaker_step (Notified (notified [] n)) sample_speaker = (r', True) \<and> new_updates sample_speaker r' = [c]"
  using broadcast_reaches_every_home [of Map.empty "[sample_speaker]" "JStr ''http://b''" "''Help''" "[]"]
  by (fastforce simp: announcement_stored_def sample_speaker_def)

end
