(* ===== verification/Awning_Page.thy ===== *)
theory Awning_Page
  imports Operator_Link Location_Operators Controller Geohash
begin

text \<open>
  The page of the smart awning, \<open>designer/public/js/smartawning.js\<close>: the registration of sensors and awnings, a simulated car
  that reports whether it rains, the grid of geohashes on the map, and the way of a report of the car over the operators of
  the service to the command for the awning.

  Coordinates are rationals; \<open>number\<close> is the value of such a number in a message, whose numbers are integers otherwise.
\<close>

section \<open>The grid on the map\<close>

text \<open>\<open>Object.keys(BASE32_CODES_DICT)\<close>: the digits, which are array indices, and then the letters as they were inserted.\<close>

definition grid_range :: string where
  "grid_range = BASE32_CODES"

definition drawGeoHashGrid :: "(string \<times> gbox) list" where
  "drawGeoHashGrid =
     concat (map (\<lambda>hashPrefix. map (\<lambda>n. (hashPrefix @ [n], decode_bbox (hashPrefix @ [n]))) grid_range) [''xn77'', ''xn76''])"

lemma inside_halve_iff: "inside la lo (halve (t mod 2 = 0) c b) \<longleftrightarrow> inside la lo b \<and> c = next_bit (Num la) (Num lo) t b"
  by (cases c) (auto simp: inside_def halve_def next_bit_def midLon_def midLat_def)

lemma inside_narrow_iff:
  "inside la lo (narrow t b cs) \<longleftrightarrow> inside la lo b \<and> cs = trail (Num la) (Num lo) t b (length cs)"
  by (induction cs arbitrary: t b) (auto simp: inside_halve_iff)

lemma inside_decode_bbox:
  assumes "set h \<subseteq> set BASE32_CODES" and "inside la lo world"
  shows "inside la lo (decode_bbox h) \<longleftrightarrow> encode_chars (Num la) (Num lo) (int (length h)) = Some h"
proof -
  have "inside la lo (decode_bbox h) \<longleftrightarrow> hash_bits h = trail (Num la) (Num lo) 0 world (5 * length h)"
    using assms(2) by (simp add: decode_bbox_narrow inside_narrow_iff)
  also have "\<dots> \<longleftrightarrow> spell (trail (Num la) (Num lo) 0 world (5 * length h)) = h"
    using spell_hash_bits [OF assms(1)] hash_bits_spell [of "trail (Num la) (Num lo) 0 world (5 * length h)" "length h"] by auto
  finally show ?thesis by (simp add: encode_chars_spell)
qed

lemma filter_singleton: "distinct xs \<Longrightarrow> filter (\<lambda>y. y = x) xs = (if x \<in> set xs then [x] else [])"
  by (induction xs) auto

definition grid_names :: "string list" where
  "grid_names = concat (map (\<lambda>p. map (\<lambda>n. p @ [n]) BASE32_CODES) [''xn77'', ''xn76''])"

lemma grid_names_distinct: "distinct grid_names"
  by (simp add: grid_names_def distinct_map inj_on_def BASE32_CODES_def) 

lemma grid_names_alphabet: "h \<in> set grid_names \<Longrightarrow> set h \<subseteq> set BASE32_CODES \<and> length h = 5"
  by (auto simp: grid_names_def BASE32_CODES_def)

lemma grid_names_prefix:
  "\<lbrakk>set h \<subseteq> set BASE32_CODES; length h = 5\<rbrakk> \<Longrightarrow> h \<in> set grid_names \<longleftrightarrow> take 4 h = ''xn77'' \<or> take 4 h = ''xn76''"
  by (auto simp: grid_names_def numeral_eq_Suc length_Suc_conv image_iff)

text \<open>
  Claim C15. The rectangles of the grid do not overlap, and the one that contains a position is labelled with the geohash of this
  position: of the grid exactly the rectangle of the encoded position contains it, if its prefix is one of the drawn
  ones, and no rectangle otherwise.
\<close>

theorem grid_labels_positions:
  assumes "-90 < la" and "la \<le> 90" and "-180 < lo" and "lo \<le> 180"
  shows "\<exists>h. encode_chars (Num la) (Num lo) 5 = Some h \<and>
    filter (\<lambda>(label, box). inside la lo box) drawGeoHashGrid =
      (if take 4 h = ''xn77'' \<or> take 4 h = ''xn76'' then [(h, decode_bbox h)] else [])"
proof -
  have w: "inside la lo world" using assms by (simp add: inside_world)
  obtain h where h: "encode_chars (Num la) (Num lo) 5 = Some h" "length h = 5" "set h \<subseteq> set BASE32_CODES"
    using encode_chars_total [of "Num la" "Num lo" 5] by auto
  have grid: "drawGeoHashGrid = map (\<lambda>h. (h, decode_bbox h)) grid_names"
    by (simp add: drawGeoHashGrid_def grid_names_def grid_range_def)
  have "filter (\<lambda>(label, box). inside la lo box) drawGeoHashGrid = map (\<lambda>h. (h, decode_bbox h)) (filter (\<lambda>g. inside la lo (decode_bbox g)) grid_names)"
    by (simp add: grid filter_map comp_def)
  also have "filter (\<lambda>g. inside la lo (decode_bbox g)) grid_names = filter (\<lambda>g. g = h) grid_names"
    using h(1) by (intro filter_cong) (auto dest!: grid_names_alphabet simp: inside_decode_bbox [OF _ w])
  also have "\<dots> = (if take 4 h = ''xn77'' \<or> take 4 h = ''xn76'' then [h] else [])"
    using grid_names_prefix [OF h(3,2)] by (simp add: filter_singleton [OF grid_names_distinct])
  finally show ?thesis using h(1) by simp
qed

theorem grid_labels_positions_witness:
  "\<exists>h. encode_chars (Num (357 / 10)) (Num (6989 / 50)) 5 = Some h \<and>
    filter (\<lambda>(label, box). inside (357 / 10) (6989 / 50) box) drawGeoHashGrid =
      (if take 4 h = ''xn77'' \<or> take 4 h = ''xn76'' then [(h, decode_bbox h)] else [])"
  by (rule grid_labels_positions) simp_all

section \<open>The page\<close>

record awning_page =
  aw_location :: "(rat \<times> rat) option"
  aw_iconImageFileName :: jval
  aw_running :: bool
  aw_shown :: bool
  aw_timerID :: "nat option"
  aw_timers :: "nat list"
  aw_next :: nat
  aw_sent :: "http_req list"

definition init_awning_page :: awning_page where
  "init_awning_page = \<lparr>aw_location = None, aw_iconImageFileName = JNull, aw_running = False, aw_shown = False, aw_timerID = None,
     aw_timers = [], aw_next = 1, aw_sent = []\<rparr>"

definition latlng :: "(rat \<Rightarrow> jval) \<Rightarrow> rat \<times> rat \<Rightarrow> jval" where
  "latlng number l = JObj [(''latitude'', number (fst l)), (''longitude'', number (snd l))]"

definition value_of :: "string \<Rightarrow> jval \<Rightarrow> jval" where
  "value_of t v = JObj [(''type'', JStr t), (''value'', v)]"

definition raining_at :: "rat \<Rightarrow> bool" where
  "raining_at lng = (139748122 / 1000000 < lng \<and> lng < 139765496 / 1000000)"

definition movingCarObject :: "(rat \<Rightarrow> jval) \<Rightarrow> rat \<times> rat \<Rightarrow> jval" where
  "movingCarObject number l =
     JObj [(''entityId'', JObj [(''id'', JStr ''Device.ConnectedCar.01''), (''type'', JStr ''ConnectedCar''), (''isPattern'', JBool False)]),
           (''attributes'', JObj [(''iconURL'', value_of ''string'' (JStr ''/img/taxi.png'')), (''pullbased'', value_of ''boolean'' (JBool False)),
              (''location'', value_of ''point'' (latlng number l)), (''raining'', value_of ''boolean'' (JBool (raining_at (snd l))))]),
           (''metadata'', JObj [(''location'', value_of ''point'' (latlng number l))])]"

definition aw_update :: "jval \<Rightarrow> jval \<Rightarrow> awning_page \<Rightarrow> awning_page" where
  "aw_update url ob s = (case update_request url ob of None \<Rightarrow> s | Some rq \<Rightarrow> s\<lparr>aw_sent := aw_sent s @ [rq]\<rparr>)"

definition aw_updateMobileObject :: "jval \<Rightarrow> (rat \<Rightarrow> jval) \<Rightarrow> rat \<times> rat \<Rightarrow> awning_page \<Rightarrow> awning_page" where
  "aw_updateMobileObject url number l s = aw_update url (movingCarObject number l) s"

text \<open>The registration of a device; a type without an image keeps the file name of the device before.\<close>

definition aw_icon :: "string \<Rightarrow> awning_page \<Rightarrow> awning_page" where
  "aw_icon type s =
     (if type = ''RainSensor'' then s\<lparr>aw_iconImageFileName := JStr ''rainsensor.png''\<rparr>
      else if type = ''SmartAwning'' then s\<lparr>aw_iconImageFileName := JStr ''awning.png''\<rparr>
      else s)"

definition aw_newDeviceObject :: "(rat \<Rightarrow> jval) \<Rightarrow> string \<Rightarrow> string \<Rightarrow> rat \<times> rat \<Rightarrow> jval \<Rightarrow> jval" where
  "aw_newDeviceObject number i type l icon =
     JObj [(''entityId'', JObj [(''id'', JStr (''Device.'' @ type @ ''.'' @ i)), (''type'', JStr type), (''isPattern'', JBool False)]),
           (''attributes'', JObj [(''id'', value_of ''string'' (JStr i)), (''iconURL'', value_of ''string'' (JStr (''/img/'' @ js_str icon))),
              (''pullbased'', value_of ''boolean'' (JBool False)), (''location'', value_of ''point'' (latlng number l))]),
           (''metadata'', JObj [(''location'', value_of ''point'' (latlng number l))])]"

definition aw_registerNewDevice :: "jval \<Rightarrow> (rat \<Rightarrow> jval) \<Rightarrow> string \<Rightarrow> string \<Rightarrow> awning_page \<Rightarrow> awning_page \<times> string list" where
  "aw_registerNewDevice url number i type s =
     (case aw_location s of
        None \<Rightarrow> (s, [''please provide the required inputs''])
      | Some l \<Rightarrow>
          if i = [] \<or> type = [] then (s, [''please provide the required inputs''])
          else let s1 = aw_icon type s in (aw_update url (aw_newDeviceObject number i type l (aw_iconImageFileName s1)) s1, []))"

text \<open>
  The car: each display of the map creates a new marker, and the timer of the one before is neither stopped when another menu
  item is selected nor when the map is displayed again.  \<open>handleNotify\<close> reads a variable that the page does not
  declare: it throws for every message, which changes nothing.
\<close>

datatype awning_event = AwMenu string | AwClick | AwTick nat "rat \<times> rat" | AwNotified jval

definition aw_click :: "awning_page \<Rightarrow> awning_page" where
  "aw_click s =
     (if aw_running s
      then s\<lparr>aw_timers := (case aw_timerID s of None \<Rightarrow> aw_timers s | Some t \<Rightarrow> removeAll t (aw_timers s)), aw_running := False\<rparr>
      else s\<lparr>aw_running := True, aw_timerID := Some (aw_next s), aw_timers := aw_timers s @ [aw_next s], aw_next := Suc (aw_next s)\<rparr>)"

definition aw_selectMenuItem :: "string \<Rightarrow> awning_page \<Rightarrow> awning_page" where
  "aw_selectMenuItem name s =
     (if name = ''MobileSensor'' then s\<lparr>aw_shown := True, aw_running := False\<rparr>
      else if name \<in> {''ProcessingFlow'', ''Device'', ''SmartAwning''} then s\<lparr>aw_shown := False\<rparr>
      else s)"

definition aw_handleNotify :: "jval \<Rightarrow> awning_page \<Rightarrow> awning_page step" where
  "aw_handleNotify contextObj s = (s, False)"

fun aw_step :: "jval \<Rightarrow> (rat \<Rightarrow> jval) \<Rightarrow> awning_event \<Rightarrow> awning_page \<Rightarrow> awning_page" where
  "aw_step url number (AwMenu name) s = aw_selectMenuItem name s"
| "aw_step url number AwClick s = (if aw_shown s then aw_click s else s)"
| "aw_step url number (AwTick t l) s = (if t \<in> set (aw_timers s) then aw_updateMobileObject url number l s else s)"
| "aw_step url number (AwNotified m) s = fst (aw_handleNotify m s)"

text \<open>
  A car that drives when the menu item is left reports on: after \<open>n\<close> visits with one click each there are \<open>n\<close> timers, and
  nothing the user does afterwards stops any of them but the last.
\<close>

lemma timers_accumulate:
  "length (aw_timers (fold (aw_step url number) (concat (replicate n [AwMenu ''MobileSensor'', AwClick, AwMenu ''Device''])) s)) = length (aw_timers s) + n"
proof (induction n arbitrary: s)
  case (Suc n)
  then show ?case by (simp add: aw_selectMenuItem_def aw_click_def)
qed simp

lemma only_last_timer_stopped:
  assumes "t \<in> set (aw_timers s)" and "aw_timerID s \<noteq> Some t" and "t < aw_next s"
  shows "let s' = aw_step url number e s in t \<in> set (aw_timers s') \<and> aw_timerID s' \<noteq> Some t \<and> t < aw_next s'"
  using assms
  by (cases e)
    (auto simp: aw_click_def aw_selectMenuItem_def aw_updateMobileObject_def aw_update_def aw_handleNotify_def Let_def split: option.splits)

text \<open>
  A timer of the page that is not the one started last reports positions for ever: whatever menu items are
  selected, and whatever is clicked or notified, each of its intervals sends one more update of the car.
\<close>

theorem abandoned_timer_reports_forever:
  assumes "t \<in> set (aw_timers s)" and "aw_timerID s \<noteq> Some t" and "t < aw_next s"
  shows "\<exists>rq. aw_sent (aw_step url number (AwTick t l) (fold (aw_step url number) es s)) = aw_sent (fold (aw_step url number) es s) @ [rq]"
proof -
  have "t \<in> set (aw_timers (fold (aw_step url number) es s))"
    using assms by (induction es arbitrary: s) (use only_last_timer_stopped in \<open>fastforce simp: Let_def\<close>)+
  moreover have "\<exists>rq. update_request url (movingCarObject number l) = Some rq"
    by (simp add: update_request_def JSONObject2CtxElement_def movingCarObject_def value_of_def js_access)
  ultimately show ?thesis by (auto simp: aw_updateMobileObject_def aw_update_def)
qed

definition left_page :: awning_page where
  "left_page = fold (aw_step (JStr ''http://b'') (\<lambda>x. JNum 0))
     [AwMenu ''MobileSensor'', AwClick, AwMenu ''Device'', AwMenu ''MobileSensor'', AwClick, AwClick] init_awning_page"

theorem abandoned_timer_reports_forever_witness:
  "\<exists>rq. aw_sent (aw_step (JStr ''http://b'') (\<lambda>x. JNum 0) (AwTick 1 (35, 139)) (fold (aw_step (JStr ''http://b'') (\<lambda>x. JNum 0)) [AwClick, AwClick] left_page)) =
     aw_sent (fold (aw_step (JStr ''http://b'') (\<lambda>x. JNum 0)) [AwClick, AwClick] left_page) @ [rq]"
  by (rule abandoned_timer_reports_forever) (simp_all add: left_page_def init_awning_page_def aw_selectMenuItem_def aw_click_def)

section \<open>From the car to the awning\<close>

definition car_report :: "(rat \<Rightarrow> jval) \<Rightarrow> rat \<times> rat \<Rightarrow> element" where
  "car_report number l =
     \<lparr>Entity = \<lparr>eid_type = ''ConnectedCar'', eid_isPattern = False, eid_id = ''Device.ConnectedCar.01''\<rparr>,
      Attributes = [(''iconURL'', ''string'', JStr ''/img/taxi.png''), (''pullbased'', ''boolean'', JBool False),
        (''location'', ''point'', latlng number l), (''raining'', ''boolean'', JBool (raining_at (snd l)))],
      Metadata = [(''location'', ''point'', latlng number l)]\<rparr>"

lemma car_report_posted: "\<exists>rq. update_request u (movingCarObject number l) = Some rq \<and> posted_updates rq = [car_report number l]"
proof -
  let ?ps = "[(''id'', JStr ''Device.ConnectedCar.01''), (''type'', JStr ''ConnectedCar''), (''isPattern'', JBool False)]"
  have "JSONObject2CtxElement (movingCarObject number l) =
      Some (ctx_element (JObj ?ps) (json_named (Attributes (car_report number l))) (json_named (Metadata (car_report number l))))"
    by (simp add: JSONObject2CtxElement_def movingCarObject_def car_report_def value_of_def ctx_element_def named_elems_def
        json_named_def json_string_def js_access js_literal)
  moreover have "parse_entity (JObj ?ps) = Some (Entity (car_report number l))" by (simp add: car_report_def js_access)
  ultimately show ?thesis using update_request_posted [of "movingCarObject number l" ?ps] by (simp add: car_report_def)
qed

text \<open>An operator with one output, connected and with nothing buffered.\<close>

definition serving :: "string \<Rightarrow> string \<Rightarrow> 'a entry_runtime \<Rightarrow> bool" where
  "serving i t s = (k_outputs s = [JObj [(''id'', JStr i), (''type'', JStr t)]] \<and> k_client s \<noteq> None \<and> k_buffer s = [] \<and> i \<noteq> [] \<and> t \<noteq> [])"

definition rain_observation :: "string \<Rightarrow> string \<Rightarrow> jval \<Rightarrow> bool \<Rightarrow> element" where
  "rain_observation i t h b =
     \<lparr>Entity = \<lparr>eid_type = t, eid_isPattern = False, eid_id = i\<rparr>,
      Attributes = [(''geohash'', ''string'', h), (''raining'', ''boolean'', JBool b)], Metadata = [(''geohash'', ''string'', h)]\<rparr>"

lemma named_publication:
  assumes "serving i t s" and "assign_entity [(''id'', JStr i), (''type'', JStr t)] ob = Some ob'" and "JSONObject2CtxElement ob' = Some (ctx_element (JObj ps) (json_named as) (json_named ms))"
    and "parse_entity (JObj ps) = Some e"
  shows "\<exists>rq. k_publish ob (JNum 0) s = (s\<lparr>k_sent := k_sent s @ [rq]\<rparr>, True) \<and> posted_updates rq = [\<lparr>Entity = e, Attributes = as, Metadata = ms\<rparr>]"
proof -
  obtain u where u: "k_client s = Some u" "k_buffer s = []" using assms(1) by (auto simp: serving_def)
  obtain rq where rq: "update_request u ob' = Some rq" "posted_updates rq = [\<lparr>Entity = e, Attributes = as, Metadata = ms\<rparr>]"
    using update_request_posted [OF assms(3,4)] by blast
  have "publish_naming (k_outputs s) 0 (JNum 0) ob = Some ob'"
    using assms(1,2) by (simp add: publish_naming_def serving_def name_entity_def k_field_def js_access)
  from publish_connected [where naming = publish_naming, OF u this rq(1)] show ?thesis
    using rq(2) by (intro exI [of _ rq]) (simp add: k_publish_def)
qed

lemma sent_one [simp]:
  "new_updates s (s\<lparr>k_sent := k_sent s @ [rq]\<rparr>) = posted_updates rq" "serving i t (s\<lparr>k_sent := rqs\<rparr>) = serving i t s"
  by (simp_all add: new_updates_def serving_def)

lemma assign_notified:
  assumes "x \<noteq> []" and "y \<noteq> []"
  shows "assign_entity [(''id'', JStr i), (''type'', JStr t)] (JObj ((''entityId'', json_entity \<lparr>eid_type = x, eid_isPattern = False, eid_id = y\<rparr>) # ps)) =
     Some (JObj ((''entityId'', JObj [(''type'', JStr t), (''id'', JStr i)]) # ps))"
  using assms by (simp add: assign_entity_def json_entity_def js_access js_literal obj_put_def)

lemma observation_updated:
  "es i = None \<or> (\<exists>h' b'. es i = Some (rain_observation i t h' b')) \<Longrightarrow>
     UpdateContext2LocalSite [[]] (rain_observation i t h b) es = (es(i \<mapsto> rain_observation i t h b), [rain_observation i t h b])"
  by (auto simp: UpdateContext2LocalSite_def updateContextElement_def rain_observation_def updateAttributes_def)

lemma car_report_updated:
  "es ''Device.ConnectedCar.01'' = None \<or> (\<exists>l'. es ''Device.ConnectedCar.01'' = Some (car_report number l')) \<Longrightarrow>
     UpdateContext2LocalSite [[]] (car_report number l) es = (es(''Device.ConnectedCar.01'' \<mapsto> car_report number l), [car_report number l])"
  by (auto simp: UpdateContext2LocalSite_def updateContextElement_def car_report_def updateAttributes_def)

text \<open>The operators on the way: the converter, the predictor and the controller.\<close>

lemma notified_observation:
  assumes "i \<noteq> []" and "t \<noteq> []"
  shows "notified_object (rain_observation i t h b) =
    JObj [(''entityId'', json_entity \<lparr>eid_type = t, eid_isPattern = False, eid_id = i\<rparr>),
          (''attributes'', JObj [(''geohash'', value_of ''string'' h), (''raining'', value_of ''boolean'' (JBool b))]),
          (''metadata'', JObj [(''geohash'', value_of ''string'' h)])]"
  by (simp add: notified_object_def rain_observation_def json_named_def named_props_def json_string_def value_of_def js_literal)

lemma observation_element:
  "JSONObject2CtxElement (JObj [(''entityId'', JObj [(''type'', JStr t), (''id'', JStr i)]),
      (''attributes'', JObj [(''geohash'', value_of ''string'' h), (''raining'', value_of ''boolean'' (JBool b))]),
      (''metadata'', JObj [(''geohash'', value_of ''string'' h)])]) =
   Some (ctx_element (JObj [(''type'', JStr t), (''id'', JStr i)]) (json_named (Attributes (rain_observation i t h b))) (json_named (Metadata (rain_observation i t h b))))"
  by (simp add: JSONObject2CtxElement_def rain_observation_def value_of_def ctx_element_def named_elems_def json_named_def json_string_def
      js_access js_literal)

lemma observation_published:
  assumes "serving i t s" and "x \<noteq> []" and "y \<noteq> []"
  shows "\<exists>s'. k_publish (JObj [(''entityId'', json_entity \<lparr>eid_type = x, eid_isPattern = False, eid_id = y\<rparr>),
      (''attributes'', JObj [(''geohash'', value_of ''string'' h), (''raining'', value_of ''boolean'' (JBool b))]),
      (''metadata'', JObj [(''geohash'', value_of ''string'' h)])]) (JNum 0) s = (s', True) \<and>
    new_updates s s' = [rain_observation i t h b] \<and> serving i t s'"
proof -
  have "parse_entity (JObj [(''type'', JStr t), (''id'', JStr i)]) = Some (Entity (rain_observation i t h b))"
    by (simp add: rain_observation_def js_access object_proto_def)
  from named_publication [OF assms(1) assign_notified [OF assms(2,3)] observation_element [of t i h b] this]
  obtain rq where "k_publish (JObj [(''entityId'', json_entity \<lparr>eid_type = x, eid_isPattern = False, eid_id = y\<rparr>),
      (''attributes'', JObj [(''geohash'', value_of ''string'' h), (''raining'', value_of ''boolean'' (JBool b))]),
      (''metadata'', JObj [(''geohash'', value_of ''string'' h)])]) (JNum 0) s = (s\<lparr>k_sent := k_sent s @ [rq]\<rparr>, True)"
      "posted_updates rq = [rain_observation i t h b]" by (auto simp: rain_observation_def)
  then show ?thesis using assms(1) by (intro exI [of _ "s\<lparr>k_sent := k_sent s @ [rq]\<rparr>"]) simp
qed

lemma converter_observes:
  assumes "serving i t c"
  shows "\<exists>c'. converter_step enc (Notified (notified sid (car_report number l))) c = (c', True) \<and>
    new_updates c c' = [rain_observation i t (enc (number (fst l)) (number (snd l)) (JNum 4)) (raining_at (snd l))] \<and> serving i t c'"
proof -
  let ?h = "enc (number (fst l)) (number (snd l)) (JNum 4)"
  have n: "notified_object (car_report number l) =
    JObj [(''entityId'', json_entity \<lparr>eid_type = ''ConnectedCar'', eid_isPattern = False, eid_id = ''Device.ConnectedCar.01''\<rparr>),
          (''attributes'', JObj [(''iconURL'', value_of ''string'' (JStr ''/img/taxi.png'')), (''pullbased'', value_of ''boolean'' (JBool False)),
              (''location'', value_of ''point'' (latlng number l)), (''raining'', value_of ''boolean'' (JBool (raining_at (snd l))))]),
          (''metadata'', JObj [(''location'', value_of ''point'' (latlng number l))])]"
    by (simp add: notified_object_def car_report_def json_named_def named_props_def json_string_def value_of_def js_literal)
  have "locate enc (notified_object (car_report number l)) = Located ?h"
    by (simp add: n locate_def k_field_def value_of_def latlng_def js_access object_proto_def)
  moreover have "converter_entity ?h (notified_object (car_report number l)) =
    JObj [(''entityId'', json_entity \<lparr>eid_type = ''ConnectedCar'', eid_isPattern = False, eid_id = ''Device.ConnectedCar.01''\<rparr>),
      (''attributes'', JObj [(''geohash'', value_of ''string'' ?h), (''raining'', value_of ''boolean'' (JBool (raining_at (snd l))))]),
      (''metadata'', JObj [(''geohash'', value_of ''string'' ?h)])]"
    by (simp add: n converter_entity_def k_field_def typed_string_def value_of_def js_access)
  ultimately show ?thesis
    using observation_published [OF assms, of "''ConnectedCar''" "''Device.ConnectedCar.01''" ?h "raining_at (snd l)"]
    by (auto simp: notified_eq converter_handler_def)
qed

lemma predictor_republishes:
  assumes "serving i t p" and "x \<noteq> []" and "y \<noteq> []"
  shows "\<exists>p'. predictor_step (Notified (notified sid (rain_observation y x h b))) p = (p', True) \<and> new_updates p p' = [rain_observation i t h b] \<and> serving i t p'"
  using observation_published [OF assms, of h b]
  by (auto simp: notified_eq predictor_handler_def notified_observation assms(2,3) k_field_def js_access)

definition awning_order :: "string \<Rightarrow> string \<Rightarrow> jval \<Rightarrow> bool \<Rightarrow> element" where
  "awning_order i t aid b =
     \<lparr>Entity = \<lparr>eid_type = t, eid_isPattern = False, eid_id = i\<rparr>,
      Attributes = [(''command'', ''string'', JStr (if b then ''open'' else ''close''))], Metadata = [(''awningID'', ''string'', aid)]\<rparr>"

lemma controller_orders:
  assumes "serving i t c" and "y \<noteq> []"
  shows "\<exists>c'. k_handleNotify (notified sid (rain_observation y ''Prediction'' h b)) c = (c', True) \<and>
    new_updates c c' = [awning_order i t (awningID c) b] \<and> serving i t c' \<and> awningID c' = awningID c"
proof -
  let ?cmd = "awning_command (awningID c) b"
  have "k_handler (notified_object (rain_observation y ''Prediction'' h b)) c = k_publish ?cmd (JNum 0) c"
    using assms(2)
    by (simp add: k_handler_def notified_observation k_field_def value_of_def json_entity_def js_access js_literal js_eq_JStr js_eq_def is_prim_def)
  moreover have "assign_entity [(''id'', JStr i), (''type'', JStr t)] ?cmd =
      Some (JObj [(''entityId'', JObj [(''id'', JStr i), (''type'', JStr t)]), (''attributes'', JObj [(''command'', JObj [(''type'', JStr ''string''),
         (''value'', JStr (if b then ''open'' else ''close''))])]), (''metadata'', JObj [(''awningID'', JObj [(''type'', JStr ''string''), (''value'', awningID c)])])])"
    by (simp add: assign_entity_def awning_command_def js_access js_literal)
  moreover have "JSONObject2CtxElement (JObj [(''entityId'', JObj [(''id'', JStr i), (''type'', JStr t)]), (''attributes'', JObj [(''command'', JObj [(''type'', JStr ''string''),
         (''value'', JStr (if b then ''open'' else ''close''))])]), (''metadata'', JObj [(''awningID'', JObj [(''type'', JStr ''string''), (''value'', awningID c)])])]) =
      Some (ctx_element (JObj [(''id'', JStr i), (''type'', JStr t)])
        (json_named (Attributes (awning_order i t (awningID c) b))) (json_named (Metadata (awning_order i t (awningID c) b))))"
    by (simp add: JSONObject2CtxElement_def awning_order_def ctx_element_def named_elems_def json_named_def json_string_def js_access js_literal)
  moreover have "parse_entity (JObj [(''id'', JStr i), (''type'', JStr t)]) = Some (Entity (awning_order i t (awningID c) b))"
    by (simp add: awning_order_def js_access object_proto_def)
  ultimately show ?thesis
    using named_publication [OF assms(1), of ?cmd] assms(1) by (fastforce simp: k_handleNotify_def notified_eq awning_order_def)
qed

text \<open>
  The service: the broker with the entities, and the three operators.  An update of the car is stored, and what each
  operator publishes is stored and notified to the next one; the result has the orders of the controller.
\<close>

record rain_service =
  rs_entities :: entities
  rs_converter :: "entry runtime"
  rs_predictor :: "entry runtime"
  rs_controller :: controller

fun store_all :: "element list \<Rightarrow> entities \<Rightarrow> entities \<times> element list" where
  "store_all [] es = (es, [])"
| "store_all (u # us) es =
     (case UpdateContext2LocalSite [[]] u es of (es1, ns) \<Rightarrow> case store_all us es1 of (es2, ms) \<Rightarrow> (es2, ns @ ms))"

definition rain_step :: "encoder \<Rightarrow> string \<Rightarrow> element \<Rightarrow> rain_service \<Rightarrow> rain_service \<times> element list" where
  "rain_step enc sid u s =
     (let (es1, ns1) = store_all [u] (rs_entities s);
          c = fst (converter_step enc (Notified (concat (map (notified sid) ns1))) (rs_converter s));
          (es2, ns2) = store_all (new_updates (rs_converter s) c) es1;
          p = fst (predictor_step (Notified (concat (map (notified sid) ns2))) (rs_predictor s));
          (es3, ns3) = store_all (new_updates (rs_predictor s) p) es2;
          k = fst (k_handleNotify (concat (map (notified sid) ns3)) (rs_controller s))
      in (\<lparr>rs_entities = es3, rs_converter = c, rs_predictor = p, rs_controller = k\<rparr>, new_updates (rs_controller s) k))"

fun rain_run :: "encoder \<Rightarrow> string \<Rightarrow> element list \<Rightarrow> rain_service \<Rightarrow> rain_service \<times> element list" where
  "rain_run enc sid [] s = (s, [])"
| "rain_run enc sid (u # us) s =
     (case rain_step enc sid u s of (s1, os) \<Rightarrow> case rain_run enc sid us s1 of (s2, os') \<Rightarrow> (s2, os @ os'))"

text \<open>The entities are those that the page and the two operators write, under different identifiers.\<close>

definition rain_inv :: "(rat \<Rightarrow> jval) \<Rightarrow> string \<Rightarrow> string \<Rightarrow> string \<Rightarrow> string \<Rightarrow> string \<Rightarrow> jval \<Rightarrow> rain_service \<Rightarrow> bool" where
  "rain_inv number i1 t1 i2 i3 t3 aid s =
     ((rs_entities s ''Device.ConnectedCar.01'' = None \<or> (\<exists>l. rs_entities s ''Device.ConnectedCar.01'' = Some (car_report number l))) \<and>
      (rs_entities s i1 = None \<or> (\<exists>h b. rs_entities s i1 = Some (rain_observation i1 t1 h b))) \<and>
      (rs_entities s i2 = None \<or> (\<exists>h b. rs_entities s i2 = Some (rain_observation i2 ''Prediction'' h b))) \<and>
      distinct [''Device.ConnectedCar.01'', i1, i2] \<and>
      serving i1 t1 (rs_converter s) \<and> serving i2 ''Prediction'' (rs_predictor s) \<and> serving i3 t3 (rs_controller s) \<and>
      awningID (rs_controller s) = aid)"

lemma rain_step_orders:
  assumes "rain_inv number i1 t1 i2 i3 t3 aid s"
  shows "\<exists>s'. rain_step enc sid (car_report number l) s = (s', [awning_order i3 t3 aid (raining_at (snd l))]) \<and> rain_inv number i1 t1 i2 i3 t3 aid s'"
proof -
  let ?es = "rs_entities s" and ?b = "raining_at (snd l)" and ?h = "enc (number (fst l)) (number (snd l)) (JNum 4)"
  have car: "?es ''Device.ConnectedCar.01'' = None \<or> (\<exists>l. ?es ''Device.ConnectedCar.01'' = Some (car_report number l))"
    and o1: "?es i1 = None \<or> (\<exists>h b. ?es i1 = Some (rain_observation i1 t1 h b))"
    and o2: "?es i2 = None \<or> (\<exists>h b. ?es i2 = Some (rain_observation i2 ''Prediction'' h b))"
    and ids: "i1 \<noteq> ''Device.ConnectedCar.01''" "i2 \<noteq> ''Device.ConnectedCar.01''" "i1 \<noteq> i2"
    and ops: "serving i1 t1 (rs_converter s)" "serving i2 ''Prediction'' (rs_predictor s)" "serving i3 t3 (rs_controller s)"
    and aid: "awningID (rs_controller s) = aid"
    using assms by (auto simp: rain_inv_def)
  have ne: "i1 \<noteq> []" "t1 \<noteq> []" "i2 \<noteq> []" using ops by (simp_all add: serving_def)
  obtain c where c: "converter_step enc (Notified (notified sid (car_report number l))) (rs_converter s) = (c, True)"
      "new_updates (rs_converter s) c = [rain_observation i1 t1 ?h ?b]" "serving i1 t1 c"
    using converter_observes [OF ops(1)] by metis
  obtain p where p: "predictor_step (Notified (notified sid (rain_observation i1 t1 ?h ?b))) (rs_predictor s) = (p, True)"
      "new_updates (rs_predictor s) p = [rain_observation i2 ''Prediction'' ?h ?b]" "serving i2 ''Prediction'' p"
    using predictor_republishes [OF ops(2) ne(2,1)] by metis
  obtain k where k: "k_handleNotify (notified sid (rain_observation i2 ''Prediction'' ?h ?b)) (rs_controller s) = (k, True)"
      "new_updates (rs_controller s) k = [awning_order i3 t3 (awningID (rs_controller s)) ?b]" "serving i3 t3 k" "awningID k = awningID (rs_controller s)"
    using controller_orders [OF ops(3) ne(3)] by metis
  let ?es1 = "?es(''Device.ConnectedCar.01'' \<mapsto> car_report number l)"
  let ?es2 = "?es1(i1 \<mapsto> rain_observation i1 t1 ?h ?b)"
  let ?es3 = "?es2(i2 \<mapsto> rain_observation i2 ''Prediction'' ?h ?b)"
  have st: "UpdateContext2LocalSite [[]] (car_report number l) ?es = (?es1, [car_report number l])"
    "UpdateContext2LocalSite [[]] (rain_observation i1 t1 ?h ?b) ?es1 = (?es2, [rain_observation i1 t1 ?h ?b])"
    "UpdateContext2LocalSite [[]] (rain_observation i2 ''Prediction'' ?h ?b) ?es2 = (?es3, [rain_observation i2 ''Prediction'' ?h ?b])"
    using car o1 o2 ids by (intro car_report_updated observation_updated; simp)+
  have "rain_step enc sid (car_report number l) s =
      (\<lparr>rs_entities = ?es3, rs_converter = c, rs_predictor = p, rs_controller = k\<rparr>, [awning_order i3 t3 aid ?b])"
    by (simp add: rain_step_def st c p k aid del: converter_step.simps predictor_step.simps)
  moreover have "rain_inv number i1 t1 i2 i3 t3 aid \<lparr>rs_entities = ?es3, rs_converter = c, rs_predictor = p, rs_controller = k\<rparr>"
    using ids c(3) p(3) k(3,4) aid by (cases l) (auto simp: rain_inv_def)
  ultimately show ?thesis by blast
qed

lemma rain_run_orders:
  "rain_inv number i1 t1 i2 i3 t3 aid s \<Longrightarrow>
     \<exists>s'. rain_run enc sid (map (car_report number) ls) s = (s', map (\<lambda>l. awning_order i3 t3 aid (raining_at (snd l))) ls) \<and>
       rain_inv number i1 t1 i2 i3 t3 aid s'"
proof (induction ls arbitrary: s)
  case (Cons l ls)
  obtain s1 where s1: "rain_step enc sid (car_report number l) s = (s1, [awning_order i3 t3 aid (raining_at (snd l))])" "rain_inv number i1 t1 i2 i3 t3 aid s1"
    using rain_step_orders [OF Cons.prems] by blast
  with Cons.IH [OF s1(2)] show ?case by auto
qed simp

lemma ticks_reported:
  assumes "t \<in> set (aw_timers s)"
  shows "\<exists>rqs. aw_sent (fold (aw_step url number) (map (AwTick t) ls) s) = aw_sent s @ rqs \<and> concat (map posted_updates rqs) = map (car_report number) ls"
  using assms
proof (induction ls arbitrary: s)
  case (Cons l ls)
  obtain rq where rq: "update_request url (movingCarObject number l) = Some rq" "posted_updates rq = [car_report number l]"
    using car_report_posted by blast
  let ?s = "s\<lparr>aw_sent := aw_sent s @ [rq]\<rparr>"
  obtain rqs where "aw_sent (fold (aw_step url number) (map (AwTick t) ls) ?s) = aw_sent ?s @ rqs" "concat (map posted_updates rqs) = map (car_report number) ls"
    using Cons.IH [of ?s] Cons.prems by auto
  with Cons.prems rq show ?case by (intro exI [of _ "rq # rqs"]) (simp add: aw_updateMobileObject_def aw_update_def)
qed simp

text \<open>
  Claim C8. From the car on the map to the awning: while the car drives, the awning is ordered after each report to open if
  the reported longitude lies in the simulated rain and to close otherwise, one order per report and in their order.
\<close>

theorem rain_reaches_awning:
  assumes "t \<in> set (aw_timers s)" and "rain_inv number i1 t1 i2 i3 t3 aid r"
  shows "\<exists>rqs r'. aw_sent (fold (aw_step url number) (map (AwTick t) ls) s) = aw_sent s @ rqs \<and>
    rain_run enc sid (concat (map posted_updates rqs)) r = (r', map (\<lambda>l. awning_order i3 t3 aid (raining_at (snd l))) ls) \<and>
    rain_inv number i1 t1 i2 i3 t3 aid r'"
  using ticks_reported [OF assms(1), of url number ls] rain_run_orders [OF assms(2), of enc sid ls] by metis

definition sample_operator :: "string \<Rightarrow> string \<Rightarrow> entry runtime" where
  "sample_operator i t = init_runtime\<lparr>k_client := Some (JStr ''http://b''), k_outputs := [JObj [(''id'', JStr i), (''type'', JStr t)]]\<rparr>"

definition sample_service :: rain_service where
  "sample_service =
     \<lparr>rs_entities = Map.empty, rs_converter = sample_operator ''o1'' ''RainObservation'', rs_predictor = sample_operator ''o2'' ''Prediction'',
      rs_controller = init_controller\<lparr>k_client := Some (JStr ''http://b''), k_outputs := [JObj [(''id'', JStr ''o3''), (''type'', JStr ''ControlAction'')]],
        awningID := JStr ''Device.SmartAwning.1''\<rparr>\<rparr>"

theorem rain_reaches_awning_witness:
  "\<exists>rqs r'. aw_sent (fold (aw_step (JStr ''http://b'') (\<lambda>x. JNum 0)) (map (AwTick 1) [(35, 139), (35, 13975 / 100)]) left_page) = aw_sent left_page @ rqs \<and>
    rain_run (\<lambda>a b n. JStr ''xn77'') [] (concat (map posted_updates rqs)) sample_service =
      (r', [awning_order ''o3'' ''ControlAction'' (JStr ''Device.SmartAwning.1'') False, awning_order ''o3'' ''ControlAction'' (JStr ''Device.SmartAwning.1'') True])"
proof -
  have "1 \<in> set (aw_timers left_page)" by (simp add: left_page_def init_awning_page_def aw_selectMenuItem_def aw_click_def)
  moreover have "rain_inv (\<lambda>x. JNum 0) ''o1'' ''RainObservation'' ''o2'' ''o3'' ''ControlAction'' (JStr ''Device.SmartAwning.1'') sample_service"
    by (simp add: rain_inv_def sample_service_def sample_operator_def serving_def init_runtime_def init_controller_def)
  ultimately show ?thesis
    using rain_reaches_awning [where url = "JStr ''http://b''" and ls = "[(35, 139), (35, 13975 / 100)]" and enc = "\<lambda>a b n. JStr ''xn77''" and sid = "[]"]
    by (fastforce simp: raining_at_def)
qed

end
