(* ===== verification/Finder_Page.thy ===== *)
theory Finder_Page
  imports Page_Links
begin

text \<open>
  The page of the search for a lost child, \<open>designer/public/js/lostchild.js\<close>: the results that are notified and their table, the
  area of the search and its display, the information on the child, and the requests that start the service.  The
  management of the intent is that of the page of the anomaly detection, \<open>Designer_Page\<close>.
\<close>

section \<open>The page\<close>

type_synonym result_cells = "jval \<times> jval \<times> jval \<times> jval"

text \<open>\<open>fi_table\<close> are the rows of the table of results, while it is displayed.\<close>

record finder =
  fi_page :: page
  fi_hash :: string
  personsFound :: "jval list"
  fi_table :: "result_cells list"

definition attribute_value :: "jval \<Rightarrow> string \<Rightarrow> jval option" where
  "attribute_value ctxObj k = do { as \<leftarrow> jget ctxObj ''attributes''; a \<leftarrow> jget as k; jget a ''value'' }"

definition result_row :: "jval \<Rightarrow> result_cells option" where
  "result_row ctxObj =
     do { photo \<leftarrow> attribute_value ctxObj ''image''; w \<leftarrow> attribute_value ctxObj ''when'';
          cameraID \<leftarrow> attribute_value ctxObj ''cameraID''; p \<leftarrow> attribute_value ctxObj ''where'';
          Some (w, photo, cameraID, p) }"

text \<open>The rows are built before the table is emptied: an exception leaves it as it is.\<close>

definition updateResult :: "finder \<Rightarrow> finder step" where
  "updateResult s =
     (case those (map result_row (personsFound s)) of None \<Rightarrow> (s, False) | Some rows \<Rightarrow> (s\<lparr>fi_table := rows\<rparr>, True))"

definition showResult :: "finder \<Rightarrow> finder step" where
  "showResult s = updateResult (s\<lparr>fi_table := []\<rparr>)"

definition fi_handleNotify :: "jval \<Rightarrow> finder \<Rightarrow> finder step" where
  "fi_handleNotify contextObj s =
     (let s1 = (if is_nullish (curIntent (fi_page s)) then s else s\<lparr>personsFound := personsFound s @ [contextObj]\<rparr>)
      in if fi_hash s1 = ''#Result'' then updateResult s1 else (s1, True))"

definition fi_sendIntent :: "(nat \<Rightarrow> nat) \<Rightarrow> page \<Rightarrow> page \<times> intent_request list" where
  "fi_sendIntent random s =
     (let intent = page_intent ''child-finder'' (geoscope s) random
      in (s\<lparr>in_flight := in_flight s @ [Issuing (JObj intent)]\<rparr>, [PostIntent intent]))"

definition childphotoURL :: "string \<Rightarrow> string" where
  "childphotoURL server = ''http://'' @ server @ ''/photo/lostchild.png''"

definition lostChildCtxObj :: "string \<Rightarrow> jval" where
  "lostChildCtxObj server =
     JObj [(''entityId'', JObj [(''id'', JStr ''Stream.ChildLost.01''), (''type'', JStr ''ChildLost''), (''isPattern'', JBool False)]),
           (''attributes'', JObj [(''imageURL'', JObj [(''type'', JStr ''string''), (''value'', JStr (childphotoURL server))]),
              (''saveLocation'', JObj [(''type'', JStr ''string''), (''value'', JStr (''http://'' @ server @ ''/data/photo''))])])]"

definition publishChildInfo :: "string \<Rightarrow> page \<Rightarrow> page" where
  "publishChildInfo server s =
     (case update_request (pg_client s) (lostChildCtxObj server) of None \<Rightarrow> s | Some rq \<Rightarrow> s\<lparr>pg_sent := pg_sent s @ [rq]\<rparr>)"

text \<open>
  The request for a topology that was loaded from a file goes to a path of the designer; \<open>None\<close> is an exception, which is
  reported in a dialogue.
\<close>

definition topologyCtxObj :: "jval \<Rightarrow> jval" where
  "topologyCtxObj topology = JObj [(''attributes'', topology), (''internalType'', JStr ''Topology''), (''updateAction'', JStr ''UPDATE'')]"

definition submitTopology :: "jval \<Rightarrow> http_req option" where
  "submitTopology topology = update_request (JStr ''./internal'') (topologyCtxObj topology)"

datatype finder_event = OnPage page_event | FiHash string | FiNotified jval

fun fi_step :: "finder_event \<Rightarrow> finder \<Rightarrow> finder \<times> intent_request list" where
  "fi_step (OnPage (Start random)) s =
     (case buttons (fi_page s) of
        Some (True, _) \<Rightarrow> (case fi_sendIntent random (fi_page s) of (p, rs) \<Rightarrow> (s\<lparr>fi_page := p\<rparr>, rs))
      | _ \<Rightarrow> (s, []))"
| "fi_step (OnPage e) s = (case page_step e (fi_page s) of (p, rs) \<Rightarrow> (s\<lparr>fi_page := p\<rparr>, rs))"
| "fi_step (FiHash h) s =
     (let s1 = s\<lparr>fi_hash := h\<rparr> in
      (if h = ''#Result'' then fst (showResult s1)
       else if h = ''#Management'' then s1\<lparr>fi_page := showMgt (fi_page s1)\<rparr>
       else if h = ''#Topology'' \<or> h = ''#Tasks'' then s1\<lparr>fi_page := (fi_page s1)\<lparr>buttons := None\<rparr>\<rparr>
       else s1, []))"
| "fi_step (FiNotified m) s = (fst (on_notify fi_handleNotify m s), [])"

section \<open>The results\<close>

definition found_child :: "element \<Rightarrow> result_cells \<Rightarrow> bool" where
  "found_child e r =
     (readable_element e \<and>
      (case r of (w, photo, cameraID, p) \<Rightarrow>
         (\<exists>t. map_of (Attributes e) ''when'' = Some (t, w)) \<and> (\<exists>t. map_of (Attributes e) ''image'' = Some (t, photo)) \<and>
         (\<exists>t. map_of (Attributes e) ''cameraID'' = Some (t, cameraID)) \<and> (\<exists>t. map_of (Attributes e) ''where'' = Some (t, p))))"

lemma attribute_value_notified:
  assumes "readable_element e" and "k \<notin> set object_proto"
  shows "attribute_value (notified_object e) k = map_option snd (map_of (Attributes e) k)"
proof -
  have "attribute_value (notified_object e) k = jget (json_attribute (map_of (Attributes e) k)) ''value''"
    using assms by (simp add: attribute_value_def notified_object_def js_access readable_element_def obj_get_json_named)
  then show ?thesis by (auto simp: json_attribute_def js_access split: option.split)
qed

lemma result_row_notified:
  "found_child e r \<Longrightarrow> result_row (notified_object e) = Some r"
  by (cases r) (auto simp: found_child_def result_row_def attribute_value_notified object_proto_def)

lemma finder_notified:
  assumes "map_of (subscriptions_websocket d) sid = Some c"
  shows "fold (\<lambda>m s. fst (fi_step (FiNotified m) s)) (pushed sid d e) s = fst (fi_handleNotify (notified_object e) s)"
  by (simp add: pushed_to_client [OF assms] on_notify_def js_access)

lemma those_snoc: "those (xs @ [x]) = do { ys \<leftarrow> those xs; y \<leftarrow> x; Some (ys @ [y]) }"
proof (induction xs)
  case Nil
  then show ?case by (cases x) auto
next
  case (Cons a xs)
  then show ?case by (cases a; cases "those xs"; cases x) auto
qed

text \<open>
  While a service runs and the tab of the results is open, the table lists every child that was found, in the
  order of the notifications: what the broker notified of since the service was started.
\<close>

theorem found_children_listed:
  assumes "map_of (subscriptions_websocket d) sid = Some c" and "\<not> is_nullish (curIntent (fi_page s))" and "fi_hash s = ''#Result''"
    and "those (map result_row (personsFound s)) = Some (fi_table s)" and "list_all2 found_child es rows"
  shows "fi_table (fold (\<lambda>m s. fst (fi_step (FiNotified m) s)) (concat (map (pushed sid d) es)) s) = fi_table s @ rows"
  using assms(5,2,3,4)
proof (induction es rows arbitrary: s rule: list_all2_induct)
  case (Cons e es r rows)
  let ?s = "s\<lparr>personsFound := personsFound s @ [notified_object e], fi_table := fi_table s @ [r]\<rparr>"
  have "fst (fi_handleNotify (notified_object e) s) = ?s"
    using Cons.prems by (simp add: fi_handleNotify_def updateResult_def those_snoc result_row_notified [OF Cons.hyps(1)])
  moreover have "those (map result_row (personsFound ?s)) = Some (fi_table ?s)"
    using Cons.prems by (simp add: those_snoc result_row_notified [OF Cons.hyps(1)])
  ultimately show ?case
    using Cons.IH [of ?s] Cons.prems by (simp add: finder_notified [OF assms(1)] del: fi_step.simps)
qed simp

definition sample_finder :: finder where
  "sample_finder = \<lparr>fi_page = (init_page (JStr ''http://b''))\<lparr>curIntent := JObj [(''id'', JStr ''ServiceIntent.1'')]\<rparr>,
     fi_hash = ''#Result'', personsFound = [], fi_table = []\<rparr>"

definition sample_found :: element where
  "sample_found = \<lparr>Entity = \<lparr>eid_type = ''ChildFound'', eid_isPattern = False, eid_id = ''Stream.ChildFound.1''\<rparr>,
     Attributes = [(''when'', ''string'', JStr ''noon''), (''image'', ''string'', JStr ''/a.png''), (''cameraID'', ''string'', JStr ''1''),
       (''where'', ''object'', JNull)], Metadata = []\<rparr>"

lemma sample_found_child: "found_child sample_found (JStr ''noon'', JStr ''/a.png'', JStr ''1'', JNull)"
  by (simp add: found_child_def sample_found_def readable_element_def)

theorem found_children_listed_witness:
  "fi_table (fold (\<lambda>m s. fst (fi_step (FiNotified m) s)) (concat (map (pushed ''s'' sample_client) [sample_found])) sample_finder) =
     fi_table sample_finder @ [(JStr ''noon'', JStr ''/a.png'', JStr ''1'', JNull)]"
  by (rule found_children_listed [OF sample_client_subscribed]) (simp_all add: sample_found_child sample_finder_def)

section \<open>A result that is deleted\<close>

definition unreadable_result :: "finder \<Rightarrow> bool" where
  "unreadable_result s = (\<exists>ob \<in> set (personsFound s). result_row ob = None)"

lemma those_None: "x \<in> set xs \<Longrightarrow> f x = None \<Longrightarrow> those (map f xs) = None"
  by (induction xs) (auto split: option.split)

lemma updateResult_unreadable: "unreadable_result s \<Longrightarrow> updateResult s = (s, False)"
  by (auto simp: unreadable_result_def updateResult_def dest: those_None)

lemma page_step_keeps:
  "personsFound (fst (fi_step (OnPage e) s)) = personsFound s" "fi_table (fst (fi_step (OnPage e) s)) = fi_table s"
  by (cases e; simp split: option.split prod.split bool.split)+

lemma unreadable_step:
  assumes "unreadable_result s"
  shows "unreadable_result (fst (fi_step e s)) \<and> (fi_table (fst (fi_step e s)) = fi_table s \<or> fi_table (fst (fi_step e s)) = [])"
proof (cases e)
  case (OnPage p)
  then show ?thesis using assms page_step_keeps [of p s] by (simp add: unreadable_result_def del: fi_step.simps)
next
  case (FiHash h)
  have "unreadable_result (s\<lparr>fi_hash := h, fi_table := []\<rparr>)" using assms by (simp add: unreadable_result_def)
  note u = updateResult_unreadable [OF this]
  show ?thesis
  proof (cases "h = ''#Result''")
    case True
    with FiHash u assms show ?thesis by (simp add: showResult_def unreadable_result_def Let_def)
  next
    case False
    with FiHash assms show ?thesis by (simp add: unreadable_result_def Let_def)
  qed
next
  case (FiNotified m)
  have "unreadable_result (s\<lparr>personsFound := personsFound s @ [ob]\<rparr>)" for ob using assms by (auto simp: unreadable_result_def)
  then show ?thesis
    using assms FiNotified by (auto simp: on_notify_def fi_handleNotify_def Let_def updateResult_unreadable split: option.split)
qed

text \<open>
  When the entity of a result is deleted while a service runs, the page is notified of an entity without
  attributes, and its table is broken from then on: whatever happens, it never lists another result.
\<close>

theorem deleted_result_breaks_table:
  assumes "map_of (subscriptions_websocket d) sid = Some c" and "\<not> is_nullish (curIntent (fi_page s))" and "deleteEntity [[]] i es = (es', [n])" and "i \<noteq> []"
  shows "let s' = fold (\<lambda>m s. fst (fi_step (FiNotified m) s)) (pushed sid d n) s; t = fold (\<lambda>e s. fst (fi_step e s)) evs s' in
    fi_table t = fi_table s \<or> fi_table t = []"
proof -
  let ?s = "fst (fi_handleNotify (notified_object n) s)"
  have n: "n = emptyElement i" using assms(3) by (simp add: deleteEntity_def)
  then have "result_row (notified_object n) = None"
    using assms(4) by (simp add: result_row_def attribute_value_notified readable_element_def emptyElement_def object_proto_def)
  then have u: "unreadable_result (s\<lparr>personsFound := personsFound s @ [notified_object n]\<rparr>)" by (simp add: unreadable_result_def)
  then have "unreadable_result ?s" "fi_table ?s = fi_table s"
    using assms(2) by (simp_all add: fi_handleNotify_def updateResult_unreadable Let_def)
  then have "unreadable_result (fold (\<lambda>e s. fst (fi_step e s)) evs ?s) \<and>
      (fi_table (fold (\<lambda>e s. fst (fi_step e s)) evs ?s) = fi_table s \<or> fi_table (fold (\<lambda>e s. fst (fi_step e s)) evs ?s) = [])"
    by (induction evs rule: rev_induct) (use unreadable_step in fastforce)+
  then show ?thesis by (simp add: finder_notified [OF assms(1)] Let_def del: fi_step.simps)
qed

theorem deleted_result_breaks_table_witness:
  "let s' = fold (\<lambda>m s. fst (fi_step (FiNotified m) s)) (pushed ''s'' sample_client (emptyElement ''Stream.ChildFound.1'')) sample_finder;
       t = fold (\<lambda>e s. fst (fi_step e s)) [FiNotified (JObj [(''entities'', notified_object sample_found)])] s' in
    fi_table t = fi_table sample_finder \<or> fi_table t = []"
  by (rule deleted_result_breaks_table [OF sample_client_subscribed, where es = Map.empty and es' = Map.empty and i = "''Stream.ChildFound.1''"])
    (auto simp: sample_finder_def deleteEntity_def)

section \<open>The area of the search\<close>

datatype shape = CircleShape jval jval jval | PolygonShape "(jval \<times> jval) list"

fun lat_lngs :: "jval list \<Rightarrow> (jval \<times> jval) list option" where
  "lat_lngs [] = Some []"
| "lat_lngs (v # vs) =
     do { lat \<leftarrow> jget v ''latitude''; lng \<leftarrow> jget v ''longitude''; rest \<leftarrow> lat_lngs vs; Some ((lat, lng) # rest) }"

text \<open>What is drawn for the current scope; \<open>None\<close> is an exception.\<close>

definition displaySearchScope :: "jval \<Rightarrow> shape list option" where
  "displaySearchScope scope =
     (if is_nullish scope then Some []
      else do { t \<leftarrow> jget scope ''scopeType'';
        (if t = JStr ''circle'' then
           do { v \<leftarrow> jget scope ''scopeValue''; lat \<leftarrow> jget v ''centerLatitude''; lon \<leftarrow> jget v ''centerLongitude''; r \<leftarrow> jget v ''radius'';
                Some [CircleShape lat lon r] }
         else if t = JStr ''polygon'' then
           do { v \<leftarrow> jget scope ''scopeValue''; vs \<leftarrow> jget v ''vertices''; es \<leftarrow> jelems vs; ps \<leftarrow> lat_lngs es; Some [PolygonShape ps] }
         else Some []) })"

definition geo_point :: "jval \<times> jval \<Rightarrow> jval" where
  "geo_point p = JArr [snd p, fst p]"

lemma nat_str_01: "nat_str 0 = ''0''" "nat_str (Suc 0) = ''1''"
  by code_simp+

lemma scope_vertices: "\<exists>vs. vertices (map geo_point ps) = Some vs \<and> lat_lngs vs = Some ps"
proof (induction ps)
  case (Cons p ps)
  have "jget (geo_point p) ''0'' = Some (snd p)" "jget (geo_point p) ''1'' = Some (fst p)"
    by (simp_all add: geo_point_def nat_str_01)
  with Cons show ?case by (auto simp: js_access)
qed simp

text \<open>
  The area that was drawn on the map is displayed again when the map is shown the next time, with the same shape and the
  same corners; \<open>toGeoJSON\<close> lists the corners as pairs of longitude and latitude.
\<close>

theorem drawn_polygon_displayed:
  assumes "layerType = ''rectangle'' \<or> layerType = ''polygon''" and "geoscope (fi_page s) = JObj ps"
  shows "\<exists>s'. fi_step (OnPage (Draw layerType (JArr [JArr (map geo_point corners)]) radius)) s = (s', []) \<and>
    displaySearchScope (geoscope (fi_page s')) = Some [PolygonShape corners]"
proof -
  obtain vs where vs: "vertices (map geo_point corners) = Some vs" "lat_lngs vs = Some corners" using scope_vertices by blast
  have "jget (JArr [JArr (map geo_point corners)]) ''0'' = Some (JArr (map geo_point corners))" by (simp add: nat_str_01)
  moreover have "map snd (jprops (JArr (map geo_point corners))) = map geo_point corners" by (auto intro: nth_equalityI)
  ultimately have "page_draw_created layerType (JArr [JArr (map geo_point corners)]) radius (JObj ps) =
      Some (JObj (obj_put ''scopeValue'' (JObj [(''vertices'', JArr vs)]) (obj_put ''scopeType'' (JStr ''polygon'') ps)))"
    using assms(1) vs(1) by (auto simp: page_draw_created_def drawn_shape_def set_scope_def)
  then show ?thesis using assms(2) vs(2) by (simp add: displaySearchScope_def js_access)
qed

end
