(* ===== verification/Benchmark.thy ===== *)
theory Benchmark
  imports Complex_Main Operator_Link
begin

text \<open>
  The two benchmarks of the orchestration, \<open>test/orchestration-test/main.js\<close> and \<open>test/migration-test/main.js\<close>: the stages of a
  test, which the user advances by interrupts, the entities that it creates, moves and deletes, the times that it measures, and
  their statistics.

  Times are integers; the averages are rationals.  The coordinates of the devices, which are no integers, enter the messages
  by the function \<open>number\<close>.
\<close>

section \<open>Numbers\<close>

text \<open>A measured time: missing, \<open>NaN\<close>, infinite or a number.\<close>

datatype jnum = Undef | NaN | Inf bool | Fin rat

fun jn_add :: "jnum \<Rightarrow> jnum \<Rightarrow> jnum" where
  "jn_add (Fin a) (Fin b) = Fin (a + b)"
| "jn_add (Inf s) (Fin b) = Inf s"
| "jn_add (Fin a) (Inf s) = Inf s"
| "jn_add (Inf s) (Inf t) = (if s = t then Inf s else NaN)"
| "jn_add a b = NaN"

fun jn_sub :: "jnum \<Rightarrow> jnum \<Rightarrow> jnum" where
  "jn_sub (Fin a) (Fin b) = Fin (a - b)"
| "jn_sub a b = NaN"

fun jn_less :: "jnum \<Rightarrow> jnum \<Rightarrow> bool" where
  "jn_less (Fin a) (Fin b) = (a < b)"
| "jn_less a b = False"

definition jn_div :: "jnum \<Rightarrow> nat \<Rightarrow> jnum" where
  "jn_div a n =
     (case a of
        Fin x \<Rightarrow> if n = 0 then (if x = 0 then NaN else Inf (x < 0)) else Fin (x / of_nat n)
      | Inf s \<Rightarrow> Inf s
      | _ \<Rightarrow> NaN)"

section \<open>The statistics\<close>

text \<open>The body of the loop; \<open>arr[i] == null\<close> skips missing values, but not \<open>NaN\<close>.\<close>

definition stat_step :: "jnum \<Rightarrow> jnum \<times> jnum \<times> jnum \<times> nat \<Rightarrow> jnum \<times> jnum \<times> jnum \<times> nat" where
  "stat_step x s =
     (case s of (mx, mn, sm, num) \<Rightarrow>
        if x = Undef then s
        else (if jn_less mx x then x else mx, if jn_less x mn then x else mn, jn_add sm x, num + 1))"

text \<open>The two programs differ in the initial value of \<open>num\<close>: 0 in the test of the orchestration, 1 in that of the migration.\<close>

definition maxMinAvg :: "nat \<Rightarrow> jnum list \<Rightarrow> jnum \<times> jnum \<times> jnum" where
  "maxMinAvg num0 arr =
     (case arr of
        [] \<Rightarrow> (Undef, Undef, NaN)
      | x # xs \<Rightarrow> (case fold stat_step xs (x, x, x, num0) of (mx, mn, sm, num) \<Rightarrow> (mx, mn, jn_div sm num)))"

section \<open>The tests\<close>

datatype variant = Orchestration | Migration

datatype test_status = INIT | ENABLED | MIGRATE | DISABLED | DELETE | EXIT

record measures =
  assignment_time :: jnum
  orchestration_time :: jnum
  migration_time :: jnum
  termination_time :: jnum

definition no_measures :: measures where
  "no_measures = \<lparr>assignment_time = Undef, orchestration_time = Undef, migration_time = Undef, termination_time = Undef\<rparr>"

text \<open>
  The variables of the program, the requests to the broker and to the designer so far, the deletions that are still to be
  sent, what was printed, and whether the program ended.  The identifiers of tasks are no array indices, so that
  \<open>taskMap\<close> lists them in the order of their insertion.
\<close>

record bench =
  status :: test_status
  start_time :: jnum
  stop_time :: jnum
  migrate_time :: jnum
  taskMap :: "(string \<times> measures) list"
  bn_sent :: "http_req list"
  bn_pending :: "nat list"
  bn_fetched :: "string list"
  printed :: "(jnum \<times> jnum \<times> jnum) list list"
  exited :: bool

definition init_bench :: bench where
  "init_bench = \<lparr>status = INIT, start_time = Undef, stop_time = Undef, migrate_time = Undef, taskMap = [], bn_sent = [], bn_pending = [], bn_fetched = [],
     printed = [], exited = False\<rparr>"

definition locations :: "(rat \<Rightarrow> jval) \<Rightarrow> (jval \<times> jval) list" where
  "locations number =
     [(number (38018837048090326 / 10 ^ 15), number (- 11693835099259555 / 10 ^ 16)),
      (number (3801506335734526 / 10 ^ 14), number (- 11715629779027177 / 10 ^ 16)),
      (number (38016654446651685 / 10 ^ 15), number (- 11680698394775393 / 10 ^ 16))]"

definition bench_location :: "(rat \<Rightarrow> jval) \<Rightarrow> nat \<Rightarrow> jval" where
  "bench_location number i =
     (let p = locations number ! (i mod length (locations number)) in JObj [(''latitude'', fst p), (''longitude'', snd p)])"

definition bench_id :: "nat \<Rightarrow> string" where
  "bench_id i = ''Device.'' @ nat_str i"

definition bench_device :: "(rat \<Rightarrow> jval) \<Rightarrow> nat \<Rightarrow> nat \<Rightarrow> jval" where
  "bench_device number i place =
     JObj [(''entityId'', JObj [(''id'', JStr (bench_id i)), (''type'', JStr ''Temperature''), (''isPattern'', JBool False)]),
           (''attributes'', JObj [(''protocol'', JObj [(''type'', JStr ''string''), (''value'', JStr ''NGSI-v1'')])]),
           (''metadata'', JObj [(''location'', JObj [(''type'', JStr ''point''), (''value'', bench_location number place)])])]"

definition bench_update :: "jval \<Rightarrow> (rat \<Rightarrow> jval) \<Rightarrow> nat \<Rightarrow> nat \<Rightarrow> http_req list" where
  "bench_update url number i place = (case update_request url (bench_device number i place) of None \<Rightarrow> [] | Some rq \<Rightarrow> [rq])"

text \<open>\<open>for (var i=1; i<=num; i++)\<close>, which does nothing for \<open>NaN\<close>.\<close>

definition device_range :: "int option \<Rightarrow> nat list" where
  "device_range num = (case num of None \<Rightarrow> [] | Some n \<Rightarrow> [1..<Suc (nat n)])"

definition create_temperature_entities :: "jval \<Rightarrow> (rat \<Rightarrow> jval) \<Rightarrow> int option \<Rightarrow> http_req list" where
  "create_temperature_entities url number num = concat (map (\<lambda>i. bench_update url number i i) (device_range num))"

definition update_temperature_entities :: "jval \<Rightarrow> (rat \<Rightarrow> jval) \<Rightarrow> int option \<Rightarrow> http_req list" where
  "update_temperature_entities url number num = concat (map (\<lambda>i. bench_update url number i (i + 1)) (device_range num))"

definition bench_delete_request :: "jval \<Rightarrow> nat \<Rightarrow> http_req" where
  "bench_delete_request url i =
     post_req (js_str url @ ''/updateContext'') JUndef
       (update_req_body (JObj (obj_of [(''entityId'', JObj [(''id'', JStr (bench_id i)), (''type'', JStr ''Temperature''), (''isPattern'', JBool False)])])) ''DELETE'')"

text \<open>The deletions are sent one by one, each after the answer to the one before, whatever this answer is.\<close>

definition next_delete :: "jval \<Rightarrow> bench \<Rightarrow> bench" where
  "next_delete url s =
     (case bn_pending s of [] \<Rightarrow> s | i # is \<Rightarrow> s\<lparr>bn_pending := is, bn_sent := bn_sent s @ [bench_delete_request url i]\<rparr>)"

definition delete_temperature_entities :: "jval \<Rightarrow> int option \<Rightarrow> bench \<Rightarrow> bench" where
  "delete_temperature_entities url num s = next_delete url (s\<lparr>bn_pending := device_range num\<rparr>)"

definition printTestResult :: "variant \<Rightarrow> bench \<Rightarrow> (jnum \<times> jnum \<times> jnum) list" where
  "printTestResult v s =
     (let ms = map snd (taskMap s) in
      case v of
        Orchestration \<Rightarrow> map (\<lambda>f. maxMinAvg 0 (map f ms)) [assignment_time, orchestration_time, termination_time]
      | Migration \<Rightarrow> map (\<lambda>f. maxMinAvg 1 (map f ms)) [assignment_time, orchestration_time, migration_time, termination_time])"

text \<open>\<open>startTest\<close> up to the request that enables the fog function, and the rest of it once this is answered.\<close>

definition startTest :: "jval \<Rightarrow> (rat \<Rightarrow> jval) \<Rightarrow> int option \<Rightarrow> bench \<Rightarrow> bench" where
  "startTest url number num s =
     s\<lparr>bn_sent := bn_sent s @ create_temperature_entities url number num, bn_fetched := bn_fetched s @ [''/fogfunction/mytest/enable'']\<rparr>"

definition test_enabled :: "rat \<Rightarrow> bench \<Rightarrow> bench" where
  "test_enabled now s = s\<lparr>start_time := Fin now, status := ENABLED\<rparr>"

definition stopTest :: "bench \<Rightarrow> bench" where
  "stopTest s = s\<lparr>bn_fetched := bn_fetched s @ [''/fogfunction/mytest/disable'']\<rparr>"

text \<open>The test of the orchestration takes the time of the stop when the request is answered.\<close>

definition test_disabled :: "variant \<Rightarrow> rat \<Rightarrow> bench \<Rightarrow> bench" where
  "test_disabled v now s = (case v of Orchestration \<Rightarrow> s\<lparr>stop_time := Fin now\<rparr> | Migration \<Rightarrow> s)"

definition bench_sigint :: "variant \<Rightarrow> jval \<Rightarrow> (rat \<Rightarrow> jval) \<Rightarrow> int option \<Rightarrow> rat \<Rightarrow> bench \<Rightarrow> bench" where
  "bench_sigint v url number num now s =
     (case status s of
        INIT \<Rightarrow> s
      | ENABLED \<Rightarrow>
          (case v of
             Orchestration \<Rightarrow> (stopTest s)\<lparr>status := DISABLED\<rparr>
           | Migration \<Rightarrow> s\<lparr>migrate_time := Fin now, bn_sent := bn_sent s @ update_temperature_entities url number num, status := MIGRATE\<rparr>)
      | MIGRATE \<Rightarrow> (stopTest (s\<lparr>stop_time := Fin now\<rparr>))\<lparr>status := DISABLED\<rparr>
      | DISABLED \<Rightarrow> s\<lparr>printed := printed s @ [printTestResult v s], status := DELETE\<rparr>
      | DELETE \<Rightarrow> (delete_temperature_entities url num s)\<lparr>status := EXIT\<rparr>
      | EXIT \<Rightarrow> s\<lparr>exited := True\<rparr>)"

text \<open>
  \<open>taskID in taskMap\<close> holds also for the names that every object inherits; what is assigned there is not listed.
\<close>

definition known_task :: "string \<Rightarrow> bench \<Rightarrow> bool" where
  "known_task i s = (i \<in> fst ` set (taskMap s) \<or> i \<in> set object_proto)"

definition set_measure :: "string \<Rightarrow> (measures \<Rightarrow> measures) \<Rightarrow> bench \<Rightarrow> bench" where
  "set_measure i f s = s\<lparr>taskMap := map (\<lambda>(k, m). (k, if k = i then f m else m)) (taskMap s)\<rparr>"

definition bench_onTaskUpdate :: "variant \<Rightarrow> rat \<Rightarrow> string \<Rightarrow> string \<Rightarrow> string \<Rightarrow> bench \<Rightarrow> bench" where
  "bench_onTaskUpdate v now topology taskID st s =
     (if topology \<noteq> ''mytest'' then s
      else
        (let s1 = (if known_task taskID s then s else s\<lparr>taskMap := taskMap s @ [(taskID, no_measures)]\<rparr>) in
         if st = ''running'' then
           (if v = Migration \<and> status s1 = MIGRATE
            then set_measure taskID (\<lambda>m. m\<lparr>migration_time := jn_sub (Fin now) (migrate_time s1)\<rparr>) s1
            else set_measure taskID (\<lambda>m. m\<lparr>assignment_time := jn_sub (Fin now) (start_time s1)\<rparr>) s1)
         else if st = ''removed'' then set_measure taskID (\<lambda>m. m\<lparr>termination_time := jn_sub (Fin now) (stop_time s1)\<rparr>) s1
         else s1))"

definition bench_onTaskInfo :: "rat \<Rightarrow> string \<Rightarrow> string \<Rightarrow> bench \<Rightarrow> bench" where
  "bench_onTaskInfo now topology taskID s =
     (if topology \<noteq> ''mytest'' then s
      else if known_task taskID s then set_measure taskID (\<lambda>m. m\<lparr>orchestration_time := jn_sub (Fin now) (start_time s)\<rparr>) s
      else s)"

datatype bench_event =
    Enabled rat | Disabled rat | Deleted | Sigint rat | TaskUpdate rat string string string | TaskInfo rat string string

fun bench_step :: "variant \<Rightarrow> jval \<Rightarrow> (rat \<Rightarrow> jval) \<Rightarrow> int option \<Rightarrow> bench_event \<Rightarrow> bench \<Rightarrow> bench" where
  "bench_step v url number num e s =
     (if exited s then s
      else case e of
             Enabled now \<Rightarrow> if status s = INIT then test_enabled now s else s
           | Disabled now \<Rightarrow> test_disabled v now s
           | Deleted \<Rightarrow> next_delete url s
           | Sigint now \<Rightarrow> bench_sigint v url number num now s
           | TaskUpdate now topology i st \<Rightarrow> bench_onTaskUpdate v now topology i st s
           | TaskInfo now topology i \<Rightarrow> bench_onTaskInfo now topology i s)"

definition bench_run :: "variant \<Rightarrow> jval \<Rightarrow> (rat \<Rightarrow> jval) \<Rightarrow> int option \<Rightarrow> bench_event list \<Rightarrow> bench" where
  "bench_run v url number num es = fold (bench_step v url number num) es (startTest url number num init_bench)"

section \<open>The statistics are those of the measured times, except for the average\<close>

definition present :: "jnum list \<Rightarrow> rat list" where
  "present xs = concat (map (\<lambda>x. case x of Fin r \<Rightarrow> [r] | _ \<Rightarrow> []) xs)"

lemma present_simps [simp]: "present [] = []" "present (Fin r # xs) = r # present xs" "present (Undef # xs) = present xs"
  by (simp_all add: present_def)

lemma stat_fold:
  assumes "\<forall>x \<in> set xs. x = Undef \<or> (\<exists>r. x = Fin r)"
  shows "fold stat_step xs (Fin a, Fin b, Fin c, n) =
    (Fin (fold max (present xs) a), Fin (fold min (present xs) b), Fin (c + sum_list (present xs)), n + length (present xs))"
  using assms
proof (induction xs arbitrary: a b c n)
  case (Cons x xs)
  then show ?case by (auto simp: stat_step_def max_def min_def not_less le_less)
qed simp

text \<open>
  Of times of which the first was measured, and others may be missing, the largest and the smallest are printed; the
  average of the test of the migration is their mean, that of the test of the orchestration divides the sum by one too
  few, and is infinite for a single time that is not 0.
\<close>

theorem statistics_of_times:
  assumes "\<forall>x \<in> set xs. x = Undef \<or> (\<exists>r. x = Fin r)"
  shows "let rs = r # present xs; n = length rs in
    maxMinAvg 1 (Fin r # xs) = (Fin (Max (set rs)), Fin (Min (set rs)), Fin (sum_list rs / of_nat n)) \<and>
    maxMinAvg 0 (Fin r # xs) = (Fin (Max (set rs)), Fin (Min (set rs)),
      if n = 1 then (if r = 0 then NaN else Inf (r < 0)) else Fin (sum_list rs / of_nat (n - 1)))"
proof -
  have "fold max (present xs) r = Max (set (r # present xs))" "fold min (present xs) r = Min (set (r # present xs))"
    by (simp_all only: Max.set_eq_fold Min.set_eq_fold)
  then show ?thesis
    by (auto simp: maxMinAvg_def stat_fold [OF assms] jn_div_def Let_def add.commute)
qed

theorem statistics_of_times_witness:
  "maxMinAvg 1 [Fin 10, Undef, Fin 20] = (Fin 20, Fin 10, Fin 15) \<and> maxMinAvg 0 [Fin 10, Undef, Fin 20] = (Fin 20, Fin 10, Fin 30)"
  using statistics_of_times [of "[Undef, Fin 20]" 10] by simp

section \<open>A task that is removed too early\<close>

lemma nan_sum: "fold stat_step xs (mx, mn, NaN, n) = (case fold stat_step xs (mx, mn, NaN, n) of (a, b, c, d) \<Rightarrow> (a, b, NaN, d))"
proof (induction xs arbitrary: mx mn n)
  case (Cons x xs)
  then show ?case by (cases x) (auto simp: stat_step_def)
qed simp

lemma jn_add_NaN: "x \<noteq> Undef \<Longrightarrow> jn_add NaN x = NaN" "jn_add x NaN = NaN"
  by (cases x; simp)+

lemma fold_stat_NaN: "NaN \<in> set xs \<Longrightarrow> \<exists>a b d. fold stat_step xs (mx, mn, sm, n) = (a, b, NaN, d)"
proof (induction xs arbitrary: mx mn sm n)
  case (Cons x xs)
  show ?case
  proof (cases "NaN \<in> set xs")
    case True
    with Cons.IH show ?thesis by (cases "stat_step x (mx, mn, sm, n)") auto
  next
    case False
    then have "x = NaN" using Cons.prems by simp
    then have "fold stat_step (x # xs) (mx, mn, sm, n) = fold stat_step xs (if jn_less mx NaN then NaN else mx, if jn_less NaN mn then NaN else mn, NaN, n + 1)"
      by (simp add: stat_step_def jn_add_NaN)
    with nan_sum show ?thesis by (metis (no_types, lifting) old.prod.exhaust old.prod.case)
  qed
qed simp

text \<open>
  Claim C32. The test of the orchestration loses its result when a task ends too early: a task that is known and whose removal
  is reported after the interrupt, but before the request that disables the function is answered, gets no
  number, and unless its identifier is reported once more the printed average of the termination times is \<open>NaN\<close>.
\<close>

theorem early_removal_spoils_average:
  assumes "stop_time s = Undef" and "(i, m) \<in> set (taskMap s)" and "i \<notin> set object_proto"
  shows "\<exists>mx mn. printTestResult Orchestration (bench_onTaskUpdate Orchestration now ''mytest'' i ''removed'' s) ! 2 = (mx, mn, NaN)"
proof -
  let ?s = "bench_onTaskUpdate Orchestration now ''mytest'' i ''removed'' s"
  have "known_task i s" using assms(2) by (force simp: known_task_def)
  then have "?s = set_measure i (\<lambda>m. m\<lparr>termination_time := NaN\<rparr>) s" using assms(1) by (simp add: bench_onTaskUpdate_def)
  then have nan: "NaN \<in> set (map (termination_time \<circ> snd) (taskMap ?s))" using assms(2) by (force simp: set_measure_def)
  have "\<exists>mx mn. maxMinAvg 0 (map (termination_time \<circ> snd) (taskMap ?s)) = (mx, mn, NaN)"
  proof (cases "map (termination_time \<circ> snd) (taskMap ?s)")
    case (Cons x xs)
    show ?thesis
    proof (cases "NaN \<in> set xs")
      case True
      from fold_stat_NaN [OF this, of x x x 0] obtain a b d where "fold stat_step xs (x, x, x, 0) = (a, b, NaN, d)" by blast
      then show ?thesis by (simp add: Cons maxMinAvg_def jn_div_def)
    next
      case False
      then have "x = NaN" using nan Cons by auto
      moreover obtain a b c d where "fold stat_step xs (NaN, NaN, NaN, 0) = (a, b, c, d)" by (metis prod_cases4)
      ultimately show ?thesis using nan_sum [of xs NaN NaN 0] by (simp add: Cons maxMinAvg_def jn_div_def)
    qed
  qed (use nan in simp)
  then show ?thesis by (simp add: printTestResult_def Let_def comp_def)
qed

theorem early_removal_spoils_average_witness:
  "\<exists>mx mn. printTestResult Orchestration (bench_onTaskUpdate Orchestration 9 ''mytest'' ''t1'' ''removed''
     (bench_run Orchestration (JStr ''http://b'') (\<lambda>x. JNum 0) (Some 1) [Enabled 1, TaskUpdate 3 ''mytest'' ''t1'' ''running'', Sigint 8])) ! 2 = (mx, mn, NaN)"
  by (rule early_removal_spoils_average [where m = "no_measures\<lparr>assignment_time := Fin 2\<rparr>"])
    (simp_all add: bench_run_def startTest_def init_bench_def test_enabled_def bench_onTaskUpdate_def known_task_def set_measure_def bench_sigint_def
      stopTest_def object_proto_def)

section \<open>The stages\<close>

fun remaining :: "variant \<Rightarrow> bench \<Rightarrow> nat" where
  "remaining v s =
     (if exited s then 0
      else case status s of INIT \<Rightarrow> 0 | ENABLED \<Rightarrow> (if v = Orchestration then 4 else 5) | MIGRATE \<Rightarrow> 4 | DISABLED \<Rightarrow> 3 | DELETE \<Rightarrow> 2 | EXIT \<Rightarrow> 1)"

fun is_sigint :: "bench_event \<Rightarrow> bool" where
  "is_sigint (Sigint now) = True"
| "is_sigint e = False"

lemma measure_frame [simp]:
  "status (set_measure i f s) = status s" "exited (set_measure i f s) = exited s" "bn_sent (set_measure i f s) = bn_sent s"
  "bn_pending (set_measure i f s) = bn_pending s"
  by (simp_all add: set_measure_def)

lemma task_frame [simp]:
  "status (bench_onTaskUpdate v now t i st s) = status s" "exited (bench_onTaskUpdate v now t i st s) = exited s"
  "bn_sent (bench_onTaskUpdate v now t i st s) = bn_sent s" "bn_pending (bench_onTaskUpdate v now t i st s) = bn_pending s"
  "status (bench_onTaskInfo now t i s) = status s" "exited (bench_onTaskInfo now t i s) = exited s"
  "bn_sent (bench_onTaskInfo now t i s) = bn_sent s" "bn_pending (bench_onTaskInfo now t i s) = bn_pending s"
  by (simp_all add: bench_onTaskUpdate_def bench_onTaskInfo_def Let_def)

lemma next_delete_frame [simp]: "status (next_delete url s) = status s" "exited (next_delete url s) = exited s"
  by (simp_all add: next_delete_def split: list.split)

lemma disabled_frame [simp]:
  "status (test_disabled v now s) = status s" "exited (test_disabled v now s) = exited s" "bn_sent (test_disabled v now s) = bn_sent s"
  "bn_pending (test_disabled v now s) = bn_pending s"
  by (simp_all add: test_disabled_def split: variant.split)

lemma started_step:
  assumes "status s \<noteq> INIT"
  shows "status (bench_step v url number num e s) \<noteq> INIT \<and>
    remaining v (bench_step v url number num e s) = remaining v s - (if is_sigint e then 1 else 0)"
  using assms
  by (cases e; cases "status s"; cases v)
    (auto simp: bench_sigint_def stopTest_def delete_temperature_entities_def)

lemma started_run:
  "status s \<noteq> INIT \<Longrightarrow> status (fold (bench_step v url number num) es s) \<noteq> INIT \<and>
     remaining v (fold (bench_step v url number num) es s) = remaining v s - length (filter is_sigint es)"
proof (induction es arbitrary: s)
  case (Cons e es)
  from started_step [OF Cons.prems] have "status (bench_step v url number num e s) \<noteq> INIT" by blast
  with Cons.IH [OF this] started_step [OF Cons.prems, of v url number num e] show ?case by (simp del: bench_step.simps remaining.simps)
qed (simp del: remaining.simps)

lemma remaining_0: "status s \<noteq> INIT \<Longrightarrow> remaining v s = 0 \<longleftrightarrow> exited s"
  by (cases "status s") auto

definition is_enabled :: "bench_event \<Rightarrow> bool" where
  "is_enabled e = (case e of Enabled now \<Rightarrow> True | _ \<Rightarrow> False)"

lemma waiting_run:
  assumes "list_all (\<lambda>e. \<not> is_enabled e) es" and "status s = INIT" and "\<not> exited s"
  shows "status (fold (bench_step v url number num) es s) = INIT \<and> \<not> exited (fold (bench_step v url number num) es s)"
  using assms
proof (induction es arbitrary: s)
  case (Cons e es)
  have "status (bench_step v url number num e s) = INIT \<and> \<not> exited (bench_step v url number num e s)"
    using Cons.prems by (cases e) (simp_all add: is_enabled_def bench_sigint_def)
  with Cons show ?case by (simp del: bench_step.simps)
qed simp

text \<open>
  Claim C30. Interrupts are ignored until the fog function is enabled, and from then on every interrupt advances the test by
  one stage, whatever is reported in between: it ends with the fourth of them, and in the test of the
  migration with the fifth.
\<close>

theorem interrupts_end_test:
  assumes "list_all (\<lambda>e. \<not> is_enabled e) before"
  shows "exited (bench_run v url number num (before @ Enabled now # es)) \<longleftrightarrow>
    length (filter is_sigint es) \<ge> (case v of Orchestration \<Rightarrow> 4 | Migration \<Rightarrow> 5)"
proof -
  define s where "s = fold (bench_step v url number num) before (startTest url number num init_bench)"
  have s: "status s = INIT" "\<not> exited s"
    using waiting_run [OF assms, of "startTest url number num init_bench" v url number num] by (simp_all add: s_def startTest_def init_bench_def)
  let ?t = "test_enabled now s"
  have "bench_step v url number num (Enabled now) s = ?t" using s by simp
  then have run: "bench_run v url number num (before @ Enabled now # es) = fold (bench_step v url number num) es ?t"
    by (simp add: bench_run_def s_def [symmetric] del: bench_step.simps)
  have "status ?t \<noteq> INIT" and rem: "remaining v ?t = (case v of Orchestration \<Rightarrow> 4 | Migration \<Rightarrow> 5)"
    using s(2) by (simp_all add: test_enabled_def split: variant.split)
  from started_run [OF this(1), of v url number num es] show ?thesis
    unfolding run by (metis remaining_0 rem diff_is_0_eq)
qed

theorem interrupts_end_test_witness:
  "exited (bench_run Orchestration (JStr ''http://b'') (\<lambda>x. JNum 0) (Some 1) ([Sigint 0] @ Enabled 1 # [Sigint 2, Sigint 3, Deleted, Sigint 4])) \<longleftrightarrow> False"
  using interrupts_end_test [of "[Sigint 0]" Orchestration "JStr ''http://b''" "\<lambda>x. JNum 0" "Some 1" 1 "[Sigint 2, Sigint 3, Deleted, Sigint 4]"]
  by (simp add: is_enabled_def del: bench_step.simps)

section \<open>The entities of the test\<close>

definition broker_apply :: "http_req \<Rightarrow> entities \<Rightarrow> entities" where
  "broker_apply rq es = fold (\<lambda>i es. fst (deleteEntity [] i es)) (posted_deletes rq) (fold updateContextElement (posted_updates rq) es)"

definition device_ids :: "int option \<Rightarrow> string set" where
  "device_ids num = bench_id ` set (device_range num)"

lemma bench_update_posted:
  "\<exists>rq e. bench_update url number i place = [rq] \<and> posted_updates rq = [e] \<and> eid_id (Entity e) = bench_id i \<and> posted_deletes rq = []"
proof -
  let ?ps = "[(''id'', JStr (bench_id i)), (''type'', JStr ''Temperature''), (''isPattern'', JBool False)]"
  let ?e = "ctx_element (JObj ?ps) (json_named [(''protocol'', ''string'', JStr ''NGSI-v1'')]) (json_named [(''location'', ''point'', bench_location number place)])"
  have "JSONObject2CtxElement (bench_device number i place) = Some ?e"
    by (simp add: JSONObject2CtxElement_def bench_device_def ctx_element_def named_elems_def json_named_def json_string_def js_access js_literal)
  moreover have "parse_entity (JObj ?ps) = Some \<lparr>eid_type = ''Temperature'', eid_isPattern = False, eid_id = bench_id i\<rparr>" by (simp add: js_access)
  ultimately have "posted_updates (post_req (js_str url @ ''/updateContext'') JUndef (update_req_body ?e ''UPDATE'')) =
      [\<lparr>Entity = \<lparr>eid_type = ''Temperature'', eid_isPattern = False, eid_id = bench_id i\<rparr>, Attributes = [(''protocol'', ''string'', JStr ''NGSI-v1'')],
        Metadata = [(''location'', ''point'', bench_location number place)]\<rparr>]"
      "bench_update url number i place = [post_req (js_str url @ ''/updateContext'') JUndef (update_req_body ?e ''UPDATE'')]"
    by (simp_all add: posted_updates_element bench_update_def update_request_def del: parse_entity.simps)
  moreover have "posted_deletes (post_req (js_str url @ ''/updateContext'') JUndef (update_req_body ?e ''UPDATE'')) = []"
    by (simp add: posted_deletes_def post_req_def update_req_body_def js_access js_literal)
  ultimately show ?thesis by simp
qed

lemma bench_delete_posted: "posted_deletes (bench_delete_request url i) = [bench_id i]" "posted_updates (bench_delete_request url i) = []"
  by (simp_all add: bench_delete_request_def posted_deletes_def posted_updates_def post_req_def update_req_body_def js_access js_literal)

definition own_updates :: "int option \<Rightarrow> http_req \<Rightarrow> bool" where
  "own_updates num rq = (posted_deletes rq = [] \<and> (\<forall>e \<in> set (posted_updates rq). eid_id (Entity e) \<in> device_ids num))"

lemma updates_own: "list_all (own_updates num) (concat (map (\<lambda>i. bench_update url number i (f i)) (device_range num)))"
  unfolding list_all_iff
proof (clarsimp)
  fix i rq assume i: "i \<in> set (device_range num)" and rq: "rq \<in> set (bench_update url number i (f i))"
  obtain rq' e where "bench_update url number i (f i) = [rq']" "posted_updates rq' = [e]" "eid_id (Entity e) = bench_id i" "posted_deletes rq' = []"
    using bench_update_posted by blast
  with i rq show "own_updates num rq" by (simp add: own_updates_def device_ids_def)
qed

lemma own_updates_outside: "own_updates num rq \<Longrightarrow> i \<notin> device_ids num \<Longrightarrow> broker_apply rq es i = es i"
proof -
  assume "own_updates num rq" and i: "i \<notin> device_ids num"
  then have "posted_deletes rq = []" "\<forall>e \<in> set (posted_updates rq). eid_id (Entity e) \<in> device_ids num" by (simp_all add: own_updates_def)
  moreover have "\<forall>e \<in> set us. eid_id (Entity e) \<in> device_ids num \<Longrightarrow> fold updateContextElement us es i = es i" for us es
    using i by (induction us arbitrary: es) (auto simp: updateContextElement_def split: option.split)
  ultimately show ?thesis by (simp add: broker_apply_def)
qed

definition sent_inv :: "jval \<Rightarrow> int option \<Rightarrow> bench \<Rightarrow> bool" where
  "sent_inv url num s =
     (\<exists>ups ds. bn_sent s = ups @ map (bench_delete_request url) ds \<and> list_all (own_updates num) ups \<and>
        ds @ bn_pending s = (if status s = EXIT then device_range num else []))"

lemma sent_inv_delete:
  assumes "status s = EXIT" and "bn_sent s = ups @ map (bench_delete_request url) ds" and "list_all (own_updates num) ups"
    and "ds @ bn_pending s = device_range num"
  shows "sent_inv url num (next_delete url s)"
proof (cases "bn_pending s")
  case Nil
  then show ?thesis using assms by (auto simp: next_delete_def sent_inv_def)
next
  case (Cons i xs)
  then show ?thesis using assms unfolding sent_inv_def next_delete_def
    by (intro exI [of _ ups] exI [of _ "ds @ [i]"]) simp
qed

lemma sent_inv_sigint: "sent_inv url num s \<Longrightarrow> sent_inv url num (bench_sigint v url number num now s)"
proof (cases "status s")
  case ENABLED
  assume "sent_inv url num s"
  with ENABLED have "list_all (own_updates num) (bn_sent s)" "bn_pending s = []" by (auto simp: sent_inv_def)
  with ENABLED updates_own [of num url number "\<lambda>i. i + 1"] show ?thesis
    by (cases v) (auto simp: bench_sigint_def stopTest_def sent_inv_def update_temperature_entities_def intro!: exI [of _ "[]"])
next
  case DELETE
  assume "sent_inv url num s"
  with DELETE have "list_all (own_updates num) (bn_sent s)" by (auto simp: sent_inv_def)
  then have "sent_inv url num (next_delete url (s\<lparr>bn_pending := device_range num, status := EXIT\<rparr>))"
    by (intro sent_inv_delete [of _ "bn_sent s" url "[]"]) simp_all
  moreover have "(next_delete url (s\<lparr>bn_pending := device_range num\<rparr>))\<lparr>status := EXIT\<rparr> =
      next_delete url (s\<lparr>bn_pending := device_range num, status := EXIT\<rparr>)"
    by (simp add: next_delete_def split: list.split)
  ultimately show ?thesis using DELETE by (simp add: bench_sigint_def delete_temperature_entities_def)
qed (auto simp: bench_sigint_def stopTest_def sent_inv_def)

lemma sent_inv_frame:
  "\<lbrakk>bn_sent t = bn_sent s; bn_pending t = bn_pending s; status t = EXIT \<longleftrightarrow> status s = EXIT; sent_inv url num s\<rbrakk> \<Longrightarrow> sent_inv url num t"
  by (simp add: sent_inv_def)

lemma sent_inv_step:
  assumes "sent_inv url num s"
  shows "sent_inv url num (bench_step v url number num e s)"
proof (cases e)
  case Deleted
  show ?thesis
  proof (cases "status s = EXIT")
    case True
    with assms have "sent_inv url num (next_delete url s)" by (auto simp: sent_inv_def [of _ _ s] intro: sent_inv_delete)
    with assms Deleted show ?thesis by simp
  next
    case False
    then have "bn_pending s = []" using assms by (auto simp: sent_inv_def)
    with assms Deleted show ?thesis by (simp add: next_delete_def)
  qed
next
  case (Sigint now)
  with assms sent_inv_sigint show ?thesis by simp
qed (rule sent_inv_frame [OF _ _ _ assms]; simp add: test_enabled_def)+

lemma sent_inv_run: "sent_inv url num (bench_run v url number num es)"
proof -
  have "sent_inv url num (startTest url number num init_bench)"
    using updates_own [of num url number "\<lambda>i. i"]
    by (auto simp: sent_inv_def startTest_def init_bench_def create_temperature_entities_def intro!: exI [of _ "[]"])
  then have "sent_inv url num (fold (bench_step v url number num) es (startTest url number num init_bench))"
    by (induction es rule: rev_induct) (simp_all add: sent_inv_step del: bench_step.simps)
  then show ?thesis by (simp add: bench_run_def)
qed

lemma own_updates_run:
  "list_all (own_updates num) ups \<Longrightarrow> i \<notin> device_ids num \<Longrightarrow> fold broker_apply ups es i = es i"
  by (induction ups arbitrary: es) (auto simp: own_updates_outside)

lemma deletes_run: "fold broker_apply (map (bench_delete_request url) ds) es i = (if i \<in> bench_id ` set ds then None else es i)"
  by (induction ds arbitrary: es) (auto simp: broker_apply_def bench_delete_posted deleteEntity_def)

text \<open>
  Claim C29. A test leaves nothing behind: once it has reached its last stage and the deletions are sent, whatever was reported in
  between and however many interrupts there were, the broker stores no entity under an identifier of the test, not even one that
  was there before, and every other entity as before. So if no identifier of the test was in use, the broker stores exactly the entities it
  stored before.
\<close>

theorem test_cleans_up:
  assumes "s = bench_run v url number num es" and "status s = EXIT" and "bn_pending s = []"
  shows "(\<forall>i. fold broker_apply (bn_sent s) stored i = (if i \<in> device_ids num then None else stored i)) \<and>
    ((\<forall>i \<in> device_ids num. stored i = None) \<longrightarrow> fold broker_apply (bn_sent s) stored = stored)"
proof -
  obtain ups ds where "bn_sent s = ups @ map (bench_delete_request url) ds" "list_all (own_updates num) ups" "ds = device_range num"
    using sent_inv_run [of url num v number es] assms by (auto simp: sent_inv_def)
  then have "fold broker_apply (bn_sent s) stored i = (if i \<in> device_ids num then None else stored i)" for i
    by (simp add: deletes_run own_updates_run device_ids_def)
  then show ?thesis by (auto simp: fun_eq_iff)
qed

theorem test_cleans_up_witness:
  "fold broker_apply (bn_sent (bench_run Orchestration (JStr ''http://b'') (\<lambda>x. JNum 0) (Some 1) [Enabled 1, Sigint 2, Sigint 3, Sigint 4]))
     Map.empty = Map.empty"
  using test_cleans_up [OF refl, of Orchestration "JStr ''http://b''" "\<lambda>x. JNum 0" "Some 1" "[Enabled 1, Sigint 2, Sigint 3, Sigint 4]" Map.empty]
  by (simp add: bench_run_def startTest_def init_bench_def test_enabled_def bench_sigint_def stopTest_def delete_temperature_entities_def
      device_range_def next_delete_def)

end
