(* ===== verification/LD_Pages.thy ===== *)
theory LD_Pages
  imports Finder_Page Parking_Page LD_Operators LD_Counters
begin

text \<open>
  The pages of the designer for the services on NGSI-LD, below \<open>designer/public/js\<close>: \<open>LDanomaly.js\<close>, \<open>Heart_health.js\<close>,
  \<open>CropPrediction.js\<close>, \<open>ldlostchild.js\<close> and \<open>ldsmartparking.js\<close>.  They vary the pages of \<open>Designer_Page\<close>, \<open>Finder_Page\<close> and \<open>Parking_Page\<close>:
  entities have their attributes as properties, and the first four forget the intent that they cancelled.
\<close>

section \<open>Requests to the broker\<close>

text \<open>The requests of \<open>LDngsiclient.js\<close>; without an answer, which the pages only print.\<close>

definition ld_request :: "jval \<Rightarrow> jval \<Rightarrow> http_req option" where
  "ld_request u ctxObj =
     map_option (\<lambda>e. post_req (js_str u @ ''/v1/entityOperations/upsert'') ld_headers (JArr [e])) (LD_JSONObject2CtxElement ctxObj)"

lemma ld_request_of_library: "LD_updateContext axios (js_str u) ctxObj = map_option (\<lambda>rq. upsert_result (axios rq)) (ld_request u ctxObj)"
  by (simp add: LD_updateContext_def ld_request_def option.map_comp comp_def split: Option.bind_split)

definition ld_subscription :: "jval \<Rightarrow> jval \<Rightarrow> jval \<Rightarrow> jval" where
  "ld_subscription entity agentIP ldAgentPort =
     JObj [(''type'', JStr ''Subscription''), (''entities'', JArr [entity]),
           (''notification'', JObj [(''format'', JStr ''normalized''),
              (''endpoint'', JObj [(''uri'', JStr (''http://'' @ js_str agentIP @ '':'' @ js_str ldAgentPort @ ''/notifyContext'')),
                 (''accept'', JStr ''application/ld+json'')])])]"

definition ld_subscribe_request :: "jval \<Rightarrow> jval \<Rightarrow> jval \<Rightarrow> jval \<Rightarrow> http_req" where
  "ld_subscribe_request u entity agentIP ldAgentPort =
     post_req (js_str u @ ''/v1/subscriptions/'') ld_headers (ld_subscription entity agentIP ldAgentPort)"

section \<open>The management of the service\<close>

text \<open>The name of the topology is that of the fetched one; without a topology the access to it throws, and nothing is requested.\<close>

definition ld_intent :: "jval \<Rightarrow> jval \<Rightarrow> (nat \<Rightarrow> nat) \<Rightarrow> props" where
  "ld_intent topology scope random =
     obj_of [(''id'', JStr (intent_id random)), (''qos'', JStr ''default''), (''geoscope'', scope),
       (''priority'', JObj (obj_of [(''exclusive'', JBool False), (''level'', JNum 50)])), (''topology'', topology), (''action'', JStr ''ADD'')]"

definition ld_sendIntent :: "(nat \<Rightarrow> nat) \<Rightarrow> page \<Rightarrow> page \<times> intent_request list" where
  "ld_sendIntent random s =
     (case jget (curTopology s) ''name'' of
        None \<Rightarrow> (s, [])
      | Some topology \<Rightarrow>
          let intent = JObj (ld_intent topology (geoscope s) random)
          in (s\<lparr>in_flight := in_flight s @ [Issuing intent]\<rparr>, [PostIntent (jprops (json [] intent))]))"

definition ld_cancelIntent :: "page \<Rightarrow> page \<times> intent_request list" where
  "ld_cancelIntent s = (if jget (curTopology s) ''name'' = None then (s, []) else cancelIntent s)"

definition local_scope :: jval where
  "local_scope = JObj [(''scopeType'', JStr ''local''), (''scopeValue'', JStr ''local'')]"

fun ld_answered :: "page_request \<Rightarrow> page \<Rightarrow> page" where
  "ld_answered (Issuing intent) s = answered (Issuing intent) s"
| "ld_answered Cancelling s = (answered Cancelling s)\<lparr>curIntent := JNull, geoscope := local_scope\<rparr>"

text \<open>
  A file that is submitted is parsed, and then the stored topology is fetched: the page takes the answer as its topology,
  also an empty one.
\<close>

definition ld_submitTopology :: "jval \<Rightarrow> page \<Rightarrow> page" where
  "ld_submitTopology answer s = s\<lparr>curTopology := answer\<rparr>"

definition ld_handleNotify :: "jval \<Rightarrow> page \<Rightarrow> page step" where
  "ld_handleNotify contextObj s =
     (let s1 = s\<lparr>curResult := curResult s @ [contextObj]\<rparr> in
      case contextObj of
        JObj ps \<Rightarrow>
          (if has_own ps ''timmer'' \<and> has_own ps ''counter'' then
             (case do { t \<leftarrow> jget (obj_get ps ''timmer'') ''value''; n \<leftarrow> jget (obj_get ps ''counter'') ''value''; Some (t, n) } of
                None \<Rightarrow> (s1, False)
              | Some p \<Rightarrow> (s1\<lparr>points := points s1 @ [p]\<rparr>, True))
           else (s1, True))
      | _ \<Rightarrow> (s1, \<not> is_nullish contextObj))"

text \<open>The rule of the detection; \<open>NaN\<close> is \<open>null\<close> in the body of the request.\<close>

definition ld_rule_entity :: "int option \<Rightarrow> jval" where
  "ld_rule_entity n =
     JObj [(''id'', JStr ''urn:ngsi-ld:Stream.Rule.01''), (''type'', JStr ''Rule''),
           (''threshold'', property (case n of Some i \<Rightarrow> JNum i | None \<Rightarrow> JNull))]"

definition ld_publishThreshold :: "page \<Rightarrow> page" where
  "ld_publishThreshold s =
     (case ld_request (pg_client s) (ld_rule_entity (rule s)) of None \<Rightarrow> s | Some rq \<Rightarrow> s\<lparr>pg_sent := pg_sent s @ [rq]\<rparr>)"

definition ld_updateRule :: "string \<Rightarrow> page \<Rightarrow> page" where
  "ld_updateRule newThreshold s = ld_publishThreshold (s\<lparr>rule := parseInt newThreshold\<rparr>)"

text \<open>The events of a page; only that of the anomaly detection has a form for the threshold.\<close>

datatype ld_event = OnLDPage page_event | Submitted jval

fun ld_step :: "ld_event \<Rightarrow> page \<Rightarrow> page \<times> intent_request list" where
  "ld_step (OnLDPage (Start random)) s = (case buttons s of Some (True, _) \<Rightarrow> ld_sendIntent random s | _ \<Rightarrow> (s, []))"
| "ld_step (OnLDPage Stop) s = (case buttons s of Some (_, True) \<Rightarrow> ld_cancelIntent s | _ \<Rightarrow> (s, []))"
| "ld_step (OnLDPage (Answer i)) s =
     (if i < length (in_flight s)
      then (ld_answered (in_flight s ! i) (s\<lparr>in_flight := take i (in_flight s) @ drop (Suc i) (in_flight s)\<rparr>), []) else (s, []))"
| "ld_step (OnLDPage (Result ob)) s = (fst (ld_handleNotify ob s), [])"
| "ld_step (OnLDPage (NewThreshold t)) s = (ld_updateRule t s, [])"
| "ld_step (OnLDPage e) s = page_step e s"
| "ld_step (Submitted answer) s = (ld_submitTopology answer s, [])"

fun ld_run :: "ld_event list \<Rightarrow> page \<Rightarrow> page \<times> intent_request list" where
  "ld_run [] s = (s, [])"
| "ld_run (e # es) s = (case ld_step e s of (s1, rs) \<Rightarrow> case ld_run es s1 of (t, qs) \<Rightarrow> (t, rs @ qs))"

lemma ld_run_append:
  "ld_run (xs @ ys) s = (case ld_run xs s of (s1, rs) \<Rightarrow> case ld_run ys s1 of (t, qs) \<Rightarrow> (t, rs @ qs))"
  by (induction xs arbitrary: s) (auto split: prod.split)

section \<open>Starting and stopping, again and again\<close>

lemma ld_intent_plain:
  "ld_intent topology scope random =
     [(''id'', JStr (intent_id random)), (''qos'', JStr ''default''), (''geoscope'', scope),
      (''priority'', JObj [(''exclusive'', JBool False), (''level'', JNum 50)]), (''topology'', topology), (''action'', JStr ''ADD'')]"
  by (simp add: ld_intent_def js_literal)

lemma ld_intent_ok:
  "tree scope \<Longrightarrow> request_ok (PostIntent (ld_intent (JStr n) scope random)) \<and> request_ok (DeleteIntent (intent_id random))"
  by (simp add: ld_intent_plain object_proto_def has_own_def js_access)

lemma ld_intent_spec:
  "intent_spec (PostIntent (ld_intent topology scope random)) m = m(intent_id random \<mapsto> JObj (ld_intent topology scope random))"
  by (simp add: ld_intent_plain js_access js_literal)

lemma ld_intent_sent: "tree scope \<Longrightarrow> jprops (json [] (JObj (ld_intent (JStr n) scope random))) = ld_intent (JStr n) scope random"
  by (subst json_def, subst json_at_tree) (simp_all add: ld_intent_plain)

definition start_events :: "(nat \<Rightarrow> nat) \<Rightarrow> ld_event list" where
  "start_events random = map OnLDPage [ShowMgt, Start random, Answer 0]"

definition stop_events :: "ld_event list" where
  "stop_events = map OnLDPage [Stop, Answer 0, ShowOther]"

definition ready_page :: "string \<Rightarrow> page \<Rightarrow> bool" where
  "ready_page n s =
     (jget (curTopology s) ''name'' = Some (JStr n) \<and> is_nullish (curIntent s) \<and> in_flight s = [] \<and> tree (geoscope s))"

lemma started_page:
  assumes "ready_page n s"
  shows "ld_run (start_events random) s =
    (s\<lparr>curIntent := JObj (ld_intent (JStr n) (geoscope s) random), buttons := Some (False, True)\<rparr>,
     [PostIntent (ld_intent (JStr n) (geoscope s) random)])"
  using assms by (simp add: start_events_def ready_page_def showMgt_def ld_sendIntent_def ld_intent_sent Let_def)

lemma stopped_page:
  assumes "ready_page n s"
  shows "ld_run stop_events (s\<lparr>curIntent := JObj (ld_intent topology scope random), buttons := Some (False, True)\<rparr>) =
    (s\<lparr>curIntent := JNull, geoscope := local_scope, buttons := None\<rparr>, [DeleteIntent (intent_id random)])"
  using assms by (simp add: stop_events_def ready_page_def ld_cancelIntent_def cancelIntent_def ld_intent_plain js_access)

lemma local_scope_tree: "tree local_scope"
  by (simp add: local_scope_def)

lemma ready_again: "ready_page n s \<Longrightarrow> ready_page n (s\<lparr>curIntent := JNull, geoscope := local_scope, buttons := b\<rparr>)"
  by (simp add: ready_page_def local_scope_tree)

fun session :: "(nat \<Rightarrow> nat) list \<Rightarrow> ld_event list" where
  "session [] = []"
| "session (r # rs) = start_events r @ stop_events @ session rs"

text \<open>What the requests of a session leave of the intents.\<close>

definition forget :: "(nat \<Rightarrow> nat) \<Rightarrow> (string \<rightharpoonup> jval) \<Rightarrow> (string \<rightharpoonup> jval)" where
  "forget random m = m(intent_id random := None)"

lemma session_requests:
  "ready_page n s \<Longrightarrow>
   \<exists>t qs. ld_run (session rs) s = (t, qs) \<and> ready_page n t \<and> list_all request_ok qs \<and>
     (\<forall>m. fold intent_spec qs m = fold forget rs m)"
proof (induction rs arbitrary: s)
  case (Cons r rs)
  let ?s = "s\<lparr>curIntent := JNull, geoscope := local_scope, buttons := None\<rparr>"
  obtain t qs where t: "ld_run (session rs) ?s = (t, qs)" "ready_page n t" "list_all request_ok qs"
      "\<forall>m. fold intent_spec qs m = fold forget rs m"
    using Cons.IH [OF ready_again [OF Cons.prems]] by blast
  have "tree (geoscope s)" using Cons.prems by (simp add: ready_page_def)
  note ok = ld_intent_ok [OF this, of n r]
  have "ld_run (session (r # rs)) s = (t, PostIntent (ld_intent (JStr n) (geoscope s) r) # DeleteIntent (intent_id r) # qs)"
    by (simp add: ld_run_append started_page [OF Cons.prems] stopped_page [OF Cons.prems] t(1))
  moreover have "intent_spec (DeleteIntent (intent_id r)) (intent_spec (PostIntent (ld_intent (JStr n) (geoscope s) r)) m) = forget r m" for m
    unfolding ld_intent_spec forget_def by (simp only: intent_spec.simps(2) fun_upd_upd)
  ultimately show ?case using t ok by (simp del: request_ok.simps intent_spec.simps)
qed simp

text \<open>
  Claim C31. A page for NGSI-LD, the designer and the master together: whenever the service was started and stopped any number of
  times, the next Start makes the designer store the intent for the topology of the page and the master know it, and nothing
  else is left of the earlier ones.  The page of NGSI v1 has to be loaded again instead.
\<close>

theorem ld_page_starts_again:
  assumes "ready_page n s" and "intents_inv d" and "master_view (wire (rabbit d)) = intents_view d"
  shows "\<exists>t qs scope. ld_run (session rs @ start_events random) s = (t, qs) \<and> buttons t = Some (False, True) \<and>
     (let d' = fold (\<lambda>q d. fst (serve axios u q d)) qs d in
      master_view (wire (rabbit d')) = intents_view d' \<and>
      intents_view d' = (fold forget rs (intents_view d))(intent_id random \<mapsto> JObj (ld_intent (JStr n) scope random)))"
proof -
  obtain t qs where t: "ld_run (session rs) s = (t, qs)" "ready_page n t" "list_all request_ok qs"
      "\<forall>m. fold intent_spec qs m = fold forget rs m"
    using session_requests [OF assms(1)] by blast
  let ?q = "PostIntent (ld_intent (JStr n) (geoscope t) random)"
  have "list_all request_ok (qs @ [?q])" using t(2,3) ld_intent_ok [of "geoscope t" n random] by (simp add: ready_page_def del: request_ok.simps)
  then have "master_view (wire (rabbit (fold (\<lambda>q d. fst (serve axios u q d)) (qs @ [?q]) d))) =
      intents_view (fold (\<lambda>q d. fst (serve axios u q d)) (qs @ [?q]) d) \<and>
      intents_view (fold (\<lambda>q d. fst (serve axios u q d)) (qs @ [?q]) d) = fold intent_spec (qs @ [?q]) (intents_view d)"
    using intents.run_refines [OF conjI [OF assms(2,3)], of "qs @ [?q]" axios u] by auto
  then show ?thesis
    by (intro exI [of _ "t\<lparr>curIntent := JObj (ld_intent (JStr n) (geoscope t) random), buttons := Some (False, True)\<rparr>"]
        exI [of _ "qs @ [?q]"] exI [of _ "geoscope t"])
      (simp add: ld_run_append t(1,4) started_page [OF t(2)] ld_intent_spec Let_def del: serve.simps intent_spec.simps(1))
qed

definition sample_ld_page :: page where
  "sample_ld_page = (init_page (JStr ''./ngsi-ld''))\<lparr>curTopology := JObj [(''name'', JStr ''anomaly-detection.ld'')]\<rparr>"

theorem ld_page_starts_again_witness:
  "\<exists>t qs scope. ld_run (session [\<lambda>k. 0, \<lambda>k. 1] @ start_events (\<lambda>k. 2)) sample_ld_page = (t, qs) \<and> buttons t = Some (False, True) \<and>
     (let d' = fold (\<lambda>q d. fst (serve (\<lambda>rq. Inl JNull) [] q d)) qs connected_designer in
      master_view (wire (rabbit d')) = intents_view d' \<and>
      intents_view d' = (fold forget [\<lambda>k. 0, \<lambda>k. 1] (intents_view connected_designer))
        (intent_id (\<lambda>k. 2) \<mapsto> JObj (ld_intent (JStr ''anomaly-detection.ld'') scope (\<lambda>k. 2))))"
  by (rule ld_page_starts_again)
    (simp_all add: ready_page_def sample_ld_page_def init_page_def connected_designer_inv js_access)

section \<open>From the form to the detector\<close>

text \<open>The entities that a request posts, as the broker hands them to a subscriber.\<close>

definition ld_posted :: "http_req \<Rightarrow> jval list" where
  "ld_posted rq = (case json [] (rq_data rq) of JArr es \<Rightarrow> es | _ \<Rightarrow> [])"

lemma ld_publishThreshold_sent:
  "\<exists>rq. ld_publishThreshold s = s\<lparr>pg_sent := pg_sent s @ [rq]\<rparr> \<and> ld_posted rq = [ld_rule_entity (rule s)]"
proof -
  have "LD_JSONObject2CtxElement (ld_rule_entity (rule s)) = Some (ld_rule_entity (rule s))"
    by (simp add: LD_JSONObject2CtxElement_def ld_rule_entity_def system_keys_def js_access js_literal)
  moreover have "tree (ld_rule_entity (rule s))" by (simp add: ld_rule_entity_def property_def split: option.split)
  then have "json [] (JArr [ld_rule_entity (rule s)]) = JArr [ld_rule_entity (rule s)]"
    unfolding json_def by (intro json_at_tree) simp
  ultimately show ?thesis
    by (intro exI [of _ "post_req (js_str (pg_client s) @ ''/v1/entityOperations/upsert'') ld_headers (JArr [ld_rule_entity (rule s)])"])
      (simp add: ld_publishThreshold_def ld_request_def ld_posted_def post_req_def)
qed

lemma ld_rule_handled: "ld_an_handler now (ld_rule_entity (Some n)) a = (a\<lparr>la_threshold := JNum n\<rparr>, True)"
  by (simp add: ld_an_handler_def ld_rule_entity_def property_def field_def js_access js_eq_JStr)

text \<open>
  A threshold that is entered in the page for NGSI-LD is in force at the detector once it got the entity that the page
  posted: from then on it reports exactly the readings above it, until another rule comes.
\<close>

theorem ld_threshold_reaches_detector:
  assumes "parseInt text = Some n" and "lo_client a = Some u" and "lo_output a = [(''id'', i), (''type'', t)]"
  shows "\<exists>rq. pg_sent (fst (ld_step (OnLDPage (NewThreshold text)) s)) = pg_sent s @ [rq] \<and>
    lo_sent (fst (ld_anomaly_step (TNotified (map (Pair now) (ld_posted rq) @ map (\<lambda>(now, e). (now, ld_event_object e)) es)) a)) =
      lo_sent a @ map (ld_anomaly_request u i t) (detected n es)"
proof -
  let ?a = "a\<lparr>la_threshold := JNum n\<rparr>"
  obtain rq where rq: "ld_publishThreshold (s\<lparr>rule := Some n\<rparr>) = s\<lparr>rule := Some n, pg_sent := pg_sent s @ [rq]\<rparr>"
      "ld_posted rq = [ld_rule_entity (Some n)]"
    using ld_publishThreshold_sent [of "s\<lparr>rule := Some n\<rparr>"] by auto
  have "ld_anomaly_step (TNotified (map (\<lambda>(now, e). (now, ld_event_object e)) es)) ?a =
      (?a\<lparr>lo_sent := lo_sent a @ map (ld_anomaly_request u i t) (detected n es), la_threshold := JNum (rule_in_force n es)\<rparr>, True)"
    by (subst ld_anomalies_follow_rules [of _ u i t n]) (simp_all add: assms(2,3))
  with rq assms(1) show ?thesis by (intro exI [of _ rq]) (simp add: ld_updateRule_def caught_def ld_rule_handled)
qed

definition sample_detector :: ld_anomaly where
  "sample_detector = init_ld_anomaly\<lparr>lo_client := Some (JStr ''http://b''), lo_output := [(''id'', JStr ''o''), (''type'', JStr ''Anomaly'')]\<rparr>"

theorem ld_threshold_reaches_detector_witness:
  "\<exists>rq. pg_sent (fst (ld_step (OnLDPage (NewThreshold ''50'')) sample_ld_page)) = pg_sent sample_ld_page @ [rq] \<and>
    lo_sent (fst (ld_anomaly_step (TNotified (map (Pair ''noon'') (ld_posted rq) @
        [(''1'', ld_event_object (Reading (sample_reading 40))), (''2'', ld_event_object (Reading (sample_reading 60)))])) sample_detector)) =
      lo_sent sample_detector @ [ld_anomaly_request (JStr ''http://b'') (JStr ''o'') (JStr ''Anomaly'') (''2'', sample_reading 60)]"
proof -
  have "parseInt ''50'' = Some 50" by (simp add: parseInt_def is_digit_def is_space_def parse_nat_def)
  from ld_threshold_reaches_detector [OF this, of sample_detector "JStr ''http://b''" "JStr ''o''" "JStr ''Anomaly''" sample_ld_page "''noon''"
      "[(''1'', Reading (sample_reading 40)), (''2'', Reading (sample_reading 60))]"]
  show ?thesis by (simp add: sample_detector_def sample_reading_def del: ld_step.simps ld_anomaly_step.simps ld_event_object.simps)
qed

section \<open>From the counters to the charts\<close>

text \<open>The page after it was notified of the entities of requests, one after the other.\<close>

definition ld_chart :: "http_req list \<Rightarrow> page \<Rightarrow> page" where
  "ld_chart rqs s = fold (\<lambda>e s. fst (ld_step (OnLDPage (Result e)) s)) (concat (map ld_posted rqs)) s"

lemma ld_chart_points:
  assumes "\<And>k. k \<in> set ks \<Longrightarrow> \<exists>ps. ld_posted (f k) = [JObj ps] \<and> has_own ps ''timmer'' \<and> has_own ps ''counter'' \<and>
      jget (obj_get ps ''timmer'') ''value'' = Some (x k) \<and> jget (obj_get ps ''counter'') ''value'' = Some (y k)"
  shows "points (ld_chart (map f ks) s) = points s @ map (\<lambda>k. (x k, y k)) ks"
  using assms
proof (induction ks arbitrary: s)
  case (Cons k ks)
  obtain ps where "ld_posted (f k) = [JObj ps]" "has_own ps ''timmer''" "has_own ps ''counter''"
      "jget (obj_get ps ''timmer'') ''value'' = Some (x k)" "jget (obj_get ps ''counter'') ''value'' = Some (y k)"
    using Cons.prems [of k] by auto
  with Cons.IH [of "fst (ld_handleNotify (JObj ps) s)"] Cons.prems show ?case
    by (simp add: ld_chart_def ld_handleNotify_def Let_def)
qed (simp add: ld_chart_def)

lemma ld_stat_posted:
  assumes "cmd_field out ''type'' = JStr t"
  shows "\<exists>ps. ld_posted (ld_stat_request u out v time) = [JObj ps] \<and> has_own ps ''timmer'' \<and> has_own ps ''counter'' \<and>
    jget (obj_get ps ''timmer'') ''value'' = Some (JNum time) \<and>
    jget (obj_get ps ''counter'') ''value'' = Some (if is_omitted v then JUndef else json_at (Suc (Suc 0)) [] v)"
  using assms by (simp add: ld_posted_def ld_stat_request_def post_req_def json_def object_proto_def js_access)

text \<open>
  From the counter for NGSI-LD to the page: for every sequence of entities and timer events the chart shows, in order, one
  point for each window that was closed, and the points and the open window add up to the number of entities.
\<close>

theorem ld_chart_shows_windows:
  assumes "set_up u out s" and "ops_sent s = []" and "ops_data s = \<lparr>tBegin = t0, totalNumAnomaly = 0\<rparr>" and "cmd_field out ''type'' = JStr t"
  shows "\<exists>s' ns. counter_events ld_counter_updateContext es s = (s', True) \<and>
     points (ld_chart (ops_sent s') p) = points p @ map (\<lambda>k. (JNum (t0 + tInterval * int k), JNum (ns ! k))) [0..<length ns] \<and>
     sum_list ns + totalNumAnomaly (ops_data s') = int (Window_Operators.entities es)"
proof -
  obtain s' ns where s': "counter_events ld_counter_updateContext es s = (s', True)"
      "ops_sent s' = windows (\<lambda>t n. ld_stat_request u out (JNum n) t) t0 ns"
      "sum_list ns + totalNumAnomaly (ops_data s') = int (Window_Operators.entities es)"
    using ld_counter_counts_every_entity [OF assms(1-3), of es] by blast
  have "points (ld_chart (ops_sent s') p) = points p @ map (\<lambda>k. (JNum (t0 + tInterval * int k), JNum (ns ! k))) [0..<length ns]"
    unfolding s'(2) windows_def
    by (rule ld_chart_points) (use ld_stat_posted [OF assms(4), of u "JNum _"] in \<open>simp\<close>)
  with s' show ?thesis by blast
qed

theorem ld_chart_shows_windows_witness:
  "\<exists>s' ns. counter_events ld_counter_updateContext [Arrival 100, Arrival 4000, Timer 5000] sample_counter = (s', True) \<and>
     points (ld_chart (ops_sent s') sample_ld_page) =
       points sample_ld_page @ map (\<lambda>k. (JNum (0 + tInterval * int k), JNum (ns ! k))) [0..<length ns] \<and>
     sum_list ns + totalNumAnomaly (ops_data s') = int (Window_Operators.entities [Arrival 100, Arrival 4000, Timer 5000])"
  by (rule ld_chart_shows_windows [of "JStr ''http://b''" "JObj [(''id'', JStr ''Stream.1''), (''type'', JStr ''Stat'')]"])
    (simp_all add: sample_counter_def set_up_def cmd_field_def js_access)

text \<open>The chart of the health alerts has a point for each window too, but no point has a value: the entity has no count.\<close>

theorem health_chart_without_values:
  assumes "set_up u out s" and "ops_sent s = []" and "ops_data s = \<lparr>tBegin = t0, totalNumAnomaly = 0\<rparr>" and "cmd_field out ''type'' = JStr t"
  shows "\<exists>s' n. counter_events health_updateContext es s = (s', True) \<and>
     points (ld_chart (ops_sent s') p) = points p @ map (\<lambda>k. (JNum (t0 + tInterval * int k), JUndef)) [0..<n] \<and>
     tBegin (ops_data s') = t0 + tInterval * int n"
proof -
  obtain s' ns where s': "counter_events health_updateContext es s = (s', True)"
      "ops_sent s' = windows (\<lambda>t n. ld_stat_request u out JUndef t) t0 ns" "tBegin (ops_data s') = t0 + tInterval * int (length ns)"
    using health_windows.counts_every_entity [OF assms(1-3), of es] by blast
  have "points (ld_chart (ops_sent s') p) = points p @ map (\<lambda>k. (JNum (t0 + tInterval * int k), JUndef)) [0..<length ns]"
    unfolding s'(2) windows_def
    by (rule ld_chart_points) (use ld_stat_posted [OF assms(4), of u JUndef] in \<open>simp\<close>)
  with s' show ?thesis by blast
qed

section \<open>Tables of results\<close>

text \<open>
  \<open>ldlostchild.js\<close> and \<open>CropPrediction.js\<close> keep what they are notified of while a service runs, and list it in a table
  under the tab \<open>tab\<close>; \<open>row\<close> are the cells of one result, \<open>None\<close> when an attribute is missing.
\<close>

record ld_results =
  lr_page :: page
  lr_hash :: string
  lr_found :: "jval list"
  lr_table :: "jval list list"

definition ld_value :: "jval \<Rightarrow> string \<Rightarrow> jval option" where
  "ld_value ctxObj k = do { a \<leftarrow> jget ctxObj k; jget a ''value'' }"

definition child_row :: "jval \<Rightarrow> jval list option" where
  "child_row ctxObj =
     do { photo \<leftarrow> ld_value ctxObj ''image''; w \<leftarrow> ld_value ctxObj ''date'';
          cameraID \<leftarrow> ld_value ctxObj ''cameraID''; p \<leftarrow> ld_value ctxObj ''where''; Some [w, photo, cameraID, p] }"

definition crop_row :: "jval \<Rightarrow> jval list option" where
  "crop_row ctxObj =
     do { i \<leftarrow> jget ctxObj ''id''; soil \<leftarrow> ld_value ctxObj ''soilmoisture''; air \<leftarrow> ld_value ctxObj ''airmoisture'';
          rain \<leftarrow> ld_value ctxObj ''rainfall''; ph \<leftarrow> ld_value ctxObj ''soilph''; crop \<leftarrow> ld_value ctxObj ''cropprediction'';
          Some [i, soil, air, rain, ph, crop] }"

definition lr_updateResult :: "(jval \<Rightarrow> jval list option) \<Rightarrow> ld_results \<Rightarrow> ld_results step" where
  "lr_updateResult row s =
     (case those (map row (lr_found s)) of None \<Rightarrow> (s, False) | Some rows \<Rightarrow> (s\<lparr>lr_table := rows\<rparr>, True))"

definition lr_showResult :: "(jval \<Rightarrow> jval list option) \<Rightarrow> ld_results \<Rightarrow> ld_results step" where
  "lr_showResult row s = lr_updateResult row (s\<lparr>lr_table := []\<rparr>)"

definition lr_handleNotify :: "(jval \<Rightarrow> jval list option) \<Rightarrow> string \<Rightarrow> jval \<Rightarrow> ld_results \<Rightarrow> ld_results step" where
  "lr_handleNotify row tab contextObj s =
     (let s1 = (if is_nullish (curIntent (lr_page s)) then s else s\<lparr>lr_found := lr_found s @ [contextObj]\<rparr>)
      in if lr_hash s1 = tab then lr_updateResult row s1 else (s1, True))"

definition child_handleNotify :: "jval \<Rightarrow> ld_results \<Rightarrow> ld_results step" where
  "child_handleNotify = lr_handleNotify child_row ''#Result''"

definition crop_handleNotify :: "jval \<Rightarrow> ld_results \<Rightarrow> ld_results step" where
  "crop_handleNotify = lr_handleNotify crop_row ''#Prediction''"

lemma results_listed:
  assumes "\<not> is_nullish (curIntent (lr_page s))" and "lr_hash s = tab" and "those (map row (lr_found s)) = Some (lr_table s)"
    and "list_all2 (\<lambda>ob r. row ob = Some r) obs rows"
  shows "lr_table (fold (\<lambda>ob s. fst (lr_handleNotify row tab ob s)) obs s) = lr_table s @ rows"
  using assms(4,1-3)
proof (induction obs rows arbitrary: s rule: list_all2_induct)
  case (Cons ob obs r rows)
  let ?s = "s\<lparr>lr_found := lr_found s @ [ob], lr_table := lr_table s @ [r]\<rparr>"
  have "fst (lr_handleNotify row tab ob s) = ?s"
    using Cons.prems Cons.hyps(1) by (simp add: lr_handleNotify_def lr_updateResult_def those_snoc)
  moreover have "those (map row (lr_found ?s)) = Some (lr_table ?s)" using Cons.prems Cons.hyps(1) by (simp add: those_snoc)
  ultimately show ?case using Cons.IH [of ?s] Cons.prems by simp
qed simp

lemma results_frozen:
  "those (map row (lr_found s)) = None \<Longrightarrow>
   lr_table (fold (\<lambda>ob s. fst (lr_handleNotify row tab ob s)) obs s) = lr_table s"
proof (induction obs arbitrary: s)
  case (Cons ob obs)
  have "those (map row (lr_found (fst (lr_handleNotify row tab ob s)))) = None \<and> lr_table (fst (lr_handleNotify row tab ob s)) = lr_table s"
    using Cons.prems by (simp add: lr_handleNotify_def lr_updateResult_def those_snoc)
  with Cons.IH show ?case by simp
qed simp

text \<open>
  While the service runs and the tab of the predictions is open, the table of the crop predictions lists each
  prediction that the page was notified of, in order; one notification without one of its attributes freezes the table,
  whatever comes afterwards.
\<close>

theorem crop_predictions_listed:
  assumes "\<not> is_nullish (curIntent (lr_page s))" and "lr_hash s = ''#Prediction''" and "those (map crop_row (lr_found s)) = Some (lr_table s)"
    and "list_all2 (\<lambda>ob r. crop_row ob = Some r) obs rows" and "crop_row bad = None"
  shows "lr_table (fold (\<lambda>ob s. fst (crop_handleNotify ob s)) obs s) = lr_table s @ rows \<and>
    lr_table (fold (\<lambda>ob s. fst (crop_handleNotify ob s)) (bad # obs) s) = lr_table s"
proof -
  have "those (map crop_row (lr_found (fst (crop_handleNotify bad s)))) = None" "lr_table (fst (crop_handleNotify bad s)) = lr_table s"
    using assms(1,2,5) by (simp_all add: crop_handleNotify_def lr_handleNotify_def lr_updateResult_def those_snoc)
  with results_frozen [of crop_row "fst (crop_handleNotify bad s)" "''#Prediction''" obs] results_listed [OF assms(1-4)] show ?thesis
    by (simp add: crop_handleNotify_def)
qed

definition sample_results :: "string \<Rightarrow> ld_results" where
  "sample_results tab = \<lparr>lr_page = sample_ld_page\<lparr>curIntent := JObj [(''id'', JStr ''ServiceIntent.1'')]\<rparr>, lr_hash = tab, lr_found = [], lr_table = []\<rparr>"

definition sample_crop :: jval where
  "sample_crop =
     JObj [(''id'', JStr ''urn:ngsi-ld:Field.1''), (''type'', JStr ''CropPrediction''), (''soilmoisture'', property (JNum 40)), (''airmoisture'', property (JNum 60)),
       (''rainfall'', property (JNum 10)), (''soilph'', property (JNum 7)), (''cropprediction'', property (JStr ''rice''))]"

theorem crop_predictions_listed_witness:
  "lr_table (fold (\<lambda>ob s. fst (crop_handleNotify ob s)) [sample_crop] (sample_results ''#Prediction'')) =
     lr_table (sample_results ''#Prediction'') @ [[JStr ''urn:ngsi-ld:Field.1'', JNum 40, JNum 60, JNum 10, JNum 7, JStr ''rice'']] \<and>
   lr_table (fold (\<lambda>ob s. fst (crop_handleNotify ob s)) [JObj [], sample_crop] (sample_results ''#Prediction'')) = lr_table (sample_results ''#Prediction'')"
  by (rule crop_predictions_listed)
    (simp_all add: sample_results_def sample_crop_def crop_row_def ld_value_def property_def object_proto_def js_access)

lemma children_listed:
  assumes "\<not> is_nullish (curIntent (lr_page s))" and "lr_hash s = ''#Result''" and "those (map child_row (lr_found s)) = Some (lr_table s)"
    and "list_all2 (\<lambda>ob r. child_row ob = Some r) obs rows"
  shows "lr_table (fold (\<lambda>ob s. fst (child_handleNotify ob s)) obs s) = lr_table s @ rows"
  unfolding child_handleNotify_def using assms by (rule results_listed)

text \<open>The child that is searched for, as \<open>ldlostchild.js\<close> publishes it.\<close>

definition ld_lostChildCtxObj :: "string \<Rightarrow> jval" where
  "ld_lostChildCtxObj server =
     JObj [(''id'', JStr ''urn:ngsi-ld:Stream.ChildLost.01''), (''type'', JStr ''ChildLost''),
           (''imageURL'', property (JStr (childphotoURL server))), (''saveLocation'', property (JStr (''http://'' @ server @ ''/data/photo'')))]"

definition ld_publishChildInfo :: "string \<Rightarrow> page \<Rightarrow> page" where
  "ld_publishChildInfo server s =
     (case ld_request (pg_client s) (ld_lostChildCtxObj server) of None \<Rightarrow> s | Some rq \<Rightarrow> s\<lparr>pg_sent := pg_sent s @ [rq]\<rparr>)"

lemma child_published:
  "\<exists>rq. ld_publishChildInfo server s = s\<lparr>pg_sent := pg_sent s @ [rq]\<rparr> \<and> ld_posted rq = [ld_lostChildCtxObj server]"
proof -
  have "LD_JSONObject2CtxElement (ld_lostChildCtxObj server) = Some (ld_lostChildCtxObj server)"
    by (simp add: LD_JSONObject2CtxElement_def ld_lostChildCtxObj_def system_keys_def js_access js_literal)
  moreover have "json [] (JArr [ld_lostChildCtxObj server]) = JArr [ld_lostChildCtxObj server]"
    unfolding json_def by (intro json_at_tree) (simp add: ld_lostChildCtxObj_def property_def)
  ultimately show ?thesis
    by (intro exI [of _ "post_req (js_str (pg_client s) @ ''/v1/entityOperations/upsert'') ld_headers (JArr [ld_lostChildCtxObj server])"])
      (simp add: ld_publishChildInfo_def ld_request_def ld_posted_def post_req_def)
qed

section \<open>The predictions of heart risks\<close>

text \<open>A row of the table in \<open>Heart_health.js\<close>: the sensor, the prediction, the alert, whether it is shown in red, and the time.\<close>

definition prediction_row :: "jval \<Rightarrow> (jval \<times> jval \<times> jval \<times> bool \<times> jval) option" where
  "prediction_row task =
     do { i \<leftarrow> jget task ''id''; a \<leftarrow> ld_value task ''Analysis''; al \<leftarrow> ld_value task ''alert''; t \<leftarrow> ld_value task ''Time'';
          Some (i, a, al, js_eq al (JStr ''1''), t) }"

definition displayPredictionList :: "jval \<Rightarrow> (jval \<times> jval \<times> jval \<times> bool \<times> jval) list option" where
  "displayPredictionList entity =
     do { e0 \<leftarrow> jget entity ''0''; n \<leftarrow> jget e0 ''length'';
          if js_eq n (JNum 0) then Some []
          else do { results \<leftarrow> jelems entity; tasks \<leftarrow> those (map jelems results); those (map prediction_row (concat tasks)) } }"

definition prediction_query :: jval where
  "prediction_query = JObj [(''type'', JStr ''Query''), (''entities'', JArr [JObj [(''type'', JStr ''prediction'')]])]"

text \<open>What the broker answers to the query of the page becomes one row per entity; an entity without one of the attributes leaves no table.\<close>

lemma predictions_displayed:
  assumes "axios (post_req (url @ ''/v1/entityOperations/query'') ld_headers prediction_query) = Inr r" and "rs_status r = 200" and "rs_data r = JArr es"
  shows "\<exists>v. LD_queryContext axios url prediction_query = Inr v \<and> displayPredictionList v = those (map prediction_row es)"
proof -
  have "LD_queryContext axios url prediction_query = Inr (JArr [JArr es])"
    using assms by (simp add: LD_queryContext_def axios_200_def settle_def)
  moreover have "jget (JArr [JArr es]) ''0'' = Some (JArr es)" by (simp add: nat_str_01)
  then have "displayPredictionList (JArr [JArr es]) = those (map prediction_row es)"
    by (cases es) (simp_all add: displayPredictionList_def js_eq_def is_prim_def del: jget.simps(4) add: jget.simps(4) [of _ "''length''"])
  ultimately show ?thesis by blast
qed

section \<open>The page of the smart parking\<close>

definition geo_point :: "jval list \<Rightarrow> jval" where
  "geo_point coordinates =
     JObj [(''type'', JStr ''GeoProperty''), (''value'', JObj [(''type'', JStr ''Point''), (''coordinates'', JArr coordinates)])]"

text \<open>The name of the second coordinate is misspelt in the code.\<close>

definition ld_site_entity :: "string \<Rightarrow> parking_site \<Rightarrow> jval" where
  "ld_site_entity siteType site =
     JObj [(''id'', JStr (''urn:ngsi-ld:Twin.ParkingSite.'' @ site_id site)), (''type'', JStr siteType),
           (''iconURL'', property (JStr (site_iconURL site))), (''datasource'', property (JStr (site_datasource site))),
           (''location'', geo_point [field (site_location site) ''latitude'', field (site_location site) ''longitutde''])]"

definition ld_pk_update :: "jval \<Rightarrow> parking_page \<Rightarrow> parking_page" where
  "ld_pk_update ob s = (case ld_request (pk_client s) ob of None \<Rightarrow> s | Some rq \<Rightarrow> s\<lparr>pk_sent := pk_sent s @ [rq]\<rparr>)"

definition ld_createParkingSiteEntity :: "string \<Rightarrow> parking_site \<Rightarrow> parking_page \<Rightarrow> parking_page" where
  "ld_createParkingSiteEntity siteType site s = ld_pk_update (ld_site_entity siteType site) s"

definition ld_initParkingSite :: "(string \<Rightarrow> jval) \<Rightarrow> parking_page \<Rightarrow> parking_page" where
  "ld_initParkingSite location s =
     fold (ld_createParkingSiteEntity ''LDPublicSite'') (publicParkingSites location)
       (fold (ld_createParkingSiteEntity ''LDPrivateSite'') (privateParkingSites location) s)"

text \<open>The object of the car is made anew after its identifier was set.\<close>

definition ld_moving_car :: "jval \<Rightarrow> jval \<Rightarrow> jval" where
  "ld_moving_car lat lng = JObj [(''iconURL'', property (JStr ''/img/taxi.png'')), (''location'', geo_point [lat, lng])]"

definition ld_updateMobileObject :: "jval \<Rightarrow> jval \<Rightarrow> parking_page \<Rightarrow> parking_page" where
  "ld_updateMobileObject lat lng s = ld_pk_update (ld_moving_car lat lng) s"

definition ld_pk_handleNotify :: "jval \<Rightarrow> parking_page \<Rightarrow> parking_page step" where
  "ld_pk_handleNotify contextObj s =
     (case jget contextObj ''RecommendedParkingSite'' of
        None \<Rightarrow> (s, False)
      | Some r \<Rightarrow>
          if is_nullish r then (s, True)
          else let s1 = s\<lparr>recommendedParkingSite := k_field r ''value''\<rparr> in
            if pk_hash s1 = ''#SmartParking'' then updateRecommendationResult s1 else (s1, True))"

text \<open>
  The statements at the start.  Unless the configuration says not to initialise the applications, the message that is to be
  printed before names a variable that does not exist: the statements after it are not run, the registration of
  the handler of the menu among them.  The second component says whether it was registered.
\<close>

definition ld_car_subscription :: "jval \<Rightarrow> jval \<Rightarrow> jval \<Rightarrow> http_req" where
  "ld_car_subscription url agentIP ldAgentPort =
     ld_subscribe_request url (JObj [(''id'', JStr ''urn:ngsi-ld:Twin.ConnectedCar.01''), (''type'', JStr ''LDconnectedcar'')]) agentIP ldAgentPort"

definition open_ld_parking_page :: "jval \<Rightarrow> jval \<Rightarrow> jval \<Rightarrow> jval \<Rightarrow> string \<Rightarrow> parking_page \<times> bool" where
  "open_ld_parking_page doNotInit url agentIP ldAgentPort hash =
     (\<lparr>pk_hash = hash, pk_shown = False, pk_marker = None, pk_popup = [], pk_timerID = None, pk_timers = [], pk_next = 1,
       recommendedParkingSite = JNull, pk_client = url, pk_sent = [ld_car_subscription url agentIP ldAgentPort]\<rparr>, truthy doNotInit)"

fun ld_pk_step :: "bool \<Rightarrow> parking_event \<Rightarrow> parking_page \<Rightarrow> parking_page" where
  "ld_pk_step registered (Hash h) s =
     (if h = pk_hash s then s else if registered then hashchange h s else s\<lparr>pk_hash := h\<rparr>)"
| "ld_pk_step registered ClickCar s = (if pk_shown s then car_clicked s else s)"
| "ld_pk_step registered (Tick t location) s =
     (if t \<in> set (pk_timers s) then ld_updateMobileObject (field location ''lat'') (field location ''lng'') s else s)"
| "ld_pk_step registered (Pushed m) s = fst (on_notify ld_pk_handleNotify m s)"

text \<open>The markers of the parking sites; an exception ends the loop.\<close>

definition show_site :: "jval \<Rightarrow> (jval \<times> jval \<times> jval) list \<Rightarrow> (jval \<times> jval \<times> jval) list step" where
  "show_site site ms =
     (case jget site ''iconURL'' of
        None \<Rightarrow> (ms, False)
      | Some icon \<Rightarrow>
          if is_nullish icon then (ms, True)
          else (case do { l \<leftarrow> jget site ''location''; v \<leftarrow> jget l ''value''; c \<leftarrow> jget v ''coordinates'';
                          lat \<leftarrow> jget c ''0''; lng \<leftarrow> jget c ''1''; Some (lat, lng, field site ''id'') } of
                  None \<Rightarrow> (ms, False) | Some m \<Rightarrow> (ms @ [m], True)))"

definition ld_displayParkingSites :: "jval \<Rightarrow> (jval \<times> jval \<times> jval) list step" where
  "ld_displayParkingSites sites =
     (case jelems sites of
        None \<Rightarrow> ([], False)
      | Some ss \<Rightarrow> run_steps (\<lambda>site ms. case jelems site of None \<Rightarrow> (ms, False) | Some xs \<Rightarrow> run_steps show_site xs ms) ss [])"

text \<open>What an update of the car, and one of a parking site, consist of when they are sent: the library drops the location.\<close>

definition posted_car :: jval where
  "posted_car = JObj [(''iconURL'', property (JStr ''/img/taxi.png''))]"

definition posted_site :: "string \<Rightarrow> parking_site \<Rightarrow> jval" where
  "posted_site siteType site =
     JObj [(''id'', JStr (''urn:ngsi-ld:Twin.ParkingSite.'' @ site_id site)), (''type'', JStr siteType),
           (''iconURL'', property (JStr (site_iconURL site))), (''datasource'', property (JStr (site_datasource site)))]"

lemma car_posted: "\<exists>rq. ld_updateMobileObject lat lng s = s\<lparr>pk_sent := pk_sent s @ [rq]\<rparr> \<and> ld_posted rq = [posted_car]"
proof -
  let ?e = "JObj [(''id'', JUndef), (''type'', JUndef), (''iconURL'', property (JStr ''/img/taxi.png''))]"
  have "LD_JSONObject2CtxElement (ld_moving_car lat lng) = Some ?e"
    by (simp add: LD_JSONObject2CtxElement_def ld_moving_car_def system_keys_def object_proto_def js_access js_literal)
  moreover have "json [] (JArr [?e]) = JArr [posted_car]" by (simp add: json_def posted_car_def property_def)
  ultimately show ?thesis
    by (intro exI [of _ "post_req (js_str (pk_client s) @ ''/v1/entityOperations/upsert'') ld_headers (JArr [?e])"])
      (simp add: ld_updateMobileObject_def ld_pk_update_def ld_request_def ld_posted_def post_req_def)
qed

lemma site_posted:
  "\<exists>rq. ld_createParkingSiteEntity siteType site s = s\<lparr>pk_sent := pk_sent s @ [rq]\<rparr> \<and> ld_posted rq = [posted_site siteType site]"
proof -
  have "LD_JSONObject2CtxElement (ld_site_entity siteType site) = Some (posted_site siteType site)"
    by (simp add: LD_JSONObject2CtxElement_def ld_site_entity_def posted_site_def system_keys_def js_access js_literal)
  moreover have "json [] (JArr [posted_site siteType site]) = JArr [posted_site siteType site]"
    unfolding json_def by (intro json_at_tree) (simp add: posted_site_def property_def)
  ultimately show ?thesis
    by (intro exI [of _ "post_req (js_str (pk_client s) @ ''/v1/entityOperations/upsert'') ld_headers (JArr [posted_site siteType site])"])
      (simp add: ld_createParkingSiteEntity_def ld_pk_update_def ld_request_def ld_posted_def post_req_def)
qed

definition parking_requests :: "http_req \<Rightarrow> bool \<Rightarrow> parking_page \<Rightarrow> bool" where
  "parking_requests sub registered s =
     ((\<forall>rq \<in> set (pk_sent s). rq = sub \<or> ld_posted rq = [posted_car]) \<and>
      (\<not> registered \<longrightarrow> pk_sent s = [sub] \<and> \<not> pk_shown s \<and> pk_timers s = []))"

lemma ld_pk_handleNotify_frame:
  "pk_sent (fst (ld_pk_handleNotify m s)) = pk_sent s" "pk_shown (fst (ld_pk_handleNotify m s)) = pk_shown s"
  "pk_timers (fst (ld_pk_handleNotify m s)) = pk_timers s"
  by (auto simp: ld_pk_handleNotify_def updateRecommendationResult_def Let_def split: option.split)

lemma menu_sends_nothing: "pk_sent (hashchange h s) = pk_sent s" "pk_sent (car_clicked s) = pk_sent s"
  by (simp_all add: hashchange_def selectMenuItem_def showParking_def drawConnectedCar_def clearInterval_def car_clicked_def Let_def
      split: option.split)

lemma parking_requests_step: "parking_requests sub registered s \<Longrightarrow> parking_requests sub registered (ld_pk_step registered e s)"
proof (cases e)
  case (Tick t location)
  then show "parking_requests sub registered s \<Longrightarrow> ?thesis"
    using car_posted [of "field location ''lat''" "field location ''lng''" s] by (auto simp: parking_requests_def)
qed (auto simp: parking_requests_def on_notify_def ld_pk_handleNotify_frame menu_sends_nothing split: option.split)

text \<open>
  The page of the smart parking for NGSI-LD publishes neither the car nor the parking sites: whatever happens, it sends
  besides its subscription only updates of an entity without identifier, type and location, and with the
  default configuration not even these.
\<close>

theorem ld_parking_page_publishes_nothing:
  assumes "open_ld_parking_page doNotInit url agentIP ldAgentPort hash = (s, registered)"
  shows "let t = fold (ld_pk_step registered) es s; sub = ld_car_subscription url agentIP ldAgentPort in
    (\<forall>rq \<in> set (pk_sent t). rq = sub \<or> ld_posted rq = [posted_car]) \<and> (\<not> truthy doNotInit \<longrightarrow> pk_sent t = [sub])"
proof -
  let ?sub = "ld_car_subscription url agentIP ldAgentPort"
  have "parking_requests ?sub registered s" and r: "registered = truthy doNotInit"
    using assms by (auto simp: open_ld_parking_page_def parking_requests_def)
  then have "parking_requests ?sub registered (fold (ld_pk_step registered) es s)"
    by (induction es arbitrary: s) (simp_all add: parking_requests_step del: ld_pk_step.simps)
  with r show ?thesis by (simp add: parking_requests_def Let_def)
qed

theorem ld_parking_page_publishes_nothing_witness:
  "let t = fold (ld_pk_step True) [Hash ''#SmartParking'', ClickCar, Tick 1 (JObj [(''lat'', JNum 1), (''lng'', JNum 2)])]
         (fst (open_ld_parking_page (JBool True) (JStr ''./ngsi-ld'') (JStr ''h'') (JNum 1090) []));
       sub = ld_car_subscription (JStr ''./ngsi-ld'') (JStr ''h'') (JNum 1090) in
    length (pk_sent t) = 2 \<and> (\<forall>rq \<in> set (pk_sent t). rq = sub \<or> ld_posted rq = [posted_car])"
proof -
  let ?s = "fst (open_ld_parking_page (JBool True) (JStr ''./ngsi-ld'') (JStr ''h'') (JNum 1090) [])"
  let ?es = "[Hash ''#SmartParking'', ClickCar, Tick 1 (JObj [(''lat'', JNum 1), (''lng'', JNum 2)])]"
  have "open_ld_parking_page (JBool True) (JStr ''./ngsi-ld'') (JStr ''h'') (JNum 1090) [] = (?s, True)"
    by (simp add: open_ld_parking_page_def)
  note * = ld_parking_page_publishes_nothing [OF this, of ?es]
  have "length (pk_sent (ld_updateMobileObject a b s)) = Suc (length (pk_sent s))" for a b s
    using car_posted [of a b s] by auto
  then have "length (pk_sent (fold (ld_pk_step True) ?es ?s)) = 2"
    by (simp add: open_ld_parking_page_def hashchange_def selectMenuItem_def showParking_def drawConnectedCar_def car_clicked_def clearInterval_def Let_def)
  with * show ?thesis by (simp add: Let_def del: ld_pk_step.simps)
qed

text \<open>Were the sites created, none would be displayed: the entities have no location, and reading it ends the loop.\<close>

theorem ld_sites_not_displayed:
  assumes "axios (post_req (url @ ''/v1/entityOperations/query'') ld_headers q) = Inr r" and "rs_status r = 200"
    and "rs_data r = JArr (map (\<lambda>(siteType, site). posted_site siteType site) sites)" and "sites \<noteq> []"
  shows "\<exists>v. LD_queryContext axios url q = Inr v \<and> ld_displayParkingSites v = ([], False)"
proof -
  have "LD_queryContext axios url q = Inr (JArr [JArr (map (\<lambda>(siteType, site). posted_site siteType site) sites)])"
    using assms(1-3) by (simp add: LD_queryContext_def axios_200_def settle_def)
  moreover have "show_site (posted_site siteType site) ms = (ms, False)" for siteType site ms
    by (simp add: show_site_def posted_site_def property_def object_proto_def js_access)
  with assms(4) have "run_steps show_site (map (\<lambda>(siteType, site). posted_site siteType site) sites) [] = ([], False)"
    by (cases sites) auto
  ultimately show ?thesis by (simp add: ld_displayParkingSites_def)
qed

text \<open>
  The buttons of the twins: the closure keeps the list that the twin is in, which has no identifier; the handler throws
  (\<open>None\<close>) and removes nothing.
\<close>

definition ld_removeDigitalTwin :: "jval \<Rightarrow> jval option" where
  "ld_removeDigitalTwin deviceObj = do { e \<leftarrow> jget deviceObj ''entityId''; i \<leftarrow> jget e ''id''; Some (JObj [(''id'', i), (''isPattern'', JBool False)]) }"

lemma twins_not_removed: "ld_removeDigitalTwin (JArr twins) = None"
proof -
  have "nat_str i \<noteq> ''entityId''" for i using nat_str_first [of i] by (auto simp: is_digit_def)
  then have "List.find (\<lambda>i. nat_str i = ''entityId'') [0..<length twins] = None" by (simp add: find_None_iff)
  then show ?thesis by (simp add: ld_removeDigitalTwin_def array_proto_def object_proto_def)
qed

end
