(* ===== verification/Moving_Marker.thy ===== *)
theory Moving_Marker
  imports Parking_Page
begin

text \<open>
  The animated marker of the maps, \<open>designer/public/js/MovingMarker.js\<close>: a marker that moves along a polyline, a given time per
  line.  Positions and times are rationals.  The clock \<open>Date.now()\<close> and the timestamps of the animation frames are arguments.
\<close>

section \<open>The marker\<close>

type_synonym position = "rat \<times> rat"

text \<open>
  Positions between two points; the third argument is \<open>None\<close> when the duration is undefined, in which case the quotient is
  \<open>NaN\<close>, as it is for 0 / 0.
\<close>

definition fraction :: "rat option \<Rightarrow> rat \<Rightarrow> rat" where
  "fraction duration t =
     (case duration of
        None \<Rightarrow> 0
      | Some d \<Rightarrow> if d = 0 then (if t > 0 then 1 else 0) else max 0 (min 1 (t / d)))"

definition interpolatePosition :: "position \<Rightarrow> position \<Rightarrow> rat option \<Rightarrow> rat \<Rightarrow> position" where
  "interpolatePosition p1 p2 duration t =
     (let k = fraction duration t in (fst p1 + k * (fst p2 - fst p1), snd p1 + k * (snd p2 - snd p1)))"

text \<open>\<open>FirstFrame\<close> and \<open>NextFrame\<close> are the two functions that are passed to \<open>requestAnimFrame\<close>; \<open>mm_fired\<close> are the events.\<close>

datatype frame = FirstFrame | NextFrame

datatype fired = FiredStart | FiredLoop rat | FiredEnd rat

record moving_marker =
  mm_latlng :: position
  mm_latlngs :: "position list"
  mm_durations :: "rat list"
  mm_currentDuration :: "rat option"
  mm_currentIndex :: nat
  mm_state :: marker_state
  mm_startTime :: rat
  mm_startTimeStamp :: rat
  mm_pauseStartTime :: rat
  mm_frame :: "frame option"
  mm_animRequested :: bool
  mm_currentLine :: "position list"
  mm_loop :: bool
  mm_fired :: "fired list"

text \<open>The constructor of a Leaflet marker needs a position: the list is not empty.\<close>

definition mm_initialize :: "position \<Rightarrow> position list \<Rightarrow> rat list \<Rightarrow> bool \<Rightarrow> moving_marker" where
  "mm_initialize p ps durations loop =
     \<lparr>mm_latlng = p, mm_latlngs = p # ps, mm_durations = durations, mm_currentDuration = Some 0, mm_currentIndex = 0,
      mm_state = NotStarted, mm_startTime = 0, mm_startTimeStamp = 0, mm_pauseStartTime = 0, mm_frame = None,
      mm_animRequested = False, mm_currentLine = [], mm_loop = loop, mm_fired = []\<rparr>"

definition at_index :: "'a list \<Rightarrow> nat \<Rightarrow> 'a option" where
  "at_index xs i = (if i < length xs then Some (xs ! i) else None)"

definition loadLine :: "nat \<Rightarrow> moving_marker \<Rightarrow> moving_marker" where
  "loadLine index s =
     s\<lparr>mm_currentIndex := index, mm_currentDuration := at_index (mm_durations s) index, mm_currentLine := take 2 (drop index (mm_latlngs s))\<rparr>"

definition startAnimation :: "rat \<Rightarrow> moving_marker \<Rightarrow> moving_marker" where
  "startAnimation now s = s\<lparr>mm_startTime := now, mm_state := Running, mm_frame := Some FirstFrame, mm_animRequested := True\<rparr>"

definition resumeAnimation :: "moving_marker \<Rightarrow> moving_marker" where
  "resumeAnimation s = (if mm_animRequested s then s else s\<lparr>mm_frame := Some NextFrame\<rparr>)"

definition stopAnimation :: "moving_marker \<Rightarrow> moving_marker" where
  "stopAnimation s = (if mm_animRequested s then s\<lparr>mm_frame := None, mm_animRequested := False\<rparr> else s)"

text \<open>\<open>stop\<close> with the elapsed time, as \<open>_updateLine\<close> calls it.\<close>

definition mm_end :: "rat \<Rightarrow> moving_marker \<Rightarrow> moving_marker" where
  "mm_end elapsedTime s =
     (if mm_state s = Ended then s
      else let s1 = stopAnimation s in s1\<lparr>mm_state := Ended, mm_fired := mm_fired s1 @ [FiredEnd elapsedTime]\<rparr>)"

text \<open>
  The loop of \<open>_updateLine\<close> from the line \<open>i\<close>, with the times at which the event \<open>loop\<close> is fired: \<open>Reached\<close> is a line with the time
  elapsed on it, \<open>Finished\<close> the end of the polyline.  A loop over lines that take no time does not end.
\<close>

datatype line_result = Reached rat nat "rat list" | Finished rat "rat list"

partial_function (option) line_loop :: "bool \<Rightarrow> rat list \<Rightarrow> nat \<Rightarrow> rat \<Rightarrow> nat \<Rightarrow> rat option \<Rightarrow> rat list \<Rightarrow> line_result option" where
  "line_loop loop durations n elapsedTime i lineDuration loops =
     (case lineDuration of
        None \<Rightarrow> Some (Reached elapsedTime i loops)
      | Some d \<Rightarrow>
          if elapsedTime > d then
            let e = elapsedTime - d in
            if n - 1 \<le> Suc i then
              (if loop then line_loop loop durations n e 0 (at_index durations 0) (loops @ [e]) else Some (Finished e loops))
            else line_loop loop durations n e (Suc i) (at_index durations (Suc i)) loops
          else Some (Reached elapsedTime i loops))"

text \<open>The result is \<open>None\<close> if the loop does not end; the second component is the returned value, \<open>None\<close> for \<open>null\<close>.\<close>

definition updateLine :: "rat \<Rightarrow> rat \<Rightarrow> moving_marker \<Rightarrow> (moving_marker \<times> rat option) option" where
  "updateLine now timestamp s =
     (let elapsedTime = timestamp - mm_startTimeStamp s in
      case mm_currentDuration s of
        Some d \<Rightarrow>
          if elapsedTime \<le> d then Some (s, Some elapsedTime)
          else (case line_loop (mm_loop s) (mm_durations s) (length (mm_latlngs s)) elapsedTime (mm_currentIndex s) (Some d) [] of
                  None \<Rightarrow> None
                | Some (Finished e loops) \<Rightarrow>
                    Some (mm_end e (s\<lparr>mm_fired := mm_fired s @ map FiredLoop loops, mm_latlng := last (mm_latlngs s)\<rparr>), None)
                | Some (Reached e i loops) \<Rightarrow>
                    Some ((loadLine i (s\<lparr>mm_fired := mm_fired s @ map FiredLoop loops\<rparr>))
                      \<lparr>mm_startTimeStamp := timestamp - e, mm_startTime := now - e\<rparr>, Some e))
      | None \<Rightarrow>
          Some ((loadLine (mm_currentIndex s) s)\<lparr>mm_startTimeStamp := timestamp - elapsedTime, mm_startTime := now - elapsedTime\<rparr>, Some elapsedTime))"

text \<open>Without two points the access to the second one throws (the second component is \<open>False\<close>).\<close>

definition animate :: "rat \<Rightarrow> rat \<Rightarrow> bool \<Rightarrow> moving_marker \<Rightarrow> moving_marker step option" where
  "animate now timestamp noRequestAnim s =
     (case updateLine now timestamp (s\<lparr>mm_animRequested := False\<rparr>) of
        None \<Rightarrow> None
      | Some (s1, None) \<Rightarrow> Some (s1, True)
      | Some (s1, Some e) \<Rightarrow>
          Some (case mm_currentLine s1 of
                  p1 # p2 # ps \<Rightarrow>
                    (let s2 = s1\<lparr>mm_latlng := interpolatePosition p1 p2 (mm_currentDuration s1) e\<rparr> in
                     if noRequestAnim then s2 else s2\<lparr>mm_frame := Some NextFrame, mm_animRequested := True\<rparr>, True)
                | _ \<Rightarrow> (s1, False)))"

definition mm_resume :: "rat \<Rightarrow> moving_marker \<Rightarrow> moving_marker" where
  "mm_resume now s =
     (if mm_state s \<noteq> Paused then s
      else startAnimation now
        (s\<lparr>mm_currentLine := (case mm_currentLine s of [] \<Rightarrow> [mm_latlng s] | q # qs \<Rightarrow> mm_latlng s # qs),
           mm_currentDuration := map_option (\<lambda>d. d - (mm_pauseStartTime s - mm_startTime s)) (mm_currentDuration s)\<rparr>))"

definition mm_start :: "rat \<Rightarrow> moving_marker \<Rightarrow> moving_marker" where
  "mm_start now s =
     (if mm_state s = Running then s
      else if mm_state s = Paused then mm_resume now s
      else let s1 = startAnimation now (loadLine 0 s) in s1\<lparr>mm_fired := mm_fired s1 @ [FiredStart]\<rparr>)"

definition mm_pause :: "rat \<Rightarrow> moving_marker \<Rightarrow> moving_marker step option" where
  "mm_pause now s =
     (if mm_state s \<noteq> Running then Some (s, True)
      else animate now (mm_startTimeStamp s + (now - mm_startTime s)) True (stopAnimation (s\<lparr>mm_pauseStartTime := now, mm_state := Paused\<rparr>)))"

text \<open>\<open>stop\<close> as a user calls it.\<close>

definition mm_stop :: "rat \<Rightarrow> moving_marker \<Rightarrow> moving_marker step option" where
  "mm_stop now s =
     (if mm_state s = Ended then Some (s, True)
      else case animate now (mm_startTimeStamp s + (now - mm_startTime s)) True (stopAnimation s) of
             Some (s1, True) \<Rightarrow> Some (s1\<lparr>mm_state := Ended, mm_fired := mm_fired s1 @ [FiredEnd 0]\<rparr>, True)
           | r \<Rightarrow> r)"

definition addLatLng :: "position \<Rightarrow> rat \<Rightarrow> moving_marker \<Rightarrow> moving_marker" where
  "addLatLng latlng duration s = s\<lparr>mm_latlngs := mm_latlngs s @ [latlng], mm_durations := mm_durations s @ [duration]\<rparr>"

definition moveTo :: "position \<Rightarrow> rat \<Rightarrow> rat \<Rightarrow> moving_marker \<Rightarrow> moving_marker" where
  "moveTo latlng duration now s =
     (let s1 = stopAnimation s in
      (mm_start now (s1\<lparr>mm_latlngs := [mm_latlng s1, latlng], mm_durations := [duration], mm_state := NotStarted\<rparr>))\<lparr>mm_loop := False\<rparr>)"

definition addStation :: "int \<Rightarrow> rat \<Rightarrow> moving_marker \<Rightarrow> moving_marker" where
  "addStation pointIndex duration s =
     (if pointIndex > int (length (mm_latlngs s)) - 2 \<or> pointIndex < 1 then s
      else let i = nat pointIndex; ps = mm_latlngs s; ds = mm_durations s in
        s\<lparr>mm_latlngs := take (Suc i) ps @ ps ! i # drop (Suc i) ps, mm_durations := take i ds @ duration # drop i ds\<rparr>)"

definition mm_onAdd :: "bool \<Rightarrow> rat \<Rightarrow> moving_marker \<Rightarrow> moving_marker" where
  "mm_onAdd autostart now s =
     (if autostart \<and> mm_state s = NotStarted then mm_start now s
      else if mm_state s = Running then resumeAnimation s else s)"

definition mm_onRemove :: "moving_marker \<Rightarrow> moving_marker" where
  "mm_onRemove s = stopAnimation s"

text \<open>A frame of the browser: the requested function is called with the timestamp.\<close>

definition mm_tick :: "rat \<Rightarrow> rat \<Rightarrow> moving_marker \<Rightarrow> moving_marker step option" where
  "mm_tick now timestamp s =
     (let s1 = s\<lparr>mm_frame := None\<rparr> in
      case mm_frame s of
        None \<Rightarrow> Some (s, True)
      | Some FirstFrame \<Rightarrow> animate now timestamp False (s1\<lparr>mm_startTimeStamp := timestamp\<rparr>)
      | Some NextFrame \<Rightarrow> animate now timestamp False s1)"

section \<open>The reference: a point that moves along the polyline\<close>

fun path_position :: "position list \<Rightarrow> rat list \<Rightarrow> rat \<Rightarrow> position" where
  "path_position (p # q # ps) (d # ds) t =
     (if t \<le> d then interpolatePosition p q (Some d) t else path_position (q # ps) ds (t - d))"
| "path_position ps ds t = last ps"

text \<open>The time since the last passage of the start; it is the whole length at the end of a round.\<close>

definition wrap :: "rat \<Rightarrow> rat \<Rightarrow> rat" where
  "wrap len t = (if t \<le> len then t else t - len * of_int (\<lceil>t / len\<rceil> - 1))"

definition reference_position :: "bool \<Rightarrow> position list \<Rightarrow> rat list \<Rightarrow> rat \<Rightarrow> position" where
  "reference_position loop ps ds t = path_position ps ds (if loop then wrap (sum_list ds) t else t)"

lemma wrap_step:
  assumes "0 < len" and "len < t"
  shows "wrap len t = wrap len (t - len)"
proof -
  have q: "(t - len) / len = t / len - 1" using assms(1) by (simp add: field_simps)
  show ?thesis
  proof (cases "t - len \<le> len")
    case True
    then have "\<lceil>t / len\<rceil> = 2" using assms by (intro ceiling_unique) (simp_all add: field_simps)
    with True assms(2) show ?thesis by (simp add: wrap_def)
  next
    case False
    then show ?thesis using assms(2) by (simp add: wrap_def q algebra_simps)
  qed
qed

lemma interpolate_ends:
  "d > 0 \<Longrightarrow> interpolatePosition p q (Some d) d = q" "t \<le> 0 \<Longrightarrow> 0 \<le> d \<Longrightarrow> interpolatePosition p q (Some d) t = p"
  by (auto simp: interpolatePosition_def fraction_def divide_nonpos_nonneg)

text \<open>One way along the polyline.\<close>

lemma walk:
  assumes "length ps = Suc (length ds)" and "\<forall>d \<in> set ds. 0 \<le> d"
  shows "i < length ds \<Longrightarrow>
    (if e \<le> sum_list (drop i ds)
     then \<exists>e' i'. line_loop False ds (length ps) e i (Some (ds ! i)) ls = Some (Reached e' i' ls) \<and> i' < length ds \<and>
       path_position (drop i ps) (drop i ds) e = interpolatePosition (ps ! i') (ps ! Suc i') (Some (ds ! i')) e'
     else line_loop False ds (length ps) e i (Some (ds ! i)) ls = Some (Finished (e - sum_list (drop i ds)) ls))"
proof (induction "length ds - i" arbitrary: i e)
  case (Suc k)
  have ds: "drop i ds = ds ! i # drop (Suc i) ds" using Suc.prems by (simp add: Cons_nth_drop_Suc)
  have ps: "drop i ps = ps ! i # ps ! Suc i # drop (Suc (Suc i)) ps"
    using Suc.prems assms(1) by (simp add: Cons_nth_drop_Suc)
  have pos: "0 \<le> sum_list (drop j ds)" for j
    using assms(2) by (intro sum_list_nonneg) (auto dest: in_set_dropD)
  consider (here) "e \<le> ds ! i" | (last) "ds ! i < e" "length ds \<le> Suc i" | (next_line) "ds ! i < e" "Suc i < length ds" by linarith
  then show ?case
  proof cases
    case here
    then have "e \<le> sum_list (drop i ds)" using pos [of "Suc i"] by (simp add: ds)
    moreover have "path_position (drop i ps) (drop i ds) e = interpolatePosition (ps ! i) (ps ! Suc i) (Some (ds ! i)) e"
      using here by (simp add: ds ps)
    moreover have "line_loop False ds (length ps) e i (Some (ds ! i)) ls = Some (Reached e i ls)"
      using here by (subst line_loop.simps) simp
    ultimately show ?thesis using Suc.prems by auto
  next
    case last
    then have "drop (Suc i) ds = []" by simp
    with last assms(1) show ?thesis by (subst line_loop.simps) (simp add: ds line_loop.simps Let_def)
  next
    case next_line
    then have step: "line_loop False ds (length ps) e i (Some (ds ! i)) ls = line_loop False ds (length ps) (e - ds ! i) (Suc i) (Some (ds ! Suc i)) ls"
      using assms(1) by (subst line_loop.simps) (simp add: Let_def at_index_def)
    have "path_position (drop i ps) (drop i ds) e = path_position (drop (Suc i) ps) (drop (Suc i) ds) (e - ds ! i)"
      using next_line ps assms(1) by (simp add: ds) (simp add: Cons_nth_drop_Suc)
    with Suc.hyps(1) [of "Suc i" "e - ds ! i"] Suc.hyps(2) next_line(2) show ?thesis
      unfolding step by (simp add: ds algebra_simps)
  qed
qed simp

lemma walk_round:
  assumes "length ps = Suc (length ds)"
  shows "i < length ds \<Longrightarrow> line_loop True ds (length ps) e i (Some (ds ! i)) ls =
    (case line_loop False ds (length ps) e i (Some (ds ! i)) ls of
       Some (Finished e' ls') \<Rightarrow> line_loop True ds (length ps) e' 0 (at_index ds 0) (ls' @ [e'])
     | r \<Rightarrow> r)"
proof (induction "length ds - i" arbitrary: i e)
  case (Suc k)
  show ?case
  proof (cases "ds ! i < e \<and> Suc i < length ds")
    case True
    then show ?thesis
      using Suc.hyps(1) [of "Suc i" "e - ds ! i"] Suc.hyps(2) assms
      by (subst (1 2) line_loop.simps) (simp add: Let_def at_index_def)
  next
    case False
    then show ?thesis using assms by (subst (1 2) line_loop.simps) (auto simp: Let_def)
  qed
qed simp

lemma path_after_end:
  assumes "length ps = Suc (length ds)" and "\<forall>d \<in> set ds. 0 \<le> d" and "sum_list ds < t"
  shows "path_position ps ds t = last ps"
  using assms
proof (induction ps ds t rule: path_position.induct)
  case (1 p q ps d ds t)
  then have "0 \<le> sum_list ds" by (intro sum_list_nonneg) simp
  with 1 show ?case by auto
qed auto

lemma reached_round:
  assumes "length ps = Suc (length ds)" and "\<forall>d \<in> set ds. 0 \<le> d" and "0 < sum_list ds"
  shows "\<exists>e' i' ls'. line_loop True ds (length ps) e 0 (Some (ds ! 0)) ls = Some (Reached e' i' ls') \<and> i' < length ds \<and>
    path_position ps ds (wrap (sum_list ds) e) = interpolatePosition (ps ! i') (ps ! Suc i') (Some (ds ! i')) e'"
proof (induction "nat \<lceil>e / sum_list ds\<rceil>" arbitrary: e ls rule: less_induct)
  case less
  have ds: "0 < length ds" using assms(3) by (cases ds) auto
  note w = walk [OF assms(1,2) ds, of e ls] and r = walk_round [OF assms(1) ds, of e ls]
  show ?case
  proof (cases "e \<le> sum_list ds")
    case True
    then show ?thesis using w r by (auto simp: wrap_def)
  next
    case False
    have "(e - sum_list ds) / sum_list ds = e / sum_list ds - 1" using assms(3) by (simp add: field_simps)
    moreover have "1 < e / sum_list ds" using False assms(3) by simp
    ultimately have "nat \<lceil>(e - sum_list ds) / sum_list ds\<rceil> < nat \<lceil>e / sum_list ds\<rceil>" by (simp add: nat_less_eq_zless)
    from less [OF this, of "ls @ [e - sum_list ds]"] show ?thesis
      using w r False wrap_step [of "sum_list ds" e] assms(3) ds by (simp add: at_index_def)
  qed
qed

text \<open>From the start of the polyline the loop of \<open>_updateLine\<close> ends, at the position of the reference.\<close>

definition good_path :: "bool \<Rightarrow> position list \<Rightarrow> rat list \<Rightarrow> bool" where
  "good_path loop ps ds = (length ps = Suc (length ds) \<and> ds \<noteq> [] \<and> (\<forall>d \<in> set ds. 0 \<le> d) \<and> (loop \<longrightarrow> 0 < sum_list ds))"

lemma line_loop_reference:
  assumes "good_path loop ps ds"
  shows "(\<exists>e' i' ls'. line_loop loop ds (length ps) e 0 (Some (ds ! 0)) ls = Some (Reached e' i' ls') \<and> i' < length ds \<and>
      reference_position loop ps ds e = interpolatePosition (ps ! i') (ps ! Suc i') (Some (ds ! i')) e') \<or>
    (\<not> loop \<and> (\<exists>e'. line_loop loop ds (length ps) e 0 (Some (ds ! 0)) ls = Some (Finished e' ls)) \<and> reference_position loop ps ds e = last ps)"
proof (cases loop)
  case True
  then show ?thesis using assms reached_round [of ps ds e ls] by (auto simp: good_path_def reference_position_def)
next
  case False
  then show ?thesis
    using assms walk [of ps ds 0 e ls] path_after_end [of ps ds e]
    by (auto simp: good_path_def reference_position_def split: if_splits)
qed

text \<open>Where the loop ends, without the times of the events: a line with the time on it, or the time after the end.\<close>

fun place :: "line_result \<Rightarrow> (rat \<times> nat) + rat" where
  "place (Reached e i ls) = Inl (e, i)"
| "place (Finished e ls) = Inr e"

definition line_place :: "bool \<Rightarrow> rat list \<Rightarrow> nat \<Rightarrow> rat \<Rightarrow> nat \<Rightarrow> rat option \<Rightarrow> ((rat \<times> nat) + rat) option" where
  "line_place loop ds n e i d = map_option place (line_loop loop ds n e i d [])"

lemmas line_loop_raw = line_loop.raw_induct [rotated 1]

lemma place_any_events:
  assumes "line_loop loop ds n e i d ls = Some r"
  shows "\<exists>r'. line_loop loop ds n e i d ls' = Some r' \<and> place r' = place r"
proof -
  let ?P = "\<lambda>loop ds n e i d ls r. \<forall>ls'. \<exists>r'. line_loop loop ds n e i d ls' = Some r' \<and> place r' = place r"
  have "?P loop ds n e i d ls r"
  proof (rule line_loop_raw [where P = ?P, OF assms])
    fix f loop ds n e i d ls r
    assume IH: "\<And>loop ds n e i d ls r. f loop ds n e i d ls = Some r \<Longrightarrow> ?P loop ds n e i d ls r"
      and eq: "(case d of None \<Rightarrow> Some (Reached e i ls)
         | Some d \<Rightarrow> if e > d then let e' = e - d in
             if n - 1 \<le> Suc i then (if loop then f loop ds n e' 0 (at_index ds 0) (ls @ [e']) else Some (Finished e' ls))
             else f loop ds n e' (Suc i) (at_index ds (Suc i)) ls
           else Some (Reached e i ls)) = Some r"
    show "?P loop ds n e i d ls r"
    proof (intro allI)
      fix ls'
      show "\<exists>r'. line_loop loop ds n e i d ls' = Some r' \<and> place r' = place r"
        using eq IH by (subst line_loop.simps) (auto simp: Let_def split: option.splits if_splits)
    qed
  qed
  then show ?thesis by blast
qed

lemma line_place_any: "map_option place (line_loop loop ds n e i d ls) = line_place loop ds n e i d"
proof (cases "line_loop loop ds n e i d ls")
  case None
  then have "line_loop loop ds n e i d [] = None" using place_any_events [of loop ds n e i d "[]" _ ls] by fastforce
  with None show ?thesis by (simp add: line_place_def)
next
  case (Some r)
  with place_any_events [OF Some, of "[]"] show ?thesis by (auto simp: line_place_def)
qed

lemma line_place_simps:
  "line_place loop ds n e i d =
     (case d of
        None \<Rightarrow> Some (Inl (e, i))
      | Some d \<Rightarrow>
          if e > d then
            (if n - 1 \<le> Suc i then (if loop then line_place loop ds n (e - d) 0 (at_index ds 0) else Some (Inr (e - d)))
             else line_place loop ds n (e - d) (Suc i) (at_index ds (Suc i)))
          else Some (Inl (e, i)))"
  unfolding line_place_any [of loop ds n e i d "[]", symmetric]
  by (subst line_loop.simps) (simp add: Let_def line_place_any split: option.split)

text \<open>Time that passes in two pieces.\<close>

lemma line_place_continues:
  assumes "line_loop loop ds n e i (at_index ds i) ls = Some r" and "0 \<le> x"
  shows "line_place loop ds n (e + x) i (at_index ds i) =
    (case place r of Inl (e', i') \<Rightarrow> line_place loop ds n (e' + x) i' (at_index ds i') | Inr e' \<Rightarrow> Some (Inr (e' + x)))"
proof -
  let ?P = "\<lambda>loop ds n e i d ls r. d = at_index ds i \<longrightarrow> line_place loop ds n (e + x) i d =
    (case place r of Inl (e', i') \<Rightarrow> line_place loop ds n (e' + x) i' (at_index ds i') | Inr e' \<Rightarrow> Some (Inr (e' + x)))"
  have "?P loop ds n e i (at_index ds i) ls r"
  proof (rule line_loop_raw [where P = ?P, OF assms(1)])
    fix f loop ds n e i d ls r
    assume IH: "\<And>loop ds n e i d ls r. f loop ds n e i d ls = Some r \<Longrightarrow> ?P loop ds n e i d ls r"
      and eq: "(case d of None \<Rightarrow> Some (Reached e i ls)
         | Some d \<Rightarrow> if e > d then let e' = e - d in
             if n - 1 \<le> Suc i then (if loop then f loop ds n e' 0 (at_index ds 0) (ls @ [e']) else Some (Finished e' ls))
             else f loop ds n e' (Suc i) (at_index ds (Suc i)) ls
           else Some (Reached e i ls)) = Some r"
    have move: "e + x - d' = e - d' + x" for d' by simp
    show "?P loop ds n e i d ls r"
    proof
      assume d: "d = at_index ds i"
      show "line_place loop ds n (e + x) i d =
        (case place r of Inl (e', i') \<Rightarrow> line_place loop ds n (e' + x) i' (at_index ds i') | Inr e' \<Rightarrow> Some (Inr (e' + x)))"
      proof (cases "\<exists>d'. d = Some d' \<and> d' < e")
        case True
        then obtain d' where d': "d = Some d'" "d' < e" by blast
        then have "line_place loop ds n (e + x) i d =
            (if n - 1 \<le> Suc i then (if loop then line_place loop ds n (e - d' + x) 0 (at_index ds 0) else Some (Inr (e - d' + x)))
             else line_place loop ds n (e - d' + x) (Suc i) (at_index ds (Suc i)))"
          using assms(2) by (subst line_place_simps) (simp add: move)
        with eq IH d' show ?thesis by (cases "place r") (auto simp: Let_def split: if_splits)
      next
        case False
        then have "r = Reached e i ls" using eq by (auto split: option.splits if_splits)
        with d show ?thesis by simp
      qed
    qed
  qed
  then show ?thesis by simp
qed

section \<open>The frames of an animation\<close>

text \<open>A marker on a line of its polyline, and the same in terms of where the loop ends.\<close>

definition line_loaded :: "moving_marker \<Rightarrow> bool" where
  "line_loaded s =
     (mm_currentIndex s < length (mm_durations s) \<and> length (mm_latlngs s) = Suc (length (mm_durations s)) \<and>
      mm_currentDuration s = at_index (mm_durations s) (mm_currentIndex s) \<and> mm_currentLine s = take 2 (drop (mm_currentIndex s) (mm_latlngs s)))"

definition place_at :: "rat \<Rightarrow> moving_marker \<Rightarrow> ((rat \<times> nat) + rat) option" where
  "place_at timestamp s =
     line_place (mm_loop s) (mm_durations s) (length (mm_latlngs s)) (timestamp - mm_startTimeStamp s) (mm_currentIndex s)
       (at_index (mm_durations s) (mm_currentIndex s))"

lemma line_of_index:
  "Suc i < length ps \<Longrightarrow> take 2 (drop i ps) = [ps ! i, ps ! Suc i]"
  by (simp add: numeral_2_eq_2 Cons_nth_drop_Suc [symmetric])

lemma updateLine_reached:
  assumes "line_loaded s" and "place_at timestamp s = Some (Inl (e, i))"
  shows "\<exists>evs t. updateLine now timestamp s =
    Some ((loadLine i s)\<lparr>mm_startTimeStamp := timestamp - e, mm_startTime := t, mm_fired := mm_fired s @ evs\<rparr>, Some e)"
proof -
  obtain d where d: "mm_currentDuration s = Some d" using assms(1) by (simp add: line_loaded_def at_index_def)
  then have l: "mm_currentDuration s = at_index (mm_durations s) (mm_currentIndex s)" using assms(1) by (simp add: line_loaded_def)
  show ?thesis
  proof (cases "timestamp - mm_startTimeStamp s \<le> d")
    case True
    then have "e = timestamp - mm_startTimeStamp s \<and> i = mm_currentIndex s"
      using assms(2) d l by (subst (asm) place_at_def, subst (asm) line_place_simps) auto
    with True d l assms(1) show ?thesis
      by (intro exI [of _ "[]"] exI [of _ "mm_startTime s"]) (simp add: updateLine_def loadLine_def line_loaded_def)
  next
    case False
    then obtain ls where "line_loop (mm_loop s) (mm_durations s) (length (mm_latlngs s)) (timestamp - mm_startTimeStamp s) (mm_currentIndex s) (Some d) [] =
        Some (Reached e i ls)"
      using assms(2) d l by (auto simp: place_at_def line_place_def elim: place.elims)
    with False d show ?thesis
      by (intro exI [of _ "map FiredLoop ls"] exI [of _ "now - e"]) (simp add: updateLine_def loadLine_def Let_def)
  qed
qed

lemma updateLine_finished:
  assumes "line_loaded s" and "place_at timestamp s = Some (Inr e)" and "mm_state s \<noteq> Ended"
  shows "\<exists>evs. updateLine now timestamp s =
    Some ((stopAnimation (s\<lparr>mm_latlng := last (mm_latlngs s)\<rparr>))\<lparr>mm_state := Ended, mm_fired := mm_fired s @ evs @ [FiredEnd e]\<rparr>, None)"
proof -
  obtain d where d: "mm_currentDuration s = Some d" using assms(1) by (simp add: line_loaded_def at_index_def)
  then have l: "mm_currentDuration s = at_index (mm_durations s) (mm_currentIndex s)" using assms(1) by (simp add: line_loaded_def)
  have "d < timestamp - mm_startTimeStamp s"
    using assms(2) d l by (subst (asm) place_at_def, subst (asm) line_place_simps) (auto split: if_splits)
  moreover obtain ls where "line_loop (mm_loop s) (mm_durations s) (length (mm_latlngs s)) (timestamp - mm_startTimeStamp s) (mm_currentIndex s) (Some d) [] =
      Some (Finished e ls)"
    using assms(2) d l by (auto simp: place_at_def line_place_def elim: place.elims)
  ultimately show ?thesis
    using d assms(3) by (intro exI [of _ "map FiredLoop ls"]) (simp add: updateLine_def mm_end_def stopAnimation_def Let_def)
qed

text \<open>The place that the reference has reached.\<close>

definition shown_at :: "position list \<Rightarrow> rat list \<Rightarrow> (rat \<times> nat) + rat \<Rightarrow> position" where
  "shown_at ps ds pl = (case pl of Inl (e, i) \<Rightarrow> interpolatePosition (ps ! i) (ps ! Suc i) (Some (ds ! i)) e | Inr e \<Rightarrow> last ps)"

lemma reference_place:
  assumes "good_path loop ps ds"
  shows "\<exists>pl. line_place loop ds (length ps) e 0 (at_index ds 0) = Some pl \<and> reference_position loop ps ds e = shown_at ps ds pl \<and>
    (case pl of Inl (e', i') \<Rightarrow> i' < length ds | Inr e' \<Rightarrow> \<not> loop)"
proof -
  have "at_index ds 0 = Some (ds ! 0)" using assms by (simp add: at_index_def good_path_def)
  with line_loop_reference [OF assms, of e "[]"] show ?thesis by (auto simp: line_place_def shown_at_def)
qed

abbreviation start_place :: "moving_marker \<Rightarrow> rat \<Rightarrow> ((rat \<times> nat) + rat) option" where
  "start_place s e \<equiv> line_place (mm_loop s) (mm_durations s) (length (mm_latlngs s)) e 0 (at_index (mm_durations s) 0)"

text \<open>\<open>t0\<close> is the time of the first frame, \<open>t\<close> that of the last one: the line that is loaded is that of the reference.\<close>

definition in_step :: "rat \<Rightarrow> rat \<Rightarrow> moving_marker \<Rightarrow> bool" where
  "in_step t0 t s =
     (good_path (mm_loop s) (mm_latlngs s) (mm_durations s) \<and> mm_state s = Running \<and> line_loaded s \<and>
      (\<forall>x \<ge> 0. place_at (t + x) s = start_place s (t - t0 + x)))"

definition follows :: "rat \<Rightarrow> rat \<Rightarrow> moving_marker \<Rightarrow> bool" where
  "follows t0 t s =
     (good_path (mm_loop s) (mm_latlngs s) (mm_durations s) \<and>
      mm_latlng s = reference_position (mm_loop s) (mm_latlngs s) (mm_durations s) (t - t0) \<and>
      (if mm_state s = Ended then mm_frame s = None \<and> (\<exists>e. start_place s (t - t0) = Some (Inr e))
       else in_step t0 t s \<and> mm_frame s = Some NextFrame \<and> mm_animRequested s))"

lemma in_step_frame: "in_step t0 t (s\<lparr>mm_frame := f\<rparr>) = in_step t0 t s"
  by (simp add: in_step_def line_loaded_def place_at_def)

lemma start_place_continues:
  assumes "start_place s e = Some pl" and "0 \<le> x"
  shows "start_place s (e + x) =
    (case pl of
       Inl (e', i) \<Rightarrow> line_place (mm_loop s) (mm_durations s) (length (mm_latlngs s)) (e' + x) i (at_index (mm_durations s) i)
     | Inr e' \<Rightarrow> Some (Inr (e' + x)))"
proof -
  obtain r where "line_loop (mm_loop s) (mm_durations s) (length (mm_latlngs s)) e 0 (at_index (mm_durations s) 0) [] = Some r" "place r = pl"
    using assms(1) by (auto simp: line_place_def)
  with line_place_continues [OF this(1) assms(2)] show ?thesis by simp
qed

lemma animate_follows:
  assumes "in_step t0 t s" and "t \<le> t'" and "mm_frame s = None"
  shows "\<exists>s'. animate now t' False s = Some (s', True) \<and> follows t0 t' s' \<and>
    mm_latlngs s' = mm_latlngs s \<and> mm_durations s' = mm_durations s \<and> mm_loop s' = mm_loop s"
proof -
  let ?s = "s\<lparr>mm_animRequested := False\<rparr>"
  have g: "good_path (mm_loop s) (mm_latlngs s) (mm_durations s)" and l: "line_loaded ?s" and run: "mm_state s = Running"
    using assms(1) by (simp_all add: in_step_def line_loaded_def)
  obtain pl where pl: "start_place s (t' - t0) = Some pl"
      "reference_position (mm_loop s) (mm_latlngs s) (mm_durations s) (t' - t0) = shown_at (mm_latlngs s) (mm_durations s) pl"
      "case pl of Inl (e, i) \<Rightarrow> i < length (mm_durations s) | Inr e \<Rightarrow> \<not> mm_loop s"
    using reference_place [OF g] by blast
  have "place_at (t + (t' - t)) s = start_place s (t - t0 + (t' - t))"
    using assms(1,2) unfolding in_step_def by (metis diff_ge_0_iff_ge)
  then have at: "place_at t' ?s = Some pl" using pl(1) by (simp add: place_at_def)
  show ?thesis
  proof (cases pl)
    case (Inl a)
    then obtain e i where a: "pl = Inl (e, i)" by (cases a) auto
    obtain evs u where s1: "updateLine now t' ?s = Some ((loadLine i ?s)\<lparr>mm_startTimeStamp := t' - e, mm_startTime := u, mm_fired := mm_fired s @ evs\<rparr>, Some e)"
      using updateLine_reached [OF l at [unfolded a]] by force
    have i: "i < length (mm_durations s)" "Suc i < length (mm_latlngs s)" using pl(3) a g by (simp_all add: good_path_def)
    have "place_at (t' + x) (s\<lparr>mm_currentIndex := i, mm_startTimeStamp := t' - e\<rparr>) = start_place s (t' - t0 + x)" if "0 \<le> x" for x
      using start_place_continues [OF pl(1) that] by (simp add: a place_at_def algebra_simps)
    moreover have "length (mm_latlngs s) = Suc (length (mm_durations s))" using g by (simp add: good_path_def)
    ultimately show ?thesis using s1 i g run
      by (simp add: animate_def loadLine_def line_of_index at_index_def follows_def in_step_def line_loaded_def pl(2) shown_at_def a place_at_def)
  next
    case (Inr e)
    obtain evs where "updateLine now t' ?s =
        Some ((stopAnimation (?s\<lparr>mm_latlng := last (mm_latlngs s)\<rparr>))\<lparr>mm_state := Ended, mm_fired := mm_fired s @ evs @ [FiredEnd e]\<rparr>, None)"
      using updateLine_finished [OF l at [unfolded Inr]] run by force
    with g pl Inr assms(3) show ?thesis by (simp add: animate_def stopAnimation_def follows_def shown_at_def)
  qed
qed

lemma follows_tick:
  assumes "follows t0 t s" and "t \<le> t'"
  shows "\<exists>s'. mm_tick now t' s = Some (s', True) \<and> follows t0 t' s' \<and>
    mm_latlngs s' = mm_latlngs s \<and> mm_durations s' = mm_durations s \<and> mm_loop s' = mm_loop s"
proof (cases "mm_state s = Ended")
  case True
  then obtain e where e: "start_place s (t - t0) = Some (Inr e)" "mm_frame s = None" using assms(1) by (auto simp: follows_def)
  then have p: "start_place s (t' - t0) = Some (Inr (e + (t' - t)))"
    using start_place_continues [OF e(1), of "t' - t"] assms(2) by simp
  have g: "good_path (mm_loop s) (mm_latlngs s) (mm_durations s)" using assms(1) by (simp add: follows_def)
  have "mm_latlng s = last (mm_latlngs s)"
    using reference_place [OF g, of "t - t0"] e(1) assms(1) by (auto simp: follows_def shown_at_def)
  moreover have "reference_position (mm_loop s) (mm_latlngs s) (mm_durations s) (t' - t0) = last (mm_latlngs s)"
    using reference_place [OF g, of "t' - t0"] p by (auto simp: shown_at_def)
  ultimately show ?thesis using e(2) p g True by (simp add: mm_tick_def follows_def)
next
  case False
  then have "in_step t0 t (s\<lparr>mm_frame := None\<rparr>)" "mm_frame s = Some NextFrame"
    using assms(1) by (simp_all add: follows_def in_step_frame)
  with animate_follows [OF this(1) assms(2), of now] show ?thesis by (simp add: mm_tick_def)
qed

fun mm_ticks :: "(rat \<times> rat) list \<Rightarrow> moving_marker \<Rightarrow> moving_marker step option" where
  "mm_ticks [] s = Some (s, True)"
| "mm_ticks ((now, timestamp) # fs) s = (case mm_tick now timestamp s of Some (s1, True) \<Rightarrow> mm_ticks fs s1 | r \<Rightarrow> r)"

lemma follows_ticks:
  "follows t0 t s \<Longrightarrow> sorted (t # map snd fs) \<Longrightarrow>
   \<exists>s'. mm_ticks fs s = Some (s', True) \<and> follows t0 (last (t # map snd fs)) s' \<and>
     mm_latlngs s' = mm_latlngs s \<and> mm_durations s' = mm_durations s \<and> mm_loop s' = mm_loop s"
proof (induction fs arbitrary: s t)
  case (Cons f fs)
  obtain now t' where f: "f = (now, t')" by fastforce
  with Cons.prems follows_tick [of t0 t s t' now] obtain s1 where s1: "mm_tick now t' s = Some (s1, True)" "follows t0 t' s1"
      "mm_latlngs s1 = mm_latlngs s" "mm_durations s1 = mm_durations s" "mm_loop s1 = mm_loop s" by auto
  with Cons.IH [OF s1(2)] Cons.prems(2) f show ?case by auto
qed simp

lemma started_in_step:
  assumes "good_path (mm_loop s) (mm_latlngs s) (mm_durations s)" and "mm_state s = NotStarted \<or> mm_state s = Ended"
  shows "in_step t0 t0 ((mm_start now s)\<lparr>mm_frame := None, mm_startTimeStamp := t0\<rparr>)" "mm_frame (mm_start now s) = Some FirstFrame"
  using assms
  by (auto simp: mm_start_def startAnimation_def loadLine_def in_step_def line_loaded_def place_at_def good_path_def at_index_def Let_def)

text \<open>
  Claim C5. Whatever the rate of the animation frames, and whenever they come, the started marker is at the position that a point
  which moves along the polyline has reached since the first frame, each line in its time and, if it loops, one round
  after the other; every frame ends.
\<close>

theorem marker_follows_path:
  assumes "good_path (mm_loop s) (mm_latlngs s) (mm_durations s)" and "mm_state s = NotStarted \<or> mm_state s = Ended"
    and "sorted (map snd (f # fs))"
  shows "\<exists>s'. mm_ticks (f # fs) (mm_start now s) = Some (s', True) \<and>
    mm_latlng s' = reference_position (mm_loop s) (mm_latlngs s) (mm_durations s) (snd (last (f # fs)) - snd f)"
proof -
  let ?s = "(mm_start now s)\<lparr>mm_frame := None, mm_startTimeStamp := snd f\<rparr>"
  obtain u t0 where f: "f = (u, t0)" by fastforce
  have same: "mm_latlngs ?s = mm_latlngs s" "mm_durations ?s = mm_durations s" "mm_loop ?s = mm_loop s"
    using assms(2) by (auto simp: mm_start_def startAnimation_def loadLine_def Let_def)
  obtain s1 where s1: "animate u t0 False ?s = Some (s1, True)" "follows t0 t0 s1"
      "mm_latlngs s1 = mm_latlngs s" "mm_durations s1 = mm_durations s" "mm_loop s1 = mm_loop s"
    using animate_follows [OF started_in_step(1) [OF assms(1,2)], of t0 t0 now u] f same by auto
  obtain s' where s': "mm_ticks fs s1 = Some (s', True)" "follows t0 (last (t0 # map snd fs)) s'"
      "mm_latlngs s' = mm_latlngs s" "mm_durations s' = mm_durations s" "mm_loop s' = mm_loop s"
    using follows_ticks [OF s1(2), of fs] assms(3) f s1(3-5) by auto
  have "last (t0 # map snd fs) = snd (last (f # fs))" using f by (simp add: last_map)
  with s' s1(1) f started_in_step(2) [OF assms(1,2), of now] show ?thesis by (simp add: mm_tick_def follows_def)
qed

text \<open>The marker of the car in \<open>smartparking.js\<close>: two points, ten seconds, in a loop.\<close>

definition car_marker :: moving_marker where
  "car_marker = mm_initialize (37996655 / 1000000, - 1150094 / 1000000) [(37984174 / 1000000, - 1141039 / 1000000)] [10000] True"

lemma car_marker_path: "good_path (mm_loop car_marker) (mm_latlngs car_marker) (mm_durations car_marker)"
  by (simp add: car_marker_def mm_initialize_def good_path_def)

theorem marker_follows_path_witness:
  "\<exists>s'. mm_ticks [(1000, 16), (3000, 2016), (26000, 25016)] (mm_start 1000 car_marker) = Some (s', True) \<and>
    mm_latlng s' = (37996655 / 1000000 - 12481 / 2000000, - 1150094 / 1000000 + 9055 / 2000000)"
proof -
  have "\<lceil>5 / 2 :: rat\<rceil> = 3" by (rule ceiling_unique) simp_all
  then have "reference_position (mm_loop car_marker) (mm_latlngs car_marker) (mm_durations car_marker) 25000 =
      (37996655 / 1000000 - 12481 / 2000000, - 1150094 / 1000000 + 9055 / 2000000)"
    by (simp add: car_marker_def mm_initialize_def reference_position_def wrap_def interpolatePosition_def fraction_def Let_def)
  then show ?thesis
    using marker_follows_path [OF car_marker_path, of "(1000, 16)" "[(3000, 2016), (26000, 25016)]" 1000]
    by (simp add: car_marker_def mm_initialize_def)
qed

section \<open>Stations\<close>

lemma interpolate_same: "interpolatePosition p p d t = p"
  by (simp add: interpolatePosition_def)

lemma path_with_station:
  assumes "length ps = Suc (length ds)" and "\<forall>d \<in> set ds. 0 \<le> d" and "0 < i" and "i < length ds" and "0 \<le> w"
  shows "path_position (take (Suc i) ps @ ps ! i # drop (Suc i) ps) (take i ds @ w # drop i ds) t =
    (if t \<le> sum_list (take i ds) then path_position ps ds t
     else if t \<le> sum_list (take i ds) + w then ps ! i
     else path_position ps ds (t - w))"
  using assms(1-4)
proof (induction i arbitrary: ps ds t)
  case (Suc i)
  obtain p q ps' d ds' where l: "ps = p # q # ps'" "ds = d # ds'" "length ps' = length ds'"
    using Suc.prems(1,4) by (cases ps; cases ds; cases "tl ps") auto
  have pos: "0 \<le> sum_list (take k ds')" for k using Suc.prems(2) l(2) by (intro sum_list_nonneg) (auto dest: in_set_takeD)
  show ?case
  proof (cases "i = 0")
    case True
    obtain q' qs where "ps' = q' # qs" using l Suc.prems(4) True by (cases ps') auto
    moreover obtain d' es where "ds' = d' # es" using l Suc.prems(4) True by (cases ds') auto
    ultimately show ?thesis using l True assms(5) by (auto simp: interpolate_same algebra_simps)
  next
    case False
    then have "path_position (take (Suc i) (q # ps') @ (q # ps') ! i # drop (Suc i) (q # ps')) (take i ds' @ w # drop i ds') (t - d) =
      (if t - d \<le> sum_list (take i ds') then path_position (q # ps') ds' (t - d)
       else if t - d \<le> sum_list (take i ds') + w then (q # ps') ! i
       else path_position (q # ps') ds' (t - d - w))"
      using Suc.IH [of "q # ps'" ds' "t - d"] Suc.prems l by simp
    then show ?thesis using l pos [of i] assms(5) False by (auto simp: algebra_simps)
  qed
qed simp

text \<open>
  A station that is added to the polyline of a marker makes the point wait there for the given time, and changes nothing
  else of its way.
\<close>

theorem station_waits:
  assumes "length (mm_latlngs s) = Suc (length (mm_durations s))" and "\<forall>d \<in> set (mm_durations s). 0 \<le> d"
    and "1 \<le> i" and "i \<le> int (length (mm_latlngs s)) - 2" and "0 \<le> w"
  shows "let arrival = sum_list (take (nat i) (mm_durations s)); s' = addStation i w s in
    path_position (mm_latlngs s') (mm_durations s') t =
      (if t \<le> arrival then path_position (mm_latlngs s) (mm_durations s) t
       else if t \<le> arrival + w then mm_latlngs s ! nat i
       else path_position (mm_latlngs s) (mm_durations s) (t - w))"
  using path_with_station [of "mm_latlngs s" "mm_durations s" "nat i" w t] assms by (simp add: addStation_def Let_def)

section \<open>Pause and resume\<close>

lemma interpolate_rest:
  assumes "0 \<le> e" and "e \<le> d" and "0 < d" and "0 \<le> x" and "x \<le> d - e"
  shows "interpolatePosition (interpolatePosition p q (Some d) e) q (Some (d - e)) x = interpolatePosition p q (Some d) (e + x)"
proof (cases "e = d")
  case True
  with assms show ?thesis by (simp add: interpolatePosition_def fraction_def)
next
  case False
  with assms have f: "fraction (Some d) e = e / d" "fraction (Some (d - e)) x = x / (d - e)" "fraction (Some d) (e + x) = (e + x) / d"
    by (simp_all add: fraction_def min_def max_def field_simps)
  have rest: "a + e / d * (b - a) + x / (d - e) * (b - (a + e / d * (b - a))) = a + (e + x) / d * (b - a)" for a b
    using assms(3) False by (simp add: field_simps)
  show ?thesis by (simp only: interpolatePosition_def f rest Let_def fst_conv snd_conv)
qed

text \<open>
  A marker that is paused on a line stays where the time since the start of the line has brought it, and after it is resumed it
  goes on from there at the same speed, however long the pause was.
\<close>

theorem pause_keeps_progress:
  assumes "mm_state s = Running" and "mm_currentLine s = [p, q]" and "mm_currentDuration s = Some d" and "mm_animRequested s"
    and "0 < d" and "mm_startTime s \<le> now" and "now - mm_startTime s \<le> d" and "0 \<le> x" and "x \<le> d - (now - mm_startTime s)"
  shows "\<exists>s1 s2. mm_pause now s = Some (s1, True) \<and> mm_state s1 = Paused \<and>
    mm_latlng s1 = interpolatePosition p q (Some d) (now - mm_startTime s) \<and>
    mm_ticks [(u, t), (u', t + x)] (mm_resume now' s1) = Some (s2, True) \<and>
    mm_latlng s2 = interpolatePosition p q (Some d) (now - mm_startTime s + x)"
proof -
  let ?e = "now - mm_startTime s"
  let ?p = "interpolatePosition p q (Some d) ?e"
  let ?s1 = "s\<lparr>mm_pauseStartTime := now, mm_state := Paused, mm_frame := None, mm_animRequested := False, mm_latlng := ?p\<rparr>"
  have pause: "mm_pause now s = Some (?s1, True)"
    using assms by (simp add: mm_pause_def stopAnimation_def animate_def updateLine_def)
  have at0: "interpolatePosition ?p q (Some (d - ?e)) 0 = ?p"
    using interpolate_rest [of ?e d 0 p q] assms by simp
  have "\<exists>s2. mm_ticks [(u, t), (u', t + x)] (mm_resume now' ?s1) = Some (s2, True) \<and> mm_latlng s2 = interpolatePosition ?p q (Some (d - ?e)) x"
    using assms at0 by (simp add: mm_resume_def startAnimation_def mm_tick_def animate_def updateLine_def)
  with pause interpolate_rest [of ?e d x p q] assms show ?thesis by auto
qed

text \<open>\<open>moveTo\<close> leaves the polyline, and ends at the given position.\<close>

lemma moveTo_starts:
  "\<exists>s1. moveTo latlng duration now s = mm_start now s1 \<and> mm_state s1 = NotStarted \<and> \<not> mm_loop s1 \<and>
     mm_latlngs s1 = [mm_latlng s, latlng] \<and> mm_durations s1 = [duration]"
  by (intro exI [of _ "(stopAnimation s)\<lparr>mm_latlngs := [mm_latlng s, latlng], mm_durations := [duration], mm_state := NotStarted, mm_loop := False\<rparr>"])
    (simp add: moveTo_def mm_start_def startAnimation_def loadLine_def stopAnimation_def Let_def)

theorem moveTo_arrives:
  assumes "0 \<le> duration" and "sorted (map snd (f # fs))" and "duration < snd (last (f # fs)) - snd f"
  shows "\<exists>s'. mm_ticks (f # fs) (moveTo latlng duration now s) = Some (s', True) \<and> mm_latlng s' = latlng"
proof -
  obtain s1 where s1: "moveTo latlng duration now s = mm_start now s1" "mm_state s1 = NotStarted" "\<not> mm_loop s1"
      "mm_latlngs s1 = [mm_latlng s, latlng]" "mm_durations s1 = [duration]"
    using moveTo_starts by blast
  with assms(1) have "good_path (mm_loop s1) (mm_latlngs s1) (mm_durations s1)" by (simp add: good_path_def)
  from marker_follows_path [OF this _ assms(2), of now] s1 assms(3) show ?thesis by (simp add: reference_position_def)
qed

section \<open>Loops that do not end\<close>

text \<open>
  A looping marker whose lines take no time hangs in the first frame after the one in which it was started: the loop of
  \<open>_updateLine\<close> does not end.
\<close>

lemma zero_loop_hangs:
  assumes "\<forall>d \<in> set ds. d = 0" and "ds \<noteq> []" and "length ds = n - 1" and "0 < e" and "i < length ds"
  shows "line_loop True ds n e i (Some 0) ls = None"
proof (rule ccontr)
  assume "line_loop True ds n e i (Some 0) ls \<noteq> None"
  then obtain r where r: "line_loop True ds n e i (Some 0) ls = Some r" by blast
  let ?P = "\<lambda>loop ds n (e :: rat) (i :: nat) (d :: rat option) (ls :: rat list) (r :: line_result). loop \<and> (\<forall>d \<in> set ds. d = (0 :: rat)) \<and> ds \<noteq> [] \<and> length ds = n - 1 \<and> 0 < e \<and> d = Some 0 \<longrightarrow> False"
  have "?P True ds n e i (Some 0) ls r"
  proof (rule line_loop_raw [where P = ?P, OF r])
    fix f loop ds n e i d ls r
    assume IH: "\<And>loop ds n e i d ls r. f loop ds n e i d ls = Some r \<Longrightarrow> ?P loop ds n e i d ls r"
      and eq: "(case d of None \<Rightarrow> Some (Reached e i ls)
         | Some d \<Rightarrow> if e > d then let e' = e - d in
             if n - 1 \<le> Suc i then (if loop then f loop ds n e' 0 (at_index ds 0) (ls @ [e']) else Some (Finished e' ls))
             else f loop ds n e' (Suc i) (at_index ds (Suc i)) ls
           else Some (Reached e i ls)) = Some r"
    show "?P loop ds n e i d ls r"
    proof
      assume a: "loop \<and> (\<forall>d \<in> set ds. d = 0) \<and> ds \<noteq> [] \<and> length ds = n - 1 \<and> 0 < e \<and> d = Some 0"
      then have z: "at_index ds j = Some 0" if "j < length ds" for j using that by (simp add: at_index_def)
      obtain j ls' where "f True ds n e j (at_index ds j) ls' = Some r" "j < length ds"
        using a eq length_greater_0_conv [of ds] by (cases "n - 1 \<le> Suc i") (auto simp: Let_def)
      with IH [of True ds n e j "at_index ds j" ls' r] a z show False by simp
    qed
  qed
  with assms show False by simp
qed

theorem zero_durations_hang:
  assumes "mm_state s = NotStarted" and "mm_loop s" and "length (mm_latlngs s) = Suc (length (mm_durations s))"
    and "mm_durations s \<noteq> []" and "\<forall>d \<in> set (mm_durations s). d = 0" and "t0 < t"
  shows "mm_ticks [(u, t0), (u', t)] (mm_start now s) = None"
proof -
  obtain ds where ds: "mm_durations s = 0 # ds" using assms(4,5) by (cases "mm_durations s") auto
  obtain p q ps where ps: "mm_latlngs s = p # q # ps"
    using assms(3,4) by (cases "mm_latlngs s"; cases "tl (mm_latlngs s)") auto
  have "line_loop True (mm_durations s) (length (mm_latlngs s)) (t - t0) 0 (Some 0) [] = None"
    using assms by (intro zero_loop_hangs) auto
  then show ?thesis
    using assms(1,2,6) ds ps
    by (simp add: mm_start_def startAnimation_def loadLine_def mm_tick_def animate_def updateLine_def at_index_def numeral_2_eq_2 Let_def)
qed

text \<open>A user who stops a marker after its time is over, but before the next frame, makes it fire the event \<open>end\<close> twice.\<close>

lemma late_stop_ends_twice:
  assumes "mm_state s = Running" and "line_loaded s" and "place_at (mm_startTimeStamp s + (now - mm_startTime s)) s = Some (Inr e)"
  shows "\<exists>s' evs. mm_stop now s = Some (s', True) \<and> mm_fired s' = mm_fired s @ evs @ [FiredEnd e, FiredEnd 0]"
proof -
  let ?s = "(stopAnimation s)\<lparr>mm_animRequested := False\<rparr>"
  have "line_loaded ?s" "place_at (mm_startTimeStamp s + (now - mm_startTime s)) ?s = Some (Inr e)" "mm_state ?s \<noteq> Ended"
    using assms by (simp_all add: line_loaded_def place_at_def stopAnimation_def)
  from updateLine_finished [OF this, of now] assms(1) show ?thesis
    by (auto simp: mm_stop_def animate_def stopAnimation_def)
qed

section \<open>The marker of the car\<close>

text \<open>
  The pages use a looping marker: a click at the car pauses it when it runs and starts it otherwise, as \<open>car_clicked\<close> says in terms
  of the states only.  \<open>CarFrame\<close> is a frame of the browser.
\<close>

datatype car_input = CarClick rat | CarFrame rat rat

fun mm_input :: "car_input \<Rightarrow> moving_marker \<Rightarrow> moving_marker step option" where
  "mm_input (CarClick now) s = (if mm_state s = Running then mm_pause now s else Some (mm_start now s, True))"
| "mm_input (CarFrame now timestamp) s = mm_tick now timestamp s"

fun mm_inputs :: "car_input list \<Rightarrow> moving_marker \<Rightarrow> moving_marker step option" where
  "mm_inputs [] s = Some (s, True)"
| "mm_inputs (c # cs) s = (case mm_input c s of Some (s1, True) \<Rightarrow> mm_inputs cs s1 | r \<Rightarrow> r)"

fun abstract_input :: "car_input \<Rightarrow> marker_state \<Rightarrow> marker_state" where
  "abstract_input (CarClick now) m = (if m = Running then marker_pause m else marker_start m)"
| "abstract_input (CarFrame now timestamp) m = m"

definition car_ok :: "moving_marker \<Rightarrow> bool" where
  "car_ok s =
     (mm_loop s \<and> good_path True (mm_latlngs s) (mm_durations s) \<and> mm_state s \<noteq> Ended \<and>
      (mm_animRequested s \<longleftrightarrow> mm_frame s \<noteq> None) \<and> (mm_frame s \<noteq> None \<longrightarrow> mm_state s = Running) \<and>
      (mm_state s \<noteq> NotStarted \<longrightarrow> mm_currentIndex s < length (mm_durations s) \<and> length (mm_currentLine s) = 2 \<and> mm_currentDuration s \<noteq> None))"

lemma round_ends:
  assumes "good_path True ps ds" and "i < length ds"
  shows "\<exists>e' i' ls'. line_loop True ds (length ps) e i (Some d) ls = Some (Reached e' i' ls') \<and> (i' < length ds)"
proof -
  have ds: "length ps = Suc (length ds)" "\<forall>d \<in> set ds. 0 \<le> d" "0 < sum_list ds" using assms(1) by (simp_all add: good_path_def)
  have "\<exists>e' i' ls'. line_loop True ds (length ps) e j (Some (ds ! j)) ls = Some (Reached e' i' ls') \<and> i' < length ds" if "j < length ds" for e j ls
  proof (cases "e \<le> sum_list (drop j ds)")
    case True
    then show ?thesis using walk [OF ds(1,2) that, of e ls] walk_round [OF ds(1) that, of e ls] by auto
  next
    case False
    have "0 < length ds" using that by (rule le_less_trans [OF le0])
    with False show ?thesis
      using walk [OF ds(1,2) that, of e ls] walk_round [OF ds(1) that, of e ls]
        reached_round [OF ds, of "e - sum_list (drop j ds)" "ls @ [e - sum_list (drop j ds)]"]
      by (auto simp: at_index_def)
  qed
  from this [of 0] this [of "Suc i"] show ?thesis
    using assms(2) ds(1) by (subst line_loop.simps) (auto simp: Let_def at_index_def)
qed

lemma two_points: "length xs = 2 \<Longrightarrow> \<exists>p q. xs = [p, q]"
  by (auto simp: numeral_2_eq_2 length_Suc_conv)

lemma car_animate:
  assumes "mm_loop s" and "good_path True (mm_latlngs s) (mm_durations s)" and "mm_currentIndex s < length (mm_durations s)"
    and "length (mm_currentLine s) = 2" and "mm_currentDuration s = Some d"
  shows "\<exists>s'. animate now timestamp noReq s = Some (s', True) \<and> mm_loop s' \<and> mm_latlngs s' = mm_latlngs s \<and> mm_durations s' = mm_durations s \<and>
    mm_state s' = mm_state s \<and> mm_currentIndex s' < length (mm_durations s) \<and> length (mm_currentLine s') = 2 \<and> mm_currentDuration s' \<noteq> None \<and>
    (if noReq then mm_frame s' = mm_frame s \<and> \<not> mm_animRequested s' else mm_frame s' \<noteq> None \<and> mm_animRequested s')"
proof -
  obtain p q where pq: "mm_currentLine s = [p, q]" using two_points [OF assms(4)] by blast
  obtain e i ls where l: "line_loop True (mm_durations s) (length (mm_latlngs s)) (timestamp - mm_startTimeStamp s) (mm_currentIndex s) (Some d) [] =
      Some (Reached e i ls)" "i < length (mm_durations s)"
    using round_ends [OF assms(2,3)] by blast
  have "Suc i < length (mm_latlngs s)" using l(2) assms(2) by (simp add: good_path_def)
  note line = line_of_index [OF this]
  show ?thesis
    using assms(1,3,5) pq l line by (simp add: animate_def updateLine_def loadLine_def at_index_def Let_def)
qed

lemma car_input_refines:
  assumes "car_ok s"
  shows "\<exists>s'. mm_input c s = Some (s', True) \<and> car_ok s' \<and> mm_state s' = abstract_input c (mm_state s)"
proof (cases "\<exists>now. c = CarClick now \<and> mm_state s \<noteq> Running")
  case True
  then show ?thesis
    using assms two_points [of "mm_currentLine s"]
    by (cases "mm_state s")
      (auto simp: car_ok_def mm_start_def mm_resume_def startAnimation_def loadLine_def good_path_def at_index_def line_of_index neq_Nil_conv Let_def)
next
  case False
  show ?thesis
  proof (cases "mm_state s = Running")
    case run: True
    then obtain d where d: "mm_currentDuration s = Some d" using assms by (auto simp: car_ok_def)
    show ?thesis
    proof (cases c)
      case (CarClick now)
      have "\<exists>s'. mm_pause now s = Some (s', True) \<and> car_ok s' \<and> mm_state s' = Paused"
        using car_animate [of "stopAnimation (s\<lparr>mm_pauseStartTime := now, mm_state := Paused\<rparr>)" d now "mm_startTimeStamp s + (now - mm_startTime s)" True]
          assms run d
        by (auto simp: mm_pause_def car_ok_def stopAnimation_def)
      with CarClick run show ?thesis by simp
    next
      case (CarFrame now t)
      have "\<exists>s'. mm_tick now t s = Some (s', True) \<and> car_ok s' \<and> mm_state s' = Running"
        using car_animate [of "s\<lparr>mm_frame := None\<rparr>" d now t False] car_animate [of "s\<lparr>mm_frame := None, mm_startTimeStamp := t\<rparr>" d now t False] assms run d
        by (cases "mm_frame s"; cases "the (mm_frame s)") (auto simp: mm_tick_def car_ok_def Let_def)
      with CarFrame run show ?thesis by simp
    qed
  next
    case False
    then show ?thesis using assms \<open>\<not> (\<exists>now. c = CarClick now \<and> mm_state s \<noteq> Running)\<close>
      by (cases c) (auto simp: mm_tick_def car_ok_def)
  qed
qed

text \<open>
  Claim C28. The marker of the car implements the states that the model of the page has of it: whatever the clicks, the frames
  and their times, no call throws or hangs, the marker never ends, and its state is the one that the clicks give.
\<close>

theorem car_marker_refines_states:
  "\<exists>s'. mm_inputs cs car_marker = Some (s', True) \<and> mm_state s' = fold abstract_input cs NotStarted \<and> mm_state s' \<noteq> Ended"
proof -
  have "\<exists>s'. mm_inputs cs s = Some (s', True) \<and> car_ok s' \<and> mm_state s' = fold abstract_input cs (mm_state s)" if "car_ok s" for s
    using that
  proof (induction cs arbitrary: s)
    case (Cons c cs)
    obtain s1 where "mm_input c s = Some (s1, True)" "car_ok s1" "mm_state s1 = abstract_input c (mm_state s)"
      using car_input_refines [OF Cons.prems] by blast
    with Cons.IH [of s1] show ?case by auto
  qed simp
  moreover have "car_ok car_marker" "mm_state car_marker = NotStarted"
    using car_marker_path by (simp_all add: car_ok_def car_marker_def mm_initialize_def)
  ultimately show ?thesis by (force simp: car_ok_def)
qed

end
