(* ===== verification/Image_Registry.thy ===== *)
theory Image_Registry
  imports Designer_Ops
begin

text \<open>
  The operators of the designer and their docker images: the routes of \<open>designer/main.js\<close> for them, as a map from the names
  of operators to lists of images.
\<close>

section \<open>The registry as a map\<close>

definition images_of :: "props \<Rightarrow> jval list option" where
  "images_of ps = (case map_of ps ''dockerimages'' of None \<Rightarrow> Some [] | Some (JArr xs) \<Rightarrow> Some xs | _ \<Rightarrow> None)"

definition list_of :: "props \<Rightarrow> jval list option option" where
  "list_of ps = (case map_of ps ''dockerimages'' of None \<Rightarrow> Some None | Some (JArr xs) \<Rightarrow> Some (Some xs) | _ \<Rightarrow> None)"

text \<open>
  The registry maps the names of the operators to their lists of images, where \<open>None\<close> is an operator that has no list yet. Seen
  from the images only, an operator without a list is one with an empty list.
\<close>

type_synonym registry = "string \<rightharpoonup> jval list option"

definition registry_view :: "designer \<Rightarrow> registry" where
  "registry_view s k = (case map_of (operators s) k of Some (JRef a) \<Rightarrow> list_of (cell (heap s) a) | _ \<Rightarrow> None)"

definition listed :: "jval list option \<Rightarrow> jval list" where
  "listed l = (case l of None \<Rightarrow> [] | Some xs \<Rightarrow> xs)"

definition flatten :: "registry \<Rightarrow> string \<rightharpoonup> jval list" where
  "flatten m k = map_option listed (m k)"

definition images_view :: "designer \<Rightarrow> string \<rightharpoonup> jval list" where
  "images_view s k = (case map_of (operators s) k of Some (JRef a) \<Rightarrow> images_of (cell (heap s) a) | _ \<Rightarrow> None)"

text \<open>Every operator has a cell of its own, with a list of images or none, and no name that all objects have.\<close>

definition operator_cell :: "store \<Rightarrow> jval \<Rightarrow> bool" where
  "operator_cell h v =
     (case v of JRef a \<Rightarrow> a < length h \<and> images_of (h ! a) \<noteq> None \<and> \<not> has_own (h ! a) ''hasOwnProperty'' | _ \<Rightarrow> False)"

definition registry_inv :: "designer \<Rightarrow> bool" where
  "registry_inv s =
     ((\<forall>k v. map_of (operators s) k = Some v \<longrightarrow> k \<notin> set object_proto \<and> operator_cell (heap s) v) \<and>
      (\<forall>k l v. map_of (operators s) k = Some v \<and> map_of (operators s) l = Some v \<longrightarrow> k = l))"

text \<open>Operators and images as they are posted, and what posting them means.\<close>

definition operator_ok :: "jval \<Rightarrow> bool" where
  "operator_ok v =
     (case v of
        JObj ps \<Rightarrow> (case obj_get ps ''name'' of JStr k \<Rightarrow> k \<notin> set object_proto | _ \<Rightarrow> False) \<and> images_of ps \<noteq> None \<and> \<not> has_own ps ''hasOwnProperty''
      | _ \<Rightarrow> False)"

definition operator_spec :: "jval \<Rightarrow> (string \<rightharpoonup> jval list) \<Rightarrow> (string \<rightharpoonup> jval list)" where
  "operator_spec v m = m(js_str (obj_get (jprops v) ''name'') := images_of (jprops v))"

definition image_ok :: "jval \<Rightarrow> bool" where
  "image_ok v = (case v of JObj ps \<Rightarrow> (case obj_get ps ''operatorName'' of JStr k \<Rightarrow> k \<notin> set object_proto | _ \<Rightarrow> False) | _ \<Rightarrow> False)"

definition image_to :: "string \<Rightarrow> jval \<Rightarrow> (string \<rightharpoonup> jval list) \<Rightarrow> (string \<rightharpoonup> jval list)" where
  "image_to k v m = (case m k of None \<Rightarrow> m | Some xs \<Rightarrow> m(k \<mapsto> xs @ [v]))"

definition image_spec :: "jval \<Rightarrow> (string \<rightharpoonup> jval list) \<Rightarrow> (string \<rightharpoonup> jval list)" where
  "image_spec v m = image_to (js_str (obj_get (jprops v) ''operatorName'')) v m"

definition operator_reg :: "jval \<Rightarrow> registry \<Rightarrow> registry" where
  "operator_reg v m = m(js_str (obj_get (jprops v) ''name'') := list_of (jprops v))"

definition image_reg :: "string \<Rightarrow> jval \<Rightarrow> registry \<Rightarrow> registry" where
  "image_reg k v m = (case m k of None \<Rightarrow> m | Some l \<Rightarrow> m(k \<mapsto> Some (listed l @ [v])))"

definition named_image_reg :: "jval \<Rightarrow> registry \<Rightarrow> registry" where
  "named_image_reg v m = image_reg (js_str (obj_get (jprops v) ''operatorName'')) v m"

lemma images_of_list_of: "images_of ps = map_option listed (list_of ps)"
  by (auto simp: images_of_def list_of_def listed_def split: option.split jval.split)

lemma images_view_flatten: "images_view s = flatten (registry_view s)"
  by (auto simp: fun_eq_iff images_view_def registry_view_def flatten_def images_of_list_of split: option.split jval.split)

lemma flatten_specs:
  "flatten (operator_reg v m) = operator_spec v (flatten m)"
  "flatten (image_reg k w m) = image_to k w (flatten m)"
  "flatten (named_image_reg v m) = image_spec v (flatten m)"
  by (auto simp: fun_eq_iff flatten_def operator_reg_def operator_spec_def images_of_list_of image_reg_def image_to_def named_image_reg_def
      image_spec_def listed_def split: option.split)

lemma flatten_fold:
  "flatten (fold operator_reg vs m) = fold operator_spec vs (flatten m)"
  "flatten (fold named_image_reg vs m) = fold image_spec vs (flatten m)"
  by (induction vs arbitrary: m) (simp_all add: flatten_specs)

lemma operator_cell_grows: "operator_cell h v \<Longrightarrow> operator_cell (h @ [ps]) v"
  by (auto simp: operator_cell_def nth_append split: jval.splits)

lemma view_cell:
  "map_of (operators s) k = Some (JRef a) \<Longrightarrow> a < length (heap s) \<Longrightarrow> images_view s k = images_of (heap s ! a)"
  "map_of (operators s) k = Some (JRef a) \<Longrightarrow> a < length (heap s) \<Longrightarrow> registry_view s k = list_of (heap s ! a)"
  by (simp_all add: images_view_def registry_view_def cell_def)

lemma registry_entry:
  assumes "registry_inv s" and "map_of (operators s) k = Some v"
  shows "\<exists>a xs. v = JRef a \<and> a < length (heap s) \<and> images_of (heap s ! a) = Some xs \<and> \<not> has_own (heap s ! a) ''hasOwnProperty'' \<and>
    images_view s k = Some xs"
proof -
  have "operator_cell (heap s) v" using assms by (simp add: registry_inv_def)
  then obtain a xs where "v = JRef a" "a < length (heap s)" "images_of (heap s ! a) = Some xs" "\<not> has_own (heap s ! a) ''hasOwnProperty''"
    by (auto simp: operator_cell_def split: jval.splits)
  with view_cell(1) [of s k a] assms(2) show ?thesis by auto
qed

lemma registry_cell:
  assumes "registry_inv s" and "map_of (operators s) k = Some v"
  obtains a l where "v = JRef a" and "a < length (heap s)" and "list_of (heap s ! a) = Some l" and "images_of (heap s ! a) = Some (listed l)"
    and "\<not> has_own (heap s ! a) ''hasOwnProperty''" and "registry_view s k = Some l"
  using registry_entry [OF assms] view_cell(2) [of s k] assms(2) by (auto simp: images_of_list_of)

lemma registry_view_None: "registry_inv s \<Longrightarrow> registry_view s k = None \<longleftrightarrow> map_of (operators s) k = None"
  by (cases "map_of (operators s) k") (auto simp: registry_view_def elim!: registry_cell split: option.splits)

lemma add_operator_refines:
  assumes "registry_inv s" and "operator_ok v"
  shows "\<exists>t. add_operator v s = (t, True) \<and> registry_inv t \<and> registry_view t = operator_reg v (registry_view s)"
proof -
  obtain ps k where v: "v = JObj ps" "obj_get ps ''name'' = JStr k" "k \<notin> set object_proto" "images_of ps \<noteq> None" "\<not> has_own ps ''hasOwnProperty''"
    using assms(2) by (auto simp: operator_ok_def split: jval.splits)
  let ?t = "s\<lparr>heap := heap s @ [ps], operators := obj_put k (JRef (length (heap s))) (operators s)\<rparr>"
  note put = map_of_obj_put [OF proto_not_object [OF v(3)]]
  have fresh: "map_of (operators s) l \<noteq> Some (JRef (length (heap s)))" for l
    using registry_entry [OF assms(1), of l] by fastforce
  have "registry_inv ?t"
    using assms(1) v fresh operator_cell_grows [of "heap s"] by (auto simp: registry_inv_def put operator_cell_def split: if_splits)
  moreover have "registry_view ?t = operator_reg v (registry_view s)"
  proof
    fix l
    show "registry_view ?t l = operator_reg v (registry_view s) l"
    proof (cases "l = k")
      case True
      then show ?thesis using v by (simp add: registry_view_def operator_reg_def put cell_def)
    next
      case False
      with registry_entry [OF assms(1), of l] show ?thesis
        by (cases "map_of (operators s) l") (auto simp: registry_view_def operator_reg_def put cell_def nth_append v)
    qed
  qed
  ultimately show ?thesis using v by (simp add: add_operator_def)
qed

lemma set_images_refines:
  assumes "registry_inv s" and "map_of (operators s) k = Some (JRef a)"
  shows "registry_inv (s\<lparr>heap := (heap s)[a := obj_put ''dockerimages'' (JArr ys) (heap s ! a)]\<rparr>) \<and>
    registry_view (s\<lparr>heap := (heap s)[a := obj_put ''dockerimages'' (JArr ys) (heap s ! a)]\<rparr>) = (registry_view s)(k \<mapsto> Some ys)"
proof -
  let ?t = "s\<lparr>heap := (heap s)[a := obj_put ''dockerimages'' (JArr ys) (heap s ! a)]\<rparr>"
  have a: "a < length (heap s)" "\<not> has_own (heap s ! a) ''hasOwnProperty''" using registry_entry [OF assms] by auto
  have "operator_cell (heap ?t) v" if "operator_cell (heap s) v" for v
    using that a by (auto simp: operator_cell_def nth_list_update images_of_def map_of_obj_put js_access split: jval.splits)
  then have "registry_inv ?t" using assms(1) unfolding registry_inv_def by simp
  moreover have "registry_view ?t l = ((registry_view s)(k \<mapsto> Some ys)) l" for l
  proof (cases "l = k")
    case True
    then show ?thesis using assms(2) a by (simp add: registry_view_def cell_def list_of_def map_of_obj_put)
  next
    case False
    have "v \<noteq> JRef a" if "map_of (operators s) l = Some v" for v
      using assms that False unfolding registry_inv_def by blast
    with False show ?thesis
      by (auto simp: registry_view_def cell_def nth_list_update split: option.splits jval.splits)
  qed
  ultimately show ?thesis by blast
qed

lemma add_image_refines:
  assumes "registry_inv s" and "k \<notin> set object_proto"
  shows "\<exists>t. add_image k v s = (t, True) \<and> registry_inv t \<and> registry_view t = image_reg k v (registry_view s)"
proof (cases "map_of (operators s) k")
  case None
  then show ?thesis using assms registry_view_None [OF assms(1), of k] by (simp add: add_image_def obj_in_own image_reg_def)
next
  case (Some w)
  obtain a l where a: "w = JRef a" "a < length (heap s)" "list_of (heap s ! a) = Some l" "images_of (heap s ! a) = Some (listed l)"
      "\<not> has_own (heap s ! a) ''hasOwnProperty''" "registry_view s k = Some l"
    using registry_cell [OF assms(1) Some] by metis
  let ?t = "s\<lparr>heap := (heap s)[a := obj_put ''dockerimages'' (JArr (listed l @ [v])) (heap s ! a)]\<rparr>"
  have "add_image k v s = (?t, True)"
  proof (cases "map_of (heap s ! a) ''dockerimages''")
    case None
    with a Some assms(2) show ?thesis
      by (simp add: add_image_def obj_in_own obj_get_own cell_def dict_hasOwn_def spush_def images_of_def has_own_map_of js_access Let_def)
  next
    case (Some u)
    with a have "u = JArr (listed l)" by (simp add: images_of_def split: jval.splits)
    with a Some assms(2) \<open>map_of (operators s) k = Some w\<close> show ?thesis
      by (simp add: add_image_def obj_in_own obj_get_own cell_def dict_hasOwn_def spush_def has_own_map_of Let_def)
  qed
  with set_images_refines [OF assms(1), of k a "listed l @ [v]"] Some a show ?thesis by (simp add: image_reg_def)
qed

lemma add_named_image_refines:
  assumes "registry_inv s" and "image_ok v"
  shows "\<exists>t. add_named_image v s = (t, True) \<and> registry_inv t \<and> registry_view t = named_image_reg v (registry_view s)"
proof -
  obtain ps k where v: "v = JObj ps" "obj_get ps ''operatorName'' = JStr k" "k \<notin> set object_proto"
    using assms(2) by (auto simp: image_ok_def split: jval.splits)
  with add_image_refines [OF assms(1) v(3), of v] show ?thesis by (simp add: add_named_image_def named_image_reg_def)
qed

interpretation posted_operators: stepwise_refinement add_operator "for_each add_operator" registry_inv operator_ok registry_view operator_reg
  by unfold_locales (rule add_operator_refines)

interpretation posted_images: stepwise_refinement add_named_image "for_each add_named_image" registry_inv image_ok registry_view named_image_reg
  by unfold_locales (rule add_named_image_refines)

section \<open>Requests one after the other\<close>

datatype registry_request =
    PostOperators "jval list"
  | PostImages "jval list"
  | PostImage string jval
  | DeleteImage string string
  | DeleteOperator string

fun registry_serve :: "axios \<Rightarrow> string \<Rightarrow> registry_request \<Rightarrow> handler" where
  "registry_serve axios u (PostOperators ops) s = complete axios u (post_operator (JArr ops) s)"
| "registry_serve axios u (PostImages imgs) s = complete axios u (post_dockerimages (JArr imgs) s)"
| "registry_serve axios u (PostImage k img) s = complete axios u (post_dockerimage k img s)"
| "registry_serve axios u (DeleteImage k n) s = complete axios u (delete_dockerimage k (JStr n) s)"
| "registry_serve axios u (DeleteOperator k) s = complete axios u (delete_operator k s)"

text \<open>The first image with the given name is removed.\<close>

definition image_named :: "string \<Rightarrow> jval \<Rightarrow> bool" where
  "image_named n v = js_eq (obj_get (jprops v) ''name'') (JStr n)"

fun drop_image :: "string \<Rightarrow> jval list \<Rightarrow> jval list" where
  "drop_image n [] = []"
| "drop_image n (v # vs) = (if image_named n v then vs else v # drop_image n vs)"

text \<open>What a request means: \<open>used\<close> are the operators that the stored topologies use. And what it means seen from the images only.\<close>

fun registry_spec :: "string set \<Rightarrow> registry_request \<Rightarrow> registry \<Rightarrow> registry" where
  "registry_spec used (PostOperators ops) m = fold operator_reg ops m"
| "registry_spec used (PostImages imgs) m = fold named_image_reg imgs m"
| "registry_spec used (PostImage k img) m = image_reg k img m"
| "registry_spec used (DeleteImage k n) m = (case m k of Some (Some xs) \<Rightarrow> m(k \<mapsto> Some (drop_image n xs)) | _ \<Rightarrow> m)"
| "registry_spec used (DeleteOperator k) m = (if k \<in> used then m else m(k := None))"

fun images_spec :: "string set \<Rightarrow> registry_request \<Rightarrow> (string \<rightharpoonup> jval list) \<Rightarrow> (string \<rightharpoonup> jval list)" where
  "images_spec used (PostOperators ops) m = fold operator_spec ops m"
| "images_spec used (PostImages imgs) m = fold image_spec imgs m"
| "images_spec used (PostImage k img) m = image_to k img m"
| "images_spec used (DeleteImage k n) m = (case m k of None \<Rightarrow> m | Some xs \<Rightarrow> m(k \<mapsto> drop_image n xs))"
| "images_spec used (DeleteOperator k) m = (if k \<in> used then m else m(k := None))"

lemma flatten_spec: "flatten (registry_spec used r m) = images_spec used r (flatten m)"
  by (cases r) (auto simp: flatten_fold flatten_specs fun_eq_iff flatten_def listed_def split: option.split)

text \<open>The answers: the deletion of an image of an operator that has no list of images throws.\<close>

fun registry_answer :: "string set \<Rightarrow> registry_request \<Rightarrow> registry \<Rightarrow> outcome" where
  "registry_answer used (DeleteImage k n) m = (if m k = Some None then Rejected else Status 200)"
| "registry_answer used (DeleteOperator k) m = (if m k = None then Status 404 else if k \<in> used then Status 501 else Status 200)"
| "registry_answer used r m = Status 200"

text \<open>The images of an operator are objects, in what is posted and what is stored.\<close>

definition is_object :: "jval \<Rightarrow> bool" where
  "is_object v = (\<exists>ps. v = JObj ps)"

definition objects_inv :: "(string \<rightharpoonup> jval list) \<Rightarrow> bool" where
  "objects_inv m = (\<forall>k xs. m k = Some xs \<longrightarrow> list_all is_object xs)"

fun registry_ok :: "registry_request \<Rightarrow> bool" where
  "registry_ok (PostOperators ops) = list_all (\<lambda>v. operator_ok v \<and> list_all is_object (the (images_of (jprops v)))) ops"
| "registry_ok (PostImages imgs) = list_all image_ok imgs"
| "registry_ok (PostImage k img) = (k \<notin> set object_proto \<and> is_object img)"
| "registry_ok (DeleteImage k n) = (k \<notin> set object_proto)"
| "registry_ok (DeleteOperator k) = (k \<notin> set object_proto)"

lemma db_write_registry [simp]:
  "registry_view (db_write s) = registry_view s" "images_view (db_write s) = images_view s" "registry_inv (db_write s) = registry_inv s"
  by (auto simp: fun_eq_iff registry_view_def images_view_def registry_inv_def db_write_def split: option.split jval.split)

lemma find_image_drop:
  assumes "list_all is_object xs"
  shows "\<exists>i. find_image xs (JStr n) = Some i \<and> (case i of None \<Rightarrow> drop_image n xs = xs | Some j \<Rightarrow> drop_image n xs = take j xs @ drop (Suc j) xs)"
  using assms
proof (induction xs)
  case (Cons v vs)
  then obtain i where i: "find_image vs (JStr n) = Some i" "case i of None \<Rightarrow> drop_image n vs = vs | Some j \<Rightarrow> drop_image n vs = take j vs @ drop (Suc j) vs"
    by auto
  from Cons.prems obtain ps where "v = JObj ps" by (auto simp: is_object_def)
  with i show ?case by (cases i) (auto simp: image_named_def)
qed simp

lemma objects_operator: "objects_inv m \<Longrightarrow> images_of (jprops v) \<noteq> None \<Longrightarrow> list_all is_object (the (images_of (jprops v))) \<Longrightarrow> objects_inv (operator_spec v m)"
  by (auto simp: objects_inv_def operator_spec_def)

lemma objects_image: "objects_inv m \<Longrightarrow> is_object v \<Longrightarrow> objects_inv (image_to k v m)"
  by (auto simp: objects_inv_def image_to_def split: option.splits if_splits)

lemma list_all_drop_image: "list_all P xs \<Longrightarrow> list_all P (drop_image n xs)"
  by (induction xs) auto

lemma objects_spec: "objects_inv m \<Longrightarrow> registry_ok r \<Longrightarrow> objects_inv (images_spec used r m)"
proof (cases r)
  case (PostOperators ops)
  have "objects_inv m \<Longrightarrow> registry_ok (PostOperators ops) \<Longrightarrow> objects_inv (fold operator_spec ops m)" for m
  proof (induction ops arbitrary: m)
    case (Cons v ops)
    then have "objects_inv (operator_spec v m)" by (intro objects_operator) (auto simp: operator_ok_def split: jval.splits)
    with Cons show ?case by simp
  qed simp
  with PostOperators show "objects_inv m \<Longrightarrow> registry_ok r \<Longrightarrow> ?thesis" by simp
next
  case (PostImages imgs)
  have "objects_inv m \<Longrightarrow> list_all image_ok imgs \<Longrightarrow> objects_inv (fold image_spec imgs m)" for m
  proof (induction imgs arbitrary: m)
    case (Cons v imgs)
    then have "objects_inv (image_spec v m)"
      unfolding image_spec_def by (intro objects_image) (auto simp: image_ok_def is_object_def split: jval.splits)
    with Cons show ?case by simp
  qed simp
  with PostImages show "objects_inv m \<Longrightarrow> registry_ok r \<Longrightarrow> ?thesis" by simp
next
  case (DeleteImage k n)
  then show "objects_inv m \<Longrightarrow> registry_ok r \<Longrightarrow> ?thesis"
    by (auto simp: objects_inv_def list_all_drop_image split: option.splits if_splits)
next
  case (DeleteOperator k)
  then show "objects_inv m \<Longrightarrow> registry_ok r \<Longrightarrow> ?thesis" by (auto simp: objects_inv_def)
qed (simp add: objects_image)

section \<open>Every request means its operation on the map\<close>

lemma complete_write [simp]:
  "complete axios u (write_then (Reply n) (t, True)) = (db_write t, Status n)"
  "complete axios u (s, Status n) = (s, Status n)"
  by (simp_all add: complete_def write_then_def resume_def)

lemma served_posts:
  "post_operator (JArr ops) s = write_then (Reply 200) (for_each add_operator ops s)"
  "post_dockerimages (JArr imgs) s = write_then (Reply 200) (for_each add_named_image imgs s)"
  by (simp_all add: post_operator_def post_dockerimages_def over_body_def)

text \<open>The invariant of the registry together with that of its images.\<close>

definition images_inv :: "designer \<Rightarrow> bool" where
  "images_inv s = (registry_inv s \<and> objects_inv (images_view s))"

lemma delete_image_refines:
  assumes "images_inv s" and "k \<notin> set object_proto"
  shows "\<exists>t. registry_serve axios u (DeleteImage k n) s = (t, registry_answer used (DeleteImage k n) (registry_view s)) \<and> registry_inv t \<and>
    registry_view t = registry_spec used (DeleteImage k n) (registry_view s)"
proof (cases "map_of (operators s) k")
  case None
  then show ?thesis using assms registry_view_None [of s k] by (simp add: images_inv_def delete_dockerimage_def obj_in_own)
next
  case (Some v)
  then obtain a l where a: "v = JRef a" "a < length (heap s)" "list_of (heap s ! a) = Some l" "registry_view s k = Some l"
    using registry_cell [of s k v] assms(1) by (metis images_inv_def)
  show ?thesis
  proof (cases l)
    case None
    with a(3) have "map_of (heap s ! a) ''dockerimages'' = None" by (auto simp: list_of_def split: option.splits jval.splits)
    with a None Some assms show ?thesis
      by (simp add: images_inv_def delete_dockerimage_def obj_in_own obj_get_own cell_def has_own_map_of obj_get_def complete_def object_proto_def Let_def)
  next
    case (Some xs)
    with a(3) have w: "map_of (heap s ! a) ''dockerimages'' = Some (JArr xs)" by (auto simp: list_of_def split: option.splits jval.splits)
    from a(4) Some have "images_view s k = Some xs" by (simp add: images_view_flatten flatten_def listed_def)
    with assms(1) have "list_all is_object xs" by (simp add: images_inv_def objects_inv_def)
    then obtain i where i: "find_image xs (JStr n) = Some i"
      "case i of None \<Rightarrow> drop_image n xs = xs | Some j \<Rightarrow> drop_image n xs = take j xs @ drop (Suc j) xs"
      using find_image_drop by blast
    show ?thesis
    proof (cases i)
      case None
      with i a w assms \<open>l = Some xs\<close> \<open>map_of (operators s) k = Some v\<close> fun_upd_triv [of "registry_view s" k] show ?thesis
        by (simp add: images_inv_def delete_dockerimage_def obj_in_own obj_get_own cell_def has_own_map_of Let_def)
    next
      case (Some j)
      with set_images_refines [of s k a "drop_image n xs"] i a w assms \<open>l = Some xs\<close> \<open>map_of (operators s) k = Some v\<close>
      show ?thesis
        by (simp add: images_inv_def delete_dockerimage_def obj_in_own obj_get_own cell_def has_own_map_of complete_def resume_def Let_def)
    qed
  qed
qed

text \<open>The operators that the stored topologies use, all of which list their tasks.\<close>

definition topologies_listed :: "designer \<Rightarrow> bool" where
  "topologies_listed s = (\<forall>(k, t) \<in> set (topologies s). topology_operators (heap s) t \<noteq> None)"

definition used_operators :: "designer \<Rightarrow> string set" where
  "used_operators s = {n. \<exists>(k, t) \<in> set (topologies s). n \<in> set (the (topology_operators (heap s) t))}"

lemma delete_operator_refines:
  assumes "registry_inv s" and "k \<notin> set object_proto" and "topologies_listed s"
  shows "\<exists>t. registry_serve axios u (DeleteOperator k) s = (t, registry_answer (used_operators s) (DeleteOperator k) (registry_view s)) \<and>
    registry_inv t \<and> registry_view t = registry_spec (used_operators s) (DeleteOperator k) (registry_view s)"
proof -
  have related: "hasRelatedTopology (heap s) (topologies s) k = Some (k \<in> used_operators s)"
    using hasRelatedTopology_names [of "topologies s" "heap s" k] assms(3) by (simp add: topologies_listed_def used_operators_def)
  have gone: "registry_inv (s\<lparr>operators := obj_del k (operators s)\<rparr>)"
    "registry_view (s\<lparr>operators := obj_del k (operators s)\<rparr>) = (registry_view s)(k := None)"
    using assms(1) unfolding registry_inv_def by (auto simp: fun_eq_iff registry_view_def map_of_obj_del split: option.split jval.split)
  show ?thesis
  proof (cases "map_of (operators s) k")
    case None
    with assms(2) have "obj_get (operators s) k = JUndef" by (simp add: obj_get_absent)
    with None assms(1) registry_view_None [OF assms(1), of k] fun_upd_triv [of "registry_view s" k] show ?thesis
      by (simp add: delete_operator_def)
  next
    case (Some v)
    with assms(1) obtain a where a: "v = JRef a" by (metis registry_cell)
    with Some have "obj_get (operators s) k = JRef a" by (simp add: obj_get_own)
    with Some related gone assms(1) registry_view_None [OF assms(1), of k] show ?thesis
      by (auto simp: delete_operator_def complete_def resume_def)
  qed
qed

lemma registry_serve_refines:
  assumes "images_inv s" and "registry_ok r" and "\<forall>k. r = DeleteOperator k \<longrightarrow> topologies_listed s"
  shows "\<exists>t. registry_serve axios u r s = (t, registry_answer (used_operators s) r (registry_view s)) \<and> images_inv t \<and>
    registry_view t = registry_spec (used_operators s) r (registry_view s)"
proof -
  have "\<exists>t. registry_serve axios u r s = (t, registry_answer (used_operators s) r (registry_view s)) \<and> registry_inv t \<and>
    registry_view t = registry_spec (used_operators s) r (registry_view s)"
  proof (cases r)
    case (PostOperators ops)
    with assms posted_operators.run_refines [of s ops] show ?thesis
      by (auto simp: images_inv_def served_posts list_all_iff)
  next
    case (PostImages imgs)
    with assms posted_images.run_refines [of s imgs] show ?thesis
      by (auto simp: images_inv_def served_posts list_all_iff)
  next
    case (PostImage k img)
    with assms add_image_refines [of s k img] show ?thesis by (auto simp: images_inv_def post_dockerimage_def)
  next
    case (DeleteImage k n)
    with assms delete_image_refines [of s k axios u n] show ?thesis by simp
  next
    case (DeleteOperator k)
    with assms delete_operator_refines [of s k axios u] show ?thesis by (simp add: images_inv_def)
  qed
  then show ?thesis using assms objects_spec by (auto simp: images_inv_def images_view_flatten flatten_spec)
qed

text \<open>The same, seen from the images only.\<close>

lemma images_serve_refines:
  assumes "images_inv s" and "registry_ok r" and "\<forall>k. r = DeleteOperator k \<longrightarrow> topologies_listed s"
  shows "images_inv (fst (registry_serve axios u r s)) \<and>
    images_view (fst (registry_serve axios u r s)) = images_spec (used_operators s) r (images_view s)"
  using registry_serve_refines [OF assms, of axios u] by (auto simp: images_view_flatten flatten_spec)

section \<open>The topologies stay as they are\<close>

lemma add_operator_tasks: "tasks_kept (heap s) (heap (fst (add_operator v s))) \<and> topologies (fst (add_operator v s)) = topologies s"
  using tasks_kept_alloc [of "heap s" v] by (cases "alloc v (heap s)") (simp add: add_operator_def split: option.split)

lemma add_image_tasks: "tasks_kept (heap s) (heap (fst (add_image k v s))) \<and> topologies (fst (add_image k v s)) = topologies s"
proof -
  have put: "tasks_kept (heap s) h" if "sput w ''dockerimages'' (JArr []) (heap s) = Some h" for w h using that by (rule tasks_kept_sput) simp_all
  have push: "tasks_kept h h'" if "spush w ''dockerimages'' v h = Some h'" for w h h' using that by (rule tasks_kept_spush) simp_all
  show ?thesis by (auto simp: add_image_def Let_def put push intro: tasks_kept_trans [OF put push] split: option.split)
qed

lemma add_named_image_tasks:
  "tasks_kept (heap s) (heap (fst (add_named_image v s))) \<and> topologies (fst (add_named_image v s)) = topologies s"
  using add_image_tasks by (simp add: add_named_image_def split: option.split)

lemma loop_tasks:
  assumes "\<And>v s. tasks_kept (heap s) (heap (fst (step v s))) \<and> topologies (fst (step v s)) = topologies s"
  shows "tasks_kept (heap s) (heap (fst (for_each step vs s))) \<and> topologies (fst (for_each step vs s)) = topologies s"
proof (induction vs arbitrary: s)
  case (Cons v vs)
  have "tasks_kept (heap s) (heap (fst (step v s)))" "topologies (fst (step v s)) = topologies s" using assms by auto
  with Cons [of "fst (step v s)"] show ?case by (auto intro: tasks_kept_trans split: prod.split)
qed simp

lemma registry_serve_tasks:
  "tasks_kept (heap s) (heap (fst (registry_serve axios u r s))) \<and> topologies (fst (registry_serve axios u r s)) = topologies s"
proof -
  have written: "heap (fst (complete axios u (write_then (Reply n) q))) = heap (fst q)"
    "topologies (fst (complete axios u (write_then (Reply n) q))) = topologies (fst q)" for n q
    by (auto simp: write_then_def complete_def resume_def split: prod.splits bool.splits)
  show ?thesis
  proof (cases r)
    case (DeleteImage k n)
    have "tasks_kept (heap s) h" if "sput w ''dockerimages'' xs (heap s) = Some h" for w xs h using that by (rule tasks_kept_sput) simp_all
    with DeleteImage show ?thesis
      by (simp add: delete_dockerimage_def complete_def resume_def Let_def split: option.split jval.split prod.split)
  next
    case (DeleteOperator k)
    then show ?thesis by (auto simp: delete_operator_def complete_def resume_def split: option.split bool.split)
  qed (use loop_tasks [of add_operator, OF add_operator_tasks] loop_tasks [of add_named_image, OF add_named_image_tasks] add_image_tasks in
      \<open>simp_all add: served_posts post_dockerimage_def written\<close>)
qed

lemma topologies_kept:
  assumes "topologies_listed s" and "tasks_kept (heap s) (heap t)" and "topologies t = topologies s"
  shows "topologies_listed t" and "used_operators t = used_operators s"
proof -
  have "topology_operators (heap t) v = topology_operators (heap s) v" if "(k, v) \<in> set (topologies s)" for k v
    using assms(1) that topology_operators_kept [OF assms(2), of v] by (auto simp: topologies_listed_def)
  then have "\<forall>p \<in> set (topologies s). topology_operators (heap t) (snd p) = topology_operators (heap s) (snd p)" by auto
  then show "topologies_listed t" "used_operators t = used_operators s"
    using assms(1,3) by (auto simp: topologies_listed_def used_operators_def case_prod_beta)
qed

section \<open>Sequences of requests, and what can be read from the registry\<close>

text \<open>The requests are served one after the other; the result is the state of the designer and the list of answers.\<close>

fun registry_run :: "axios \<Rightarrow> string \<Rightarrow> registry_request list \<Rightarrow> designer \<Rightarrow> designer \<times> outcome list" where
  "registry_run axios u [] s = (s, [])"
| "registry_run axios u (r # rs) s =
     (case registry_serve axios u r s of (t, a) \<Rightarrow> case registry_run axios u rs t of (w, as) \<Rightarrow> (w, a # as))"

fun registry_trace :: "string set \<Rightarrow> registry_request list \<Rightarrow> registry \<Rightarrow> registry \<times> outcome list" where
  "registry_trace used [] m = (m, [])"
| "registry_trace used (r # rs) m =
     (case registry_trace used rs (registry_spec used r m) of (m', as) \<Rightarrow> (m', registry_answer used r m # as))"

lemma registry_run_refines:
  assumes "images_inv s" and "topologies_listed s" and "list_all registry_ok rs"
  shows "\<exists>t as. registry_run axios u rs s = (t, as) \<and> images_inv t \<and> registry_trace (used_operators s) rs (registry_view s) = (registry_view t, as)"
  using assms
proof (induction rs arbitrary: s)
  case (Cons r rs)
  then obtain t where t: "registry_serve axios u r s = (t, registry_answer (used_operators s) r (registry_view s))" "images_inv t"
      "registry_view t = registry_spec (used_operators s) r (registry_view s)"
    using registry_serve_refines [of s r axios u] by auto
  moreover have "topologies_listed t" "used_operators t = used_operators s"
    using topologies_kept [OF Cons.prems(2), of t] registry_serve_tasks [of s axios u r] by (simp_all add: t(1))
  ultimately show ?case using Cons.IH [of t] Cons.prems(3) by auto
qed simp

text \<open>The listing of the images: an operator without a list answers \<open>undefined\<close>, and for an unknown operator the handler throws.\<close>

definition listing :: "store \<Rightarrow> jval list option option \<Rightarrow> outcome" where
  "listing h l = (case l of None \<Rightarrow> Rejected | Some None \<Rightarrow> Json JUndef | Some (Some xs) \<Rightarrow> Json (json h (JArr xs)))"

lemma get_dockerimage_listing:
  assumes "registry_inv s" and "k \<notin> set object_proto"
  shows "get_dockerimage k s = (s, listing (heap s) (registry_view s k))"
proof (cases "map_of (operators s) k")
  case None
  with assms show ?thesis using registry_view_None [OF assms(1), of k] by (simp add: get_dockerimage_def obj_get_absent listing_def)
next
  case (Some v)
  then obtain a l where a: "v = JRef a" "a < length (heap s)" "list_of (heap s ! a) = Some l" "registry_view s k = Some l"
    using registry_cell [OF assms(1)] by metis
  then have "obj_get (heap s ! a) ''dockerimages'' = (case l of None \<Rightarrow> JUndef | Some xs \<Rightarrow> JArr xs)"
    by (auto simp: list_of_def obj_get_def object_proto_def split: option.splits jval.splits)
  with a Some show ?thesis by (auto simp: get_dockerimage_def obj_get_own cell_def listing_def json_def split: option.split)
qed

text \<open>
  Claim C6. The five routes of the designer that change the operators and their docker images, \<open>POST /operator\<close>,
  \<open>DELETE /operator/:name\<close>, \<open>POST /dockerimage\<close>, \<open>POST /dockerimage/:operator\<close> and \<open>DELETE /dockerimage/:operator\<close>, are
  operations on a map from the names of operators to their lists of images: whatever well-formed requests are served one after
  the other, the database of the designer stands for the map that the operations of the specification give, in that order, and
  every request is answered as the specification says. In particular a posted image goes to the end of the list of its own
  operator and of no other, an image for an operator that is not there is lost, an operator that is posted again loses its
  images, the first image with the given name is deleted, and an operator is deleted unless a stored topology uses it. And
  \<open>GET /dockerimage/:operator\<close> answers with just that list, with \<open>undefined\<close> for an operator that has none yet, and throws for one
  that is not there.
\<close>

theorem registry_refines_map:
  assumes "images_inv s" and "topologies_listed s" and "list_all registry_ok rs"
  shows "\<exists>t as. registry_run axios u rs s = (t, as) \<and>
    registry_trace (used_operators s) rs (registry_view s) = (registry_view t, as) \<and>
    (\<forall>k. k \<notin> set object_proto \<longrightarrow> get_dockerimage k t = (t, listing (heap t) (registry_view t k)))"
  using registry_run_refines [OF assms, of axios u] get_dockerimage_listing by (auto simp: images_inv_def)

definition sample_requests :: "registry_request list" where
  "sample_requests =
     [PostOperators [JObj [(''name'', JStr ''counter''), (''dockerimages'', JArr [])], JObj [(''name'', JStr ''sum'')]],
      PostImages [JObj [(''name'', JStr ''a''), (''operatorName'', JStr ''sum'')], JObj [(''name'', JStr ''b''), (''operatorName'', JStr ''geohash'')]],
      DeleteOperator ''op1'', DeleteOperator ''counter'', DeleteImage ''op1'' ''a'',
      PostImage ''sum'' (JObj [(''name'', JStr ''c'')]),
      DeleteImage ''sum'' ''a'']"

lemma sample_registry:
  "images_inv sample_designer" "list_all registry_ok sample_requests" "registry_view sample_designer = [''op1'' \<mapsto> None]"
  "topologies_listed sample_designer" "used_operators sample_designer = {''op1''}"
proof -
  have m: "map_of (operators sample_designer) = [''op1'' \<mapsto> JRef 1]" by (simp add: sample_defs)
  have c: "operator_cell (heap sample_designer) (JRef 1)" by (simp add: operator_cell_def sample_defs images_of_def has_own_map_of)
  show v: "registry_view sample_designer = [''op1'' \<mapsto> None]"
    by (simp add: fun_eq_iff registry_view_def m) (simp add: sample_defs list_of_def)
  then show "images_inv sample_designer"
    using c by (simp add: images_inv_def registry_inv_def objects_inv_def m object_proto_def images_view_flatten flatten_def listed_def)
  show "list_all registry_ok sample_requests"
    by (simp add: sample_requests_def operator_ok_def image_ok_def is_object_def images_of_def object_proto_def obj_get_def has_own_map_of)
  show "topologies_listed sample_designer" "used_operators sample_designer = {''op1''}"
    by (simp_all add: topologies_listed_def used_operators_def sample_defs js_access)
qed

theorem registry_refines_map_witness:
  "\<exists>t. registry_run (\<lambda>rq. Inl JNull) [] sample_requests sample_designer =
       (t, [Status 200, Status 200, Status 501, Status 200, Rejected, Status 200, Status 200]) \<and>
     registry_view t = [''op1'' \<mapsto> None, ''sum'' \<mapsto> Some [JObj [(''name'', JStr ''c'')]]] \<and>
     get_dockerimage ''op1'' t = (t, Json JUndef)"
proof -
  obtain t as where t: "registry_run (\<lambda>rq. Inl JNull) [] sample_requests sample_designer = (t, as)"
      "registry_trace (used_operators sample_designer) sample_requests (registry_view sample_designer) = (registry_view t, as)"
      "\<forall>k. k \<notin> set object_proto \<longrightarrow> get_dockerimage k t = (t, listing (heap t) (registry_view t k))"
    using registry_refines_map [OF sample_registry(1,4,2), of "\<lambda>rq. Inl JNull" "[]"] by blast
  have "registry_trace {''op1''} sample_requests [''op1'' \<mapsto> None] =
      ([''op1'' \<mapsto> None, ''sum'' \<mapsto> Some [JObj [(''name'', JStr ''c'')]]],
       [Status 200, Status 200, Status 501, Status 200, Rejected, Status 200, Status 200])"
    by (simp add: sample_requests_def operator_reg_def named_image_reg_def image_reg_def list_of_def listed_def image_named_def obj_get_def js_eq_def
        is_prim_def fun_eq_iff)
  with t(2) have "registry_view t = [''op1'' \<mapsto> None, ''sum'' \<mapsto> Some [JObj [(''name'', JStr ''c'')]]]"
    "as = [Status 200, Status 200, Status 501, Status 200, Rejected, Status 200, Status 200]"
    unfolding sample_registry by (metis prod.inject)+
  with t(1,3) show ?thesis by (simp add: listing_def object_proto_def)
qed

end
