(* ===== verification/Operator_Page.thy ===== *)
theory Operator_Page
  imports Image_Registry
begin

text \<open>
  The page \<open>designer/public/js/operator.js\<close> of the operators with the lists of \<open>initialization.js\<close>: the registration
  of the default operators and images when the page is opened, by two requests that are served in any order, the
  tables of the page and its buttons.
\<close>

section \<open>The default lists\<close>

definition default_operator :: "string \<Rightarrow> jval" where
  "default_operator n = JObj [(''name'', JStr n), (''description'', JStr []), (''parameters'', JArr []), (''dockerimages'', JArr [])]"

definition default_operators :: "string list" where
  "default_operators =
     [''nodejs'', ''python'', ''iotagent'', ''counter'', ''anomaly'', ''facefinder'', ''connectedcar'', ''recommender'',
      ''privatesite'', ''publicsite'', ''dummy'']"

definition defaultOperatorList :: "jval list" where
  "defaultOperatorList = map default_operator default_operators"

definition default_image :: "string \<Rightarrow> string \<Rightarrow> string \<Rightarrow> bool \<Rightarrow> jval" where
  "default_image n hwType op prefetched =
     JObj [(''name'', JStr n), (''tag'', JStr ''latest''), (''hwType'', JStr hwType), (''osType'', JStr ''Linux''),
           (''operatorName'', JStr op), (''prefetched'', JBool prefetched)]"

definition defaultDockerImageList :: "jval list" where
  "defaultDockerImageList =
     [default_image ''fogflow/nodejs'' ''X86'' ''nodejs'' True,
      default_image ''fogflow/python'' ''X86'' ''python'' False,
      default_image ''fogflow/counter'' ''X86'' ''counter'' False,
      default_image ''fogflow/anomaly'' ''X86'' ''anomaly'' False,
      default_image ''fogflow/facefinder'' ''X86'' ''facefinder'' False,
      default_image ''fogflow/connectedcar'' ''X86'' ''connectedcar'' False,
      default_image ''fiware/iotagent-json'' ''X86'' ''iotagent'' False,
      default_image ''fogflow/recommender'' ''X86'' ''recommender'' False,
      default_image ''fogflow/privatesite'' ''X86'' ''privatesite'' False,
      default_image ''fogflow/publicsite'' ''X86'' ''publicsite'' False,
      default_image ''fogflow/dummy'' ''X86'' ''dummy'' False,
      default_image ''geohash'' ''X86'' ''geohash'' False,
      default_image ''converter'' ''X86'' ''converter'' False,
      default_image ''predictor'' ''X86'' ''predictor'' False,
      default_image ''controller'' ''X86'' ''controller'' False,
      default_image ''detector'' ''ARM'' ''detector'' False]"

section \<open>Opening the page\<close>

text \<open>
  The requests of \<open>initOperatorList\<close> and \<open>initDockerImageList\<close> that are on their way to the designer. Each of the two functions
  asks for a list and posts the default one when the answer has no keys; nothing waits for the other function.
\<close>

datatype page_job = AskOperators | SendOperators | AskImages | SendImages

definition no_keys :: "outcome \<Rightarrow> bool" where
  "no_keys r = (case r of Json (JObj ps) \<Rightarrow> ps = [] | _ \<Rightarrow> False)"

definition initOperatorList :: "outcome \<Rightarrow> page_job list" where
  "initOperatorList answer = (if no_keys answer then [SendOperators] else [])"

definition initDockerImageList :: "outcome \<Rightarrow> page_job list" where
  "initDockerImageList answer = (if no_keys answer then [SendImages] else [])"

fun page_serve :: "axios \<Rightarrow> string \<Rightarrow> page_job \<Rightarrow> designer \<Rightarrow> designer \<times> page_job list" where
  "page_serve axios u AskOperators s = (case get_operators s of (t, r) \<Rightarrow> (t, initOperatorList r))"
| "page_serve axios u AskImages s = (case get_dockerimages s of (t, r) \<Rightarrow> (t, initDockerImageList r))"
| "page_serve axios u SendOperators s = (fst (registry_serve axios u (PostOperators defaultOperatorList) s), [])"
| "page_serve axios u SendImages s = (fst (registry_serve axios u (PostImages defaultDockerImageList) s), [])"

definition open_page :: "page_job list" where
  "open_page = [AskOperators, AskImages]"

text \<open>The designer serves any of the requests that are on their way.\<close>

inductive page_step :: "axios \<Rightarrow> string \<Rightarrow> page_job list \<times> designer \<Rightarrow> page_job list \<times> designer \<Rightarrow> bool" for axios u where
  "page_serve axios u j s = (t, js) \<Longrightarrow> page_step axios u (js1 @ j # js2, s) (js1 @ js @ js2, t)"

inductive_cases page_stepE: "page_step axios u (js, s) q"

section \<open>The requests on the map of images\<close>

definition plain_registry :: "designer \<Rightarrow> bool" where
  "plain_registry s = (images_inv s \<and> canonical (operators s))"

fun view_serve :: "page_job \<Rightarrow> (string \<rightharpoonup> jval list) \<Rightarrow> (string \<rightharpoonup> jval list) \<times> page_job list" where
  "view_serve AskOperators m = (m, if m = Map.empty then [SendOperators] else [])"
| "view_serve AskImages m = (m, if \<forall>k xs. m k = Some xs \<longrightarrow> xs = [] then [SendImages] else [])"
| "view_serve SendOperators m = (fold operator_spec defaultOperatorList m, [])"
| "view_serve SendImages m = (fold image_spec defaultDockerImageList m, [])"

lemma default_operators_ok: "registry_ok (PostOperators defaultOperatorList)"
  by (simp add: defaultOperatorList_def default_operators_def default_operator_def operator_ok_def images_of_def object_proto_def obj_get_def has_own_map_of)

lemma default_images_ok: "registry_ok (PostImages defaultDockerImageList)"
  by (simp add: defaultDockerImageList_def default_image_def image_ok_def object_proto_def obj_get_def)

lemma canonical_add_operator: "canonical (operators s) \<Longrightarrow> canonical (operators (fst (for_each add_operator ops s)))"
  by (induction ops arbitrary: s) (auto simp: add_operator_def canonical_obj_put split: option.splits prod.splits)

lemma operators_add_images: "operators (fst (for_each add_named_image imgs s)) = operators s"
proof (induction imgs arbitrary: s)
  case (Cons v imgs)
  have "operators (fst (add_named_image v s)) = operators s"
    by (simp add: add_named_image_def add_image_def Let_def split: option.splits)
  with Cons show ?case by (auto split: prod.splits)
qed simp

lemma has_images_view:
  assumes "plain_registry s" and "(k, v) \<in> set (operators s)"
  shows "\<exists>a xs. v = JRef a \<and> images_view s k = Some xs \<and> has_images (heap s) v = Some (xs \<noteq> [])"
proof -
  from assms have "map_of (operators s) k = Some v" by (simp add: plain_registry_def canonical_def)
  with registry_entry [of s k v] assms(1) obtain a xs where a: "v = JRef a" "a < length (heap s)" "images_of (heap s ! a) = Some xs"
      "\<not> has_own (heap s ! a) ''hasOwnProperty''" "images_view s k = Some xs"
    by (auto simp: plain_registry_def images_inv_def)
  have "has_images (heap s) v = Some (xs \<noteq> [])"
  proof (cases "map_of (heap s ! a) ''dockerimages''")
    case None
    with a show ?thesis by (simp add: has_images_def cell_def dict_hasOwn_def has_own_map_of images_of_def)
  next
    case (Some w)
    with a have "w = JArr xs" by (simp add: images_of_def split: jval.splits)
    with a Some show ?thesis by (simp add: has_images_def cell_def dict_hasOwn_def has_own_map_of obj_get_own loop_bound_def)
  qed
  with a show ?thesis by blast
qed

lemma obj_put_not_Nil: "k \<noteq> ''__proto__'' \<Longrightarrow> obj_put k v ps \<noteq> []"
  using map_of_obj_put [of k v ps k] by auto

lemma collect_dockers_empty:
  assumes "\<And>k v. (k, v) \<in> set ps \<Longrightarrow> \<exists>b. has_images h v = Some b"
  shows "\<exists>es. collect_dockers h ps ds = Some es \<and> (es = [] \<longleftrightarrow> ds = [] \<and> (\<forall>(k, v) \<in> set ps. has_images h v = Some False))"
  using assms
proof (induction ps arbitrary: ds)
  case (Cons p ps)
  obtain k v where p: "p = (k, v)" by fastforce
  with Cons.prems obtain b where b: "has_images h v = Some b" by auto
  have "\<exists>b. has_images h w = Some b" if "(l, w) \<in> set ps" for l w using Cons.prems that by auto
  with Cons.IH [of "if b then obj_put ''key'' v ds else ds"] b show ?case by (cases b) (auto simp: p obj_put_not_Nil)
qed auto

lemma no_keys_json: "(\<And>k v. (k, v) \<in> set ps \<Longrightarrow> \<not> is_omitted v) \<Longrightarrow> no_keys (Json (json h (JObj ps))) \<longleftrightarrow> ps = []"
  by (cases ps) (force simp: no_keys_def json_def)+

lemma view_of_operators:
  assumes "plain_registry s"
  shows "images_view s = Map.empty \<longleftrightarrow> operators s = []"
    and "(\<forall>k xs. images_view s k = Some xs \<longrightarrow> xs = []) \<longleftrightarrow> (\<forall>(k, v) \<in> set (operators s). has_images (heap s) v = Some False)"
proof -
  have entry: "\<exists>v. (k, v) \<in> set (operators s)" if "images_view s k = Some xs" for k xs
    using that by (auto simp: images_view_def split: option.splits dest: map_of_SomeD)
  show "images_view s = Map.empty \<longleftrightarrow> operators s = []"
  proof
    assume "images_view s = Map.empty"
    then show "operators s = []" using has_images_view [OF assms] by (cases "operators s") fastforce+
  qed (simp add: images_view_def fun_eq_iff)
  show "(\<forall>k xs. images_view s k = Some xs \<longrightarrow> xs = []) \<longleftrightarrow> (\<forall>(k, v) \<in> set (operators s). has_images (heap s) v = Some False)"
    using entry has_images_view [OF assms] by fastforce
qed

lemma asked_operators:
  assumes "plain_registry s"
  shows "no_keys (snd (get_operators s)) \<longleftrightarrow> images_view s = Map.empty"
proof -
  have "\<not> is_omitted v" if "(k, v) \<in> set (operators s)" for k v using has_images_view [OF assms that] by auto
  then show ?thesis by (simp add: get_operators_def no_keys_json view_of_operators(1) [OF assms])
qed

lemma asked_images:
  assumes "plain_registry s"
  shows "no_keys (snd (get_dockerimages s)) \<longleftrightarrow> (\<forall>k xs. images_view s k = Some xs \<longrightarrow> xs = [])"
proof -
  have "\<exists>b. has_images (heap s) v = Some b" if "(k, v) \<in> set (operators s)" for k v using has_images_view [OF assms that] by auto
  then obtain es where es: "collect_dockers (heap s) (operators s) [] = Some es"
      "es = [] \<longleftrightarrow> (\<forall>(k, v) \<in> set (operators s). has_images (heap s) v = Some False)"
    using collect_dockers_empty [of "operators s" "heap s" "[]"] by auto
  from collect_dockers_key [OF es(1)] have "\<not> is_omitted w" if "(k, w) \<in> set es" for k w
    using that has_images_view [OF assms] by fastforce
  then have "no_keys (Json (json (heap s) (JObj es))) \<longleftrightarrow> es = []" by (rule no_keys_json)
  with es view_of_operators(2) [OF assms] show ?thesis by (simp add: get_dockerimages_def)
qed

lemma page_serve_refines:
  assumes "plain_registry s"
  shows "\<exists>t. page_serve axios u j s = (t, snd (view_serve j (images_view s))) \<and> plain_registry t \<and> images_view t = fst (view_serve j (images_view s))"
proof (cases j)
  case AskOperators
  with assms asked_operators [OF assms] show ?thesis by (simp add: initOperatorList_def get_operators_def)
next
  case AskImages
  with assms asked_images [OF assms] show ?thesis by (simp add: initDockerImageList_def get_dockerimages_def)
next
  case SendOperators
  let ?t = "fst (registry_serve axios u (PostOperators defaultOperatorList) s)"
  have "images_inv ?t \<and> images_view ?t = images_spec (used_operators s) (PostOperators defaultOperatorList) (images_view s)"
    using images_serve_refines [of s _ axios u, OF _ default_operators_ok] assms by (auto simp: plain_registry_def)
  moreover have "canonical (operators ?t)"
    using assms canonical_add_operator [of s defaultOperatorList]
    by (simp add: plain_registry_def served_posts complete_def write_then_def resume_def db_write_def)
  ultimately show ?thesis using SendOperators by (simp add: plain_registry_def)
next
  case SendImages
  let ?t = "fst (registry_serve axios u (PostImages defaultDockerImageList) s)"
  have "images_inv ?t \<and> images_view ?t = images_spec (used_operators s) (PostImages defaultDockerImageList) (images_view s)"
    using images_serve_refines [of s _ axios u, OF _ default_images_ok] assms by (auto simp: plain_registry_def)
  moreover have "canonical (operators ?t)"
    using assms operators_add_images [of defaultDockerImageList s]
    by (simp add: plain_registry_def served_posts complete_def write_then_def resume_def db_write_def)
  ultimately show ?thesis using SendImages by (simp add: plain_registry_def)
qed

text \<open>The step on the map, and its correspondence with the step of the designer.\<close>

inductive view_step :: "page_job list \<times> (string \<rightharpoonup> jval list) \<Rightarrow> page_job list \<times> (string \<rightharpoonup> jval list) \<Rightarrow> bool" where
  "view_serve j m = (m', js) \<Longrightarrow> view_step (js1 @ j # js2, m) (js1 @ js @ js2, m')"

inductive_cases view_stepE: "view_step (js, m) q"

lemma page_step_view:
  "plain_registry s \<Longrightarrow> page_step axios u (js, s) (js', t) \<Longrightarrow> plain_registry t \<and> view_step (js, images_view s) (js', images_view t)"
  using page_serve_refines [of s axios u] by (fastforce elim!: page_stepE intro: view_step.intros simp: prod_eq_iff)

lemma view_step_page:
  "plain_registry s \<Longrightarrow> view_step (js, images_view s) (js', m) \<Longrightarrow> \<exists>t. page_step axios u (js, s) (js', t) \<and> plain_registry t \<and> images_view t = m"
  using page_serve_refines [of s axios u] by (fastforce elim!: view_stepE intro: page_step.intros simp: prod_eq_iff)

lemma page_steps_view:
  "(page_step axios u)\<^sup>*\<^sup>* (js, s) (js', t) \<Longrightarrow> plain_registry s \<Longrightarrow> plain_registry t \<and> view_step\<^sup>*\<^sup>* (js, images_view s) (js', images_view t)"
proof (induction rule: rtranclp_induct2)
  case (step js' t js'' w)
  then show ?case using page_step_view [of t axios u js' js'' w] by (meson rtranclp.rtrancl_into_rtrancl)
qed simp

lemma view_steps_page:
  "(view_step ^^ n) (js, m) (js', m') \<Longrightarrow> plain_registry s \<Longrightarrow> images_view s = m \<Longrightarrow>
     \<exists>t. (page_step axios u ^^ n) (js, s) (js', t) \<and> plain_registry t \<and> images_view t = m'"
proof (induction n arbitrary: js' m')
  case (Suc n)
  then obtain ks l where l: "(view_step ^^ n) (js, m) (ks, l)" "view_step (ks, l) (js', m')" by auto
  with Suc obtain t where "(page_step axios u ^^ n) (js, s) (ks, t)" "plain_registry t" "images_view t = l" by blast
  with l(2) view_step_page [of t ks js' m' axios u] show ?case by auto
qed auto

text \<open>Every request brings the page closer to its end, and the designer can always serve one.\<close>

fun job_weight :: "page_job \<Rightarrow> nat" where
  "job_weight AskOperators = 2"
| "job_weight AskImages = 2"
| "job_weight SendOperators = 1"
| "job_weight SendImages = 1"

lemma page_step_weight:
  assumes "page_step axios u (js, s) (js', t)"
  shows "sum_list (map job_weight js') < sum_list (map job_weight js)"
proof -
  obtain j ks js1 js2 where j: "js = js1 @ j # js2" "js' = js1 @ ks @ js2" "page_serve axios u j s = (t, ks)"
    using assms by (auto elim: page_stepE)
  then have "sum_list (map job_weight ks) < job_weight j"
    by (cases j) (auto simp: initOperatorList_def initDockerImageList_def split: prod.splits)
  with j show ?thesis by simp
qed

lemma page_steps_weight:
  "(page_step axios u ^^ n) (js, s) (js', t) \<Longrightarrow> n + sum_list (map job_weight js') \<le> sum_list (map job_weight js)"
proof (induction n arbitrary: js' t)
  case (Suc n)
  then obtain ks w where "(page_step axios u ^^ n) (js, s) (ks, w)" "page_step axios u (ks, w) (js', t)" by auto
  with Suc.IH page_step_weight show ?case by fastforce
qed simp

lemma page_progress: "js \<noteq> [] \<Longrightarrow> \<exists>q. page_step axios u (js, s) q"
  using page_step.intros [of axios u "hd js" s _ _ "[]" "tl js"] by (metis append_Nil list.collapse prod.collapse)

section \<open>What an opening of the page registers\<close>

definition image_for :: "string \<Rightarrow> jval \<Rightarrow> bool" where
  "image_for k v = (js_str (obj_get (jprops v) ''operatorName'') = k)"

definition bare_operators :: "string \<rightharpoonup> jval list" where
  "bare_operators k = (if k \<in> set default_operators then Some [] else None)"

definition registered_images :: "string \<rightharpoonup> jval list" where
  "registered_images k = (if k \<in> set default_operators then Some (filter (image_for k) defaultDockerImageList) else None)"

lemma fold_image_spec: "fold image_spec imgs m k = map_option (\<lambda>xs. xs @ filter (image_for k) imgs) (m k)"
  by (induction imgs arbitrary: m) (auto simp: image_spec_def image_to_def image_for_def option.map_comp o_def map_option_idI split: option.split)

lemma fold_default_operators:
  "fold operator_spec (map default_operator ns) m k = (if k \<in> set ns then Some [] else m k)"
  by (induction ns arbitrary: m) (auto simp: operator_spec_def default_operator_def images_of_def obj_get_def)

lemma view_sends:
  "fold operator_spec defaultOperatorList Map.empty = bare_operators"
  "fold image_spec defaultDockerImageList Map.empty = Map.empty"
  "fold image_spec defaultDockerImageList bare_operators = registered_images"
  by (simp_all add: fun_eq_iff fold_image_spec fold_default_operators defaultOperatorList_def bare_operators_def registered_images_def)

lemma bare_not_empty: "bare_operators \<noteq> Map.empty" "registered_images \<noteq> Map.empty"
  by (auto simp: fun_eq_iff bare_operators_def registered_images_def default_operators_def)

lemma bare_no_images: "bare_operators k = Some xs \<Longrightarrow> xs = []"
  by (auto simp: bare_operators_def split: if_splits)

lemma registered_some: "\<exists>k xs. registered_images k = Some xs \<and> xs \<noteq> []"
  by (rule exI [of _ "''nodejs''"])
    (simp add: registered_images_def default_operators_def defaultDockerImageList_def image_for_def default_image_def obj_get_def)

lemmas view_facts = view_sends bare_not_empty registered_some

definition first_opening :: "page_job list \<times> (string \<rightharpoonup> jval list) \<Rightarrow> bool" where
  "first_opening q = (case q of (js, m) \<Rightarrow>
     m = Map.empty \<and> js \<in> {open_page, [SendOperators, AskImages], [AskOperators, SendImages], [SendOperators, SendImages], [SendOperators], [AskOperators]} \<or>
     m = bare_operators \<and> js \<in> {[AskImages], [SendImages], []} \<or>
     m = registered_images \<and> js = [])"

definition later_opening :: "page_job list \<times> (string \<rightharpoonup> jval list) \<Rightarrow> bool" where
  "later_opening q = (case q of (js, m) \<Rightarrow>
     m = bare_operators \<and> js \<in> {open_page, [AskImages], [AskOperators, SendImages], [SendImages]} \<or>
     m = registered_images \<and> js \<in> {open_page, [AskImages], [AskOperators], []})"

lemma picked_one:
  "js1 @ j # js2 = [a] \<longleftrightarrow> js1 = [] \<and> j = a \<and> js2 = []"
  "js1 @ j # js2 = [a, b] \<longleftrightarrow> js1 = [] \<and> j = a \<and> js2 = [b] \<or> js1 = [a] \<and> j = b \<and> js2 = []"
  by (auto simp: append_eq_Cons_conv)

lemma serve_known:
  "view_serve AskOperators Map.empty = (Map.empty, [SendOperators])"
  "view_serve AskImages Map.empty = (Map.empty, [SendImages])"
  "view_serve SendOperators Map.empty = (bare_operators, [])"
  "view_serve SendImages Map.empty = (Map.empty, [])"
  "view_serve AskOperators bare_operators = (bare_operators, [])"
  "view_serve AskImages bare_operators = (bare_operators, [SendImages])"
  "view_serve SendImages bare_operators = (registered_images, [])"
  "view_serve AskOperators registered_images = (registered_images, [])"
  "view_serve AskImages registered_images = (registered_images, [])"
  using registered_some by (auto simp: view_sends bare_not_empty dest: bare_no_images)

lemma first_opening_step: "view_step p q \<Longrightarrow> first_opening p \<Longrightarrow> first_opening q"
  by (cases p; cases q) (auto elim!: view_stepE simp: first_opening_def open_page_def picked_one serve_known simp del: view_serve.simps)

lemma later_opening_step: "view_step p q \<Longrightarrow> later_opening p \<Longrightarrow> later_opening q"
  by (cases p; cases q) (auto elim!: view_stepE simp: later_opening_def open_page_def picked_one serve_known simp del: view_serve.simps)

lemma first_opening_steps: "view_step\<^sup>*\<^sup>* p q \<Longrightarrow> first_opening p \<Longrightarrow> first_opening q"
  by (induction rule: rtranclp_induct) (auto intro: first_opening_step)

lemma later_opening_steps: "view_step\<^sup>*\<^sup>* p q \<Longrightarrow> later_opening p \<Longrightarrow> later_opening q"
  by (induction rule: rtranclp_induct) (auto intro: later_opening_step)

text \<open>
  Claim C4. Opening the page of the operators on a designer without operators: in whatever order the requests of
  \<open>initOperatorList\<close> and \<open>initDockerImageList\<close> are served, all of them are after at most four steps, the page
  is never stuck before, and at the end all default operators are registered, each with its default images or, when the images were
  posted too early, each with none. Whatever happened then, the next opening of the page leaves every default operator with
  just its default images.
\<close>

theorem operator_page_registers:
  assumes "plain_registry s" and "operators s = []" and "(page_step axios u ^^ n) (open_page, s) (js, t)"
  shows "n \<le> 4 \<and> (js \<noteq> [] \<longrightarrow> (\<exists>q. page_step axios u (js, t) q)) \<and>
    (js = [] \<longrightarrow> images_view t \<in> {bare_operators, registered_images} \<and>
       (\<forall>w. (page_step axios u)\<^sup>*\<^sup>* (open_page, t) ([], w) \<longrightarrow> images_view w = registered_images))"
proof -
  have "images_view s = Map.empty" using assms(1,2) by (simp add: view_of_operators(1))
  moreover have t: "plain_registry t" "view_step\<^sup>*\<^sup>* (open_page, images_view s) (js, images_view t)"
    using page_steps_view [of axios u open_page s js t] assms(1,3) by (auto dest: relpowp_imp_rtranclp)
  ultimately have "first_opening (js, images_view t)" using first_opening_steps [OF t(2)] by (simp add: first_opening_def)
  then have end1: "js = [] \<Longrightarrow> images_view t \<in> {bare_operators, registered_images}" by (auto simp: first_opening_def open_page_def)
  have "images_view w = registered_images" if "js = []" "(page_step axios u)\<^sup>*\<^sup>* (open_page, t) ([], w)" for w
  proof -
    have "later_opening (open_page, images_view t)" using end1 that(1) by (auto simp: later_opening_def)
    with later_opening_steps page_steps_view [OF that(2) t(1)] have "later_opening ([], images_view w)" by blast
    then show ?thesis by (auto simp: later_opening_def open_page_def)
  qed
  with end1 page_progress [of js axios u t] page_steps_weight [OF assms(3)] show ?thesis by (simp add: open_page_def)
qed

text \<open>Runs of the page, given by the numbers of the requests that are served.\<close>

fun view_schedule :: "nat list \<Rightarrow> page_job list \<times> (string \<rightharpoonup> jval list) \<Rightarrow> page_job list \<times> (string \<rightharpoonup> jval list)" where
  "view_schedule [] q = q"
| "view_schedule (i # is) (js, m) =
     (case view_serve (js ! i) m of (m', ks) \<Rightarrow> view_schedule is (take i js @ ks @ drop (Suc i) js, m'))"

fun in_schedule :: "nat list \<Rightarrow> page_job list \<times> (string \<rightharpoonup> jval list) \<Rightarrow> bool" where
  "in_schedule [] q = True"
| "in_schedule (i # is) (js, m) =
     (i < length js \<and> (case view_serve (js ! i) m of (m', ks) \<Rightarrow> in_schedule is (take i js @ ks @ drop (Suc i) js, m')))"

lemma view_schedule_steps: "in_schedule is q \<Longrightarrow> (view_step ^^ length is) q (view_schedule is q)"
proof (induction "is" q rule: view_schedule.induct)
  case (2 i "is" js m)
  obtain m' ks where m: "view_serve (js ! i) m = (m', ks)" by fastforce
  with 2 have "(view_step ^^ length is) (take i js @ ks @ drop (Suc i) js, m') (view_schedule (i # is) (js, m))" by simp
  moreover have "view_step (js, m) (take i js @ ks @ drop (Suc i) js, m')"
    using view_step.intros [OF m, of "take i js" "drop (Suc i) js"] 2(2) by (simp add: id_take_nth_drop [symmetric])
  ultimately have "(view_step ^^ Suc (length is)) (js, m) (view_schedule (i # is) (js, m))" by (rule relpowp_Suc_I2 [rotated])
  then show ?case by simp
qed simp

lemma scheduled_page:
  assumes "plain_registry s" and "images_view s = m" and "in_schedule is (js, m)" and "view_schedule is (js, m) = (js', m')" and "length is = n"
  obtains t where "(page_step axios u ^^ n) (js, s) (js', t)" and "plain_registry t" and "images_view t = m'"
  using view_steps_page [of n js m js' m' s axios u] view_schedule_steps [OF assms(3)] assms by auto

definition fresh_designer :: designer where
  "fresh_designer = db_load db_default (\<lambda>n. Accepted) (\<lambda>n. n)"

lemma fresh_registry: "plain_registry fresh_designer" "operators fresh_designer = []" "images_view fresh_designer = Map.empty"
proof -
  show o: "operators fresh_designer = []" by (simp add: fresh_designer_def db_load_default)
  then show "images_view fresh_designer = Map.empty" by (simp add: images_view_def fun_eq_iff)
  with o show "plain_registry fresh_designer" by (simp add: plain_registry_def images_inv_def registry_inv_def objects_inv_def)
qed

text \<open>The images are posted before the operators.\<close>

lemma early_images:
  "in_schedule [1, 1, 0, 0] (open_page, Map.empty)" "view_schedule [1, 1, 0, 0] (open_page, Map.empty) = ([], bare_operators)"
  by (simp_all add: open_page_def serve_known del: view_serve.simps cong: prod.case_cong_weak)

theorem operator_page_registers_witness:
  "\<exists>t. (page_step (\<lambda>rq. Inl JNull) [] ^^ 4) (open_page, fresh_designer) ([], t) \<and> images_view t = bare_operators \<and>
    (\<forall>w. (page_step (\<lambda>rq. Inl JNull) [])\<^sup>*\<^sup>* (open_page, t) ([], w) \<longrightarrow> images_view w = registered_images)"
proof -
  obtain t where t: "(page_step (\<lambda>rq. Inl JNull) [] ^^ 4) (open_page, fresh_designer) ([], t)" "images_view t = bare_operators"
    by (rule scheduled_page [OF fresh_registry(1,3) early_images, of 4]) simp_all
  with operator_page_registers [OF fresh_registry(1,2) t(1)] show ?thesis by blast
qed

text \<open>
  Two pages that are opened at the same time can leave every default image twice, or none at all although the first page had
  registered them: the operators that the second page posts replace those of the first.
\<close>

lemma serve_again:
  "view_serve SendImages registered_images = (\<lambda>k. map_option (\<lambda>xs. xs @ xs) (registered_images k), [])"
  "view_serve SendOperators registered_images = (bare_operators, [])"
  by (simp_all add: fun_eq_iff fold_image_spec fold_default_operators defaultOperatorList_def registered_images_def bare_operators_def)

lemma images_twice:
  "in_schedule [0, 0, 1, 0, 1, 0, 0] (open_page @ open_page, Map.empty)"
  "view_schedule [0, 0, 1, 0, 1, 0, 0] (open_page @ open_page, Map.empty) = ([], \<lambda>k. map_option (\<lambda>xs. xs @ xs) (registered_images k))"
  by (simp_all add: open_page_def serve_known serve_again del: view_serve.simps cong: prod.case_cong_weak)

lemma operators_late:
  "in_schedule [0, 2, 0, 0, 0, 1] (open_page @ open_page, Map.empty)"
  "view_schedule [0, 2, 0, 0, 0, 1] (open_page @ open_page, Map.empty) = ([SendOperators], registered_images)"
  "in_schedule [0] ([SendOperators], registered_images)" "view_schedule [0] ([SendOperators], registered_images) = ([], bare_operators)"
  by (simp_all add: open_page_def serve_known serve_again del: view_serve.simps cong: prod.case_cong_weak)

theorem two_pages_race:
  "(\<exists>t. (page_step axios u ^^ 7) (open_page @ open_page, fresh_designer) ([], t) \<and>
      images_view t = (\<lambda>k. map_option (\<lambda>xs. xs @ xs) (registered_images k))) \<and>
   (\<exists>s t. (page_step axios u ^^ 6) (open_page @ open_page, fresh_designer) ([SendOperators], s) \<and> images_view s = registered_images \<and>
      page_step axios u ([SendOperators], s) ([], t) \<and> images_view t = bare_operators)"
proof
  obtain t where "(page_step axios u ^^ 7) (open_page @ open_page, fresh_designer) ([], t)"
      "images_view t = (\<lambda>k. map_option (\<lambda>xs. xs @ xs) (registered_images k))"
    by (rule scheduled_page [OF fresh_registry(1,3) images_twice, of 7]) simp_all
  then show "\<exists>t. (page_step axios u ^^ 7) (open_page @ open_page, fresh_designer) ([], t) \<and>
      images_view t = (\<lambda>k. map_option (\<lambda>xs. xs @ xs) (registered_images k))" by blast
  obtain s where s: "(page_step axios u ^^ 6) (open_page @ open_page, fresh_designer) ([SendOperators], s)" "plain_registry s"
      "images_view s = registered_images"
    by (rule scheduled_page [OF fresh_registry(1,3) operators_late(1,2), of 6]) simp_all
  obtain t where "(page_step axios u ^^ 1) ([SendOperators], s) ([], t)" "images_view t = bare_operators"
    by (rule scheduled_page [OF s(2,3) operators_late(3,4), of 1]) simp_all
  with s show "\<exists>s t. (page_step axios u ^^ 6) (open_page @ open_page, fresh_designer) ([SendOperators], s) \<and> images_view s = registered_images \<and>
      page_step axios u ([SendOperators], s) ([], t) \<and> images_view t = bare_operators" by auto
qed

text \<open>The images of the list whose operator is not in the other list are never registered.\<close>

theorem unregistered_defaults:
  "map (\<lambda>v. obj_get (jprops v) ''name'') (filter (\<lambda>v. \<forall>k \<in> set default_operators. \<not> image_for k v) defaultDockerImageList) =
     [JStr ''geohash'', JStr ''converter'', JStr ''predictor'', JStr ''controller'', JStr ''detector'']"
  by (simp add: default_operators_def defaultDockerImageList_def image_for_def default_image_def obj_get_def)

section \<open>The tables and buttons of the page\<close>

text \<open>
  A row of the table of operators: name, description, number of images and number of parameters; \<open>None\<close> stands for an exception. \<open>k in v\<close> throws for a
  primitive value. Both tables are cleared before the request is sent and stay empty when the answer cannot be shown.
\<close>

definition operator_row :: "jval \<Rightarrow> jval list option" where
  "operator_row operator =
     do { n \<leftarrow> jget operator ''name'';
          d \<leftarrow> jget operator ''description'';
          own \<leftarrow> shasOwn [] operator ''dockerimages'';
          i \<leftarrow> (if own then do { imgs \<leftarrow> jget operator ''dockerimages''; jget imgs ''length'' } else Some (JNum 0));
          has \<leftarrow> (case operator of JObj ps \<Rightarrow> Some (obj_in ps ''parameters'') | JArr xs \<Rightarrow> Some False | _ \<Rightarrow> None);
          p \<leftarrow> (if has then do { ps \<leftarrow> jget operator ''parameters''; jget ps ''length'' } else Some (JNum 0));
          Some [n, d, i, p] }"

definition displayOperatorList :: "jval list \<Rightarrow> jval list list option" where
  "displayOperatorList ops = those (map operator_row ops)"

datatype shown = OperatorTable "jval list list" | ImageTable "jval list list" | AlertedDependency | Unchanged

definition showOperator :: "designer \<Rightarrow> shown" where
  "showOperator s =
     OperatorTable
       (case snd (get_operators s) of
          Json v \<Rightarrow> (case displayOperatorList (map snd (jprops v)) of Some rows \<Rightarrow> rows | None \<Rightarrow> [])
        | _ \<Rightarrow> [])"

definition deleteOperator :: "axios \<Rightarrow> string \<Rightarrow> string \<Rightarrow> designer \<Rightarrow> designer \<times> shown" where
  "deleteOperator axios u operatorName s =
     (case complete axios u (delete_operator operatorName s) of
        (t, Status n) \<Rightarrow> (t, if n = 200 then showOperator t else AlertedDependency)
      | (t, _) \<Rightarrow> (t, Unchanged))"

text \<open>The columns of the table of images: operator, image, tag, hardware, operating system and whether it is fetched in advance.\<close>

definition image_row :: "jval \<Rightarrow> jval list option" where
  "image_row dockerImage =
     those (map (jget dockerImage) [''operatorName'', ''name'', ''tag'', ''hwType'', ''osType'', ''prefetched''])"

definition displayDockerImageList :: "jval list \<Rightarrow> jval list list option" where
  "displayDockerImageList images = those (map image_row images)"

definition listDockerImage :: "string \<Rightarrow> designer \<Rightarrow> shown" where
  "listDockerImage myOperator s =
     ImageTable
       (case snd (get_dockerimage myOperator s) of
          Json v \<Rightarrow> (case displayDockerImageList (map snd (jprops v)) of Some rows \<Rightarrow> rows | None \<Rightarrow> [])
        | _ \<Rightarrow> [])"

text \<open>The button of an image: the request names its operator and its name, not its tag.\<close>

definition deleteDockerImage :: "axios \<Rightarrow> string \<Rightarrow> jval \<Rightarrow> designer \<Rightarrow> designer \<times> shown" where
  "deleteDockerImage axios u dockerImage s =
     (case (jget dockerImage ''operatorName'', jget dockerImage ''name'') of
        (Some op, Some n) \<Rightarrow>
          (case complete axios u (delete_dockerimage (js_str op) (JStr (js_str n)) s) of
             (t, Status st) \<Rightarrow> (t, if st = 200 then listDockerImage (js_str op) t else Unchanged)
           | (t, _) \<Rightarrow> (t, Unchanged))
      | _ \<Rightarrow> (s, Unchanged))"

lemma drop_image_index:
  assumes "i < length xs" and "image_named n (xs ! i)"
  shows "\<exists>j \<le> i. image_named n (xs ! j) \<and> (\<forall>l < j. \<not> image_named n (xs ! l)) \<and> drop_image n xs = take j xs @ drop (Suc j) xs"
  using assms
proof (induction xs arbitrary: i)
  case (Cons v vs)
  show ?case
  proof (cases "image_named n v")
    case True
    then show ?thesis by (intro exI [of _ 0]) simp
  next
    case False
    with Cons.prems obtain k where k: "i = Suc k" "k < length vs" "image_named n (vs ! k)" by (cases i) auto
    with Cons.IH obtain j where "j \<le> k" "image_named n (vs ! j)" "\<forall>l < j. \<not> image_named n (vs ! l)"
      "drop_image n vs = take j vs @ drop (Suc j) vs" by blast
    with k False show ?thesis by (intro exI [of _ "Suc j"]) (auto simp: less_Suc_eq_0_disj)
  qed
qed simp

text \<open>
  The button of an image deletes the first image of its operator that has its name, and no other: the image of the pressed button itself
  unless an image above it has the same name, with another tag say.
\<close>

theorem image_button_deletes:
  assumes "images_inv s" and "k \<notin> set object_proto" and "images_view s k = Some xs" and "i < length xs"
    and "xs ! i = JObj ps" and "obj_get ps ''operatorName'' = JStr k" and "obj_get ps ''name'' = JStr n"
  shows "\<exists>j \<le> i. image_named n (xs ! j) \<and> (\<forall>l < j. \<not> image_named n (xs ! l)) \<and>
    images_view (fst (deleteDockerImage axios u (xs ! i) s)) = (images_view s)(k \<mapsto> take j xs @ drop (Suc j) xs)"
proof -
  have named: "image_named n v" if "obj_get (jprops v) ''name'' = JStr n" for v using that by (simp add: image_named_def js_eq_def is_prim_def)
  obtain j where j: "j \<le> i" "image_named n (xs ! j)" "\<forall>l < j. \<not> image_named n (xs ! l)" "drop_image n xs = take j xs @ drop (Suc j) xs"
    using drop_image_index [of i xs n] assms(4,5,7) named [of "xs ! i"] by auto
  have "fst (deleteDockerImage axios u (xs ! i) s) = fst (registry_serve axios u (DeleteImage k n) s)"
    using assms(5-7) by (simp add: deleteDockerImage_def split: prod.split outcome.split)
  moreover have "images_view (fst (registry_serve axios u (DeleteImage k n) s)) = (images_view s)(k \<mapsto> drop_image n xs)"
    using images_serve_refines [of s "DeleteImage k n" axios u] assms(1-3) by auto
  ultimately show ?thesis using j named by (intro exI [of _ j]) auto
qed

end
