(* ===== verification/Function_Page.thy ===== *)
theory Function_Page
  imports Designer_Intents
begin

text \<open>
  The list of fog functions in \<open>designer/public/js/function.js\<close> with the routes of the designer behind its buttons: what the table shows,
  what the designer stores, and what the master knows of the intents of the functions.
\<close>

section \<open>The table and its buttons\<close>

text \<open>A row: the name, whether the button says \<open>disable\<close>, the name of the topology and the intent; \<open>None\<close> stands for an exception.\<close>

type_synonym function_row = "jval \<times> bool \<times> jval \<times> jval"

definition function_row :: "jval \<Rightarrow> function_row option" where
  "function_row fogfunction =
     do { n \<leftarrow> jget fogfunction ''name'';
          st \<leftarrow> jget fogfunction ''status'';
          topology \<leftarrow> jget fogfunction ''topology'';
          t \<leftarrow> jget topology ''name'';
          i \<leftarrow> jget fogfunction ''intent'';
          Some (n, js_eq st (JStr ''enabled''), t, i) }"

definition displayFunctionList :: "jval list \<Rightarrow> function_row list option" where
  "displayFunctionList fogFunctions = those (map function_row fogFunctions)"

text \<open>\<open>showFogFunctions\<close> clears the table and asks for the list; it stays empty when the answer cannot be shown.\<close>

definition showFogFunctions :: "designer \<Rightarrow> function_row list" where
  "showFogFunctions s =
     (case snd (get_fogfunctions s) of
        Json v \<Rightarrow> (case displayFunctionList (map snd (jprops v)) of Some rows \<Rightarrow> rows | None \<Rightarrow> [])
      | _ \<Rightarrow> [])"

text \<open>The button of the row with the given name, as far as there is one; a handler that throws never answers.\<close>

definition row_button :: "function_row list \<Rightarrow> string \<Rightarrow> bool option" where
  "row_button rows name = map_of (map (\<lambda>(n, enabled, t, i). (js_str n, enabled)) rows) name"

definition answered_list :: "function_row list \<Rightarrow> designer \<times> outcome \<Rightarrow> designer \<times> function_row list" where
  "answered_list rows r = (case r of (t, Json v) \<Rightarrow> (t, showFogFunctions t) | (t, Status n) \<Rightarrow> (t, showFogFunctions t) | (t, _) \<Rightarrow> (t, rows))"

definition enableFogFunction :: "axios \<Rightarrow> string \<Rightarrow> string \<Rightarrow> designer \<times> function_row list \<Rightarrow> designer \<times> function_row list" where
  "enableFogFunction axios u name q = answered_list (snd q) (complete axios u (enable_fogfunction name (fst q)))"

definition disableFogFunction :: "axios \<Rightarrow> string \<Rightarrow> string \<Rightarrow> designer \<times> function_row list \<Rightarrow> designer \<times> function_row list" where
  "disableFogFunction axios u name q = answered_list (snd q) (complete axios u (disable_fogfunction name (fst q)))"

definition deleteFogFunction :: "axios \<Rightarrow> string \<Rightarrow> string \<Rightarrow> designer \<times> function_row list \<Rightarrow> designer \<times> function_row list" where
  "deleteFogFunction axios u name q = answered_list (snd q) (complete axios u (delete_fogfunction name (fst q)))"

datatype function_button = PressStatus string | PressDelete string

fun function_press :: "axios \<Rightarrow> string \<Rightarrow> function_button \<Rightarrow> designer \<times> function_row list \<Rightarrow> designer \<times> function_row list" where
  "function_press axios u (PressStatus name) q =
     (case row_button (snd q) name of
        None \<Rightarrow> q
      | Some enabled \<Rightarrow> if enabled then disableFogFunction axios u name q else enableFogFunction axios u name q)"
| "function_press axios u (PressDelete name) q =
     (case row_button (snd q) name of None \<Rightarrow> q | Some enabled \<Rightarrow> deleteFogFunction axios u name q)"

section \<open>The stored functions\<close>

text \<open>An own property that is a string, or a reference.\<close>

definition own_string :: "props \<Rightarrow> string \<Rightarrow> string option" where
  "own_string ps k = (case map_of ps k of Some (JStr x) \<Rightarrow> Some x | _ \<Rightarrow> None)"

definition own_ref :: "props \<Rightarrow> string \<Rightarrow> nat option" where
  "own_ref ps k = (case map_of ps k of Some (JRef a) \<Rightarrow> Some a | _ \<Rightarrow> None)"

lemma own_iff:
  "own_string ps k = Some x \<longleftrightarrow> map_of ps k = Some (JStr x)"
  "own_ref ps k = Some a \<longleftrightarrow> map_of ps k = Some (JRef a)"
  by (auto simp: own_string_def own_ref_def split: option.splits jval.splits)

text \<open>The name, the cell, the cell of the intent, the status and the identifier of the intent of a stored function.\<close>

definition function_facts :: "store \<Rightarrow> jval \<Rightarrow> (string \<times> nat \<times> nat \<times> string \<times> string) option" where
  "function_facts h v =
     (case v of
        JRef f \<Rightarrow>
          do { k \<leftarrow> own_string (cell h f) ''name'';
               st \<leftarrow> own_string (cell h f) ''status'';
               i \<leftarrow> own_ref (cell h f) ''intent'';
               t \<leftarrow> own_ref (cell h f) ''topology'';
               d \<leftarrow> own_string (cell h i) ''id'';
               (if f < length h \<and> i < length h \<and> tree (JObj (cell h i)) then Some (k, f, i, st, d) else None) }
      | _ \<Rightarrow> None)"

lemma function_facts_iff:
  "function_facts h v = Some (k, f, i, st, d) \<longleftrightarrow>
     v = JRef f \<and> f < length h \<and> i < length h \<and> map_of (h ! f) ''name'' = Some (JStr k) \<and> map_of (h ! f) ''status'' = Some (JStr st) \<and>
     map_of (h ! f) ''intent'' = Some (JRef i) \<and> (\<exists>t. map_of (h ! f) ''topology'' = Some (JRef t)) \<and>
     map_of (h ! i) ''id'' = Some (JStr d) \<and> tree (JObj (h ! i))"
  by (cases v) (auto simp: function_facts_def cell_def own_iff Option.bind_eq_Some_conv simp del: tree.simps(2) split: if_splits)

lemma facts_status:
  assumes "function_facts h v = Some (k, f, i, st, d)" and "g \<noteq> i" and "g < length h"
  shows "function_facts (h[g := obj_put ''status'' (JStr st') (h ! g)]) v = Some (k, f, i, if g = f then st' else st, d)"
  using assms unfolding function_facts_iff by (auto simp: nth_list_update map_of_obj_put)

lemma facts_action:
  assumes "function_facts h v = Some (k, f, i, st, d)" and "j \<noteq> f" and "j < length h"
  shows "function_facts (h[j := obj_put ''action'' (JStr a) (h ! j)]) v = Some (k, f, i, st, d)"
  using assms tree_obj_put [of "h ! j" "JStr a" "''action''"] unfolding function_facts_iff
  by (auto simp: nth_list_update map_of_obj_put simp del: tree.simps(2))

text \<open>
  The channel is ready and accepts what is published, every function is stored under its name, and no two functions share a
  cell or the identifier of an intent.
\<close>

definition apart :: "store \<Rightarrow> (string \<rightharpoonup> jval) \<Rightarrow> bool" where
  "apart h m =
     (\<forall>k v f i st d l w g j st' e. m k = Some v \<and> m l = Some w \<and>
        function_facts h v = Some (k, f, i, st, d) \<and> function_facts h w = Some (l, g, j, st', e) \<longrightarrow>
        f \<noteq> j \<and> (k \<noteq> l \<longrightarrow> f \<noteq> g \<and> i \<noteq> j \<and> d \<noteq> e))"

definition functions_inv :: "designer \<Rightarrow> bool" where
  "functions_inv s =
     (can_publish (rabbit s) \<and> (\<forall>n. amqp_answers s n = Accepted) \<and> canonical (fogfunctions s) \<and>
      (\<forall>k v. map_of (fogfunctions s) k = Some v \<longrightarrow> k \<notin> set object_proto \<and> (\<exists>f i st d. function_facts (heap s) v = Some (k, f, i, st, d))) \<and>
      apart (heap s) (map_of (fogfunctions s)))"

text \<open>Whether a function is enabled, and the identifier of its intent.\<close>

definition function_view :: "designer \<Rightarrow> string \<rightharpoonup> bool \<times> string" where
  "function_view s k =
     (case map_of (fogfunctions s) k of
        None \<Rightarrow> None
      | Some v \<Rightarrow> map_option (\<lambda>(n, f, i, st, d). (st = ''enabled'', d)) (function_facts (heap s) v))"

section \<open>The table shows the stored functions\<close>

lemma own_json:
  "map_of ps k = Some v \<Longrightarrow> \<not> is_omitted v \<Longrightarrow>
     map_of (map (\<lambda>p. (fst p, json_at n h (snd p))) (filter (\<lambda>p. \<not> is_omitted (snd p)) ps)) k = Some (json_at n h v)"
  by (induction ps) (auto split: if_splits)

lemma function_row_json:
  assumes "function_facts h v = Some (k, f, i, st, d)"
  shows "\<exists>t x. function_row (json_at (Suc (Suc n)) h v) = Some (JStr k, st = ''enabled'', t, x)"
proof -
  obtain t where t: "v = JRef f" "f < length h" "map_of (h ! f) ''name'' = Some (JStr k)" "map_of (h ! f) ''status'' = Some (JStr st)"
      "map_of (h ! f) ''topology'' = Some (JRef t)" "map_of (h ! f) ''intent'' = Some (JRef i)"
    using assms by (auto simp: function_facts_iff)
  let ?js = "map (\<lambda>p. (fst p, json_at (Suc n) h (snd p))) (filter (\<lambda>p. \<not> is_omitted (snd p)) (h ! f))"
  have "json_at (Suc (Suc n)) h v = JObj ?js" using t(1,2) by (simp add: cell_def)
  moreover note own = t(3-6) [THEN own_json, of "Suc n" h]
  ultimately show ?thesis by (simp add: function_row_def own [THEN obj_get_own] js_eq_def is_prim_def)
qed

lemma function_rows:
  assumes "\<And>k v. (k, v) \<in> set ps \<Longrightarrow> \<exists>f i st d. function_facts h v = Some (k, f, i, st, d)"
  shows "\<exists>rows. displayFunctionList (map (\<lambda>p. json_at (Suc (Suc n)) h (snd p)) ps) = Some rows \<and>
    (\<forall>k. row_button rows k = Option.bind (map_of ps k) (\<lambda>v. map_option (\<lambda>(n, f, i, st, d). st = ''enabled'') (function_facts h v)))"
  using assms
proof (induction ps)
  case Nil
  then show ?case by (simp add: displayFunctionList_def row_button_def)
next
  case (Cons p ps)
  obtain k v where p: "p = (k, v)" by fastforce
  with Cons.prems obtain f i st d where f: "function_facts h v = Some (k, f, i, st, d)" by fastforce
  from function_row_json [OF f, of n] obtain t x where "function_row (json_at (Suc (Suc n)) h v) = Some (JStr k, st = ''enabled'', t, x)" by blast
  moreover obtain rows where "displayFunctionList (map (\<lambda>p. json_at (Suc (Suc n)) h (snd p)) ps) = Some rows"
      "\<forall>k. row_button rows k = Option.bind (map_of ps k) (\<lambda>v. map_option (\<lambda>(n, f, i, st, d). st = ''enabled'') (function_facts h v))"
    using Cons by auto
  ultimately show ?case using f p by (auto simp: displayFunctionList_def row_button_def simp del: json_at.simps)
qed

lemma stored_function:
  assumes "functions_inv s" and "map_of (fogfunctions s) k = Some v"
  obtains f i st d where "function_facts (heap s) v = Some (k, f, i, st, d)" and "k \<notin> set object_proto"
    and "function_view s k = Some (st = ''enabled'', d)"
proof -
  from assms obtain f i st d where "function_facts (heap s) v = Some (k, f, i, st, d)" "k \<notin> set object_proto"
    unfolding functions_inv_def by blast
  with that assms(2) show thesis by (simp add: function_view_def)
qed

lemma table_shows_view:
  assumes "functions_inv s"
  shows "row_button (showFogFunctions s) k = map_option fst (function_view s k)"
proof -
  have facts: "\<exists>f i st d. function_facts (heap s) v = Some (l, f, i, st, d)" if "(l, v) \<in> set (fogfunctions s)" for l v
    using assms that by (auto simp: functions_inv_def canonical_def)
  then have refs: "\<not> is_omitted (snd p)" if "p \<in> set (fogfunctions s)" for p
    using that by (cases p) (fastforce simp: function_facts_iff)
  have "json (heap s) (JObj (fogfunctions s)) = JObj (map (\<lambda>p. (fst p, json_at (Suc (Suc (length (heap s)))) (heap s) (snd p))) (fogfunctions s))"
    using refs by (simp add: json_def filter_id_conv [THEN iffD2] del: json_at.simps(4))
  moreover obtain rows where "displayFunctionList (map (\<lambda>p. json_at (Suc (Suc (length (heap s)))) (heap s) (snd p)) (fogfunctions s)) = Some rows"
      "row_button rows k = Option.bind (map_of (fogfunctions s) k) (\<lambda>v. map_option (\<lambda>(n, f, i, st, d). st = ''enabled'') (function_facts (heap s) v))"
    using function_rows [OF facts, of "fogfunctions s" "length (heap s)"] by blast
  ultimately show ?thesis
    by (simp add: showFogFunctions_def get_fogfunctions_def comp_def function_view_def option.map_comp split: option.split del: json_at.simps)
      (auto intro!: option.map_cong)
qed

section \<open>What the buttons do\<close>

lemma apart_same:
  assumes "apart h m"
    and "\<And>k v. m' k = Some v \<Longrightarrow> m k = Some v \<and> (\<exists>f i st st' d. function_facts h v = Some (k, f, i, st, d) \<and> function_facts h' v = Some (k, f, i, st', d))"
  shows "apart h' m'"
  unfolding apart_def
proof (intro allI impI, elim conjE)
  fix k v f i st d l w g j st' e
  assume a: "m' k = Some v" "m' l = Some w" "function_facts h' v = Some (k, f, i, st, d)" "function_facts h' w = Some (l, g, j, st', e)"
  from assms(2) [OF a(1)] a(3) obtain s1 where "m k = Some v" "function_facts h v = Some (k, f, i, s1, d)" by auto
  moreover from assms(2) [OF a(2)] a(4) obtain s2 where "m l = Some w" "function_facts h w = Some (l, g, j, s2, e)" by auto
  ultimately show "f \<noteq> j \<and> (k \<noteq> l \<longrightarrow> f \<noteq> g \<and> i \<noteq> j \<and> d \<noteq> e)" using assms(1) unfolding apart_def by blast
qed

lemma view_ids:
  assumes "functions_inv s" and "function_view s k = Some (b, d)" and "function_view s l = Some (c, d)"
  shows "k = l"
proof (rule ccontr)
  assume "k \<noteq> l"
  obtain v w where v: "map_of (fogfunctions s) k = Some v" "map_of (fogfunctions s) l = Some w"
    using assms(2,3) by (auto simp: function_view_def split: option.splits)
  from stored_function [OF assms(1) v(1)] assms(2) obtain f i st where f: "function_facts (heap s) v = Some (k, f, i, st, d)" by (metis option.inject prod.inject)
  from stored_function [OF assms(1) v(2)] assms(3) obtain g j st' where "function_facts (heap s) w = Some (l, g, j, st', d)" by (metis option.inject prod.inject)
  with v f \<open>k \<noteq> l\<close> assms(1) show False unfolding functions_inv_def apart_def by blast
qed

text \<open>The intents that the master knows: those of the enabled functions, and the intents \<open>A\<close> that belong to no function.\<close>

definition running :: "designer \<Rightarrow> string set" where
  "running s = {d. \<exists>k. function_view s k = Some (True, d)}"

definition master_agrees :: "string set \<Rightarrow> designer \<Rightarrow> bool" where
  "master_agrees A s =
     (dom (master_view (wire (rabbit s))) = A \<union> running s \<and> (\<forall>k b d. function_view s k = Some (b, d) \<longrightarrow> d \<notin> A))"

fun press_spec :: "function_button \<Rightarrow> (string \<rightharpoonup> bool \<times> string) \<Rightarrow> (string \<rightharpoonup> bool \<times> string)" where
  "press_spec (PressStatus k) m = m(k := map_option (\<lambda>(b, d). (\<not> b, d)) (m k))"
| "press_spec (PressDelete k) m = m(k := None)"

text \<open>The store after a switch, and after a deletion (which changes no status).\<close>

lemma facts_after:
  assumes "functions_inv s" and "map_of (fogfunctions s) k = Some v" and "function_facts (heap s) v = Some (k, f, i, st, d)"
    and "map_of (fogfunctions s) l = Some w" and "function_facts (heap s) w = Some (l, g, j, st', e)"
  shows "function_facts ((heap s)[f := obj_put ''status'' (JStr st1) (heap s ! f), i := obj_put ''action'' (JStr a) (heap s ! i)]) w =
      Some (l, g, j, if l = k then st1 else st', e)"
    and "function_facts ((heap s)[i := obj_put ''action'' (JStr a) (heap s ! i)]) w = Some (l, g, j, st', e)"
proof -
  have apart: "f \<noteq> j" "g \<noteq> i" "f \<noteq> i" "k \<noteq> l \<longrightarrow> f \<noteq> g" using assms unfolding functions_inv_def apart_def by blast+
  have len: "f < length (heap s)" "i < length (heap s)" using assms(3) by (simp_all add: function_facts_iff)
  have "f = g" if "k = l" using that assms by simp
  with apart have same: "f = g \<longleftrightarrow> l = k" by blast
  let ?h = "(heap s)[f := obj_put ''status'' (JStr st1) (heap s ! f)]"
  have "function_facts ?h w = Some (l, g, j, if l = k then st1 else st', e)" using facts_status [OF assms(5) apart(1) len(1)] same by simp
  from facts_action [OF this, of i a] show "function_facts ((heap s)[f := obj_put ''status'' (JStr st1) (heap s ! f), i := obj_put ''action'' (JStr a) (heap s ! i)]) w =
      Some (l, g, j, if l = k then st1 else st', e)" using apart len by simp
  show "function_facts ((heap s)[i := obj_put ''action'' (JStr a) (heap s ! i)]) w = Some (l, g, j, st', e)"
    using facts_action [OF assms(5), of i a] apart len by simp
qed

lemma functions_inv_after:
  assumes "functions_inv s" and "can_publish (rabbit t)" and "\<forall>n. amqp_answers t n = Accepted" and "canonical (fogfunctions t)"
    and "\<And>l w. map_of (fogfunctions t) l = Some w \<Longrightarrow> map_of (fogfunctions s) l = Some w"
    and "\<And>l w g j st e. map_of (fogfunctions t) l = Some w \<Longrightarrow> function_facts (heap s) w = Some (l, g, j, st, e) \<Longrightarrow>
      \<exists>st'. function_facts (heap t) w = Some (l, g, j, st', e)"
  shows "functions_inv t"
proof -
  have old: "map_of (fogfunctions s) l = Some w \<and> (\<exists>f i st st' d. function_facts (heap s) w = Some (l, f, i, st, d) \<and> function_facts (heap t) w = Some (l, f, i, st', d))"
    if "map_of (fogfunctions t) l = Some w" for l w
    using assms(1) assms(5,6) [OF that] unfolding functions_inv_def by metis
  have "apart (heap t) (map_of (fogfunctions t))"
    using apart_same [of "heap s" "map_of (fogfunctions s)" "map_of (fogfunctions t)" "heap t"] old assms(1) by (simp add: functions_inv_def)
  moreover have "l \<notin> set object_proto \<and> (\<exists>f i st d. function_facts (heap t) w = Some (l, f, i, st, d))"
    if "map_of (fogfunctions t) l = Some w" for l w
    using old [OF that] assms(1) unfolding functions_inv_def by metis
  ultimately show ?thesis using assms(2-4) unfolding functions_inv_def by blast
qed

lemma switch_served:
  assumes "functions_inv s" and "map_of (fogfunctions s) k = Some v" and "function_facts (heap s) v = Some (k, f, i, st, d)"
  shows "\<exists>t x. complete axios u (switch_fogfunction st1 a k s) = (t, Json x) \<and> functions_inv t \<and>
    function_view t = (function_view s)(k \<mapsto> (st1 = ''enabled'', d)) \<and>
    wire (rabbit t) = wire (rabbit s) @ [metadata_msg ''ServiceIntent'' (JObj (obj_put ''action'' (JStr a) (heap s ! i)))]"
proof -
  let ?h = "(heap s)[f := obj_put ''status'' (JStr st1) (heap s ! f), i := obj_put ''action'' (JStr a) (heap s ! i)]"
  let ?t = "db_write (publishMetadata ''ServiceIntent'' (JRef i) (s\<lparr>heap := ?h\<rparr>))"
  have f: "v = JRef f" "f < length (heap s)" "i < length (heap s)" "map_of (heap s ! f) ''intent'' = Some (JRef i)" "tree (JObj (heap s ! i))"
    using assms(3) by (auto simp: function_facts_iff)
  have fi: "f \<noteq> i" using assms unfolding functions_inv_def apart_def by blast
  have served: "complete axios u (switch_fogfunction st1 a k s) = (?t, Json (json ?h v))"
    using assms(2) f fi
    by (simp add: switch_fogfunction_def write_then_def publish_intent_def complete_def resume_def obj_get_own cell_def js_access Let_def db_write_def)
  have inv: "functions_inv ?t"
    by (rule functions_inv_after [OF assms(1)])
      (use assms(1) facts_after(1) [OF assms] in \<open>auto simp: functions_inv_def publish_ready\<close>)
  have "function_view ?t l = ((function_view s)(k \<mapsto> (st1 = ''enabled'', d))) l" for l
  proof (cases "map_of (fogfunctions s) l")
    case (Some w)
    then obtain g j st' e where "function_facts (heap s) w = Some (l, g, j, st', e)" using assms(1) unfolding functions_inv_def by blast
    with facts_after(1) [OF assms Some this] Some assms show ?thesis by (auto simp: function_view_def)
  qed (use assms(2) in \<open>auto simp: function_view_def\<close>)
  moreover have "wire (rabbit ?t) = wire (rabbit s) @ [metadata_msg ''ServiceIntent'' (JObj (obj_put ''action'' (JStr a) (heap s ! i)))]"
    using assms(1) f tree_obj_put [OF f(5), of "JStr a" "''action''"]
    by (simp add: functions_inv_def publish_ready json_metadata cell_def del: tree.simps(2))
  ultimately show ?thesis using served inv by blast
qed

lemma delete_served:
  assumes "functions_inv s" and "map_of (fogfunctions s) k = Some v" and "function_facts (heap s) v = Some (k, f, i, st, d)"
  shows "\<exists>t. complete axios u (delete_fogfunction k s) = (t, Status 200) \<and> functions_inv t \<and>
    function_view t = (function_view s)(k := None) \<and>
    wire (rabbit t) = wire (rabbit s) @ [metadata_msg ''ServiceIntent'' (JObj (obj_put ''action'' (JStr ''DELETE'') (heap s ! i)))]"
proof -
  let ?h = "(heap s)[i := obj_put ''action'' (JStr ''DELETE'') (heap s ! i)]"
  let ?p = "publishMetadata ''ServiceIntent'' (JRef i) (s\<lparr>heap := ?h\<rparr>)"
  let ?t = "db_write (?p\<lparr>topologies := obj_del k (topologies s), fogfunctions := obj_del k (fogfunctions s)\<rparr>)"
  have f: "v = JRef f" "f < length (heap s)" "i < length (heap s)" "map_of (heap s ! f) ''intent'' = Some (JRef i)" "tree (JObj (heap s ! i))"
    using assms(3) by (auto simp: function_facts_iff)
  have served: "complete axios u (delete_fogfunction k s) = (?t, Status 200)"
    using assms(2) f by (simp add: delete_fogfunction_def publish_intent_def complete_def resume_def obj_get_own cell_def Let_def)
  have inv: "functions_inv ?t"
    by (rule functions_inv_after [OF assms(1)])
      (use assms(1) facts_after(2) [OF assms] in \<open>auto simp: functions_inv_def publish_ready map_of_obj_del canonical_obj_del split: if_splits\<close>)
  have "function_view ?t l = ((function_view s)(k := None)) l" for l
  proof (cases "map_of (fogfunctions s) l")
    case (Some w)
    then obtain g j st' e where "function_facts (heap s) w = Some (l, g, j, st', e)" using assms(1) unfolding functions_inv_def by blast
    with facts_after(2) [OF assms Some this] Some show ?thesis by (auto simp: function_view_def map_of_obj_del)
  qed (auto simp: function_view_def map_of_obj_del)
  moreover have "wire (rabbit ?t) = wire (rabbit s) @ [metadata_msg ''ServiceIntent'' (JObj (obj_put ''action'' (JStr ''DELETE'') (heap s ! i)))]"
    using assms(1) f tree_obj_put [OF f(5), of "JStr ''DELETE''" "''action''"]
    by (simp add: functions_inv_def publish_ready json_metadata cell_def del: tree.simps(2))
  ultimately show ?thesis using served inv by blast
qed

lemma master_dom:
  assumes "map_of ps ''id'' = Some (JStr d)"
  shows "dom (master_view (ws @ [metadata_msg ''ServiceIntent'' (JObj (obj_put ''action'' (JStr ''ADD'') ps))])) = insert d (dom (master_view ws))"
    and "dom (master_view (ws @ [metadata_msg ''ServiceIntent'' (JObj (obj_put ''action'' (JStr ''DELETE'') ps))])) = dom (master_view ws) - {d}"
  using assms by (auto simp: master_view_snoc master_step_metadata [where k = d] js_access obj_get_own)

lemma agrees_after:
  assumes "functions_inv s" and "master_agrees A s" and "function_view s k = Some (b, d)"
    and "function_view t = (function_view s)(k := q)" and "q = Some (c, d) \<or> q = None \<and> \<not> c"
    and "dom (master_view (wire (rabbit t))) = (if c then insert d else (\<lambda>X. X - {d})) (dom (master_view (wire (rabbit s))))"
  shows "master_agrees A t"
proof -
  have only: "l = k" if "function_view s l = Some (b', d)" for l b' using view_ids [OF assms(1) that assms(3)] by simp
  have others: "function_view t l = function_view s l" if "l \<noteq> k" for l using that assms(4) by simp
  have kth: "function_view t k = Some (True, d) \<longleftrightarrow> c" "\<And>e. function_view t k = Some (True, e) \<Longrightarrow> e = d" using assms(4,5) by auto
  have "e \<in> running t \<longleftrightarrow> (if c then e \<in> insert d (running s) else e \<in> running s - {d})" for e
  proof (cases "e = d")
    case True
    have "d \<in> running t \<longleftrightarrow> c"
      using kth(1) only others unfolding running_def mem_Collect_eq by metis
    with True show ?thesis by simp
  next
    case False
    have "function_view s k \<noteq> Some (True, e)" "function_view t k \<noteq> Some (True, e)" using False assms(3) kth(2) by auto
    then have "e \<in> running t \<longleftrightarrow> e \<in> running s" using others unfolding running_def mem_Collect_eq by metis
    with False show ?thesis by simp
  qed
  then have "running t = (if c then insert d (running s) else running s - {d})" by (intro set_eqI) (simp split: if_split_asm)
  moreover have "d \<notin> A" using assms(2,3) by (auto simp: master_agrees_def)
  moreover have "e \<notin> A" if "function_view t l = Some (b', e)" for l b' e
    using that assms(2,4,5) \<open>d \<notin> A\<close> by (auto simp: master_agrees_def split: if_splits)
  ultimately show ?thesis using assms(2,6) by (auto simp: master_agrees_def)
qed

lemma function_press_refines:
  assumes "functions_inv s" and "master_agrees A s"
  shows "\<exists>t. function_press axios u p (s, showFogFunctions s) = (t, showFogFunctions t) \<and> functions_inv t \<and> master_agrees A t \<and>
    function_view t = press_spec p (function_view s)"
proof -
  obtain k where p: "p = PressStatus k \<or> p = PressDelete k" by (cases p) auto
  note button = table_shows_view [OF assms(1), of k]
  show ?thesis
  proof (cases "map_of (fogfunctions s) k")
    case None
    then have none: "function_view s k = None" by (simp add: function_view_def)
    then have "press_spec p (function_view s) = function_view s" using p by (elim disjE) (simp_all add: fun_upd_idem)
    moreover have "function_press axios u p (s, showFogFunctions s) = (s, showFogFunctions s)" using p button none by (elim disjE) simp_all
    ultimately show ?thesis using assms by metis
  next
    case (Some v)
    obtain f i st d where f: "function_facts (heap s) v = Some (k, f, i, st, d)" and view: "function_view s k = Some (st = ''enabled'', d)"
      by (rule stored_function [OF assms(1) Some])
    have idd: "map_of (heap s ! i) ''id'' = Some (JStr d)" using f by (simp add: function_facts_iff)
    note served = switch_served [OF assms(1) Some f, of axios u] delete_served [OF assms(1) Some f, of axios u]
    consider "p = PressDelete k" | "p = PressStatus k" "st = ''enabled''" | "p = PressStatus k" "st \<noteq> ''enabled''" using p by blast
    then show ?thesis
    proof cases
      case 1
      obtain t where t: "complete axios u (delete_fogfunction k s) = (t, Status 200)" "functions_inv t" "function_view t = (function_view s)(k := None)"
          "wire (rabbit t) = wire (rabbit s) @ [metadata_msg ''ServiceIntent'' (JObj (obj_put ''action'' (JStr ''DELETE'') (heap s ! i)))]"
        using served(2) by blast
      have "master_agrees A t" by (rule agrees_after [OF assms view t(3), of False]) (simp_all add: t(4) master_dom(2) [OF idd])
      with 1 t button view show ?thesis by (simp add: deleteFogFunction_def answered_list_def)
    next
      case 2
      obtain t x where t: "complete axios u (disable_fogfunction k s) = (t, Json x)" "functions_inv t" "function_view t = (function_view s)(k \<mapsto> (False, d))"
          "wire (rabbit t) = wire (rabbit s) @ [metadata_msg ''ServiceIntent'' (JObj (obj_put ''action'' (JStr ''DELETE'') (heap s ! i)))]"
        using served(1) [of "''disabled''" "''DELETE''"] by (auto simp: disable_fogfunction_def)
      have "master_agrees A t" by (rule agrees_after [OF assms view t(3), of False]) (simp_all add: t(4) master_dom(2) [OF idd])
      with 2 t button view show ?thesis by (simp add: disableFogFunction_def answered_list_def)
    next
      case 3
      obtain t x where t: "complete axios u (enable_fogfunction k s) = (t, Json x)" "functions_inv t" "function_view t = (function_view s)(k \<mapsto> (True, d))"
          "wire (rabbit t) = wire (rabbit s) @ [metadata_msg ''ServiceIntent'' (JObj (obj_put ''action'' (JStr ''ADD'') (heap s ! i)))]"
        using served(1) [of "''enabled''" "''ADD''"] by (auto simp: enable_fogfunction_def)
      have "master_agrees A t" by (rule agrees_after [OF assms view t(3), of True]) (simp_all add: t(4) master_dom(1) [OF idd])
      with 3 t button view show ?thesis by (simp add: enableFogFunction_def answered_list_def)
    qed
  qed
qed

definition table_inv :: "string set \<Rightarrow> designer \<times> function_row list \<Rightarrow> bool" where
  "table_inv A q = (functions_inv (fst q) \<and> master_agrees A (fst q) \<and> snd q = showFogFunctions (fst q))"

interpretation function_presses: stepwise_refinement "\<lambda>p q. (function_press axios u p q, True)" "\<lambda>ps q. (fold (function_press axios u) ps q, True)"
  "table_inv A" "\<lambda>p. True" "\<lambda>q. function_view (fst q)" press_spec for axios u A
proof unfold_locales
  fix q p
  assume "table_inv A q"
  then have q: "functions_inv (fst q)" "master_agrees A (fst q)" "q = (fst q, showFogFunctions (fst q))" by (auto simp: table_inv_def prod_eq_iff)
  obtain t where "function_press axios u p q = (t, showFogFunctions t)" "functions_inv t" "master_agrees A t"
      "function_view t = press_spec p (function_view (fst q))"
    using function_press_refines [OF q(1,2), of axios u p] q(3) by metis
  then show "\<exists>t. (function_press axios u p q, True) = (t, True) \<and> table_inv A t \<and> function_view (fst t) = press_spec p (function_view (fst q))"
    by (simp add: table_inv_def)
qed simp_all

text \<open>
  Claim C3. The list of fog functions, the designer and the master together: whatever buttons are pressed in the list, one after
  the other, the table offers \<open>disable\<close> for exactly the functions that the presses so far leave enabled and \<open>enable\<close> for
  the others, a press of one function changes no other, and the master knows exactly the intents of the enabled functions
  and, unchanged, those that belong to no function.
\<close>

theorem function_list_shows_running:
  assumes "functions_inv s" and "master_agrees A s" and "fold (function_press axios u) ps (s, showFogFunctions s) = (t, rows)"
  shows "(\<forall>k. row_button rows k = map_option fst (fold press_spec ps (function_view s) k)) \<and>
    dom (master_view (wire (rabbit t))) = A \<union> {d. \<exists>k. fold press_spec ps (function_view s) k = Some (True, d)}"
proof -
  have "table_inv A (s, showFogFunctions s)" using assms(1,2) by (simp add: table_inv_def)
  from function_presses.run_refines [OF this, of ps axios u] assms(3)
  have "table_inv A (t, rows)" "function_view t = fold press_spec ps (function_view s)" by (auto simp: list_all_iff)
  then show ?thesis by (auto simp: table_inv_def table_shows_view master_agrees_def running_def)
qed

definition listed_designer :: designer where
  "listed_designer =
     connected_designer\<lparr>heap := [[(''name'', JStr ''F''), (''status'', JStr ''disabled''), (''intent'', JRef 1), (''topology'', JRef 2)], [(''id'', JStr ''i1'')], [(''name'', JStr ''T'')],
         [(''name'', JStr ''G''), (''status'', JStr ''disabled''), (''intent'', JRef 4), (''topology'', JRef 2)], [(''id'', JStr ''i2'')]],
       fogfunctions := [(''F'', JRef 0), (''G'', JRef 3)]\<rparr>"

lemma listed_functions:
  "function_facts (heap listed_designer) (JRef 0) = Some (''F'', 0, 1, ''disabled'', ''i1'')"
  "function_facts (heap listed_designer) (JRef 3) = Some (''G'', 3, 4, ''disabled'', ''i2'')"
  by (simp_all add: function_facts_iff listed_designer_def)

lemma listed_inv: "functions_inv listed_designer" "master_agrees {} listed_designer" "function_view listed_designer = [''F'' \<mapsto> (False, ''i1''), ''G'' \<mapsto> (False, ''i2'')]"
proof -
  have m: "map_of (fogfunctions listed_designer) = [''F'' \<mapsto> JRef 0, ''G'' \<mapsto> JRef 3]" by (auto simp: listed_designer_def)
  show view: "function_view listed_designer = [''F'' \<mapsto> (False, ''i1''), ''G'' \<mapsto> (False, ''i2'')]"
    by (auto simp: fun_eq_iff function_view_def m listed_functions)
  show "master_agrees {} listed_designer"
    unfolding master_agrees_def running_def view
    by (auto simp: listed_designer_def connected_designer_def init_mq_def db_load_default master_view_def)
  have "canonical (fogfunctions listed_designer)" "can_publish (rabbit listed_designer)" "\<forall>n. amqp_answers listed_designer n = Accepted"
    using connected_designer_inv(1) by (simp_all add: intents_inv_def listed_designer_def canonical_def key_before_def is_array_index_def is_digit_def parse_nat_def)
  moreover have "apart (heap listed_designer) (map_of (fogfunctions listed_designer))"
    unfolding apart_def m by (auto simp: listed_functions split: if_splits)
  ultimately show "functions_inv listed_designer"
    unfolding functions_inv_def m by (auto simp: listed_functions object_proto_def split: if_splits)
qed

theorem function_list_shows_running_witness:
  "\<exists>t rows. fold (function_press (\<lambda>rq. Inl JNull) []) [PressStatus ''F'', PressStatus ''G'', PressStatus ''G''] (listed_designer, showFogFunctions listed_designer) = (t, rows) \<and>
     row_button rows ''F'' = Some True \<and> row_button rows ''G'' = Some False \<and> dom (master_view (wire (rabbit t))) = {''i1''}"
proof -
  obtain t rows where q: "fold (function_press (\<lambda>rq. Inl JNull) []) [PressStatus ''F'', PressStatus ''G'', PressStatus ''G''] (listed_designer, showFogFunctions listed_designer) = (t, rows)"
    by fastforce
  from function_list_shows_running [OF listed_inv(1,2) q] have
    "row_button rows ''F'' = Some True" "row_button rows ''G'' = Some False" "dom (master_view (wire (rabbit t))) = {''i1''}"
    by (auto simp: listed_inv(3) split: if_splits)
  with q show ?thesis by blast
qed

section \<open>A function that is submitted again\<close>

lemma facts_append: "function_facts h v = Some x \<Longrightarrow> function_facts (h @ cs) v = Some x"
  by (cases x) (auto simp: function_facts_iff nth_append simp del: tree.simps(2))

text \<open>A function as the editor posts it: with its name, its topology and its intent, which has an identifier or gets one.\<close>

lemma submit_function:
  assumes "functions_inv s" and "map_of ps ''name'' = Some (JStr k)" and "k \<notin> set object_proto"
    and "map_of ps ''topology'' = Some (JObj tps)" and "map_of ps ''intent'' = Some (JObj ips)"
    and "map_of ips ''id'' = Some (JStr e)" and "\<not> has_own ips ''hasOwnProperty''" and "tree (JObj ips)"
  shows "\<exists>t. complete axios u (post_fogfunction (JArr [JObj ps]) s) = (t, Status 200) \<and>
    function_view t = (function_view s)(k \<mapsto> (True, e)) \<and> dom (master_view (wire (rabbit t))) = insert e (dom (master_view (wire (rabbit s))))"
proof -
  let ?n = "length (heap s)"
  let ?fs = "obj_put ''status'' (JStr ''enabled'') (upd_own ''intent'' (JRef (Suc ?n)) (upd_own ''topology'' (JRef ?n) ps))"
  let ?is = "obj_put ''action'' (JStr ''ADD'') ips"
  let ?h = "heap s @ [tps, ?is, ?fs]"
  let ?s1 = "s\<lparr>fogfunctions := obj_put k (JRef (Suc (Suc ?n))) (fogfunctions s),
      topologies := obj_put (js_str (obj_get tps ''name'')) (JRef ?n) (topologies s), heap := ?h\<rparr>"
  let ?t = "db_write (publishMetadata ''ServiceIntent'' (JRef (Suc ?n)) ?s1)"
  have fs: "map_of ?fs ''name'' = Some (JStr k)" "map_of ?fs ''intent'' = Some (JRef (Suc ?n))" "map_of ?fs ''topology'' = Some (JRef ?n)"
    using assms(2,4,5) by (simp_all add: map_of_obj_put map_of_upd_own_other map_of_upd_own_same)
  have ref: "alloc_fogfunction (JObj ps) (heap s) =
      (JRef (Suc (Suc ?n)), heap s @ [tps, ips, upd_own ''intent'' (JRef (Suc ?n)) (upd_own ''topology'' (JRef ?n) ps)])"
    using assms(4,5) by (simp add: alloc_fogfunction_def map_of_upd_own_other)
  have served: "complete axios u (post_fogfunction (JArr [JObj ps]) s) = (?t, Status 200)"
    using fs assms(6,7)
    by (simp add: post_fogfunction_def over_body_def add_fogfunction_def ref store_fogfunction_def start_fogfunction_def publish_intent_def
        write_then_def complete_def resume_def cell_def nth_append list_update_append obj_get_own dict_hasOwn_def has_own_map_of Let_def)
  have tr: "tree (JObj ?is)" using tree_obj_put [OF assms(8), of "JStr ''ADD''" "''action''"] by (simp del: tree.simps(2))
  have new: "function_facts ?h (JRef (Suc (Suc ?n))) = Some (k, Suc (Suc ?n), Suc ?n, ''enabled'', e)"
    using fs tr assms(6) by (simp add: function_facts_iff nth_append map_of_obj_put del: tree.simps(2))
  have "function_view ?t l = ((function_view s)(k \<mapsto> (True, e))) l" for l
  proof (cases "l = k")
    case True
    then show ?thesis using new proto_not_object [OF assms(3)] by (simp add: function_view_def map_of_obj_put)
  next
    case False
    show ?thesis
    proof (cases "map_of (fogfunctions s) l")
      case (Some w)
      then obtain x where "function_facts (heap s) w = Some x" using assms(1) unfolding functions_inv_def by blast
      with facts_append [OF this, of "[tps, ?is, ?fs]"] False Some proto_not_object [OF assms(3)] show ?thesis by (simp add: function_view_def map_of_obj_put)
    qed (use False proto_not_object [OF assms(3)] in \<open>simp add: function_view_def map_of_obj_put\<close>)
  qed
  moreover have "wire (rabbit ?t) = wire (rabbit s) @ [metadata_msg ''ServiceIntent'' (JObj ?is)]"
    using assms(1) tr by (simp add: functions_inv_def publish_ready json_metadata cell_def nth_append del: tree.simps(2))
  ultimately show ?thesis using served master_dom(1) [OF assms(6)] by auto
qed

text \<open>
  A function that is submitted again under its name with another intent: the master keeps the intent of the first
  submission for ever, since no function of the list has it any more.
\<close>

theorem resubmission_leaks_intent:
  assumes "functions_inv s" and "master_agrees A s" and "function_view s k = Some (True, d)"
    and "map_of ps ''name'' = Some (JStr k)" and "map_of ps ''topology'' = Some (JObj tps)" and "map_of ps ''intent'' = Some (JObj ips)"
    and "map_of ips ''id'' = Some (JStr e)" and "\<not> has_own ips ''hasOwnProperty''" and "tree (JObj ips)" and "e \<noteq> d"
  shows "\<exists>t. complete axios u (post_fogfunction (JArr [JObj ps]) s) = (t, Status 200) \<and> function_view t k = Some (True, e) \<and>
    d \<in> dom (master_view (wire (rabbit t))) \<and> (\<forall>l b. function_view t l \<noteq> Some (b, d))"
proof -
  obtain v where "map_of (fogfunctions s) k = Some v" using assms(3) by (auto simp: function_view_def split: option.splits)
  with assms(1) have "k \<notin> set object_proto" by (auto simp: functions_inv_def)
  from submit_function [OF assms(1,4) this assms(5-9), of axios u] obtain t where t: "complete axios u (post_fogfunction (JArr [JObj ps]) s) = (t, Status 200)"
      "function_view t = (function_view s)(k \<mapsto> (True, e))" "dom (master_view (wire (rabbit t))) = insert e (dom (master_view (wire (rabbit s))))"
    by blast
  have "d \<in> dom (master_view (wire (rabbit s)))" using assms(2,3) by (auto simp: master_agrees_def running_def)
  moreover have "function_view t l \<noteq> Some (b, d)" for l b using t(2) assms(10) view_ids [OF assms(1,3), of l b] by (auto split: if_splits)
  ultimately show ?thesis using t by auto
qed

end
