(* ===== verification/Orion_Page.thy ===== *)
theory Orion_Page
  imports Power_Panel
begin

text \<open>
  The page \<open>designer/public/js/orion.js\<close>, which shows how FogFlow is used together with the Orion broker: the update it sends, the
  subscription on behalf of Orion, and the text of the notifications. The location of the update is an argument, since its
  coordinates are no integers.
\<close>

definition orion_object :: "jval \<Rightarrow> rat \<Rightarrow> jval" where
  "orion_object location random =
     JObj [(''entityId'', JObj [(''id'', JStr ''Stream.PowerPanel.05''), (''type'', JStr ''PowerPanel''), (''isPattern'', JBool False)]),
           (''attributes'', JObj [(''usage'', typed ''integer'' (JNum (usage_degree random))), (''deviceID'', typed ''string'' (JStr ''PowerPanel.05''))]),
           (''metadata'', JObj [(''location'', typed ''point'' location), (''shop'', typed ''string'' (JStr ''05''))])]"

definition sendUpdate :: "jval \<Rightarrow> jval \<Rightarrow> rat \<Rightarrow> http_req option" where
  "sendUpdate u location random = update_request u (orion_object location random)"

definition orion_request :: "string \<Rightarrow> string \<Rightarrow> jval" where
  "orion_request entityType orionBroker =
     JObj [(''entities'', JArr [JObj [(''type'', JStr entityType), (''isPattern'', JBool True)]]),
           (''reference'', JStr (''http://'' @ orionBroker @ ''/v2''))]"

definition subscribeFogFlow :: "axios \<Rightarrow> string \<Rightarrow> string \<Rightarrow> string \<Rightarrow> promise" where
  "subscribeFogFlow axios u entityType orionBroker = subscribeContext4Orion axios u (orion_request entityType orionBroker)"

text \<open>\<open>JSON.stringify\<close> is an argument.\<close>

definition orion_handleNotify :: "(jval \<Rightarrow> string) \<Rightarrow> jval \<Rightarrow> string \<Rightarrow> string" where
  "orion_handleNotify stringify contextObj fogflowText = fogflowText @ stringify contextObj"

definition orion_element :: "jval \<Rightarrow> int \<Rightarrow> element" where
  "orion_element location d =
     \<lparr>Entity = \<lparr>eid_type = ''PowerPanel'', eid_isPattern = False, eid_id = ''Stream.PowerPanel.05''\<rparr>,
      Attributes = [(''usage'', ''integer'', JNum d), (''deviceID'', ''string'', JStr ''PowerPanel.05'')],
      Metadata = [(''location'', ''point'', location), (''shop'', ''string'', JStr ''05'')]\<rparr>"

lemma sendUpdate_posted: "\<exists>rq. sendUpdate u location r = Some rq \<and> posted_updates rq = [orion_element location (usage_degree r)]"
proof -
  let ?e = "orion_element location (usage_degree r)"
  let ?ps = "[(''id'', JStr ''Stream.PowerPanel.05''), (''type'', JStr ''PowerPanel''), (''isPattern'', JBool False)]"
  have "orion_object location r = ctx_object (JObj ?ps) (json_named (Attributes ?e)) (json_named (Metadata ?e))"
    by (simp add: orion_object_def ctx_object_def orion_element_def json_named_def named_props_def json_string_def typed_def)
  then have "JSONObject2CtxElement (orion_object location r) = Some (ctx_element (JObj ?ps) (json_named (Attributes ?e)) (json_named (Metadata ?e)))"
    by (simp add: JSONObject2CtxElement_ctx_object)
  moreover have "parse_entity (JObj ?ps) = Some (Entity ?e)" by (simp add: orion_element_def js_access)
  ultimately show ?thesis
    using update_request_posted [of "orion_object location r" ?ps "Attributes ?e" "Metadata ?e" "Entity ?e" u]
    unfolding sendUpdate_def orion_element_def element.simps by blast
qed

text \<open>What the broker stores of the presses of the button.\<close>

definition sent_updates :: "jval \<Rightarrow> jval \<Rightarrow> rat \<Rightarrow> entities \<Rightarrow> entities" where
  "sent_updates u location r es = (case sendUpdate u location r of None \<Rightarrow> es | Some rq \<Rightarrow> fold updateContextElement (posted_updates rq) es)"

lemma sent_updates_eq: "sent_updates u location r es = updateContextElement (orion_element location (usage_degree r)) es"
  using sendUpdate_posted [of u location r] by (auto simp: sent_updates_def)

text \<open>
  However often the button is pressed, the broker stores one entity of the page, with the usage of the last press, a number from 1 to 100;
  other entities stay as they are.
\<close>

theorem orion_updates_one_entity:
  assumes "es ''Stream.PowerPanel.05'' = None" and "list_all (\<lambda>r. 0 \<le> r \<and> r < 1) (rs @ [r])"
  shows "\<exists>e d. fold (sent_updates u location) (rs @ [r]) es = es(''Stream.PowerPanel.05'' \<mapsto> e) \<and> Entity e = Entity (orion_element location d) \<and>
    map_of (Attributes e) ''usage'' = Some (''integer'', JNum d) \<and> d = usage_degree r \<and> 1 \<le> d \<and> d \<le> 100"
proof -
  let ?n = "''Stream.PowerPanel.05''" and ?E = "Entity (orion_element location (usage_degree r))"
  let ?put = "\<lambda>q es' e. es' = es(?n \<mapsto> e) \<and> readable_element e \<and> Entity e = ?E \<and> map_of (Attributes e) ''usage'' = Some (''integer'', JNum (usage_degree q))"
  have step: "\<exists>e. ?put q (sent_updates u location q es') e" if "es' = es \<or> (\<exists>e. es' = es(?n \<mapsto> e) \<and> readable_element e \<and> Entity e = ?E)" for q es'
  proof -
    let ?u = "orion_element location (usage_degree q)"
    have u: "readable_element ?u" "eid_id (Entity ?u) = ?n" "Entity ?u = ?E" "map_of (Attributes ?u) ''usage'' = Some (''integer'', JNum (usage_degree q))"
      by (simp_all add: readable_element_def orion_element_def)
    have old: "readable_element e \<and> Entity e = ?E" if "es' ?n = Some e" for e using \<open>es' = es \<or> _\<close> that assms(1) by auto
    obtain m where m: "updateContextElement ?u es' = es'(?n \<mapsto> m)" "readable_element m" "Entity m = Entity (case es' ?n of None \<Rightarrow> ?u | Some e \<Rightarrow> e)"
        "map_of (Attributes m) ''usage'' = Some (''integer'', JNum (usage_degree q))"
      using element_updated [OF u(1), of es', unfolded u(2)] old u(4) by force
    have "Entity m = ?E"
    proof (cases "es' ?n")
      case None
      with m(3) have "Entity m = Entity ?u" by simp
      then show ?thesis unfolding u(3) .
    next
      case (Some e)
      with m(3) have "Entity m = Entity e" by simp
      with old [OF Some] show ?thesis by metis
    qed
    moreover have "es'(?n \<mapsto> m) = es(?n \<mapsto> m)" using \<open>es' = es \<or> _\<close> by auto
    ultimately show ?thesis using m unfolding sent_updates_eq by metis
  qed
  have "fold (sent_updates u location) rs es = es \<or> (\<exists>e. fold (sent_updates u location) rs es = es(?n \<mapsto> e) \<and> readable_element e \<and> Entity e = ?E)"
  proof (induction rs rule: rev_induct)
    case (snoc q qs)
    from step [OF snoc, of q] show ?case unfolding fold_append fold_Cons fold_Nil comp_apply id_apply by blast
  qed simp
  from step [OF this, of r] obtain e where e: "?put r (fold (sent_updates u location) (rs @ [r]) es) e"
    unfolding fold_append fold_Cons fold_Nil comp_apply id_apply by blast
  have "1 \<le> usage_degree r \<and> usage_degree r \<le> 100" using assms(2) usage_bounds [of r] by simp
  with e show ?thesis by blast
qed

end
