(* ===== verification/Designer_Frame.thy ===== *)
theory Designer_Frame
  imports Image_Registry Designer_Intents
begin

text \<open>
  What no request to the designer changes: the routes of \<open>designer/main.js\<close> that change anything as one type of requests, any number
  of which may be suspended at an \<open>await\<close> while others are served, and the operators that a stored topology protects.
\<close>

section \<open>All routes that change the state\<close>

datatype api_request =
    POST_operator jval | DELETE_operator string
  | POST_dockerimage jval | POST_dockerimage_of string jval | DELETE_dockerimage string jval
  | PATCH_task jval | GET_topology string | POST_service jval | DELETE_service string
  | POST_intent jval | DELETE_intent string
  | POST_fogfunction jval | GET_enable string | GET_disable string | DELETE_fogfunction string
  | POST_subscription jval | DELETE_subscription string | POST_device jval | DELETE_device string

fun api_serve :: "api_request \<Rightarrow> handler" where
  "api_serve (POST_operator body) s = post_operator body s"
| "api_serve (DELETE_operator name) s = delete_operator name s"
| "api_serve (POST_dockerimage body) s = post_dockerimages body s"
| "api_serve (POST_dockerimage_of operatorName body) s = post_dockerimage operatorName body s"
| "api_serve (DELETE_dockerimage operatorName img) s = delete_dockerimage operatorName img s"
| "api_serve (PATCH_task body) s = patch_task body s"
| "api_serve (GET_topology name) s = get_topology name s"
| "api_serve (POST_service body) s = post_service body s"
| "api_serve (DELETE_service name) s = delete_service name s"
| "api_serve (POST_intent body) s = post_intent body s"
| "api_serve (DELETE_intent iid) s = delete_intent iid s"
| "api_serve (POST_fogfunction body) s = post_fogfunction body s"
| "api_serve (GET_enable name) s = enable_fogfunction name s"
| "api_serve (GET_disable name) s = disable_fogfunction name s"
| "api_serve (DELETE_fogfunction name) s = delete_fogfunction name s"
| "api_serve (POST_subscription body) s = post_subscription body s"
| "api_serve (DELETE_subscription sid) s = delete_subscription sid s"
| "api_serve (POST_device body) s = post_device body s"
| "api_serve (DELETE_device did) s = delete_device did s"

text \<open>What happens at the designer: a request is served up to its first \<open>await\<close>, or a suspended handler goes on.\<close>

datatype api_event = Arrives api_request | Resumes kont

fun api_step :: "axios \<Rightarrow> string \<Rightarrow> api_event \<Rightarrow> designer \<Rightarrow> designer" where
  "api_step axios u (Arrives r) s = fst (api_serve r s)"
| "api_step axios u (Resumes k) s = fst (resume axios u k s)"

text \<open>The requests that store another topology under the given name, or delete it.\<close>

definition posted_topology :: "jval \<Rightarrow> string option" where
  "posted_topology v = map_option js_str (do { t \<leftarrow> jget v ''topology''; jget t ''name'' })"

definition posts_topology :: "string \<Rightarrow> jval \<Rightarrow> bool" where
  "posts_topology n body = (case jelems body of None \<Rightarrow> False | Some vs \<Rightarrow> list_ex (\<lambda>v. posted_topology v = Some n) vs)"

fun names_topology :: "string \<Rightarrow> api_event \<Rightarrow> bool" where
  "names_topology n (Arrives (POST_service body)) = posts_topology n body"
| "names_topology n (Arrives (POST_fogfunction body)) = posts_topology n body"
| "names_topology n (Arrives (DELETE_service k)) = (k = n)"
| "names_topology n (Arrives (DELETE_fogfunction k)) = (k = n)"
| "names_topology n e = False"

text \<open>The fog functions of a request are JSON values.\<close>

fun event_ok :: "api_event \<Rightarrow> bool" where
  "event_ok (Arrives (POST_fogfunction body)) = (case jelems body of None \<Rightarrow> True | Some vs \<Rightarrow> list_all tree vs)"
| "event_ok e = True"

section \<open>Handlers that leave operators and topologies alone\<close>

definition kept :: "designer \<Rightarrow> designer \<Rightarrow> bool" where
  "kept s t = (operators t = operators s \<and> topologies t = topologies s \<and> tasks_kept (heap s) (heap t))"

lemma kept_refl [simp]: "kept s s"
  by (simp add: kept_def)

lemma kept_trans: "kept s t \<Longrightarrow> kept t w \<Longrightarrow> kept s w"
  by (auto simp: kept_def intro: tasks_kept_trans)

lemma kept_publishMetadata [simp]: "kept s (publishMetadata d v s)"
  by (simp add: kept_def publishMetadata_def)

lemma kept_db_write [simp]: "kept s (db_write t) = kept s t"
  by (simp add: kept_def)

lemma kept_skip_random [simp]: "kept s (skip_random s)"
  by (simp add: kept_def skip_random_def)

lemma kept_heap: "tasks_kept (heap s) h \<Longrightarrow> kept s (s\<lparr>heap := h\<rparr>)"
  by (simp add: kept_def)

lemma kept_fields [simp]:
  "kept s (t\<lparr>serviceintents := x\<rparr>) = kept s t" "kept s (t\<lparr>fogfunctions := x\<rparr>) = kept s t" "kept s (t\<lparr>subscriptions := x\<rparr>) = kept s t"
  "kept s (t\<lparr>devices := x\<rparr>) = kept s t"
  by (simp_all add: kept_def)

lemma kept_publish_intent: "kept s (fst (publish_intent i a s))"
proof -
  have "kept s (publishMetadata d v (s\<lparr>heap := h\<rparr>))" if "sput i ''action'' (JStr a) (heap s) = Some h" for d v h
    using kept_trans [OF kept_heap kept_publishMetadata] tasks_kept_sput [OF that] by simp
  then show ?thesis by (auto simp: publish_intent_def split: option.split)
qed

lemma kept_resume: "kept s (fst (resume axios u k s))"
  using kept_publish_intent [of s]
  by (cases k) (auto simp: resume_def add_intent_def on_subscribed_def on_unsubscribed_def on_device_created_def on_device_deleted_def
      case_prod_beta split: sum.split option.split)

lemma kept_write_then: "kept s (fst r) \<Longrightarrow> kept s (fst (write_then k r))"
  by (simp add: write_then_def)

lemma kept_loop:
  assumes "\<And>v s. kept s (fst (step v s))"
  shows "kept s (fst (for_each step vs s))"
proof (induction vs arbitrary: s)
  case (Cons v vs)
  with assms [of s v] kept_trans show ?case by (auto split: prod.split)
qed simp

lemma kept_add_image: "kept s (fst (add_image k v s))"
  using add_image_tasks [of s k v] by (auto simp: kept_def add_image_def Let_def split: option.split)

lemma kept_images:
  "kept s (fst (post_dockerimages body s))" "kept s (fst (post_dockerimage k v s))" "kept s (fst (delete_dockerimage k v s))"
proof -
  have "kept s (fst (add_named_image v s))" for v s by (auto simp: add_named_image_def kept_add_image split: option.split)
  then show "kept s (fst (post_dockerimages body s))"
    by (auto simp: post_dockerimages_def over_body_def intro: kept_write_then kept_loop split: option.split)
  show "kept s (fst (post_dockerimage k v s))" by (simp add: post_dockerimage_def kept_write_then kept_add_image)
  have "tasks_kept (heap s) h" if "sput w ''dockerimages'' xs (heap s) = Some h" for w xs h using that by (rule tasks_kept_sput) simp_all
  then show "kept s (fst (delete_dockerimage k v s))"
    by (simp add: delete_dockerimage_def Let_def kept_heap split: option.split jval.split prod.split)
qed

lemma kept_attach_operator: "kept s (fst (attach_operator t v s))"
proof -
  have "tasks_kept (heap s) h" if "spush t ''operators'' w (heap s) = Some h" for w h using that by (rule tasks_kept_spush) simp_all
  then show ?thesis by (auto simp: attach_operator_def kept_heap split: option.split)
qed

lemma kept_get_topology: "kept s (fst (get_topology n s))"
proof -
  have put: "tasks_kept (heap s) h" if "sput t ''operators'' w (heap s) = Some h" for t w h using that by (rule tasks_kept_sput) simp_all
  have "kept s (fst (for_each (attach_operator t) vs (s\<lparr>heap := h\<rparr>)))" if "sput t ''operators'' w (heap s) = Some h" for t w h vs
    using kept_trans [OF kept_heap [OF put [OF that]] kept_loop [OF kept_attach_operator]] .
  then show ?thesis by (auto simp: get_topology_def Let_def kept_heap put case_prod_beta split: option.split bool.split)
qed

lemma kept_switch: "kept s (fst (switch_fogfunction st a n s))"
proof -
  have "kept s (s\<lparr>heap := h\<rparr>) \<and> kept s (fst (publish_intent i a (s\<lparr>heap := h\<rparr>)))" if "sput v ''status'' w (heap s) = Some h" for v w h i
  proof -
    have "tasks_kept (heap s) h" using that by (rule tasks_kept_sput) simp_all
    then show ?thesis using kept_trans [OF kept_heap kept_publish_intent] kept_heap by simp
  qed
  then show ?thesis by (simp add: switch_fogfunction_def Let_def write_then_def split: option.split)
qed

lemma kept_intents: "kept s (fst (post_intent body s))" "kept s (fst (delete_intent iid s))"
proof -
  have "kept s (s\<lparr>heap := snd (alloc body (heap s))\<rparr>)" by (simp add: kept_heap)
  then show "kept s (fst (post_intent body s))"
    by (cases "alloc body (heap s)") (simp add: post_intent_def kept_def split: option.split bool.split)
  show "kept s (fst (delete_intent iid s))"
    using kept_publish_intent [of s "obj_get (serviceintents s) iid" "''DELETE''"] by (auto simp: delete_intent_def Let_def split: prod.split bool.split)
qed

lemma kept_others:
  "kept s (fst (patch_task v s))" "kept s (fst (post_subscription v s))" "kept s (fst (delete_subscription n s))"
  "kept s (fst (post_device v s))" "kept s (fst (delete_device n s))"
proof -
  have "kept s t" if "device_id v s = Some (d, t)" for d t
    using that by (auto simp: device_id_def Option.bind_eq_Some_conv split: if_splits)
  then show "kept s (fst (post_device v s))" by (auto simp: post_device_def split: option.split bool.split prod.split)
qed (auto simp: patch_task_def post_subscription_def delete_subscription_def delete_device_def split: option.split bool.split)

section \<open>Protected operators\<close>

text \<open>A stored topology with the given name uses the operator, and the operator is registered.\<close>

definition protected :: "string \<Rightarrow> string \<Rightarrow> designer \<Rightarrow> bool" where
  "protected n op s =
     ((\<exists>t ns. map_of (topologies s) n = Some t \<and> topology_operators (heap s) t = Some ns \<and> op \<in> set ns) \<and> map_of (operators s) op \<noteq> None)"

lemma protected_mono:
  assumes "protected n op s" and "tasks_kept (heap s) (heap t)" and "map_of (topologies t) n = map_of (topologies s) n"
    and "map_of (operators t) op \<noteq> None"
  shows "protected n op t"
  using assms topology_operators_kept [OF assms(2)] by (auto simp: protected_def)

lemma protected_kept: "protected n op s \<Longrightarrow> kept s t \<Longrightarrow> protected n op t"
  using protected_mono [of n op s t] by (simp add: kept_def protected_def)

lemma protected_db_write [simp]: "protected n op (db_write s) = protected n op s"
  by (simp add: protected_def)

lemma protected_write_then: "protected n op (fst r) \<Longrightarrow> protected n op (fst (write_then k r))"
  by (simp add: write_then_def)

lemma protected_loop:
  assumes "protected n op s" and "\<And>v s. v \<in> set vs \<Longrightarrow> protected n op s \<Longrightarrow> protected n op (fst (step v s))"
  shows "protected n op (fst (for_each step vs s))"
  using assms
proof (induction vs arbitrary: s)
  case (Cons v vs)
  then have "protected n op (fst (step v s))" by simp
  with Cons.IH [of "fst (step v s)"] Cons.prems(2) show ?case by (simp add: case_prod_beta)
qed simp

lemma obj_put_keeps: "map_of ps l \<noteq> None \<Longrightarrow> map_of (obj_put k v ps) l \<noteq> None"
  by (cases "k = ''__proto__''") (simp_all add: obj_put_def [of "''__proto__''"] map_of_obj_put)

lemma obj_put_other: "l \<noteq> k \<Longrightarrow> map_of (obj_put k v ps) l = map_of ps l"
  by (cases "k = ''__proto__''") (simp_all add: obj_put_def [of "''__proto__''"] map_of_obj_put)

lemma protected_add_operator:
  assumes "protected n op s"
  shows "protected n op (fst (add_operator v s))"
proof (rule protected_mono [OF assms])
  show "tasks_kept (heap s) (heap (fst (add_operator v s)))" "map_of (topologies (fst (add_operator v s))) n = map_of (topologies s) n"
    using add_operator_tasks [of s v] by simp_all
  from assms have "map_of (operators s) op \<noteq> None" by (simp add: protected_def)
  from obj_put_keeps [OF this] this show "map_of (operators (fst (add_operator v s))) op \<noteq> None"
    by (simp add: add_operator_def case_prod_beta split: option.split)
qed

lemma protected_delete_operator:
  assumes "protected n op s"
  shows "protected n op (fst (delete_operator m s))"
proof -
  obtain t ns where t: "map_of (topologies s) n = Some t" "topology_operators (heap s) t = Some ns" "op \<in> set ns"
    using assms by (auto simp: protected_def)
  have "map_of (operators (fst (delete_operator m s))) op \<noteq> None"
    using used_operator_kept [OF map_of_SomeD [OF t(1)] t(2,3), of m] assms by (simp add: protected_def)
  then show ?thesis by (rule protected_mono [OF assms, rotated 2]) (simp_all add: delete_operator_def split: option.split bool.split)
qed

lemma tasks_kept_alloc_fields: "tasks_kept h (snd (alloc_fields ks v h))"
proof (induction ks v h rule: alloc_fields.induct)
  case (1 k ks ps h)
  show ?case
  proof (cases "map_of ps k")
    case (Some v)
    obtain v' h' where v': "alloc v h = (v', h')" by fastforce
    with tasks_kept_alloc [of h v] have "tasks_kept h h'" by simp
    with 1(2) [OF Some v' [symmetric]] v' Some show ?thesis using tasks_kept_trans by simp
  qed (use 1 in simp)
qed simp_all

lemma protected_add_service:
  assumes "protected n op s" and "posted_topology v \<noteq> Some n"
  shows "protected n op (fst (add_service v s))"
proof (cases "do { t \<leftarrow> jget v ''topology''; jget t ''name'' }")
  case (Some k)
  with assms(2) have "n \<noteq> js_str k" by (auto simp: posted_topology_def)
  with Some assms(1) tasks_kept_alloc_fields [of "heap s" "[''topology'']" v] show ?thesis
    by (intro protected_mono [OF assms(1)]) (auto simp: add_service_def alloc_service_def Let_def case_prod_beta obj_put_other protected_def)
qed (use assms(1) in \<open>simp add: add_service_def\<close>)

lemma protected_store_fogfunction:
  assumes "protected n op s" and "\<And>h t k. sput v ''status'' (JStr ''enabled'') (heap s) = Some h \<Longrightarrow> sget h v ''topology'' = Some t \<Longrightarrow>
      sget h t ''name'' = Some k \<Longrightarrow> js_str k \<noteq> n"
  shows "protected n op (fst (store_fogfunction v s))"
proof (cases "sput v ''status'' (JStr ''enabled'') (heap s)")
  case (Some h)
  then have "tasks_kept (heap s) h" by (rule tasks_kept_sput) simp_all
  moreover have "map_of (obj_put (js_str k) t (topologies s)) n = map_of (topologies s) n"
    if "sget h v ''topology'' = Some t" "sget h t ''name'' = Some k" for t k
    using assms(2) [OF Some that] by (intro obj_put_other) simp
  moreover have "map_of (operators s) op \<noteq> None" using assms(1) by (simp add: protected_def)
  ultimately show ?thesis
    by (intro protected_mono [OF assms(1)]) (auto simp: store_fogfunction_def Some Let_def Option.bind_eq_Some_conv split: option.split)
qed (use assms(1) in \<open>simp add: store_fogfunction_def\<close>)

lemma kept_start_fogfunction: "kept s (fst (start_fogfunction v s))"
proof -
  have "kept s (fst (publish_intent i a (skip_random (s\<lparr>heap := h\<rparr>))))" if "sput w ''id'' x (heap s) = Some h" for w x h i a
  proof -
    have "tasks_kept (heap s) h" using that by (rule tasks_kept_sput) simp_all
    then show ?thesis using kept_trans [OF kept_trans [OF kept_heap kept_skip_random] kept_publish_intent] by simp
  qed
  then show ?thesis by (auto simp: start_fogfunction_def kept_publish_intent split: option.split bool.split prod.split)
qed

lemma alloc_intent: "\<exists>i x. alloc_fields [''intent''] (JObj qs) g = (JObj i, g @ x) \<and> map_of i ''topology'' = map_of qs ''topology''"
proof (cases "map_of qs ''intent''")
  case (Some v)
  then show ?thesis by (cases v) (simp_all add: map_of_upd_own_other)
qed simp

text \<open>The topology of a posted fog function is stored under the name that it has in the request.\<close>

lemma fogfunction_topology:
  assumes "tree v" and "alloc_fogfunction v h = (f, h1)" and "sput f ''status'' (JStr ''enabled'') h1 = Some h2"
    and "sget h2 f ''topology'' = Some t" and "sget h2 t ''name'' = Some k"
  shows "posted_topology v = Some (js_str k)"
proof (cases v)
  case (JObj ps)
  define w' g where w': "w' = map_option (\<lambda>w. fst (alloc w h)) (map_of ps ''topology'')"
    and g: "g = (case map_of ps ''topology'' of None \<Rightarrow> h | Some w \<Rightarrow> snd (alloc w h))"
  obtain qs where qs: "alloc_fields [''topology'', ''intent''] (JObj ps) h = alloc_fields [''intent''] (JObj qs) g" "map_of qs ''topology'' = w'"
    by (cases "map_of ps ''topology''") (auto simp: w' g case_prod_beta map_of_upd_own_same)
  obtain i x where i: "alloc_fields [''intent''] (JObj qs) g = (JObj i, g @ x)" "map_of i ''topology'' = w'"
    using alloc_intent [of qs g] qs(2) by auto
  define h' where "h' = g @ x"
  have f: "f = JRef (length h')" "h1 = h' @ [i]"
    using assms(2) qs(1) i(1) by (auto simp: alloc_fogfunction_def JObj h'_def)
  then have h2: "h2 = h' @ [obj_put ''status'' (JStr ''enabled'') i]" using assms(3) by (simp add: cell_def nth_append list_update_append)
  have t: "t = obj_get i ''topology''" using assms(4) by (simp add: f h2 cell_def nth_append obj_get_def map_of_obj_put)
  show ?thesis
  proof (cases "map_of ps ''topology''")
    case None
    with i(2) t have "t = JUndef" by (simp add: w' obj_get_def object_proto_def)
    with assms(5) show ?thesis by simp
  next
    case (Some w)
    with assms(1) have w: "tree w" by (auto simp: JObj list_all_iff dest!: map_of_SomeD)
    from Some i(2) t have t': "t = fst (alloc w h)" by (simp add: w' obj_get_def)
    show ?thesis
    proof (cases w)
      case (JObj tp)
      with Some have "h' = (h @ [tp]) @ x" by (simp add: g h'_def)
      with assms(5) JObj t' have "k = obj_get tp ''name''" by (simp add: h2 cell_def nth_append)
      with JObj Some \<open>v = JObj ps\<close> show ?thesis by (simp add: posted_topology_def obj_get_def)
    qed (use assms(5) t' w Some \<open>v = JObj ps\<close> in \<open>simp_all add: posted_topology_def obj_get_def\<close>)
  qed
next
  case (JArr xs)
  with assms have t: "jget v ''topology'' = Some t" by (auto simp: alloc_fogfunction_def simp del: jget.simps)
  have "t \<noteq> JRef a" for a
    using t JArr assms(1) by (auto simp: list_all_length find_Some_iff split: option.splits if_splits)
  then have "jget t ''name'' = Some k" using assms(5) by (cases t) (auto simp del: jget.simps)
  with t show ?thesis by (simp add: posted_topology_def del: jget.simps)
qed (use assms in \<open>auto simp: alloc_fogfunction_def\<close>)

lemma protected_add_fogfunction:
  assumes "protected n op s" and "tree v" and "posted_topology v \<noteq> Some n"
  shows "protected n op (fst (add_fogfunction v s))"
proof -
  obtain f h where f: "alloc_fogfunction v (heap s) = (f, h)" by fastforce
  have "tasks_kept (heap s) h"
    using tasks_kept_trans [OF tasks_kept_alloc_fields tasks_kept_alloc, of "heap s" "fst (alloc_fields [''topology'', ''intent''] v (heap s))"
        "[''topology'', ''intent'']" v] f
    by (simp add: alloc_fogfunction_def case_prod_beta)
  then have "protected n op (s\<lparr>heap := h\<rparr>)" by (rule protected_kept [OF assms(1) kept_heap])
  then have "protected n op (fst (store_fogfunction f (s\<lparr>heap := h\<rparr>)))"
    by (rule protected_store_fogfunction) (use fogfunction_topology [OF assms(2) f] assms(3) in auto)
  then show ?thesis
    using protected_kept [OF _ kept_start_fogfunction] by (auto simp: add_fogfunction_def f split: prod.split bool.split)
qed

section \<open>Every request keeps a protected operator\<close>

lemma protected_posts:
  assumes "protected n op s"
  shows "protected n op (fst (post_operator body s))"
    and "\<not> posts_topology n body \<Longrightarrow> protected n op (fst (post_service body s))"
    and "\<not> posts_topology n body \<Longrightarrow> event_ok (Arrives (POST_fogfunction body)) \<Longrightarrow> protected n op (fst (post_fogfunction body s))"
  using assms
  by (auto simp: post_operator_def post_service_def post_fogfunction_def over_body_def posts_topology_def list_ex_iff list_all_iff
      intro!: protected_write_then protected_loop protected_add_operator protected_add_service protected_add_fogfunction split: option.splits)

lemma protected_deletes:
  assumes "protected n op s" and "k \<noteq> n"
  shows "protected n op (fst (delete_service k s))" and "protected n op (fst (delete_fogfunction k s))"
proof -
  have gone: "protected n op (t\<lparr>topologies := obj_del k (topologies t)\<rparr>)" if "protected n op t" for t
    using that assms(2) by (simp add: protected_def map_of_obj_del)
  from gone [OF assms(1)] show "protected n op (fst (delete_service k s))" by (simp add: delete_service_def protected_def)
  from gone protected_kept [OF assms(1) kept_publish_intent] assms(1) show "protected n op (fst (delete_fogfunction k s))"
    by (auto simp: delete_fogfunction_def protected_def Let_def case_prod_beta split: option.split bool.split)
qed

lemma api_step_protects:
  assumes "protected n op s" and "event_ok e" and "\<not> names_topology n e"
  shows "protected n op (api_step axios u e s)"
proof (cases e)
  case (Resumes k)
  with protected_kept [OF assms(1) kept_resume] show ?thesis by simp
next
  case (Arrives r)
  note others = protected_kept [OF assms(1)]
  show ?thesis
  proof (cases r)
    case (POST_fogfunction body)
    then show ?thesis using Arrives assms(2,3) protected_posts(3) [OF assms(1), of body] by simp
  qed (use Arrives assms(3) protected_posts(1,2) [OF assms(1)] protected_deletes [OF assms(1)] protected_delete_operator [OF assms(1)]
      others [OF kept_images(1)] others [OF kept_images(2)] others [OF kept_images(3)] others [OF kept_get_topology] others [OF kept_switch]
      others [OF kept_intents(1)] others [OF kept_intents(2)] others [OF kept_others(1)] others [OF kept_others(2)] others [OF kept_others(3)]
      others [OF kept_others(4)] others [OF kept_others(5)] in \<open>simp_all add: enable_fogfunction_def disable_fogfunction_def\<close>)
qed

text \<open>What the designer does with requests that arrive and handlers that go on, in any order.\<close>

definition api_run :: "axios \<Rightarrow> string \<Rightarrow> api_event list \<Rightarrow> designer \<Rightarrow> designer" where
  "api_run axios u es s = fold (api_step axios u) es s"

lemma api_run_protects:
  "protected n op s \<Longrightarrow> list_all (\<lambda>e. event_ok e \<and> \<not> names_topology n e) es \<Longrightarrow> protected n op (api_run axios u es s)"
  unfolding api_run_def by (induction es arbitrary: s) (auto intro: api_step_protects)

text \<open>The protection ends with the topology: once the service is deleted, an operator that no other topology uses can be deleted.\<close>

theorem deleted_service_frees_operator:
  assumes "topologies_listed s" and "\<forall>(k, t) \<in> set (topologies s). k \<noteq> n \<longrightarrow> op \<notin> set (the (topology_operators (heap s) t))"
    and "obj_get (operators s) op \<noteq> JUndef"
  shows "\<exists>t w. complete axios u (delete_service n s) = (t, Status 200) \<and> complete axios u (delete_operator op t) = (w, Status 200) \<and>
    map_of (operators w) op = None"
proof -
  let ?t = "db_write (s\<lparr>services := obj_del n (services s), topologies := obj_del n (topologies s)\<rparr>)"
  have "complete axios u (delete_service n s) = (?t, Status 200)" by (simp add: delete_service_def complete_def resume_def)
  moreover have left: "set (obj_del n (topologies s)) = {p \<in> set (topologies s). fst p \<noteq> n}" by (auto simp: obj_del_def)
  have "hasRelatedTopology (heap s) (obj_del n (topologies s)) op = Some False"
    using assms(1,2) by (subst hasRelatedTopology_names) (auto simp: left topologies_listed_def)
  ultimately show ?thesis using assms(3) by (auto simp: delete_operator_def complete_def resume_def map_of_obj_del)
qed

end
