(* ===== verification/Spec2Isabelle.thy ===== *)
theory Spec2Isabelle
  imports Fog_Template_LD Window_Operators Controller Location_Operators Home_Gateway Smart_Parking Adapters Power_Panel
    Designer_Restart Board Geohash LD_Counters LD_Operators LD_Alerts Dummy_Operator Page_Links
    Parking_Page Customer_Journey Portal City_Console Awning_Page Finder_Page Benchmark LD_Pages
    Moving_Marker Operator_Page Function_Page Orion_Page Designer_Frame
begin

text \<open>
  FogFlow distributes data processing over cloud and edge nodes.  A user draws service topologies and fog functions in
  the browser; the \<^emph>\<open>designer\<close> stores them and announces service intents to the \<^emph>\<open>master\<close> over RabbitMQ; the master has
  workers launch tasks, which are operators running in containers; each task is configured by admin commands, receives
  notifications of context entities, and publishes its results to a context broker.  This development models the parts of
  this system that are written in JavaScript: the designer with its editors and the pages that drive its services, the NGSI
  client libraries, the agent and the runtimes of the tasks, the operators of the repository, a simulated device and the
  benchmarks; and of the broker the part through which operators, devices and pages interact.

  \<^bold>\<open>Theories and sources\<close> (paths below \<open>src/\<close>):

  \<^item> \<open>JS_Prelude\<close>: the values of JavaScript (\<open>jval\<close>), property access, \<open>==\<close>, truthiness, conversion to strings, the order in
    which properties are enumerated, and the library: the collections \<open>js_access\<close> and \<open>js_literal\<close>, and the interfaces as
    locales, \<open>stepwise\<close> (a loop that an exception ends), \<open>stepwise_refinement\<close> (such a loop against a specification),
    \<open>state_machine\<close> (reachable states and invariants) and \<open>keyed_store\<close> (an object used as a dictionary).  Each is interpreted
    on the definitions of the components that provide it.
  \<^item> \<open>NGSI_Client\<close>, \<open>NGSI_LD_Client\<close>: \<open>designer/public/lib/ngsi/ngsiclient.js\<close>, \<open>.cjs\<close> and \<open>LDngsiclient.js\<close>, and their copies below
    \<open>application/template\<close>.  A method is a function of \<open>axios\<close>, which maps a request to the outcome of its promise.
  \<^item> \<open>NGSI_Agent\<close>: \<open>application/template/NGSI/javascript/ngsi/ngsiagent.js\<close> and its NGSI-LD variant, the HTTP front end of a task.
  \<^item> \<open>Fog_Template\<close>, \<open>Fog_Template_LD\<close>: \<open>application/template/NGSI/javascript/main.js\<close> and \<open>application/template/NGSILD/javascript/main.js\<close>,
    the runtimes of a fog function.  Module variables are records, the user's function is a parameter, and the requests sent
    are a field of the state.
  \<^item> \<open>Buffered_Runtime\<close>, \<open>Raw_Runtime\<close>, \<open>LD_Runtime\<close>: the other three runtimes that the programs below \<open>application/operator\<close> copy:
    \<open>controller/main.js\<close>, whose buffer holds updates with the index of an output, \<open>smartparking/connectedcar/main.js\<close> and
    \<open>nodejs/main.js\<close>, whose buffer holds bare updates, and \<open>LDanamaly/main.js\<close>, which has one output for NGSI-LD.
  \<^item> the operators, below \<open>application/operator\<close>: \<open>Window_Operators\<close> (\<open>counter\<close>, \<open>sum\<close>; the clock is an argument), \<open>Controller\<close>
    (\<open>controller\<close>), \<open>Anomaly\<close> (\<open>anomaly\<close>), \<open>Location_Operators\<close> (\<open>geohash\<close>, \<open>converter\<close>, \<open>predictor\<close>, \<open>detector\<close>), \<open>Smart_Parking\<close>
    (\<open>smartparking\<close>), \<open>Home_Gateway\<close> (\<open>homegateway\<close>), \<open>Adapters\<close> (\<open>IoTAgentJSON\<close>, \<open>NGSI-LD-Adapter\<close>, \<open>GeneralPurposeAdapter\<close>),
    \<open>Dummy_Operator\<close> (\<open>dummy\<close>), \<open>LD_Counters\<close> (\<open>LDcounter\<close>, \<open>Health_Alert_counter\<close>), \<open>LD_Operators\<close> (\<open>LDanamaly\<close>,
    \<open>NGSI-LD-operator/LDsmartparking\<close>) and \<open>LD_Alerts\<close> (\<open>NGSI-LD-operator/WaterPumpFog\<close>, \<open>alertForSpeedInNGSILD\<close>).
  \<^item> \<open>Power_Panel\<close>: the device \<open>application/device/powerpanel/powerpanel.js\<close>.
  \<^item> \<open>Broker_Entities\<close>, \<open>Operator_Link\<close>: of \<open>broker/thinBroker.go\<close>, \<open>broker/utils.go\<close> and \<open>common/ngsi/ngsi.go\<close> the stored entities,
    their updates and the notifications, and the link between them and the operators.
  \<^item> \<open>Rabbit\<close>: \<open>designer/rabbitmq.cjs\<close> as a step relation.  A suspended activation of an asynchronous function is a task; a step
    is what runs between two \<open>await\<close>s, a timer, an event of the connection, or a call of \<open>Publish\<close>.
  \<^item> \<open>Designer_Store\<close>: the state of \<open>designer/main.js\<close>: the database with the objects that several sections share in an explicit
    store (\<open>heap\<close>, references \<open>JRef\<close>), the file, the task map and the websocket clients.  \<open>Designer_API\<close>: one definition per route
    of \<open>designer/main.js\<close>; a handler ends with a response or suspends at an \<open>await\<close> with the continuation that \<open>resume\<close> runs.
    \<open>Designer_Ops\<close>, \<open>Designer_Intents\<close>, \<open>Designer_Restart\<close>: the theorems about operators and tasks, about intents and the
    messages to the master, and about services, fog functions, devices, subscriptions and the restart.
  \<^item> \<open>Image_Registry\<close>: the routes of \<open>designer/main.js\<close> for operators and docker images against a map from the names of
    operators to lists of images.  \<open>Operator_Page\<close>: the page \<open>designer/public/js/operator.js\<close> with the lists of
    \<open>initialization.js\<close>; the requests that it sends when it is opened are served in any order, as a step relation.
  \<^item> \<open>Function_Page\<close>: the list of fog functions of \<open>designer/public/js/function.js\<close> with its buttons, the routes behind them and
    what the master knows.
  \<^item> \<open>Board\<close>: \<open>designer/public/js/topology.js\<close>, \<open>function.js\<close> and \<open>operator.js\<close>: the translation of drawings and forms into the
    objects that are posted to the designer.  \<open>Geohash\<close>: \<open>designer/public/js/geohash.js\<close>.
  \<^item> \<open>Designer_Page\<close>: \<open>designer/public/lib/ngsi/ngsiproxy.js\<close>, the connection of a page to the designer, and
    \<open>designer/public/js/anomaly.js\<close>, the page of the anomaly detection as a machine of its events.  \<open>Page_Links\<close>: the page, the
    broker and the operators of the service together.
  \<^item> the other pages, below \<open>designer/public/js\<close>: \<open>Portal\<close> (\<open>index.js\<close>, with the routes of the designer for devices and
    subscriptions), \<open>Parking_Page\<close> (\<open>smartparking.js\<close>), \<open>Moving_Marker\<close> (\<open>MovingMarker.js\<close>, with the car of the parking page), \<open>Awning_Page\<close> (\<open>smartawning.js\<close>), \<open>Customer_Journey\<close>
    (\<open>customerjourney.js\<close>), \<open>Finder_Page\<close> (\<open>lostchild.js\<close>), \<open>City_Console\<close> (\<open>smarthome.js\<close>) and \<open>Orion_Page\<close> (\<open>orion.js\<close>).  Each is a record of the variables of
    the page and one definition per handler; what the pages share comes from \<open>Designer_Page\<close> and \<open>Operator_Link\<close>.
  \<^item> \<open>LD_Pages\<close>: the pages for NGSI-LD, \<open>LDanomaly.js\<close>, \<open>Heart_health.js\<close>, \<open>CropPrediction.js\<close>, \<open>ldlostchild.js\<close> and \<open>ldsmartparking.js\<close>,
    with the library \<open>LDngsiclient.js\<close> and the operators for NGSI-LD.
  \<^item> \<open>Benchmark\<close>: \<open>main.js\<close> below \<open>test/orchestration-test\<close> and \<open>test/migration-test\<close>.
  \<^item> this theory: what holds from the editor to the database.

  The contracts between components are locales: besides those of the prelude, \<open>window_publisher\<close> (what the count of windows
  needs of \<open>updateContext\<close>; interpreted on the three counters) and \<open>rule_detector\<close> (what a detector does with readings and
  rules; interpreted on both detectors).

  \<^bold>\<open>What is shown.\<close> The client libraries convert objects without loss and yield what the broker answers.  Notifications
  deliver the successful elements to the function, whose requests go to the configured broker with the correlator.  The
  counter counts every entity in one window, the sum adds the latest values, the detectors report exactly the readings
  above the rule in force (a refinement of \<open>detected\<close>), the geohash operator annotates what it received before and after
  its configuration exactly once, and the controller sends one command per prediction.  Car, recommender and broker of the
  smart parking come to rest under every order of their steps, with one request and one recommendation; an alarm reaches
  the speakers of the other homes only.  The geohash library is a round trip within the error it reports, covers the areas
  it lists, and its loops end on every input.  The RabbitMQ client calls its callback once, is never stuck, accounts for
  every message, drains its queue in order and can always recover.  The database survives a restart; operators in use are
  never deleted; the task map refines the sequence of worker reports; the master knows exactly the stored intents when
  requests are served one after the other.  Drawings become the tasks, streams and operators that they show.  From end to
  end: the panels' readings become anomalies, the windows of the counter the chart of the page, a threshold entered in the
  page the rule of the detector, and the buttons of the page the intents that designer and master know.  A car that the
  page shows in the rain becomes the order of the awning, the recommendation for a car reaches the page that displays it,
  a broadcast every home, and the children found in the stream the table of the page.  A device that is registered is
  listed until it is removed.  A moving car has one timer at most, and whatever the rate of the frames it is where a point
  on its path would be.  The images of the operators are a map of lists, and opening the page of the operators twice
  registers all defaults whatever the order of the requests.  The list of fog functions offers to disable exactly the
  functions whose intents the master knows.  The simulation of the customers stays within the
  numbers that the extreme occupancies give, and its charts have every point.  The labels of the grid are its positions. A
  page for NGSI-LD starts and stops its service any number of times, and its thresholds and charts are those of its
  operators.  A benchmark removes what it created, an interrupt ends it, and its statistics are those of the measured
  times.  Where the code does something other than it means to, the theorem states what it does: the overlapping deletion
  of an intent, the queued messages that share an object, the parking operators for NGSI-LD that never publish, the health
  alerts without a count, the subscriptions that a reconnection forgets, the device that inherits the picture of the one
  before it, the simulation that does not end when the time per shop is zero, the timer of a car that reports for ever
  once the page has left it, the deleted result that breaks the table of found children, the page of the smart parking for
  NGSI-LD that publishes neither car nor sites, the marker that never leaves a loop of lines without duration, the default
  images that come before their operators and are lost, the intent of a function that is submitted again, which the master
  keeps for ever, and others.

  \<^bold>\<open>Bounds.\<close> Numbers are integers, except in \<open>Geohash\<close>, \<open>Customer_Journey\<close>, \<open>Awning_Page\<close>, \<open>Moving_Marker\<close> and \<open>Benchmark\<close>, where they are
  rationals.  In \<open>Geohash\<close> these agree with the floating point numbers of the code for hashes of at most 18 characters or
  52 bits, since every bound is a dyadic fraction of the range; in the others the rounding of averages, coordinates
  and times is not modelled.  Strings are lists of characters.  \<open>json\<close>, the serialisation, follows at most \<open>Suc (Suc
  (length h))\<close> references on a path through the store \<open>h\<close>; fog functions refer to topologies and intents, topologies to
  operators, and operators and intents to nothing, so that no path is longer.  \<open>restart_preserves_database\<close> rests on no
  assumption about it.  The loop of \<open>encode\<close> is a partial function, which \<open>encode_ends\<close> shows to end on every input; so is
  \<open>visits\<close>, the loop of the simulated customers, which \<open>simulation_bounds\<close> shows to end when the time spent in a shop is
  positive and \<open>simulation_hangs\<close> not to end otherwise; and \<open>line_loop\<close>, the loop of the marker over its lines, which
  \<open>marker_follows_path\<close> shows to end for paths that take time and \<open>zero_durations_hang\<close> not to end when all durations are
  zero.  All other functions are total, by structural recursion or by a measure.

  \<^bold>\<open>Not modelled.\<close> The other services in Go (discovery, master, worker, and of the broker the subscriptions and the
  forwarding) and the programs in Python; Express, axios, amqplib, socket.io and the DOM, which are parameters or the
  boundary of the model; the rendering of pages, charts and maps; vendored libraries; \<open>designer/dgraph.js\<close>, which
  nothing loads.  Names are taken to be free of characters that URLs reserve.  Next are the examples of \<open>initialization.js\<close>, the registration of the blocks of the editors, and the connection of the benchmarks to
  RabbitMQ.
\<close>

section \<open>From the editor to the designer\<close>

text \<open>The operators that the task blocks of a drawing name.\<close>

fun block_operators :: "drawn_block \<Rightarrow> string list" where
  "block_operators (TaskBlock i n op outs) = [op]"
| "block_operators b = []"

lemma task_operators_append:
  "task_operators xs = Some ms \<Longrightarrow> task_operators ys = Some ns \<Longrightarrow> task_operators (xs @ ys) = Some (ms @ ns)"
  by (induction xs arbitrary: ms) (auto split: option.splits jval.splits)

lemma task_operators_drawn:
  "task_operators (map (json_at k h) (concat (map (drawn_task bs es) cs))) = Some (concat (map block_operators cs))"
proof (induction cs)
  case (Cons b cs)
  have "task_operators (map (json_at k h) (drawn_task bs es b)) = Some (block_operators b)"
    by (cases b) (simp_all add: drawn_task_def js_access)
  from task_operators_append [OF this Cons.IH] show ?case by simp
qed simp

lemma drawn_tasks_objects: "\<forall>x \<in> set (drawn_task bs es b). \<not> is_omitted x"
  by (cases b) (simp_all add: drawn_task_def)

text \<open>
  Claim C20. From the editor to the store: the body that the editor builds from a drawing is accepted by the
  designer with status 200. From then on every registered operator that a task block of the drawing names stays registered, whatever
  requests arrive, to whatever routes, and in whatever order the handlers that wait for the file or for a broker go on, as long as
  no request deletes the topology or stores another one under its name. (Deleting the service ends the protection, by
  \<open>deleted_service_frees_operator\<close>.)
\<close>

theorem drawn_topology_protects_its_operators:
  assumes "drawing_ok bs es" and "boardScene2Topology uid n descr (scene_json bs es) = Some body" and "n \<noteq> ''__proto__''"
  shows "\<exists>t. complete axios u (post_service (json [] body) s) = (t, Status 200) \<and>
     (\<forall>op evs. op \<in> set (concat (map block_operators bs)) \<and> map_of (operators s) op \<noteq> None \<and>
        list_all (\<lambda>e. event_ok e \<and> \<not> names_topology n e) evs \<longrightarrow>
        map_of (operators (api_run axios u evs t)) op \<noteq> None)"
proof -
  let ?j = "json_at (Suc (Suc 0)) []"
  let ?ts = "concat (map (drawn_task bs es) bs)"
  let ?rest = "if uid = [] then [] else [(''uid'', JStr uid)]"
  let ?tp = "[(''name'', JStr n), (''description'', JStr descr), (''tasks'', JArr (map ?j ?ts))] @ ?rest"
  let ?a = "length (heap s)"
  have body: "body = JArr [JObj [(''topology'', JObj ([(''name'', JStr n), (''description'', JStr descr), (''tasks'', JArr ?ts)] @ ?rest)),
      (''designboard'', scene_json bs es)]]"
    using assms(2) by (simp add: boardScene2Topology_def generated_tasks [OF assms(1)])
  have js: "json [] body = JArr [JObj [(''topology'', JObj ?tp), (''designboard'', ?j (scene_json bs es))]]"
    using drawn_tasks_objects by (auto simp: body json_def scene_json_def)
  let ?t = "db_write (s\<lparr>heap := heap s @ [?tp], services := obj_put n (JObj [(''topology'', JRef ?a), (''designboard'', ?j (scene_json bs es))]) (services s),
      topologies := obj_put n (JRef ?a) (topologies s)\<rparr>)"
  have t: "complete axios u (post_service (json [] body) s) = (?t, Status 200)"
    by (simp add: js post_service_def over_body_def add_service_def alloc_service_def write_then_def complete_def resume_def js_access Let_def)
  have "map_of (topologies ?t) n = Some (JRef ?a)" using assms(3) by (simp add: map_of_obj_put)
  moreover have "topology_operators (heap ?t) (JRef ?a) = Some (concat (map block_operators bs))"
    using task_operators_drawn [of "Suc (Suc 0)" "[]" bs es bs] by (simp add: topology_operators_def cell_def js_access)
  ultimately have "protected n op ?t" if "op \<in> set (concat (map block_operators bs))" "map_of (operators s) op \<noteq> None" for op
    using that by (simp add: protected_def)
  then have "map_of (operators (api_run axios u evs ?t)) op \<noteq> None"
    if "op \<in> set (concat (map block_operators bs))" "map_of (operators s) op \<noteq> None" "list_all (\<lambda>e. event_ok e \<and> \<not> names_topology n e) evs" for op evs
    using api_run_protects [of n op ?t evs axios u] that unfolding protected_def by blast
  with t show ?thesis by blast
qed

theorem drawn_topology_protects_its_operators_witness:
  "\<exists>t body. boardScene2Topology [] ''T'' [] (scene_json sample_blocks sample_edges) = Some body \<and>
     complete (\<lambda>rq. Inl JNull) [] (post_service (json [] body) (sample_designer\<lparr>operators := [(''anomaly'', JRef 1)]\<rparr>)) = (t, Status 200) \<and>
     map_of (operators (api_run (\<lambda>rq. Inl JNull) [] [Arrives (DELETE_operator ''anomaly''), Arrives (DELETE_service ''U''), Resumes (Reply 200),
       Arrives (DELETE_operator ''anomaly'')] t)) ''anomaly'' \<noteq> None"
proof -
  have ok: "drawing_ok sample_blocks sample_edges"
    by (simp add: drawing_ok_def block_at_def sample_blocks_def sample_edges_def)
  then obtain body where body: "boardScene2Topology [] ''T'' [] (scene_json sample_blocks sample_edges) = Some body"
    by (simp add: boardScene2Topology_def generated_tasks)
  show ?thesis
    using drawn_topology_protects_its_operators [OF ok body, of "\<lambda>rq. Inl JNull" "[]" "sample_designer\<lparr>operators := [(''anomaly'', JRef 1)]\<rparr>"] body
    by (force simp: sample_blocks_def)
qed

end
